(* ===== verification/Prelude.thy ===== *)
theory Prelude
  imports Main "HOL-Library.AList" "HOL-Library.Word" "HOL-Library.Sublist"
begin

text \<open>
  Shared vocabulary of the development.

  \<^item> results: \<open>io_error\<close> mirrors the part of \<open>std::io::Error\<close> the agent inspects (its kind), \<open>'a res\<close> is
    \<open>io::Result\<close>, and \<open>('s, 'a) op\<close> is a fallible operation on an explicit state.  A failing operation
    still returns a state, because whatever it wrote before it failed stays written;
  \<^item> files: \<open>'a disk_file\<close> is what one JSON file looks like to its reader (absent, present but unreadable,
    present and readable), \<open>'a dir\<close> a directory of such files keyed by file stem, in the order in which
    the directory is enumerated;
  \<^item> \<open>write_outcome\<close> is what one atomic file replacement can do; theory \<open>AtomicFile\<close> shows that the
    temporary-file routine of the agent does nothing else;
  \<^item> the Rust library functions the modelled code calls (positions, insertion, string tests, decimal
    formatting, saturating increment), with the laws the component proofs share.
\<close>

named_theorems op_simps \<open>unfolding of the operation combinators\<close>
named_theorems triple_intros \<open>introduction rules for triples over operations\<close>
named_theorems keeps_intros \<open>rules that an operation keeps an invariant\<close>

subsection \<open>Errors, results and operations\<close>

datatype io_kind = NotFound | AlreadyExists | InvalidData | InvalidInput | PermissionDenied | OtherKind

datatype io_error = IoError io_kind string

type_synonym 'a res = "io_error + 'a"
type_synonym ('s, 'a) op = "'s \<Rightarrow> 'a res \<times> 's"

fun error_kind :: "io_error \<Rightarrow> io_kind" where
  "error_kind (IoError k _) = k"

fun is_ok :: "'a res \<Rightarrow> bool" where
  "is_ok (Inl _) = False"
| "is_ok (Inr _) = True"

definition return_op :: "'a \<Rightarrow> ('s, 'a) op" where
  "return_op a s = (Inr a, s)"

definition fail_op :: "io_error \<Rightarrow> ('s, 'a) op" where
  "fail_op e s = (Inl e, s)"

definition bind_op :: "('s, 'a) op \<Rightarrow> ('a \<Rightarrow> ('s, 'b) op) \<Rightarrow> ('s, 'b) op" where
  "bind_op m f s = (case m s of (Inl e, s') \<Rightarrow> (Inl e, s') | (Inr a, s') \<Rightarrow> f a s')"

definition lift_res :: "'a res \<Rightarrow> ('s, 'a) op" where
  "lift_res r s = (r, s)"

definition triple :: "('s \<Rightarrow> bool) \<Rightarrow> ('s, 'a) op \<Rightarrow> ('a \<Rightarrow> 's \<Rightarrow> bool) \<Rightarrow> ('s \<Rightarrow> bool) \<Rightarrow> bool" where
  "triple P m Q E \<longleftrightarrow> (\<forall>s. P s \<longrightarrow> (case m s of (Inl _, s') \<Rightarrow> E s' | (Inr a, s') \<Rightarrow> Q a s'))"

abbreviation keeps :: "('s \<Rightarrow> bool) \<Rightarrow> ('s, 'a) op \<Rightarrow> bool" where
  "keeps I m \<equiv> triple I m (\<lambda>_. I) I"

subsection \<open>Files and directories\<close>

datatype 'a disk_file = Missing | Corrupt | Present 'a

type_synonym 'a dir = "(string \<times> 'a option) list"

definition dir_get :: "'a dir \<Rightarrow> string \<Rightarrow> 'a disk_file" where
  "dir_get d k = (case map_of d k of
      None \<Rightarrow> Missing
    | Some None \<Rightarrow> Corrupt
    | Some (Some a) \<Rightarrow> Present a)"

definition dir_put :: "string \<Rightarrow> 'a \<Rightarrow> 'a dir \<Rightarrow> 'a dir" where
  "dir_put k a d = AList.update k (Some a) d"

definition dir_del :: "string \<Rightarrow> 'a dir \<Rightarrow> 'a dir" where
  "dir_del k d = AList.delete k d"

definition file_exists :: "'a disk_file \<Rightarrow> bool" where
  "file_exists f = (case f of Missing \<Rightarrow> False | Corrupt \<Rightarrow> True | Present _ \<Rightarrow> True)"

text \<open>Saturating subtraction of 64-bit integers.\<close>

definition saturating_sub_i64 :: "int \<Rightarrow> int \<Rightarrow> int" where
  "saturating_sub_i64 a b = max (- (2 ^ 63)) (min (2 ^ 63 - 1) (a - b))"

text \<open>The least time between two polls of a setting the gateway grants.\<close>

definition WORK_FETCH_MIN_INTERVAL_MS :: int where "WORK_FETCH_MIN_INTERVAL_MS = 30000"

datatype write_outcome = Done | FailedBefore io_kind | FailedAfter io_kind

fun write_op :: "write_outcome \<Rightarrow> ('s \<Rightarrow> 's) \<Rightarrow> ('s, unit) op" where
  "write_op Done f s = (Inr (), f s)"
| "write_op (FailedBefore k) f s = (Inl (IoError k ''write''), s)"
| "write_op (FailedAfter k) f s = (Inl (IoError k ''sync''), f s)"

subsection \<open>Library functions used by the agent\<close>

primrec position :: "('a \<Rightarrow> bool) \<Rightarrow> 'a list \<Rightarrow> nat option" where
  "position P [] = None"
| "position P (x # xs) = (if P x then Some 0 else map_option Suc (position P xs))"

definition vec_insert :: "nat \<Rightarrow> 'a \<Rightarrow> 'a list \<Rightarrow> 'a list" where
  "vec_insert i x xs = take i xs @ x # drop i xs"

definition unwrap_or :: "'a \<Rightarrow> 'a option \<Rightarrow> 'a" where
  "unwrap_or d m = (case m of None \<Rightarrow> d | Some x \<Rightarrow> x)"

definition or_else :: "'a option \<Rightarrow> 'a option \<Rightarrow> 'a option" where
  "or_else m n = (case m of None \<Rightarrow> n | Some x \<Rightarrow> Some x)"

definition sat_inc :: "32 word \<Rightarrow> 32 word" where
  "sat_inc a = (if a = - 1 then a else a + 1)"

definition digit :: "nat \<Rightarrow> char" where
  "digit d = char_of (48 + d)"

fun show_nat :: "nat \<Rightarrow> string" where
  "show_nat n = (if n < 10 then [digit n] else show_nat (n div 10) @ [digit (n mod 10)])"

declare show_nat.simps [simp del]

definition starts_with :: "string \<Rightarrow> string \<Rightarrow> bool" where
  "starts_with p s = prefix p s"

definition ends_with :: "string \<Rightarrow> string \<Rightarrow> bool" where
  "ends_with e s = suffix e s"

definition contains_str :: "string \<Rightarrow> string \<Rightarrow> bool" where
  "contains_str needle s = list_ex (prefix needle) (suffixes s)"

fun rsplit_once :: "string \<Rightarrow> string \<Rightarrow> (string \<times> string) option" where
  "rsplit_once pat [] = None"
| "rsplit_once pat (c # cs) = (case rsplit_once pat cs of
      Some (a, b) \<Rightarrow> Some (c # a, b)
    | None \<Rightarrow> (if prefix pat (c # cs) then Some ([], drop (length pat) (c # cs)) else None))"

fun split_on :: "('a \<Rightarrow> bool) \<Rightarrow> 'a list \<Rightarrow> 'a list list" where
  "split_on P [] = [[]]"
| "split_on P (x # xs) =
    (if P x then [] # split_on P xs
     else (case split_on P xs of [] \<Rightarrow> [[x]] | w # ws \<Rightarrow> (x # w) # ws))"

text \<open>White space within ASCII; the strings the agent splits come from \<open>/proc\<close>, which has no other.\<close>

definition is_whitespace :: "char \<Rightarrow> bool" where
  "is_whitespace c \<longleftrightarrow> c \<in> {CHR '' '', CHR 0x09, CHR 0x0A, CHR 0x0B, CHR 0x0C, CHR 0x0D}"

definition split_whitespace :: "string \<Rightarrow> string list" where
  "split_whitespace s = filter (\<lambda>w. w \<noteq> []) (split_on is_whitespace s)"

text \<open>The UTF-8 encodings of the white space characters that \<open>str::trim\<close> strips.\<close>

definition space_sequences :: "string list" where
  "space_sequences =
    [[CHR 0x09], [CHR 0x0A], [CHR 0x0B], [CHR 0x0C], [CHR 0x0D], [CHR 0x20], [CHR 0xC2, CHR 0x85], [CHR 0xC2, CHR 0xA0],
     [CHR 0xE1, CHR 0x9A, CHR 0x80], [CHR 0xE2, CHR 0x80, CHR 0x80], [CHR 0xE2, CHR 0x80, CHR 0x81],
     [CHR 0xE2, CHR 0x80, CHR 0x82], [CHR 0xE2, CHR 0x80, CHR 0x83], [CHR 0xE2, CHR 0x80, CHR 0x84],
     [CHR 0xE2, CHR 0x80, CHR 0x85], [CHR 0xE2, CHR 0x80, CHR 0x86], [CHR 0xE2, CHR 0x80, CHR 0x87],
     [CHR 0xE2, CHR 0x80, CHR 0x88], [CHR 0xE2, CHR 0x80, CHR 0x89], [CHR 0xE2, CHR 0x80, CHR 0x8A],
     [CHR 0xE2, CHR 0x80, CHR 0xA8], [CHR 0xE2, CHR 0x80, CHR 0xA9], [CHR 0xE2, CHR 0x80, CHR 0xAF],
     [CHR 0xE2, CHR 0x81, CHR 0x9F], [CHR 0xE3, CHR 0x80, CHR 0x80]]"

fun trim_fuel :: "string list \<Rightarrow> nat \<Rightarrow> string \<Rightarrow> string" where
  "trim_fuel ws 0 s = s"
| "trim_fuel ws (Suc n) s = (case find (\<lambda>w. prefix w s) ws of
      None \<Rightarrow> s
    | Some w \<Rightarrow> trim_fuel ws n (drop (length w) s))"

definition trim_start :: "string \<Rightarrow> string" where
  "trim_start s = trim_fuel space_sequences (length s) s"

definition trim_end :: "string \<Rightarrow> string" where
  "trim_end s = rev (trim_fuel (map rev space_sequences) (length s) (rev s))"

definition trim :: "string \<Rightarrow> string" where
  "trim s = trim_end (trim_start s)"

definition nth_opt :: "nat \<Rightarrow> 'a list \<Rightarrow> 'a option" where
  "nth_opt n xs = (if n < length xs then Some (xs ! n) else None)"

subsection \<open>Laws of the combinators\<close>

lemmas [op_simps] = return_op_def fail_op_def lift_res_def bind_op_def

lemma bind_return [simp]: "bind_op (return_op a) f = f a"
  by (simp add: bind_op_def return_op_def fun_eq_iff)

lemma bind_fail [simp]: "bind_op (fail_op e) f = fail_op e"
  by (simp add: bind_op_def fail_op_def fun_eq_iff)

lemma return_bind [simp]: "bind_op m return_op = m"
  by (auto simp: bind_op_def return_op_def fun_eq_iff split: prod.splits sum.splits)

lemma bind_op_ok: "bind_op m f s = (Inr b, s') \<longleftrightarrow> (\<exists>a t. m s = (Inr a, t) \<and> f a t = (Inr b, s'))"
  by (auto simp: bind_op_def split: prod.splits sum.splits)

lemma bind_op_err: "bind_op m f s = (Inl e, s') \<longleftrightarrow>
    m s = (Inl e, s') \<or> (\<exists>a t. m s = (Inr a, t) \<and> f a t = (Inl e, s'))"
  by (auto simp: bind_op_def split: prod.splits sum.splits)

lemma return_op_iff [simp]: "return_op a s = (r, s') \<longleftrightarrow> r = Inr a \<and> s' = s"
  by (auto simp: return_op_def)

lemma fail_op_iff [simp]: "fail_op e s = (r, s') \<longleftrightarrow> r = Inl e \<and> s' = s"
  by (auto simp: fail_op_def)

lemma bind_assoc: "bind_op (bind_op m f) g = bind_op m (\<lambda>a. bind_op (f a) g)"
  by (auto simp: bind_op_def fun_eq_iff split: prod.splits sum.splits)

lemma tripleI:
  assumes "\<And>s a s'. P s \<Longrightarrow> m s = (Inr a, s') \<Longrightarrow> Q a s'"
    and "\<And>s e s'. P s \<Longrightarrow> m s = (Inl e, s') \<Longrightarrow> E s'"
  shows "triple P m Q E"
  using assms unfolding triple_def by (auto split: prod.splits sum.splits)

lemma triple_okD: "triple P m Q E \<Longrightarrow> P s \<Longrightarrow> m s = (Inr a, s') \<Longrightarrow> Q a s'"
  unfolding triple_def by force

lemma triple_errD: "triple P m Q E \<Longrightarrow> P s \<Longrightarrow> m s = (Inl e, s') \<Longrightarrow> E s'"
  unfolding triple_def by force

lemma keepsD: "keeps I m \<Longrightarrow> I s \<Longrightarrow> I (snd (m s))"
  by (cases "m s"; cases "fst (m s)") (auto simp: triple_def dest!: spec[of _ s])

lemma keepsI: "(\<And>s. I s \<Longrightarrow> I (snd (m s))) \<Longrightarrow> keeps I m"
  unfolding triple_def by (fastforce split: prod.splits sum.splits)

lemma triple_bind [triple_intros]:
  "triple P m R E \<Longrightarrow> (\<And>a. triple (R a) (f a) Q E) \<Longrightarrow> triple P (bind_op m f) Q E"
  unfolding triple_def bind_op_def by (fastforce split: prod.splits sum.splits)

lemma triple_return [triple_intros]: "(\<And>s. P s \<Longrightarrow> Q a s) \<Longrightarrow> triple P (return_op a) Q E"
  by (simp add: triple_def return_op_def)

lemma triple_fail [triple_intros]: "(\<And>s. P s \<Longrightarrow> E s) \<Longrightarrow> triple P (fail_op e) Q E"
  by (simp add: triple_def fail_op_def)

lemma triple_write [triple_intros]:
  "(\<And>s. P s \<Longrightarrow> Q () (f s)) \<Longrightarrow> (\<And>s. P s \<Longrightarrow> E s) \<Longrightarrow> (\<And>s. P s \<Longrightarrow> E (f s)) \<Longrightarrow>
   triple P (write_op w f) Q E"
  by (cases w) (simp_all add: triple_def)

lemma keeps_bind [keeps_intros]: "keeps I m \<Longrightarrow> (\<And>a. keeps I (f a)) \<Longrightarrow> keeps I (bind_op m f)"
  by (rule triple_bind)

lemma keeps_return [keeps_intros]: "keeps I (return_op a)"
  by (simp add: triple_return)

lemma keeps_fail [keeps_intros]: "keeps I (fail_op e)"
  by (simp add: triple_fail)

lemma keeps_lift [keeps_intros]: "keeps I (lift_res r)"
  by (simp add: triple_def lift_res_def split: sum.splits)

lemma keeps_write: "(\<And>s. I s \<Longrightarrow> I (f s)) \<Longrightarrow> keeps I (write_op w f)"
  by (simp add: triple_write)

lemma keeps_if [keeps_intros]:
  "(b \<Longrightarrow> keeps I m) \<Longrightarrow> (\<not> b \<Longrightarrow> keeps I n) \<Longrightarrow> keeps I (if b then m else n)"
  by simp

lemma keeps_case_option [keeps_intros]:
  "(x = None \<Longrightarrow> keeps I m) \<Longrightarrow> (\<And>a. x = Some a \<Longrightarrow> keeps I (f a)) \<Longrightarrow>
   keeps I (case x of None \<Rightarrow> m | Some a \<Rightarrow> f a)"
  by (cases x) auto

lemma keeps_case_sum [keeps_intros]:
  "(\<And>a. x = Inl a \<Longrightarrow> keeps I (f a)) \<Longrightarrow> (\<And>a. x = Inr a \<Longrightarrow> keeps I (g a)) \<Longrightarrow>
   keeps I (case x of Inl a \<Rightarrow> f a | Inr a \<Rightarrow> g a)"
  by (cases x) auto

lemma keeps_catch:
  assumes "keeps I m" "\<And>e. keeps I (f e)" "\<And>a. keeps I (g a)"
  shows "keeps I (\<lambda>t. case m t of (Inl e, s') \<Rightarrow> f e s' | (Inr a, s') \<Rightarrow> g a s')"
proof (rule keepsI)
  fix t assume "I t"
  from keepsD[OF assms(1) this] show "I (snd (case m t of (Inl e, s') \<Rightarrow> f e s' | (Inr a, s') \<Rightarrow> g a s'))"
    using keepsD[OF assms(2)] keepsD[OF assms(3)] by (cases "m t"; cases "fst (m t)") auto
qed

lemma keeps_state: "(\<And>t. keeps I (f t)) \<Longrightarrow> keeps I (\<lambda>t. f t t)"
  by (rule keepsI) (rule keepsD)

lemma write_op_cases:
  obtains "write_op w f s = (Inr (), f s)"
  | k where "write_op w f s = (Inl (IoError k ''write''), s)"
  | k where "write_op w f s = (Inl (IoError k ''sync''), f s)"
  by (cases w) auto

lemma write_op_ok: "write_op w f s = (Inr u, s') \<Longrightarrow> s' = f s"
  by (cases w) auto

subsection \<open>Directories satisfy the laws of a keyed store\<close>

text \<open>The interface the components rely on when they put, read and remove per-execution files.\<close>

locale keyed_store =
  fixes get :: "'d \<Rightarrow> string \<Rightarrow> 'a disk_file"
    and put :: "string \<Rightarrow> 'a \<Rightarrow> 'd \<Rightarrow> 'd"
    and del :: "string \<Rightarrow> 'd \<Rightarrow> 'd"
  assumes get_put: "get (put k a d) j = (if j = k then Present a else get d j)"
    and get_del: "get (del k d) j = (if j = k then Missing else get d j)"
begin

lemma get_put_same: "get (put k a d) k = Present a"
  by (simp add: get_put)

lemma get_del_same: "get (del k d) k = Missing"
  by (simp add: get_del)

lemma get_put_other: "j \<noteq> k \<Longrightarrow> get (put k a d) j = get d j"
  by (simp add: get_put)

lemma get_del_other: "j \<noteq> k \<Longrightarrow> get (del k d) j = get d j"
  by (simp add: get_del)

lemma get_put_put: "get (put k b (put k a d)) j = get (put k b d) j"
  by (simp add: get_put)

lemma get_del_put: "get (del k (put k a d)) j = get (del k d) j"
  by (simp add: get_put get_del)

end

interpretation dirs: keyed_store dir_get dir_put dir_del
  by unfold_locales
    (auto simp: dir_get_def dir_put_def dir_del_def update_conv' delete_conv split: option.splits)

lemmas dir_laws = dirs.get_put dirs.get_del

lemma dir_get_Nil [simp]: "dir_get [] k = Missing"
  by (simp add: dir_get_def)

lemma dir_get_Missing_iff: "dir_get d k = Missing \<longleftrightarrow> k \<notin> fst ` set d"
proof -
  have "dir_get d k = Missing \<longleftrightarrow> map_of d k = None" by (simp add: dir_get_def split: option.splits)
  then show ?thesis by (simp add: map_of_eq_None_iff)
qed

lemma dir_put_keys: "fst ` set (dir_put k a d) = insert k (fst ` set d)"
  unfolding dir_put_def by (simp add: dom_update flip: dom_map_of_conv_image_fst) (auto simp: update_conv')

lemma dir_del_keys: "fst ` set (dir_del k d) = fst ` set d - {k}"
  unfolding dir_del_def by (auto simp: AList.delete_eq)

lemma distinct_dir_put: "distinct (map fst d) \<Longrightarrow> distinct (map fst (dir_put k a d))"
  unfolding dir_put_def by (rule distinct_update)

lemma distinct_dir_del: "distinct (map fst d) \<Longrightarrow> distinct (map fst (dir_del k d))"
  unfolding dir_del_def by (rule distinct_delete)

lemma file_exists_simps [simp]:
  "\<not> file_exists Missing" "file_exists Corrupt" "file_exists (Present a)"
  by (simp_all add: file_exists_def)

lemma file_exists_iff: "file_exists f \<longleftrightarrow> f \<noteq> Missing"
  by (cases f) simp_all

subsection \<open>Laws of the library functions\<close>

lemma position_None: "position P xs = None \<longleftrightarrow> (\<forall>x\<in>set xs. \<not> P x)"
  by (induction xs) auto

lemma position_Some:
  "position P xs = Some i \<Longrightarrow> i < length xs \<and> P (xs ! i) \<and> (\<forall>x\<in>set (take i xs). \<not> P x)"
  by (induction xs arbitrary: i) (auto split: if_splits)

lemma set_vec_insert [simp]: "set (vec_insert i x xs) = insert x (set xs)"
  unfolding vec_insert_def using set_append[of "take i xs" "drop i xs"] by auto

lemma length_vec_insert [simp]: "length (vec_insert i x xs) = Suc (length xs)"
  unfolding vec_insert_def by simp

lemma unwrap_or_simps [simp]: "unwrap_or d None = d" "unwrap_or d (Some x) = x"
  by (simp_all add: unwrap_or_def)

lemma or_else_simps [simp]: "or_else None n = n" "or_else (Some x) n = Some x"
  by (simp_all add: or_else_def)

lemma sat_inc_mono: "a \<le> sat_inc a"
proof (cases "a = - 1")
  case False
  then have "1 + a \<noteq> 0" using max_word_wrap[of a] by (auto simp: add.commute)
  from unatSuc[OF this] show ?thesis by (simp add: sat_inc_def word_le_nat_alt add.commute)
qed (simp add: sat_inc_def)

lemma rsplit_once_None: "\<not> (\<exists>a b. s = a @ pat @ b) \<Longrightarrow> rsplit_once pat s = None"
proof (induction s)
  case (Cons c cs)
  have "\<not> (\<exists>a b. cs = a @ pat @ b)" "\<not> prefix pat (c # cs)"
    using Cons.prems by (metis append_Cons, metis append_Nil prefixE)
  with Cons.IH show ?case by simp
qed simp

lemma rsplit_once_append:
  "rsplit_once pat t = Some (a, b) \<Longrightarrow> rsplit_once pat (s @ t) = Some (s @ a, b)"
  by (induction s) simp_all

lemma split_on_nonempty [simp]: "split_on P xs \<noteq> []"
  by (induction xs) (auto split: list.splits)

lemma split_on_append_sep: "P x \<Longrightarrow> split_on P (xs @ x # ys) = split_on P xs @ split_on P ys"
proof (induction xs)
  case (Cons z zs) then show ?case by (cases "split_on P zs") auto
qed simp

lemma split_on_no_sep: "\<forall>x\<in>set xs. \<not> P x \<Longrightarrow> split_on P xs = [xs]"
  by (induction xs) auto

lemma split_on_parts_no_sep: "\<forall>w\<in>set (split_on P xs). \<forall>x\<in>set w. \<not> P x"
proof (induction xs)
  case (Cons z zs) then show ?case by (cases "split_on P zs") auto
qed simp

lemma nth_opt_simps [simp]:
  "nth_opt n [] = None" "nth_opt 0 (x # xs) = Some x" "nth_opt (Suc n) (x # xs) = nth_opt n xs"
  by (simp_all add: nth_opt_def)

lemma show_nat_nonempty [simp]: "show_nat n \<noteq> []"
  by (subst show_nat.simps) simp

lemma digit_eq_iff: "m < 10 \<Longrightarrow> n < 10 \<Longrightarrow> digit m = digit n \<longleftrightarrow> m = n"
proof
  assume "m < 10" "n < 10" "digit m = digit n"
  then have "of_char (char_of (48 + m) :: char) = (of_char (char_of (48 + n) :: char) :: nat)" by (simp add: digit_def)
  then show "m = n" using \<open>m < 10\<close> \<open>n < 10\<close> by simp
qed simp

lemma show_nat_inj [simp]: "show_nat m = show_nat n \<longleftrightarrow> m = n"
proof
  assume "show_nat m = show_nat n"
  then show "m = n"
  proof (induction m arbitrary: n rule: show_nat.induct)
    case (1 m)
    have m: "show_nat m = (if m < 10 then [digit m] else show_nat (m div 10) @ [digit (m mod 10)])"
      and n: "show_nat n = (if n < 10 then [digit n] else show_nat (n div 10) @ [digit (n mod 10)])"
      by (subst show_nat.simps, rule refl)+
    show ?case
    proof (cases "m < 10")
      case True
      then have "n < 10" using "1.prems" m n show_nat_nonempty[of "n div 10", symmetric] by (auto split: if_splits)
      then show ?thesis using "1.prems" m n True by (simp add: digit_eq_iff)
    next
      case False
      then have "\<not> n < 10" using "1.prems" m n show_nat_nonempty[of "m div 10"] by (auto split: if_splits)
      then have "show_nat (m div 10) = show_nat (n div 10)" "digit (m mod 10) = digit (n mod 10)"
        using "1.prems" m n False by auto
      then have "m div 10 = n div 10" "m mod 10 = n mod 10"
        using "1.IH"[OF False] by (simp_all add: digit_eq_iff)
      then show ?thesis by (metis div_mult_mod_eq)
    qed
  qed
qed simp

lemma find_filter_other: "(\<And>e. Q e \<Longrightarrow> P e) \<Longrightarrow> find Q (filter P xs) = find Q xs"
  by (induction xs) auto

end
