(* ===== verification/ExecQueue.thy ===== *)
theory ExecQueue
  imports Prelude "HOL-Library.Multiset"
begin

text \<open>
  The execution queue (\<open>src/state_store/execution_queue.rs\<close>): its item and state records, the item
  builder, \<open>enqueue\<close>, \<open>remove\<close> and the load function.  The abstract queue is the list of waiting items
  in arrival order; the lemmas show that the code's queue is the stable sort of that list by priority,
  so lower priorities run first and equal priorities run in arrival order, whatever the history of
  insertions and removals.
\<close>

subsection \<open>Model\<close>

record exec_queue_item =
  qi_execution_id :: string
  qi_action_id :: string
  qi_plan_digest :: string
  qi_request_id :: string
  qi_priority :: "32 word"
  qi_queued_at :: string
  qi_deadline_at :: "string option"
  qi_cancelable :: bool
  qi_risk_level :: "string option"

record exec_queue =
  eq_updated_at :: string
  eq_items :: "exec_queue_item list"

definition queue_new :: "string \<Rightarrow> exec_queue" where
  "queue_new now = \<lparr>eq_updated_at = now, eq_items = []\<rparr>"

definition item_builder ::
    "string \<Rightarrow> string \<Rightarrow> string \<Rightarrow> string \<Rightarrow> string \<Rightarrow> exec_queue_item" where
  "item_builder execution_id action_id plan_digest request_id queued_at =
    \<lparr>qi_execution_id = execution_id, qi_action_id = action_id, qi_plan_digest = plan_digest,
     qi_request_id = request_id, qi_priority = 100, qi_queued_at = queued_at,
     qi_deadline_at = None, qi_cancelable = True, qi_risk_level = None\<rparr>"

definition enqueue :: "string \<Rightarrow> exec_queue_item \<Rightarrow> exec_queue \<Rightarrow> exec_queue" where
  "enqueue now item q =
    (let insert_at = unwrap_or (length (eq_items q))
           (position (\<lambda>entry. qi_priority item < qi_priority entry) (eq_items q))
     in q\<lparr>eq_items := vec_insert insert_at item (eq_items q), eq_updated_at := now\<rparr>)"

definition queue_remove :: "string \<Rightarrow> string \<Rightarrow> exec_queue \<Rightarrow> exec_queue" where
  "queue_remove now execution_id q =
    q\<lparr>eq_items := filter (\<lambda>item. qi_execution_id item \<noteq> execution_id) (eq_items q),
      eq_updated_at := now\<rparr>"

definition queue_load_or_default :: "string \<Rightarrow> exec_queue disk_file \<Rightarrow> exec_queue res" where
  "queue_load_or_default now f = (case f of
      Missing \<Rightarrow> Inr (queue_new now)
    | Corrupt \<Rightarrow> Inl (IoError OtherKind ''json'')
    | Present q \<Rightarrow> Inr q)"

text \<open>A history of the queue: insertions and removals, each at its own time.\<close>

datatype queue_event = Enqueued string exec_queue_item | Removed string string

fun queue_event_step :: "queue_event \<Rightarrow> exec_queue \<Rightarrow> exec_queue" where
  "queue_event_step (Enqueued now item) q = enqueue now item q"
| "queue_event_step (Removed now execution_id) q = queue_remove now execution_id q"

definition queue_run :: "queue_event list \<Rightarrow> exec_queue \<Rightarrow> exec_queue" where
  "queue_run es q = fold queue_event_step es q"

text \<open>The abstract queue: the waiting items in arrival order.\<close>

fun arrival_step :: "queue_event \<Rightarrow> exec_queue_item list \<Rightarrow> exec_queue_item list" where
  "arrival_step (Enqueued now item) xs = xs @ [item]"
| "arrival_step (Removed now execution_id) xs = filter (\<lambda>item. qi_execution_id item \<noteq> execution_id) xs"

definition arrival_run :: "queue_event list \<Rightarrow> exec_queue_item list \<Rightarrow> exec_queue_item list" where
  "arrival_run es xs = fold arrival_step es xs"

definition queue_sorted :: "exec_queue \<Rightarrow> bool" where
  "queue_sorted q = sorted (map qi_priority (eq_items q))"

subsection \<open>Stable insertion\<close>

definition stable_insert_at :: "('a \<Rightarrow> 'k::linorder) \<Rightarrow> 'a \<Rightarrow> 'a list \<Rightarrow> 'a list" where
  "stable_insert_at f x xs =
    vec_insert (unwrap_or (length xs) (position (\<lambda>y. f x < f y) xs)) x xs"

lemma stable_insert_at_split:
  obtains pre suf where "xs = pre @ suf" "stable_insert_at f x xs = pre @ x # suf"
    "\<forall>y\<in>set pre. f y \<le> f x" "suf \<noteq> [] \<Longrightarrow> f x < f (hd suf)"
proof (cases "position (\<lambda>y. f x < f y) xs")
  case None
  show ?thesis
    using that[of xs "[]"] None by (simp add: stable_insert_at_def vec_insert_def position_None not_less)
next
  case (Some i)
  from position_Some[OF this] show ?thesis
    using that[of "take i xs" "drop i xs"] Some
    by (auto simp: stable_insert_at_def vec_insert_def hd_drop_conv_nth not_less)
qed

lemma mset_stable_insert_at [simp]: "mset (stable_insert_at f x xs) = add_mset x (mset xs)"
  by (rule stable_insert_at_split[of xs f x]) simp

lemma sorted_stable_insert_at:
  assumes "sorted (map f xs)" shows "sorted (map f (stable_insert_at f x xs))"
proof (rule stable_insert_at_split[of xs f x])
  fix pre suf
  assume xs: "xs = pre @ suf" and ins: "stable_insert_at f x xs = pre @ x # suf"
    and pre: "\<forall>y\<in>set pre. f y \<le> f x" and suf: "suf \<noteq> [] \<Longrightarrow> f x < f (hd suf)"
  have "\<forall>y\<in>set suf. f x \<le> f y"
    using suf assms xs by (cases suf) (auto simp: sorted_append)
  then show ?thesis
    using assms pre by (auto simp: xs ins[unfolded xs] sorted_append dest: order_trans)
qed

lemma filter_stable_insert_at:
  assumes "sorted (map f xs)"
  shows "filter (\<lambda>y. f k = f y) (stable_insert_at f x xs) = filter (\<lambda>y. f k = f y) (xs @ [x])"
proof (rule stable_insert_at_split[of xs f x])
  fix pre suf
  assume xs: "xs = pre @ suf" and ins: "stable_insert_at f x xs = pre @ x # suf"
    and suf: "suf \<noteq> [] \<Longrightarrow> f x < f (hd suf)"
  have gt: "\<forall>y\<in>set suf. f x < f y"
    using suf assms xs by (cases suf) (auto simp: sorted_append)
  show ?thesis
  proof (cases "f k = f x")
    case True
    then have "filter (\<lambda>y. f k = f y) suf = []" using gt by (auto simp: filter_empty_conv)
    then show ?thesis using True by (subst ins) (simp add: xs)
  next
    case False then show ?thesis using ins xs by simp
  qed
qed

lemma stable_insert_at_sort_key: "stable_insert_at f x (sort_key f xs) = sort_key f (xs @ [x])"
proof (rule sym, rule properties_for_sort_key)
  show "mset (stable_insert_at f x (sort_key f xs)) = mset (xs @ [x])" by simp
  show "sorted (map f (stable_insert_at f x (sort_key f xs)))"
    by (rule sorted_stable_insert_at) simp
  show "filter (\<lambda>y. f k = f y) (stable_insert_at f x (sort_key f xs)) = filter (\<lambda>y. f k = f y) (xs @ [x])" for k
  proof -
    have "filter (\<lambda>y. f k = f y) (sort_key f xs) = filter (\<lambda>y. f k = f y) xs"
      using sort_key_stable[of f "f k" xs] by (simp add: eq_commute)
    then show ?thesis by (subst filter_stable_insert_at) simp_all
  qed
qed

lemma enqueue_items: "eq_items (enqueue now item q) = stable_insert_at qi_priority item (eq_items q)"
  by (simp add: enqueue_def stable_insert_at_def)

lemma queue_remove_items:
  "eq_items (queue_remove now i q) = filter (\<lambda>item. qi_execution_id item \<noteq> i) (eq_items q)"
  by (simp add: queue_remove_def)

subsection \<open>The queue as an interface\<close>

text \<open>
  What the scheduler relies on: a queue abstracts to the list of its items, insertion and removal act
  on that list, and the head is served first.
\<close>

locale stable_priority_queue =
  fixes items :: "'q \<Rightarrow> 'i list"
    and enq :: "'t \<Rightarrow> 'i \<Rightarrow> 'q \<Rightarrow> 'q"
    and del :: "'t \<Rightarrow> 'k \<Rightarrow> 'q \<Rightarrow> 'q"
    and prio :: "'i \<Rightarrow> 'p::linorder"
    and ident :: "'i \<Rightarrow> 'k"
  assumes enq_sort: "items q = sort_key prio xs \<Longrightarrow> items (enq t i q) = sort_key prio (xs @ [i])"
    and del_items: "items (del t k q) = filter (\<lambda>i. ident i \<noteq> k) (items q)"
begin

lemma del_sort: "items q = sort_key prio xs \<Longrightarrow>
    items (del t k q) = sort_key prio (filter (\<lambda>i. ident i \<noteq> k) xs)"
  by (simp add: del_items filter_sort)

lemma head_is_least:
  assumes "items q = sort_key prio xs" "items q = i # rest" "j \<in> set xs"
  shows "prio i \<le> prio j"
proof -
  have "sorted (map prio (i # rest))" "j \<in> set (i # rest)"
    using assms by (metis sorted_sort_key, metis set_sort)
  then show ?thesis by auto
qed

lemma del_shrinks: "i \<in> set (items q) \<Longrightarrow> ident i = k \<Longrightarrow> length (items (del t k q)) < length (items q)"
  by (simp add: del_items length_filter_less)

lemma del_gone: "i \<in> set (items (del t k q)) \<Longrightarrow> ident i \<noteq> k"
  by (simp add: del_items)

end

interpretation exec_queue: stable_priority_queue eq_items enqueue queue_remove qi_priority qi_execution_id
  by unfold_locales (simp_all add: enqueue_items queue_remove_items stable_insert_at_sort_key)

lemma queue_run_refines:
  assumes "eq_items q = sort_key qi_priority xs"
  shows "eq_items (queue_run es q) = sort_key qi_priority (arrival_run es xs)"
  using assms
proof (induction es arbitrary: q xs)
  case Nil then show ?case by (simp add: queue_run_def arrival_run_def)
next
  case (Cons e es)
  have "eq_items (queue_event_step e q) = sort_key qi_priority (arrival_step e xs)"
    using Cons.prems by (cases e) (simp_all add: exec_queue.enq_sort exec_queue.del_sort)
  from Cons.IH[OF this] show ?case by (simp add: queue_run_def arrival_run_def)
qed

lemma queue_sorted_enqueue: "queue_sorted q \<Longrightarrow> queue_sorted (enqueue now item q)"
  by (simp add: queue_sorted_def enqueue_items sorted_stable_insert_at)

lemma queue_sorted_remove: "queue_sorted q \<Longrightarrow> queue_sorted (queue_remove now i q)"
  by (simp add: queue_sorted_def queue_remove_items sorted_filter)

lemma queue_sorted_new [simp]: "queue_sorted (queue_new now)"
  by (simp add: queue_sorted_def queue_new_def)

end
