(* ===== verification/AtomicFile.thy ===== *)
theory AtomicFile
  imports Prelude
begin

text \<open>
  The file helpers of \<open>src/fs_async.rs\<close>: \<open>read_json_async\<close> and \<open>write_bytes_atomic_async\<close> (temporary
  file, two writes, sync, rename, sync of the parent directory).  The file system is a map from paths
  to byte strings, and a fault may stop the routine at any of its seven steps, a write then having
  left only some of its bytes.  The lemmas show that the target path always holds its old or its complete
  new contents and that the routine is, on the target, one of the three outcomes of \<open>write_op\<close> with
  which the stores of the other theories are written.
\<close>

subsection \<open>Model\<close>

type_synonym fs = "string \<Rightarrow> string option"

text \<open>
  \<open>Path::with_extension("tmp")\<close> on an absolute file path: the directory part is kept and the file name's
  extension (the text after its last dot, if that dot is not its first character) is replaced.
\<close>

definition dir_part :: "string \<Rightarrow> string" where
  "dir_part p = rev (dropWhile (\<lambda>c. c \<noteq> CHR ''/'') (rev p))"

definition name_part :: "string \<Rightarrow> string" where
  "name_part p = rev (takeWhile (\<lambda>c. c \<noteq> CHR ''/'') (rev p))"

definition file_stem :: "string \<Rightarrow> string" where
  "file_stem n = (case dropWhile (\<lambda>c. c \<noteq> CHR ''.'') (rev n) of
      [] \<Rightarrow> n
    | _ # rest \<Rightarrow> (if rest = [] then n else rev rest))"

definition with_extension :: "string \<Rightarrow> string \<Rightarrow> string" where
  "with_extension p ext = dir_part p @ file_stem (name_part p) @ ''.'' @ ext"

text \<open>A fault plan: at which step the routine is stopped, how many bytes a stopped write had written,
  and the kind of the error.\<close>

record fault_plan =
  fp_step :: "nat option"
  fp_written :: nat
  fp_kind :: io_kind

definition io_step :: "fault_plan \<Rightarrow> nat \<Rightarrow> (fs \<Rightarrow> fs) \<Rightarrow> (fs \<Rightarrow> fs) \<Rightarrow> (fs, unit) op" where
  "io_step p n full part s =
    (if fp_step p = Some n then (Inl (IoError (fp_kind p) ''io''), part s) else (Inr (), full s))"

definition append_bytes :: "string \<Rightarrow> string \<Rightarrow> fs \<Rightarrow> fs" where
  "append_bytes path bytes s = s(path \<mapsto> unwrap_or [] (s path) @ bytes)"

definition rename_path :: "string \<Rightarrow> string \<Rightarrow> fs \<Rightarrow> fs" where
  "rename_path from to s = (s(to := s from))(from := None)"

definition write_bytes_atomic_async :: "fault_plan \<Rightarrow> string \<Rightarrow> string \<Rightarrow> (fs, unit) op" where
  "write_bytes_atomic_async p path bytes =
    (let tmp = with_extension path ''tmp'' in
     bind_op (io_step p 0 id id)
      (\<lambda>_. bind_op (io_step p 1 (\<lambda>s. s(tmp \<mapsto> [])) id)
      (\<lambda>_. bind_op (io_step p 2 (append_bytes tmp bytes) (append_bytes tmp (take (fp_written p) bytes)))
      (\<lambda>_. bind_op (io_step p 3 (append_bytes tmp [CHR 0x0A]) id)
      (\<lambda>_. bind_op (io_step p 4 id id)
      (\<lambda>_. bind_op (io_step p 5 (rename_path tmp path) id)
      (\<lambda>_. io_step p 6 id id)))))))"

definition read_json_async :: "'a disk_file \<Rightarrow> 'a res" where
  "read_json_async f = (case f of
      Missing \<Rightarrow> Inl (IoError NotFound ''not found'')
    | Corrupt \<Rightarrow> Inl (IoError OtherKind ''json'')
    | Present a \<Rightarrow> Inr a)"

text \<open>The outcome of \<open>write_op\<close> a fault plan amounts to.\<close>

definition outcome_of_plan :: "fault_plan \<Rightarrow> write_outcome" where
  "outcome_of_plan p = (case fp_step p of
      None \<Rightarrow> Done
    | Some n \<Rightarrow> (if n \<le> 5 then FailedBefore (fp_kind p)
                 else if n = 6 then FailedAfter (fp_kind p) else Done))"

fun result_kind :: "'a res \<Rightarrow> io_kind option" where
  "result_kind (Inl e) = Some (error_kind e)"
| "result_kind (Inr _) = None"

subsection \<open>Lemmas\<close>

lemma read_json_async_simps [simp]:
  "read_json_async (Present a) = Inr a"
  "read_json_async Missing = Inl (IoError NotFound ''not found'')"
  "read_json_async Corrupt = Inl (IoError OtherKind ''json'')"
  by (simp_all add: read_json_async_def)

lemma with_extension_suffix: "suffix (CHR ''.'' # ext) (with_extension p ext)"
  by (simp add: with_extension_def suffix_def)

lemma tmp_differs: "\<not> ends_with ''.tmp'' p \<Longrightarrow> with_extension p ''tmp'' \<noteq> p"
  using with_extension_suffix[of "''tmp''" p] by (auto simp: ends_with_def)

lemmas atomic_defs = write_bytes_atomic_async_def io_step_def append_bytes_def rename_path_def Let_def
  bind_op_def

lemma write_bytes_atomic_other:
  "q \<noteq> path \<Longrightarrow> q \<noteq> with_extension path ''tmp'' \<Longrightarrow>
   snd (write_bytes_atomic_async p path bytes s) q = s q"
  by (simp add: atomic_defs)

lemma write_bytes_atomic_target:
  assumes "with_extension path ''tmp'' \<noteq> path"
  shows "result_kind (fst (write_bytes_atomic_async p path bytes s)) =
           result_kind (fst (write_op (outcome_of_plan p) (\<lambda>_. Some (bytes @ [CHR 0x0A])) (s path))) \<and>
         snd (write_bytes_atomic_async p path bytes s) path =
           snd (write_op (outcome_of_plan p) (\<lambda>_. Some (bytes @ [CHR 0x0A])) (s path))"
proof -
  consider "fp_step p = None" | n where "fp_step p = Some n" "n \<in> {0,1,2,3,4,5,6}"
    | n where "fp_step p = Some n" "6 < n"
  proof (cases "fp_step p")
    case (Some n)
    have "n \<in> {0,1,2,3,4,5,6} \<or> 6 < n" by auto
    with Some that show ?thesis by blast
  qed (use that in blast)
  then show ?thesis
    by cases (use assms in \<open>auto simp: atomic_defs outcome_of_plan_def\<close>)
qed

end
