(* ===== verification/ExecStore.thy ===== *)
theory ExecStore
  imports ExecQueue AtomicFile
begin

text \<open>
  The local execution state: the records of \<open>src/state_store/{running,history,reporting}.rs\<close>, the data
  the agent exchanges with its contract crates, the environment that answers for everything outside the
  agent (clock, digests, report validation, outcomes of file operations), the store itself, and on it the
  duplicate detection of \<open>src/exec/execution_support.rs\<close> and the quarantine of \<open>src/exec/quarantine.rs\<close>,
  each in its blocking and its async variant.

  A directory of per-execution JSON files is a \<open>dir\<close> keyed by file stem.  Working directories are keyed by
  their path and split by file (plan, runtime, result, progress).  The constant \<open>schema_version\<close> field of
  the persisted records is left out.
\<close>

subsection \<open>Data\<close>

datatype risk_level = R0 | R1 | R2 | R3

datatype final_status = Succeeded | Failed | TimedOut | Rejected | OtherStatus string

datatype step_status = StepTimedOut | StepCancelled | StepFailed | OtherStep string

record action_plan =
  ap_action_id :: string
  ap_request_id :: string
  ap_agent_id :: string
  ap_node_id :: string
  ap_max_total_duration_ms :: nat
  ap_risk_level :: risk_level
  ap_entry :: string
  ap_steps :: "(string \<times> string option) list"

record step_record =
  sr_step_id :: string
  sr_attempt :: "32 word"
  sr_op :: "string option"
  sr_status :: step_status
  sr_started_at :: string
  sr_finished_at :: "string option"
  sr_error_code :: "string option"

record action_result =
  ar_action_id :: string
  ar_execution_id :: string
  ar_final_status :: final_status
  ar_request_id :: "string option"
  ar_exit_reason :: "string option"
  ar_step_records :: "step_record list"
  ar_started_at :: "string option"
  ar_finished_at :: "string option"

record attestation =
  at_result_digest :: string
  at_signature :: string
  at_issued_by :: string
  at_attested_at :: string

record report_envelope =
  re_report_id :: string
  re_action_id :: string
  re_report_attempt :: "32 word"
  re_final_status :: final_status
  re_execution_id :: string
  re_plan_digest :: string
  re_agent_id :: string
  re_instance_id :: string
  re_attestation :: attestation
  re_reported_at :: string
  re_result :: action_result

record running_state =
  rn_execution_id :: string
  rn_action_id :: string
  rn_plan_digest :: string
  rn_request_id :: string
  rn_state :: string
  rn_workdir :: string
  rn_pid :: "32 word option"
  rn_process_identity :: "string option"
  rn_started_at :: string
  rn_deadline_at :: "string option"
  rn_current_step_id :: "string option"
  rn_attempt :: "32 word option"
  rn_cancel_requested_at :: "string option"
  rn_kill_requested_at :: "string option"
  rn_updated_at :: string

record history_record =
  hr_execution_id :: string
  hr_action_id :: "string option"
  hr_plan_digest :: "string option"
  hr_request_id :: "string option"
  hr_state :: string
  hr_detail :: string
  hr_recorded_at :: string

record reporting_state =
  rs_execution_id :: string
  rs_action_id :: string
  rs_plan_digest :: string
  rs_request_id :: string
  rs_final_state :: string
  rs_result_path :: string
  rs_report_envelope_path :: "string option"
  rs_result_digest :: "string option"
  rs_result_signature :: "string option"
  rs_report_attempt :: "32 word"
  rs_last_report_at :: "string option"
  rs_last_report_error :: "string option"

record progress_state =
  ps_execution_id :: string
  ps_action_id :: string
  ps_state :: string
  ps_updated_at :: string
  ps_reason_code :: "string option"
  ps_detail :: "string option"

record runtime_context =
  rc_execution_id :: string
  rc_spawned_at :: string
  rc_deadline_at :: "string option"
  rc_agent_id :: string
  rc_node_id :: string
  rc_workdir :: string

subsection \<open>Environment and store\<close>

datatype target = TQueue | TRunning string | TReporting string | TEnvelope string | THistory string
  | TWorkdir string | TPlan string | TRuntime string | TResult string | TProgress string
  | TRunningDir | TReportingDir | THistoryDir

text \<open>
  What the code gets from outside: the clock and the digest, signature and validation routines of the
  contract crates, and the outcome of every file operation.  \<open>ev_stat_err\<close> is an error of \<open>metadata\<close>
  (or of opening a directory) other than \<open>NotFound\<close>, \<open>ev_remove_err\<close> one of \<open>remove_file\<close>.
\<close>

record exec_env =
  ev_now :: string
  ev_after_millis :: "nat \<Rightarrow> string"
  ev_digest_plan :: "action_plan \<Rightarrow> string res"
  ev_digest_result :: "action_result \<Rightarrow> string res"
  ev_sign :: "string \<Rightarrow> string \<Rightarrow> string"
  ev_issuer :: "string \<Rightarrow> string"
  ev_validate :: "report_envelope \<Rightarrow> string option"
  ev_state_name :: "final_status \<Rightarrow> string"
  ev_write :: "target \<Rightarrow> write_outcome"
  ev_stat_err :: "target \<Rightarrow> io_kind option"
  ev_read_err :: "target \<Rightarrow> io_kind option"
  ev_remove_err :: "target \<Rightarrow> io_kind option"
  ev_actions_dir :: string
  ev_plan_file :: string
  ev_result_file :: string
  ev_envelope_path :: "string \<Rightarrow> string"

record exec_store =
  es_queue :: "exec_queue disk_file"
  es_running :: "running_state dir"
  es_reporting :: "reporting_state dir"
  es_envelopes :: "report_envelope dir"
  es_history :: "history_record dir"
  es_plans :: "action_plan dir"
  es_runtimes :: "runtime_context dir"
  es_results :: "action_result dir"
  es_progress :: "progress_state dir"
  es_signals :: "(int \<times> int) list"

type_synonym 'a exec_op = "(exec_store, 'a) op"

text \<open>\<open>tokio::fs::metadata\<close> read as an existence test, and the blocking \<open>Path::exists\<close>, for which every
  error means that the path does not exist.\<close>

definition stat_async :: "exec_env \<Rightarrow> target \<Rightarrow> bool \<Rightarrow> bool res" where
  "stat_async e t present = (case ev_stat_err e t of
      Some k \<Rightarrow> Inl (IoError k ''metadata'')
    | None \<Rightarrow> Inr present)"

definition path_exists :: "exec_env \<Rightarrow> target \<Rightarrow> bool \<Rightarrow> bool" where
  "path_exists e t present = (ev_stat_err e t = None \<and> present)"

text \<open>Reading and decoding a file that is there: the read itself can fail, whatever the file holds.\<close>

definition read_file :: "exec_env \<Rightarrow> target \<Rightarrow> 'a disk_file \<Rightarrow> 'a res" where
  "read_file e t f = (case ev_read_err e t of
      None \<Rightarrow> read_json_async f
    | Some k \<Rightarrow> (if file_exists f then Inl (IoError k ''read'') else read_json_async f))"

definition read_dir :: "exec_env \<Rightarrow> target \<Rightarrow> 'a \<Rightarrow> 'a res" where
  "read_dir e t x = (case ev_read_err e t of None \<Rightarrow> Inr x | Some k \<Rightarrow> Inl (IoError k ''read_dir''))"

definition remove_op :: "exec_env \<Rightarrow> target \<Rightarrow> (exec_store \<Rightarrow> bool) \<Rightarrow> (exec_store \<Rightarrow> exec_store) \<Rightarrow> unit exec_op" where
  "remove_op e t present f s =
    (if \<not> present s then (Inr (), s)
     else (case ev_remove_err e t of
             Some k \<Rightarrow> (Inl (IoError k ''remove''), s)
           | None \<Rightarrow> (Inr (), f s)))"

definition workdir_path :: "exec_env \<Rightarrow> string \<Rightarrow> string \<Rightarrow> string" where
  "workdir_path e run_dir execution_id = run_dir @ ''/'' @ ev_actions_dir e @ ''/'' @ execution_id"

definition result_path :: "exec_env \<Rightarrow> string \<Rightarrow> string" where
  "result_path e workdir = workdir @ ''/'' @ ev_result_file e"

subsection \<open>State files\<close>

definition running_builder :: "string \<Rightarrow> string \<Rightarrow> string \<Rightarrow> string \<Rightarrow> running_state" where
  "running_builder execution_id action_id state workdir =
    \<lparr>rn_execution_id = execution_id, rn_action_id = action_id, rn_plan_digest = [], rn_request_id = [],
     rn_state = state, rn_workdir = workdir, rn_pid = None, rn_process_identity = None, rn_started_at = [],
     rn_deadline_at = None, rn_current_step_id = None, rn_attempt = None, rn_cancel_requested_at = None,
     rn_kill_requested_at = None, rn_updated_at = []\<rparr>"

definition history_quarantined ::
    "string \<Rightarrow> string \<Rightarrow> string option \<Rightarrow> string option \<Rightarrow> string option \<Rightarrow> string \<Rightarrow> history_record" where
  "history_quarantined now execution_id action_id plan_digest request_id detail =
    \<lparr>hr_execution_id = execution_id, hr_action_id = action_id, hr_plan_digest = plan_digest,
     hr_request_id = request_id, hr_state = ''quarantined'', hr_detail = detail, hr_recorded_at = now\<rparr>"

definition store_queue :: "exec_env \<Rightarrow> exec_queue \<Rightarrow> unit exec_op" where
  "store_queue e q = write_op (ev_write e TQueue) (\<lambda>s. s\<lparr>es_queue := Present q\<rparr>)"

definition store_running :: "exec_env \<Rightarrow> string \<Rightarrow> running_state \<Rightarrow> unit exec_op" where
  "store_running e k r = write_op (ev_write e (TRunning k)) (\<lambda>s. s\<lparr>es_running := dir_put k r (es_running s)\<rparr>)"

definition remove_running_async :: "exec_env \<Rightarrow> string \<Rightarrow> unit exec_op" where
  "remove_running_async e k = remove_op e (TRunning k)
    (\<lambda>s. file_exists (dir_get (es_running s) k)) (\<lambda>s. s\<lparr>es_running := dir_del k (es_running s)\<rparr>)"

definition remove_running :: "exec_env \<Rightarrow> string \<Rightarrow> unit exec_op" where
  "remove_running e k s =
    (if path_exists e (TRunning k) (file_exists (dir_get (es_running s) k))
     then remove_running_async e k s else (Inr (), s))"

definition store_history :: "exec_env \<Rightarrow> string \<Rightarrow> history_record \<Rightarrow> unit exec_op" where
  "store_history e k r = write_op (ev_write e (THistory k)) (\<lambda>s. s\<lparr>es_history := dir_put k r (es_history s)\<rparr>)"

definition load_queue_async :: "exec_env \<Rightarrow> exec_queue exec_op" where
  "load_queue_async e s = (case stat_async e TQueue (file_exists (es_queue s)) of
      Inl err \<Rightarrow> (Inl err, s)
    | Inr False \<Rightarrow> (Inr (queue_new (ev_now e)), s)
    | Inr True \<Rightarrow> (read_file e TQueue (es_queue s), s))"

definition load_queue :: "exec_env \<Rightarrow> exec_queue exec_op" where
  "load_queue e s =
    (if path_exists e TQueue (file_exists (es_queue s)) then (read_file e TQueue (es_queue s), s)
     else (Inr (queue_new (ev_now e)), s))"

subsection \<open>Duplicate detection\<close>

text \<open>The first file of a directory, in enumeration order, that can be loaded and that a test accepts.  A file
  that fails to load, because the read fails or because it holds no record, is skipped.\<close>

fun find_in_dir :: "(string \<Rightarrow> 'a disk_file \<Rightarrow> 'a res) \<Rightarrow> ('a \<Rightarrow> 'b option) \<Rightarrow> 'a dir \<Rightarrow> 'b option" where
  "find_in_dir load f [] = None"
| "find_in_dir load f ((k, c) # d) = (case load k (case c of None \<Rightarrow> Corrupt | Some a \<Rightarrow> Present a) of
      Inl _ \<Rightarrow> find_in_dir load f d
    | Inr a \<Rightarrow> (case f a of Some b \<Rightarrow> Some b | None \<Rightarrow> find_in_dir load f d))"

definition running_matches :: "string \<Rightarrow> string \<Rightarrow> running_state \<Rightarrow> string option" where
  "running_matches action_id plan_digest r =
    (if rn_action_id r = action_id \<and> rn_plan_digest r = plan_digest then Some (rn_execution_id r) else None)"

definition reporting_matches :: "string \<Rightarrow> string \<Rightarrow> reporting_state \<Rightarrow> string option" where
  "reporting_matches action_id plan_digest r =
    (if rs_action_id r = action_id \<and> rs_plan_digest r = plan_digest then Some (rs_execution_id r) else None)"

definition history_matches :: "string \<Rightarrow> string \<Rightarrow> history_record \<Rightarrow> string option" where
  "history_matches action_id plan_digest r =
    (if hr_action_id r = Some action_id \<and> hr_plan_digest r = Some plan_digest
     then Some (hr_execution_id r) else None)"

definition queue_matches :: "string \<Rightarrow> string \<Rightarrow> exec_queue \<Rightarrow> string option" where
  "queue_matches action_id plan_digest q =
    map_option qi_execution_id
      (find (\<lambda>item. qi_action_id item = action_id \<and> qi_plan_digest item = plan_digest) (eq_items q))"

definition find_duplicate_running_execution :: "exec_env \<Rightarrow> string \<Rightarrow> string \<Rightarrow> exec_store \<Rightarrow> string option res" where
  "find_duplicate_running_execution e a d s =
    (if path_exists e TRunningDir True
     then read_dir e TRunningDir (find_in_dir (\<lambda>k. read_file e (TRunning k)) (running_matches a d) (es_running s))
     else Inr None)"

definition find_duplicate_reporting_execution :: "exec_env \<Rightarrow> string \<Rightarrow> string \<Rightarrow> exec_store \<Rightarrow> string option res" where
  "find_duplicate_reporting_execution e a d s =
    (if path_exists e TReportingDir True
     then read_dir e TReportingDir (find_in_dir (\<lambda>k. read_file e (TReporting k)) (reporting_matches a d) (es_reporting s))
     else Inr None)"

definition find_duplicate_history_execution :: "exec_env \<Rightarrow> string \<Rightarrow> string \<Rightarrow> exec_store \<Rightarrow> string option res" where
  "find_duplicate_history_execution e a d s =
    (if path_exists e THistoryDir True
     then read_dir e THistoryDir (find_in_dir (\<lambda>k. read_file e (THistory k)) (history_matches a d) (es_history s))
     else Inr None)"

text \<open>The lookups in their order, stopping at the first error and at the first hit.\<close>

fun first_hit :: "'a option res list \<Rightarrow> 'a option res" where
  "first_hit [] = Inr None"
| "first_hit (Inl e # rs) = Inl e"
| "first_hit (Inr (Some a) # rs) = Inr (Some a)"
| "first_hit (Inr None # rs) = first_hit rs"

definition find_duplicate_execution :: "exec_env \<Rightarrow> string \<Rightarrow> string \<Rightarrow> string option exec_op" where
  "find_duplicate_execution e a d = bind_op (load_queue e) (\<lambda>q s.
    (first_hit
      [Inr (queue_matches a d q),
       find_duplicate_running_execution e a d s,
       find_duplicate_reporting_execution e a d s,
       find_duplicate_history_execution e a d s], s))"

definition find_duplicate_running_execution_async :: "exec_env \<Rightarrow> string \<Rightarrow> string \<Rightarrow> exec_store \<Rightarrow> string option res" where
  "find_duplicate_running_execution_async e a d s = (case stat_async e TRunningDir True of
      Inl err \<Rightarrow> Inl err
    | Inr _ \<Rightarrow> read_dir e TRunningDir (find_in_dir (\<lambda>k. read_file e (TRunning k)) (running_matches a d) (es_running s)))"

definition find_duplicate_reporting_execution_async :: "exec_env \<Rightarrow> string \<Rightarrow> string \<Rightarrow> exec_store \<Rightarrow> string option res" where
  "find_duplicate_reporting_execution_async e a d s = (case stat_async e TReportingDir True of
      Inl err \<Rightarrow> Inl err
    | Inr _ \<Rightarrow> read_dir e TReportingDir (find_in_dir (\<lambda>k. read_file e (TReporting k)) (reporting_matches a d) (es_reporting s)))"

definition find_duplicate_history_execution_async :: "exec_env \<Rightarrow> string \<Rightarrow> string \<Rightarrow> exec_store \<Rightarrow> string option res" where
  "find_duplicate_history_execution_async e a d s = (case stat_async e THistoryDir True of
      Inl err \<Rightarrow> Inl err
    | Inr _ \<Rightarrow> read_dir e THistoryDir (find_in_dir (\<lambda>k. read_file e (THistory k)) (history_matches a d) (es_history s)))"

definition find_duplicate_execution_async :: "exec_env \<Rightarrow> string \<Rightarrow> string \<Rightarrow> string option exec_op" where
  "find_duplicate_execution_async e a d = bind_op (load_queue_async e) (\<lambda>q s.
    (first_hit
      [Inr (queue_matches a d q),
       find_duplicate_running_execution_async e a d s,
       find_duplicate_reporting_execution_async e a d s,
       find_duplicate_history_execution_async e a d s], s))"

definition lookup_queued_execution :: "exec_env \<Rightarrow> string \<Rightarrow> exec_queue_item option exec_op" where
  "lookup_queued_execution e execution_id s =
    (if \<not> path_exists e TQueue (file_exists (es_queue s)) then (Inr None, s)
     else bind_op (load_queue e)
       (\<lambda>q. return_op (find (\<lambda>item. qi_execution_id item = execution_id) (eq_items q))) s)"

definition lookup_queued_execution_async :: "exec_env \<Rightarrow> string \<Rightarrow> exec_queue_item option exec_op" where
  "lookup_queued_execution_async e execution_id s =
    (case stat_async e TQueue (file_exists (es_queue s)) of
      Inl err \<Rightarrow> (Inl err, s)
    | Inr False \<Rightarrow> (Inr None, s)
    | Inr True \<Rightarrow> bind_op (load_queue_async e)
       (\<lambda>q. return_op (find (\<lambda>item. qi_execution_id item = execution_id) (eq_items q))) s)"

subsection \<open>Quarantine\<close>

record quarantine_request =
  qr_execution_id :: string
  qr_action_id :: "string option"
  qr_plan_digest :: "string option"
  qr_request_id :: "string option"
  qr_detail :: string
  qr_running_path :: "string option"
  qr_remove_from_queue :: bool

definition quarantine_queued_item :: "exec_queue_item \<Rightarrow> string \<Rightarrow> string option \<Rightarrow> quarantine_request" where
  "quarantine_queued_item item detail running_path =
    \<lparr>qr_execution_id = qi_execution_id item, qr_action_id = Some (qi_action_id item),
     qr_plan_digest = Some (qi_plan_digest item), qr_request_id = Some (qi_request_id item),
     qr_detail = detail, qr_running_path = running_path, qr_remove_from_queue = True\<rparr>"

definition quarantine_running_state :: "running_state \<Rightarrow> string \<Rightarrow> string \<Rightarrow> quarantine_request" where
  "quarantine_running_state st detail running_path =
    \<lparr>qr_execution_id = rn_execution_id st, qr_action_id = Some (rn_action_id st),
     qr_plan_digest = Some (rn_plan_digest st), qr_request_id = Some (rn_request_id st),
     qr_detail = detail, qr_running_path = Some running_path, qr_remove_from_queue = True\<rparr>"

definition quarantine_unreadable_running :: "string \<Rightarrow> string \<Rightarrow> string \<Rightarrow> quarantine_request" where
  "quarantine_unreadable_running execution_id detail running_path =
    \<lparr>qr_execution_id = execution_id, qr_action_id = None, qr_plan_digest = None, qr_request_id = None,
     qr_detail = detail, qr_running_path = Some running_path, qr_remove_from_queue = True\<rparr>"

definition remove_local_report_artifacts_async :: "exec_env \<Rightarrow> string \<Rightarrow> unit exec_op" where
  "remove_local_report_artifacts_async e k =
    bind_op (remove_op e (TReporting k) (\<lambda>s. file_exists (dir_get (es_reporting s) k))
              (\<lambda>s. s\<lparr>es_reporting := dir_del k (es_reporting s)\<rparr>))
    (\<lambda>_. remove_op e (TEnvelope k) (\<lambda>s. file_exists (dir_get (es_envelopes s) k))
              (\<lambda>s. s\<lparr>es_envelopes := dir_del k (es_envelopes s)\<rparr>))"

definition remove_local_report_artifacts :: "exec_env \<Rightarrow> string \<Rightarrow> unit exec_op" where
  "remove_local_report_artifacts e k =
    bind_op (remove_op e (TReporting k)
              (\<lambda>s. path_exists e (TReporting k) (file_exists (dir_get (es_reporting s) k)))
              (\<lambda>s. s\<lparr>es_reporting := dir_del k (es_reporting s)\<rparr>))
    (\<lambda>_. remove_op e (TEnvelope k)
              (\<lambda>s. path_exists e (TEnvelope k) (file_exists (dir_get (es_envelopes s) k)))
              (\<lambda>s. s\<lparr>es_envelopes := dir_del k (es_envelopes s)\<rparr>))"

definition remove_queued_execution :: "exec_env \<Rightarrow> string \<Rightarrow> unit exec_op" where
  "remove_queued_execution e execution_id s =
    (if \<not> path_exists e TQueue (file_exists (es_queue s)) then (Inr (), s)
     else bind_op (load_queue e) (\<lambda>q.
       let q' = queue_remove (ev_now e) execution_id q in
       if length (eq_items q') = length (eq_items q) then return_op () else store_queue e q') s)"

definition remove_queued_execution_async :: "exec_env \<Rightarrow> string \<Rightarrow> unit exec_op" where
  "remove_queued_execution_async e execution_id s =
    (case stat_async e TQueue (file_exists (es_queue s)) of
      Inl err \<Rightarrow> (Inl err, s)
    | Inr False \<Rightarrow> (Inr (), s)
    | Inr True \<Rightarrow> bind_op (load_queue_async e) (\<lambda>q.
       let q' = queue_remove (ev_now e) execution_id q in
       if length (eq_items q') = length (eq_items q) then return_op () else store_queue e q') s)"

definition quarantine_record :: "exec_env \<Rightarrow> quarantine_request \<Rightarrow> exec_queue_item option \<Rightarrow> history_record" where
  "quarantine_record e r queued = history_quarantined (ev_now e) (qr_execution_id r)
     (or_else (qr_action_id r) (map_option qi_action_id queued))
     (or_else (qr_plan_digest r) (map_option qi_plan_digest queued))
     (or_else (qr_request_id r) (map_option qi_request_id queued))
     (qr_detail r)"

definition quarantine_execution :: "exec_env \<Rightarrow> quarantine_request \<Rightarrow> unit exec_op" where
  "quarantine_execution e r =
    bind_op (lookup_queued_execution e (qr_execution_id r)) (\<lambda>queued.
    bind_op (remove_local_report_artifacts e (qr_execution_id r)) (\<lambda>_.
    bind_op (store_history e (qr_execution_id r) (quarantine_record e r queued)) (\<lambda>_.
    bind_op (if qr_remove_from_queue r then remove_queued_execution e (qr_execution_id r) else return_op ()) (\<lambda>_.
    (case qr_running_path r of Some p \<Rightarrow> remove_running e p | None \<Rightarrow> return_op ())))))"

definition quarantine_execution_async :: "exec_env \<Rightarrow> quarantine_request \<Rightarrow> unit exec_op" where
  "quarantine_execution_async e r =
    bind_op (lookup_queued_execution_async e (qr_execution_id r)) (\<lambda>queued.
    bind_op (remove_local_report_artifacts_async e (qr_execution_id r)) (\<lambda>_.
    bind_op (store_history e (qr_execution_id r) (quarantine_record e r queued)) (\<lambda>_.
    bind_op (if qr_remove_from_queue r then remove_queued_execution_async e (qr_execution_id r) else return_op ()) (\<lambda>_.
    (case qr_running_path r of Some p \<Rightarrow> remove_running_async e p | None \<Rightarrow> return_op ())))))"

subsection \<open>Which plan an execution is tracked with\<close>

text \<open>
  \<open>tracks s k (a, d)\<close>: some readable record of execution \<open>k\<close> (queue item, running state, report state or
  history record) says that it runs the plan with digest \<open>d\<close> of action \<open>a\<close>.  These are the records duplicate
  detection looks at.  In a coherent store all records of one execution name the same plan.
\<close>

definition queued_items :: "exec_store \<Rightarrow> exec_queue_item list" where
  "queued_items s = (case es_queue s of Present q \<Rightarrow> eq_items q | _ \<Rightarrow> [])"

definition item_plan :: "exec_queue_item \<Rightarrow> string \<times> string" where
  "item_plan i = (qi_action_id i, qi_plan_digest i)"

definition running_plan :: "exec_store \<Rightarrow> string \<Rightarrow> (string \<times> string) option" where
  "running_plan s k = (case dir_get (es_running s) k of
      Present r \<Rightarrow> Some (rn_action_id r, rn_plan_digest r) | _ \<Rightarrow> None)"

definition reported_plan :: "exec_store \<Rightarrow> string \<Rightarrow> (string \<times> string) option" where
  "reported_plan s k = (case dir_get (es_reporting s) k of
      Present st \<Rightarrow> Some (rs_action_id st, rs_plan_digest st) | _ \<Rightarrow> None)"

definition history_plan :: "exec_store \<Rightarrow> string \<Rightarrow> (string \<times> string) option" where
  "history_plan s k = (case dir_get (es_history s) k of
      Present h \<Rightarrow> (case (hr_action_id h, hr_plan_digest h) of
        (Some a, Some d) \<Rightarrow> Some (a, d) | _ \<Rightarrow> None)
    | _ \<Rightarrow> None)"

definition queued_with :: "exec_store \<Rightarrow> string \<Rightarrow> string \<times> string \<Rightarrow> bool" where
  "queued_with s k pd \<longleftrightarrow> (\<exists>i\<in>set (queued_items s). qi_execution_id i = k \<and> item_plan i = pd)"

definition tracks :: "exec_store \<Rightarrow> string \<Rightarrow> string \<times> string \<Rightarrow> bool" where
  "tracks s k pd \<longleftrightarrow> queued_with s k pd \<or> running_plan s k = Some pd \<or> reported_plan s k = Some pd
     \<or> history_plan s k = Some pd"

definition coherent :: "exec_store \<Rightarrow> bool" where
  "coherent s \<longleftrightarrow> (\<forall>k pd pd'. tracks s k pd \<longrightarrow> tracks s k pd' \<longrightarrow> pd = pd')"

definition wf_dirs :: "exec_store \<Rightarrow> bool" where
  "wf_dirs s \<longleftrightarrow> distinct (map fst (es_running s)) \<and> distinct (map fst (es_reporting s))
     \<and> distinct (map fst (es_history s))"

text \<open>An execution is anchored by a record that quarantine removes only after it has written the history.\<close>

definition anchored :: "exec_store \<Rightarrow> string \<Rightarrow> string \<times> string \<Rightarrow> bool" where
  "anchored s k pd \<longleftrightarrow> queued_with s k pd \<or> running_plan s k = Some pd"

lemmas plan_defs = queued_items_def running_plan_def reported_plan_def history_plan_def queued_with_def

lemma coherentD: "coherent s \<Longrightarrow> tracks s k pd \<Longrightarrow> tracks s k pd' \<Longrightarrow> pd = pd'"
  unfolding coherent_def by blast

lemma anchored_tracks: "anchored s k pd \<Longrightarrow> tracks s k pd"
  by (auto simp: anchored_def tracks_def)

lemma coherent_cong: "tracks s' = tracks s \<Longrightarrow> coherent s' = coherent s"
  by (simp add: coherent_def)

lemma coherent_tracksI: "coherent s \<Longrightarrow> tracks t = tracks s \<Longrightarrow> coherent t"
  by (simp add: coherent_def)

lemma read_file_ok: "read_file e t f = Inr a \<Longrightarrow> f = Present a"
  by (cases f) (auto simp: read_file_def split: option.splits if_splits)

lemma read_file_Missing [simp]: "read_file e t Missing = Inl (IoError NotFound ''not found'')"
  by (simp add: read_file_def split: option.splits)

lemma reads_work [simp]:
  "ev_read_err e t = None \<Longrightarrow> read_file e t = read_json_async"
  "ev_read_err e t = None \<Longrightarrow> read_dir e t x = Inr x"
  by (simp_all add: read_file_def read_dir_def fun_eq_iff)

lemma find_in_dir_None:
  "find_in_dir (\<lambda>_. read_json_async) f d = None \<longleftrightarrow> (\<forall>k a. (k, Some a) \<in> set d \<longrightarrow> f a = None)"
proof (induction d)
  case (Cons x d)
  then show ?case by (cases x; cases "snd x") (auto split: option.splits)
qed simp

lemma dir_get_Present_iff:
  "distinct (map fst d) \<Longrightarrow> dir_get d k = Present a \<longleftrightarrow> (k, Some a) \<in> set d"
proof -
  assume d: "distinct (map fst d)"
  have "dir_get d k = Present a \<longleftrightarrow> map_of d k = Some (Some a)"
    by (simp add: dir_get_def split: option.splits)
  then show ?thesis using d by simp
qed

lemma plan_iffs:
  "running_plan s k = Some (a, d) \<longleftrightarrow>
    (\<exists>r. dir_get (es_running s) k = Present r \<and> rn_action_id r = a \<and> rn_plan_digest r = d)"
  "reported_plan s k = Some (a, d) \<longleftrightarrow>
    (\<exists>r. dir_get (es_reporting s) k = Present r \<and> rs_action_id r = a \<and> rs_plan_digest r = d)"
  "history_plan s k = Some (a, d) \<longleftrightarrow>
    (\<exists>r. dir_get (es_history s) k = Present r \<and> hr_action_id r = Some a \<and> hr_plan_digest r = Some d)"
  by (auto simp: plan_defs split: disk_file.splits option.splits)

lemma find_in_dir_plan:
  assumes "distinct (map fst d)"
  shows "find_in_dir (\<lambda>_. read_json_async) f d \<noteq> None \<longleftrightarrow> (\<exists>k a. dir_get d k = Present a \<and> f a \<noteq> None)"
  using assms by (auto simp: find_in_dir_None dir_get_Present_iff)

lemma queue_matches_iff:
  "queue_matches a d q \<noteq> None \<longleftrightarrow> (\<exists>i\<in>set (eq_items q). item_plan i = (a, d))"
  by (auto simp: queue_matches_def item_plan_def find_None_iff)

text \<open>Duplicate detection answers exactly whether some execution is tracked with the plan.\<close>

lemma first_hit_Inr: "\<exists>r. first_hit (map Inr xs) = Inr r \<and> (r \<noteq> None) = (\<exists>x\<in>set xs. x \<noteq> None)"
proof (induction xs)
  case (Cons x xs) then show ?case by (cases x) auto
qed simp

lemma load_queue_ok:
  "ev_stat_err e TQueue = None \<Longrightarrow> ev_read_err e TQueue = None \<Longrightarrow> es_queue s \<noteq> Corrupt \<Longrightarrow>
   \<exists>q. load_queue_async e s = (Inr q, s) \<and> eq_items q = queued_items s"
  by (cases "es_queue s") (auto simp: load_queue_async_def stat_async_def queued_items_def queue_new_def)

lemma sync_async_ops:
  assumes "ev_stat_err e = (\<lambda>_. None)"
  shows "load_queue e = load_queue_async e" "remove_running e k = remove_running_async e k"
    "remove_local_report_artifacts e k = remove_local_report_artifacts_async e k"
    "remove_queued_execution e k = remove_queued_execution_async e k"
    "lookup_queued_execution e k = lookup_queued_execution_async e k"
    "find_duplicate_execution e a d = find_duplicate_execution_async e a d"
proof -
  show 1: "load_queue e = load_queue_async e"
    using assms by (auto simp: load_queue_def load_queue_async_def path_exists_def stat_async_def fun_eq_iff)
  show "remove_running e k = remove_running_async e k"
    using assms by (auto simp: remove_running_def remove_running_async_def path_exists_def remove_op_def fun_eq_iff)
  show "remove_local_report_artifacts e k = remove_local_report_artifacts_async e k"
    using assms by (simp add: remove_local_report_artifacts_def remove_local_report_artifacts_async_def path_exists_def)
  show "remove_queued_execution e k = remove_queued_execution_async e k"
    by (rule ext) (use assms in \<open>auto simp: remove_queued_execution_def remove_queued_execution_async_def
        path_exists_def stat_async_def 1\<close>)
  show "lookup_queued_execution e k = lookup_queued_execution_async e k"
    by (rule ext) (use assms in \<open>auto simp: lookup_queued_execution_def lookup_queued_execution_async_def
        path_exists_def stat_async_def 1\<close>)
  show "find_duplicate_execution e a d = find_duplicate_execution_async e a d"
    using assms 1 by (simp add: find_duplicate_execution_def find_duplicate_execution_async_def stat_async_def
        path_exists_def find_duplicate_running_execution_def find_duplicate_running_execution_async_def
        find_duplicate_reporting_execution_def find_duplicate_reporting_execution_async_def
        find_duplicate_history_execution_def find_duplicate_history_execution_async_def)
qed

lemma quarantine_sync_async:
  "ev_stat_err e = (\<lambda>_. None) \<Longrightarrow> quarantine_execution e r = quarantine_execution_async e r"
  by (cases "qr_running_path r")
    (simp_all add: quarantine_execution_def quarantine_execution_async_def sync_async_ops)

lemma find_duplicate_async_iff:
  assumes "ev_stat_err e = (\<lambda>_. None)" "ev_read_err e = (\<lambda>_. None)" "wf_dirs s" "es_queue s \<noteq> Corrupt"
  shows "\<exists>r. find_duplicate_execution_async e a d s = (Inr r, s) \<and> (r \<noteq> None) = (\<exists>k. tracks s k (a, d))"
proof -
  obtain q where q: "load_queue_async e s = (Inr q, s)" "eq_items q = queued_items s"
    using load_queue_ok[of e s] assms by auto
  let ?xs = "[queue_matches a d q, find_in_dir (\<lambda>_. read_json_async) (running_matches a d) (es_running s),
    find_in_dir (\<lambda>_. read_json_async) (reporting_matches a d) (es_reporting s),
    find_in_dir (\<lambda>_. read_json_async) (history_matches a d) (es_history s)]"
  have "find_duplicate_execution_async e a d s = (first_hit (map Inr ?xs), s)"
    using assms q by (simp add: find_duplicate_execution_async_def bind_op_def stat_async_def
      find_duplicate_running_execution_async_def find_duplicate_reporting_execution_async_def
      find_duplicate_history_execution_async_def)
  moreover have "(\<exists>x\<in>set ?xs. x \<noteq> None) = (\<exists>k. tracks s k (a, d))"
  proof -
    have "queue_matches a d q \<noteq> None \<longleftrightarrow> (\<exists>k. queued_with s k (a, d))"
      unfolding queue_matches_iff q(2) queued_with_def by auto
    moreover have "find_in_dir (\<lambda>_. read_json_async) (running_matches a d) (es_running s) \<noteq> None \<longleftrightarrow> (\<exists>k. running_plan s k = Some (a, d))"
      using assms(3) unfolding wf_dirs_def
      by (subst find_in_dir_plan) (auto simp: plan_iffs running_matches_def)
    moreover have "find_in_dir (\<lambda>_. read_json_async) (reporting_matches a d) (es_reporting s) \<noteq> None \<longleftrightarrow> (\<exists>k. reported_plan s k = Some (a, d))"
      using assms(3) unfolding wf_dirs_def
      by (subst find_in_dir_plan) (auto simp: plan_iffs reporting_matches_def)
    moreover have "find_in_dir (\<lambda>_. read_json_async) (history_matches a d) (es_history s) \<noteq> None \<longleftrightarrow> (\<exists>k. history_plan s k = Some (a, d))"
      using assms(3) unfolding wf_dirs_def
      by (subst find_in_dir_plan) (auto simp: plan_iffs history_matches_def)
    ultimately show ?thesis unfolding tracks_def by auto
  qed
  ultimately show ?thesis using first_hit_Inr[of ?xs] by auto
qed

subsection \<open>Quarantine never forgets\<close>

text \<open>Removing records of one execution keeps what is tracked, as long as one record of it stays.\<close>

lemma tracks_shrink:
  assumes "coherent s" "tracks s' k pd0" "\<And>pd. tracks s' k pd \<Longrightarrow> tracks s k pd"
    and "\<And>j pd. j \<noteq> k \<Longrightarrow> tracks s' j pd = tracks s j pd"
  shows "tracks s' = tracks s"
proof (intro ext)
  fix j pd
  show "tracks s' j pd = tracks s j pd"
  proof (cases "j = k")
    case True
    then show ?thesis using assms(1-3) coherentD[of s k pd0 pd] by metis
  qed (simp add: assms(4))
qed

lemma triple_remove [triple_intros]:
  "(\<And>s. P s \<Longrightarrow> Q () s) \<Longrightarrow> (\<And>s. P s \<Longrightarrow> Q () (f s)) \<Longrightarrow> (\<And>s. P s \<Longrightarrow> E s) \<Longrightarrow>
   triple P (remove_op e t present f) Q E"
  by (auto simp: triple_def remove_op_def split: option.splits)

lemma keeps_remove: "(\<And>s. I s \<Longrightarrow> I (f s)) \<Longrightarrow> keeps I (remove_op e t present f)"
  by (rule triple_remove)

lemma keeps_stat:
  assumes "\<And>t. keeps I (f t)"
  shows "keeps I (\<lambda>t. case stat_async e tg (pr t) of
      Inl err \<Rightarrow> (Inl err, t) | Inr False \<Rightarrow> (Inr a, t) | Inr True \<Rightarrow> f t t)"
  using keepsD[OF assms] by (intro keepsI) (auto split: sum.splits bool.splits)

lemma tracks_frame [simp]:
  "tracks (s\<lparr>es_envelopes := x1\<rparr>) = tracks s" "tracks (s\<lparr>es_plans := x2\<rparr>) = tracks s"
  "tracks (s\<lparr>es_results := x3\<rparr>) = tracks s" "tracks (s\<lparr>es_progress := x4\<rparr>) = tracks s"
  "tracks (s\<lparr>es_runtimes := x5\<rparr>) = tracks s" "tracks (s\<lparr>es_signals := x6\<rparr>) = tracks s"
  by (simp_all add: fun_eq_iff tracks_def plan_defs)

lemma anchored_frame [simp]:
  "anchored (s\<lparr>es_envelopes := x1\<rparr>) = anchored s" "anchored (s\<lparr>es_reporting := x2\<rparr>) = anchored s"
  "anchored (s\<lparr>es_history := x3\<rparr>) = anchored s"
  by (simp_all add: fun_eq_iff anchored_def plan_defs)

lemma plan_frame [simp]:
  "history_plan (s\<lparr>es_queue := x1\<rparr>) = history_plan s" "history_plan (s\<lparr>es_running := x2\<rparr>) = history_plan s"
  "reported_plan (s\<lparr>es_queue := x1\<rparr>) = reported_plan s" "reported_plan (s\<lparr>es_running := x2\<rparr>) = reported_plan s"
  "running_plan (s\<lparr>es_queue := x1\<rparr>) = running_plan s" "running_plan (s\<lparr>es_reporting := x3\<rparr>) = running_plan s"
  "reported_plan (s\<lparr>es_signals := x6\<rparr>) = reported_plan s" "running_plan (s\<lparr>es_signals := x6\<rparr>) = running_plan s"
  "history_plan (s\<lparr>es_signals := x6\<rparr>) = history_plan s" "queued_items (s\<lparr>es_signals := x6\<rparr>) = queued_items s"
  "queued_items (s\<lparr>es_running := x2\<rparr>) = queued_items s" "queued_items (s\<lparr>es_reporting := x3\<rparr>) = queued_items s"
  by (simp_all add: fun_eq_iff plan_defs)

lemma tracks_del_reporting:
  assumes "coherent s" "anchored s k pd0"
  shows "tracks (s\<lparr>es_reporting := dir_del k (es_reporting s)\<rparr>) = tracks s" (is "tracks ?s' = _")
proof (rule tracks_shrink[OF assms(1)])
  show "tracks ?s' k pd0" using assms(2) by (intro anchored_tracks) simp
qed (auto simp: tracks_def plan_defs dir_laws)

lemma tracks_put_history:
  assumes "coherent s" "tracks s k (a, d)" "hr_action_id h = Some a" "hr_plan_digest h = Some d"
  shows "tracks (s\<lparr>es_history := dir_put k h (es_history s)\<rparr>) = tracks s" (is "tracks ?s' = _")
proof (rule tracks_shrink[OF assms(1)])
  show "tracks ?s' k (a, d)" using assms by (simp add: tracks_def history_plan_def dir_laws)
  show "tracks ?s' k pd \<Longrightarrow> tracks s k pd" for pd
    using assms by (auto simp: tracks_def plan_defs dir_laws)
  show "j \<noteq> k \<Longrightarrow> tracks ?s' j pd = tracks s j pd" for j pd
    by (simp add: tracks_def plan_defs dir_laws)
qed

lemma tracks_del_running:
  assumes "coherent s" "history_plan s k = Some pd0 \<or> reported_plan s k = Some pd0"
  shows "tracks (s\<lparr>es_running := dir_del k (es_running s)\<rparr>) = tracks s" (is "tracks ?s' = _")
proof (rule tracks_shrink[OF assms(1)])
  show "tracks ?s' k pd0" using assms(2) by (auto simp: tracks_def plan_defs)
qed (auto simp: tracks_def plan_defs dir_laws)

lemma tracks_queue_remove:
  assumes "coherent s" "history_plan s k = Some pd0 \<or> reported_plan s k = Some pd0" "es_queue s = Present q"
  shows "tracks (s\<lparr>es_queue := Present (queue_remove now k q)\<rparr>) = tracks s" (is "tracks ?s' = _")
proof (rule tracks_shrink[OF assms(1)])
  show "tracks ?s' k pd0" using assms(2) by (auto simp: tracks_def plan_defs)
qed (use assms(3) in \<open>auto simp: tracks_def plan_defs queue_remove_items\<close>)

lemma load_queue_async_same: "load_queue_async e s = (r, s') \<Longrightarrow> s' = s"
  by (auto simp: load_queue_async_def split: sum.splits bool.splits)

lemma lookup_queued_async_same: "lookup_queued_execution_async e k s = (r, s') \<Longrightarrow> s' = s"
  by (auto simp: lookup_queued_execution_async_def bind_op_def return_op_def
      split: sum.splits bool.splits prod.splits dest: load_queue_async_same)

lemma remove_queued_async_cases:
  assumes "remove_queued_execution_async e k s = (r, s')"
  obtains "s' = s" "\<exists>err. r = Inl err"
  | "s' = s" "r = Inr ()" "\<forall>i\<in>set (queued_items s). qi_execution_id i \<noteq> k"
  | q where "es_queue s = Present q" "s' = s\<lparr>es_queue := Present (queue_remove (ev_now e) k q)\<rparr>"
proof (cases "es_queue s")
  case (Present q)
  have len: "length (eq_items (queue_remove (ev_now e) k q)) = length (eq_items q) \<Longrightarrow>
      \<forall>i\<in>set (eq_items q). qi_execution_id i \<noteq> k"
    by (metis exec_queue.del_shrinks nat_neq_iff)
  show thesis
  proof (cases "ev_write e TQueue")
    case Done
    then show thesis using assms Present that len
      by (auto simp: remove_queued_execution_async_def stat_async_def load_queue_async_def bind_op_def
          return_op_def store_queue_def Let_def queued_items_def read_file_def split: option.splits if_splits)
  next
    case (FailedBefore k)
    then show thesis using assms Present that len
      by (auto simp: remove_queued_execution_async_def stat_async_def load_queue_async_def bind_op_def
          return_op_def store_queue_def Let_def queued_items_def read_file_def split: option.splits if_splits)
  next
    case (FailedAfter k)
    then show thesis using assms Present that len
      by (auto simp: remove_queued_execution_async_def stat_async_def load_queue_async_def bind_op_def
          return_op_def store_queue_def Let_def queued_items_def read_file_def split: option.splits if_splits)
  qed
qed (use assms that in \<open>auto simp: remove_queued_execution_async_def stat_async_def load_queue_async_def
      bind_op_def queued_items_def read_file_def split: option.splits\<close>)

lemma quarantine_tracks:
  assumes "coherent s" "anchored s (qr_execution_id r) pd0"
    and "qr_action_id r = Some (fst pd0)" "qr_plan_digest r = Some (snd pd0)"
    and "qr_running_path r = None \<or> qr_running_path r = Some (qr_execution_id r)"
  shows "tracks (snd (quarantine_execution_async e r s)) = tracks s"
proof -
  let ?k = "qr_execution_id r"
  let ?P = "\<lambda>t. tracks t = tracks s \<and> anchored t ?k pd0"
  let ?R = "\<lambda>t. tracks t = tracks s \<and> history_plan t ?k = Some pd0"
  let ?E = "\<lambda>t. tracks t = tracks s"
  have coh: "tracks t = tracks s \<Longrightarrow> coherent t" for t using assms(1) coherent_cong by blast
  have art: "triple ?P (remove_local_report_artifacts_async e ?k) (\<lambda>_. ?P) ?E"
    unfolding remove_local_report_artifacts_async_def
    by (rule triple_bind[where R = "\<lambda>_. ?P"]; intro triple_remove) (auto simp: tracks_del_reporting coh)
  have put: "?R (t\<lparr>es_history := dir_put ?k (quarantine_record e r qi) (es_history t)\<rparr>)" if "?P t" for t qi
    using tracks_put_history[of t ?k "fst pd0" "snd pd0" "quarantine_record e r qi"] that assms(3,4)
      coh[of t] anchored_tracks[of t ?k pd0]
    by (simp add: quarantine_record_def history_quarantined_def history_plan_def dir_laws)
  have hist: "triple ?P (store_history e ?k (quarantine_record e r qi)) (\<lambda>_. ?R) ?E" for qi
    unfolding store_history_def by (rule triple_write) (use put in blast)+
  have rem: "tracks (t\<lparr>es_queue := Present (queue_remove (ev_now e) ?k q)\<rparr>) = tracks s"
    if "?R t" "es_queue t = Present q" for t q
    using tracks_queue_remove[of t ?k pd0 q] that coh[of t] by simp
  have rq: "triple ?R (remove_queued_execution_async e ?k) (\<lambda>_. ?R) ?E"
  proof (rule tripleI)
    fix t a t' assume t: "?R t" "remove_queued_execution_async e ?k t = (Inr a, t')"
    from t(2) show "?R t'"
      by (cases rule: remove_queued_async_cases) (use t rem in auto)
  next
    fix t err t' assume t: "?R t" "remove_queued_execution_async e ?k t = (Inl err, t')"
    from t(2) show "?E t'"
      by (cases rule: remove_queued_async_cases) (use t rem in auto)
  qed
  have run: "triple ?R (remove_running_async e ?k) (\<lambda>_. ?E) ?E"
    unfolding remove_running_async_def
    by (intro triple_remove) (use tracks_del_running[of _ ?k pd0] coh in auto)
  have ret: "triple ?R (return_op ()) (\<lambda>_. ?R) ?E" "triple ?R (return_op ()) (\<lambda>_. ?E) ?E"
    by (simp_all add: triple_def return_op_def)
  have look: "triple ?P (lookup_queued_execution_async e ?k) (\<lambda>_. ?P) ?E"
    by (rule tripleI) (use lookup_queued_async_same in blast)+
  have "triple ?P (quarantine_execution_async e r) (\<lambda>_. ?E) ?E"
    unfolding quarantine_execution_async_def
    by (rule triple_bind[OF look], rule triple_bind[OF art], rule triple_bind[OF hist])
      (use assms(5) rq run ret in \<open>auto intro!: triple_bind\<close>)
  then show ?thesis
    using assms(2) by (cases "quarantine_execution_async e r s"; cases "fst (quarantine_execution_async e r s)")
      (auto dest: triple_okD triple_errD)
qed

lemma remove_op_ok:
  "remove_op e t present f s = (Inr u, s') \<longleftrightarrow> \<not> present s \<and> s' = s \<or> present s \<and> s' = f s \<and> ev_remove_err e t = None"
  by (auto simp: remove_op_def split: option.splits if_splits)

lemma remove_reports_ok:
  assumes "remove_local_report_artifacts_async e k s = (Inr u, s')"
  shows "dir_get (es_reporting s') k = Missing \<and> dir_get (es_envelopes s') k = Missing \<and>
    (\<forall>j. j \<noteq> k \<longrightarrow> dir_get (es_reporting s') j = dir_get (es_reporting s) j
               \<and> dir_get (es_envelopes s') j = dir_get (es_envelopes s) j) \<and>
    s' = s\<lparr>es_reporting := es_reporting s', es_envelopes := es_envelopes s'\<rparr>"
  using assms by (auto simp: remove_local_report_artifacts_async_def bind_op_ok remove_op_ok file_exists_iff dir_laws)

lemma remove_running_ok:
  assumes "remove_running_async e k s = (Inr u, s')"
  shows "dir_get (es_running s') k = Missing \<and> (\<forall>j. j \<noteq> k \<longrightarrow> dir_get (es_running s') j = dir_get (es_running s) j)
    \<and> s' = s\<lparr>es_running := es_running s'\<rparr>"
  using assms by (auto simp: remove_running_async_def remove_op_ok file_exists_iff dir_laws)

lemma remove_queued_ok:
  assumes "remove_queued_execution_async e k s = (Inr u, s')"
  shows "queued_items s' = filter (\<lambda>i. qi_execution_id i \<noteq> k) (queued_items s) \<and> s' = s\<lparr>es_queue := es_queue s'\<rparr>"
  using assms by (cases rule: remove_queued_async_cases)
    (auto simp: queued_items_def queue_remove_items filter_id_conv)

text \<open>A successful quarantine: the history says so, the report files, the queue entry and the running
  state of the execution are gone, and nothing of any other execution has changed.\<close>

lemma quarantine_ok:
  assumes q: "quarantine_execution_async e r s = (Inr u, s')"
    and r: "qr_remove_from_queue r" "qr_running_path r = Some p"
  shows "(\<exists>h. dir_get (es_history s') (qr_execution_id r) = Present h \<and> hr_execution_id h = qr_execution_id r \<and>
            hr_state h = ''quarantined'' \<and> hr_detail h = qr_detail r) \<and>
    dir_get (es_reporting s') (qr_execution_id r) = Missing \<and>
    dir_get (es_envelopes s') (qr_execution_id r) = Missing \<and>
    queued_items s' = filter (\<lambda>i. qi_execution_id i \<noteq> qr_execution_id r) (queued_items s) \<and>
    dir_get (es_running s') p = Missing \<and>
    (\<forall>j. j \<noteq> qr_execution_id r \<longrightarrow> dir_get (es_history s') j = dir_get (es_history s) j \<and>
            dir_get (es_reporting s') j = dir_get (es_reporting s) j \<and>
            dir_get (es_envelopes s') j = dir_get (es_envelopes s) j) \<and>
    (\<forall>j. j \<noteq> p \<longrightarrow> dir_get (es_running s') j = dir_get (es_running s) j) \<and>
    es_plans s' = es_plans s \<and> es_results s' = es_results s \<and> es_signals s' = es_signals s"
proof -
  let ?k = "qr_execution_id r"
  from q obtain qi s0 s1 s2 s3 where
    1: "lookup_queued_execution_async e ?k s = (Inr qi, s0)"
    and 2: "remove_local_report_artifacts_async e ?k s0 = (Inr (), s1)"
    and 3: "store_history e ?k (quarantine_record e r qi) s1 = (Inr (), s2)"
    and 4: "remove_queued_execution_async e ?k s2 = (Inr (), s3)"
    and 5: "remove_running_async e p s3 = (Inr (), s')"
    using r by (auto simp: quarantine_execution_async_def bind_op_ok)
  have "s0 = s" using 1 by (rule lookup_queued_async_same)
  note 2 = 2[unfolded this]
  have s2: "s2 = s1\<lparr>es_history := dir_put ?k (quarantine_record e r qi) (es_history s1)\<rparr>"
    using 3 unfolding store_history_def by (rule write_op_ok)
  note facts = remove_reports_ok[OF 2] remove_queued_ok[OF 4] remove_running_ok[OF 5]
  have s1: "s1 = s\<lparr>es_reporting := es_reporting s1, es_envelopes := es_envelopes s1\<rparr>" using facts by blast
  have s3: "s3 = s2\<lparr>es_queue := es_queue s3\<rparr>" using facts by blast
  have s': "s' = s3\<lparr>es_running := es_running s'\<rparr>" using facts by blast
  have eqs: "es_history s' = es_history s2" "es_reporting s' = es_reporting s1" "es_envelopes s' = es_envelopes s1"
    "es_queue s' = es_queue s3" "es_running s3 = es_running s" "queued_items s2 = queued_items s"
    "es_history s1 = es_history s" "es_plans s' = es_plans s" "es_results s' = es_results s" "es_signals s' = es_signals s"
    by (subst s' s3 s2 s1, simp add: s2 queued_items_def)+
  then have "queued_items s' = queued_items s3" by (simp add: queued_items_def)
  then show ?thesis
    using facts eqs by (simp add: s2 dir_laws quarantine_record_def history_quarantined_def)
qed

end
