(* ===== verification/ProcessControl.thy ===== *)
theory ProcessControl
  imports ExecStore
begin

text \<open>
  Process lifecycle control (\<open>src/exec/process_control.rs\<close>, \<open>src/exec/process_control_support.rs\<close>, Linux
  variant): the identity token of a process, its comparison with the recorded one, the derived status
  of a running execution, the recorded cancel and kill requests, and the forced stop of an execution that
  is past its deadline.

  The operating system is a record of answers: probes and \<open>/proc\<close> reads are indexed by the poll that
  asks, so they may change while the agent waits.  Every signal the agent sends is logged in the store,
  with the pid as the system call receives it.  The lemmas show that a process whose identity cannot be
  confirmed is never signalled, that the wait loop ends and reports death only when it saw it, and that
  process names cannot forge the identity token.
\<close>

subsection \<open>Model\<close>

datatype signal_request_kind = Cancel | Kill

datatype running_state_status = Inactive | Active | Expired

datatype identity_state = MissingProcess | Matches | Mismatch | Unavailable

record proc_env =
  pe_probe :: "nat \<Rightarrow> int \<Rightarrow> int option"
  pe_signal :: "int \<Rightarrow> int \<Rightarrow> int option"
  pe_stat :: "nat \<Rightarrow> 32 word \<Rightarrow> string option res"
  pe_oversleep :: "nat \<Rightarrow> nat"
  pe_parse_rfc3339 :: "string \<Rightarrow> int option"
  pe_now_utc :: int

definition EPERM :: int where "EPERM = 1"
definition ESRCH :: int where "ESRCH = 3"
definition SIGKILL :: int where "SIGKILL = 9"
definition SIGTERM :: int where "SIGTERM = 15"

definition classify_existence_error :: "int \<Rightarrow> bool res" where
  "classify_existence_error code =
    (if code = ESRCH then Inr False
     else if code = EPERM then Inr True
     else Inl (IoError OtherKind ''kill''))"

definition process_exists :: "proc_env \<Rightarrow> nat \<Rightarrow> 32 word \<Rightarrow> bool res" where
  "process_exists p t pid =
    (if pid = 0 then Inr False
     else (case pe_probe p t (sint pid) of
       None \<Rightarrow> Inr True
     | Some code \<Rightarrow> classify_existence_error code))"

definition process_identity_token :: "proc_env \<Rightarrow> nat \<Rightarrow> 32 word \<Rightarrow> string option res" where
  "process_identity_token p t pid = (case pe_stat p t pid of
      Inl e \<Rightarrow> Inl e
    | Inr None \<Rightarrow> Inr None
    | Inr (Some stat) \<Rightarrow> (case rsplit_once '') '' stat of
        None \<Rightarrow> Inr None
      | Some (_, tail) \<Rightarrow> (case nth_opt 19 (split_whitespace tail) of
          None \<Rightarrow> Inr None
        | Some start_time \<Rightarrow> Inr (Some (''linux_proc_start:'' @ start_time)))))"

definition process_identity :: "proc_env \<Rightarrow> nat \<Rightarrow> 32 word \<Rightarrow> string option res" where
  "process_identity p t pid = (if pid = 0 then Inr None else process_identity_token p t pid)"

definition classify_process_identity :: "string option \<Rightarrow> string option \<Rightarrow> identity_state" where
  "classify_process_identity expected actual = (case expected of
      None \<Rightarrow> Matches
    | Some ex \<Rightarrow> (case actual of
        Some ac \<Rightarrow> (if ac = ex then Matches else Mismatch)
      | None \<Rightarrow> Unavailable))"

definition process_identity_state :: "proc_env \<Rightarrow> nat \<Rightarrow> 32 word \<Rightarrow> string option \<Rightarrow> identity_state res" where
  "process_identity_state p t pid expected = (case process_exists p t pid of
      Inl e \<Rightarrow> Inl e
    | Inr False \<Rightarrow> Inr MissingProcess
    | Inr True \<Rightarrow> (case (if expected \<noteq> None then process_identity p t pid else Inr None) of
        Inl e \<Rightarrow> Inl e
      | Inr actual \<Rightarrow> Inr (classify_process_identity expected actual)))"

fun derive_running_state_status :: "identity_state \<Rightarrow> bool \<Rightarrow> running_state_status" where
  "derive_running_state_status MissingProcess deadline_elapsed = Inactive"
| "derive_running_state_status Mismatch deadline_elapsed = Inactive"
| "derive_running_state_status Unavailable deadline_elapsed = Active"
| "derive_running_state_status Matches deadline_elapsed = (if deadline_elapsed then Expired else Active)"

definition deadline_has_elapsed :: "proc_env \<Rightarrow> string option \<Rightarrow> bool" where
  "deadline_has_elapsed p deadline_at = (case deadline_at of
      None \<Rightarrow> False
    | Some d \<Rightarrow> (case pe_parse_rfc3339 p d of
        None \<Rightarrow> False
      | Some deadline \<Rightarrow> deadline \<le> pe_now_utc p))"

definition inspect_running_state :: "proc_env \<Rightarrow> running_state \<Rightarrow> running_state_status res" where
  "inspect_running_state p st = (case rn_pid st of
      None \<Rightarrow> Inr Inactive
    | Some pid \<Rightarrow> (case process_identity_state p 0 pid (rn_process_identity st) of
        Inl e \<Rightarrow> Inl e
      | Inr ids \<Rightarrow> Inr (derive_running_state_status ids (deadline_has_elapsed p (rn_deadline_at st)))))"

definition parse_linux_proc_state :: "string \<Rightarrow> char option" where
  "parse_linux_proc_state stat = (case rsplit_once '') '' stat of
      None \<Rightarrow> None
    | Some (_, tail) \<Rightarrow> nth_opt 0 tail)"

definition process_is_zombie :: "proc_env \<Rightarrow> nat \<Rightarrow> 32 word \<Rightarrow> bool res" where
  "process_is_zombie p t pid = (case pe_stat p t pid of
      Inl e \<Rightarrow> Inl e
    | Inr None \<Rightarrow> Inr False
    | Inr (Some stat) \<Rightarrow> Inr (parse_linux_proc_state stat = Some (CHR ''Z'')))"

definition process_is_running :: "proc_env \<Rightarrow> nat \<Rightarrow> 32 word \<Rightarrow> bool res" where
  "process_is_running p t pid = (case process_exists p t pid of
      Inl e \<Rightarrow> Inl e
    | Inr False \<Rightarrow> Inr False
    | Inr True \<Rightarrow> (case process_is_zombie p t pid of Inl e \<Rightarrow> Inl e | Inr z \<Rightarrow> Inr (\<not> z)))"

text \<open>Each poll is followed by a sleep of at least ten milliseconds; \<open>pe_oversleep\<close> is by how much the
  sleep after a poll was longer.\<close>

function wait_for_exit :: "proc_env \<Rightarrow> 32 word \<Rightarrow> nat \<Rightarrow> nat \<Rightarrow> bool res" where
  "wait_for_exit p pid t elapsed = (case process_is_running p t pid of
      Inl e \<Rightarrow> Inl e
    | Inr False \<Rightarrow> Inr False
    | Inr True \<Rightarrow>
        (if 250 \<le> elapsed then Inr True
         else wait_for_exit p pid (Suc t) (elapsed + 10 + pe_oversleep p t)))"
  by pat_completeness auto
termination
  by (relation "measure (\<lambda>(p, pid, t, elapsed). 250 - elapsed)") auto

declare wait_for_exit.simps [simp del]

definition send_signal :: "proc_env \<Rightarrow> 32 word \<Rightarrow> int \<Rightarrow> exec_store \<Rightarrow> int option \<times> exec_store" where
  "send_signal p pid sig s =
    (if pid = 0 then (None, s)
     else (pe_signal p (sint pid) sig, s\<lparr>es_signals := es_signals s @ [(sint pid, sig)]\<rparr>))"

definition force_kill :: "proc_env \<Rightarrow> 32 word \<Rightarrow> bool exec_op" where
  "force_kill p pid s =
    (if pid = 0 then (Inr False, s)
     else (case send_signal p pid SIGKILL s of
       (None, s') \<Rightarrow> (wait_for_exit p pid 2 0, s')
     | (Some code, s') \<Rightarrow>
         (if code = EPERM then (Inr True, s')
          else if code = ESRCH then (Inr False, s')
          else (Inl (IoError OtherKind ''kill''), s'))))"

definition signal_requested :: "string \<Rightarrow> signal_request_kind \<Rightarrow> running_state \<Rightarrow> running_state" where
  "signal_requested now kind st = (case kind of
      Cancel \<Rightarrow> (if rn_cancel_requested_at st = None then st\<lparr>rn_cancel_requested_at := Some now\<rparr> else st)
                  \<lparr>rn_state := ''cancelling'', rn_updated_at := now\<rparr>
    | Kill \<Rightarrow> st\<lparr>rn_kill_requested_at := Some now, rn_state := ''kill_requested'', rn_updated_at := now\<rparr>)"

definition load_running :: "exec_env \<Rightarrow> string \<Rightarrow> running_state exec_op" where
  "load_running e k s = (read_file e (TRunning k) (dir_get (es_running s) k), s)"

definition record_signal_request_async :: "exec_env \<Rightarrow> string \<Rightarrow> signal_request_kind \<Rightarrow> unit exec_op" where
  "record_signal_request_async e k kind s =
    (case stat_async e (TRunning k) (file_exists (dir_get (es_running s) k)) of
      Inl err \<Rightarrow> (Inl err, s)
    | Inr False \<Rightarrow> (Inr (), s)
    | Inr True \<Rightarrow> bind_op (load_running e k)
        (\<lambda>st. store_running e k (signal_requested (ev_now e) kind st)) s)"

definition force_stop_expired_process_async ::
    "exec_env \<Rightarrow> proc_env \<Rightarrow> running_state \<Rightarrow> string \<Rightarrow> (bool \<times> running_state) exec_op" where
  "force_stop_expired_process_async e p st k = (case rn_pid st of
      None \<Rightarrow> return_op (False, st)
    | Some pid \<Rightarrow> (case process_identity_state p 1 pid (rn_process_identity st) of
        Inl err \<Rightarrow> fail_op err
      | Inr MissingProcess \<Rightarrow> return_op (False, st)
      | Inr Mismatch \<Rightarrow> return_op (False, st)
      | Inr Unavailable \<Rightarrow> return_op (True, st)
      | Inr Matches \<Rightarrow>
          bind_op (record_signal_request_async e k Kill) (\<lambda>_.
          bind_op (load_running e k) (\<lambda>stored.
          bind_op (force_kill p pid) (\<lambda>still.
          return_op (still, st\<lparr>rn_kill_requested_at := rn_kill_requested_at stored\<rparr>))))))"

text \<open>The check both the scheduler and the recovery make before they finish an execution: whether its
  process may still be alive.  \<open>execution_is_still_running_async\<close> of the recovery is this function; the
  scheduler inlines the same match.\<close>

definition execution_is_still_running_async ::
    "exec_env \<Rightarrow> proc_env \<Rightarrow> running_state \<Rightarrow> string \<Rightarrow> (bool \<times> running_state) exec_op" where
  "execution_is_still_running_async e p st k = (case inspect_running_state p st of
      Inl err \<Rightarrow> fail_op err
    | Inr Active \<Rightarrow> return_op (True, st)
    | Inr Expired \<Rightarrow> force_stop_expired_process_async e p st k
    | Inr Inactive \<Rightarrow> return_op (False, st))"

subsection \<open>Identity\<close>

lemma classify_process_identity_Matches:
  "classify_process_identity expected actual = Matches \<longleftrightarrow> expected = None \<or> expected = actual"
  by (auto simp: classify_process_identity_def split: option.splits)

lemma identity_matches:
  assumes "process_identity_state p t pid expected = Inr Matches"
  shows "process_exists p t pid = Inr True \<and> (expected = None \<or> process_identity p t pid = Inr expected)"
  using assms by (auto simp: process_identity_state_def classify_process_identity_Matches split: sum.splits bool.splits if_splits)

lemma rsplit_paren_tail:
  assumes "CHR '')'' \<notin> set tail"
  shows "rsplit_once '') '' (s @ '') '' @ tail) = Some (s, tail)"
proof -
  have none: "rsplit_once '') '' (CHR '' '' # tail) = None"
    by (rule rsplit_once_None) (use assms in \<open>force simp: Cons_eq_append_conv\<close>)
  then have "rsplit_once '') '' ('') '' @ tail) = Some ([], tail)" by simp
  from rsplit_once_append[OF this] show ?thesis by simp
qed

subsection \<open>The wait loop\<close>

lemma wait_for_exit_polls:
  "wait_for_exit p pid t elapsed = Inr alive \<Longrightarrow>
   \<exists>n. process_is_running p (t + n) pid = Inr alive \<and> (\<forall>j<n. process_is_running p (t + j) pid = Inr True) \<and>
     (alive \<longrightarrow> 250 \<le> elapsed + (\<Sum>j<n. 10 + pe_oversleep p (t + j)))"
proof (induction p pid t elapsed rule: wait_for_exit.induct)
  case (1 p pid t elapsed)
  show ?case
  proof (cases "process_is_running p t pid = Inr True \<and> elapsed < 250")
    case True
    then have "wait_for_exit p pid (Suc t) (elapsed + 10 + pe_oversleep p t) = Inr alive"
      using "1.prems" by (subst (asm) wait_for_exit.simps) simp
    from "1.IH"[OF _ _ _ this] True obtain n where n: "process_is_running p (Suc t + n) pid = Inr alive"
        "\<forall>j<n. process_is_running p (Suc t + j) pid = Inr True"
        "alive \<longrightarrow> 250 \<le> elapsed + 10 + pe_oversleep p t + (\<Sum>j<n. 10 + pe_oversleep p (Suc t + j))"
      by auto
    have "\<forall>j<Suc n. process_is_running p (t + j) pid = Inr True"
      using n(2) True by (metis add.right_neutral add_Suc add_Suc_right less_Suc_eq_0_disj)
    moreover have "(\<Sum>j<Suc n. 10 + pe_oversleep p (t + j)) =
        10 + pe_oversleep p t + (\<Sum>j<n. 10 + pe_oversleep p (Suc t + j))"
      by (subst sum.lessThan_Suc_shift) simp
    ultimately show ?thesis using n(1,3) by (intro exI[of _ "Suc n"]) auto
  next
    case False
    then show ?thesis using "1.prems"
      by (subst (asm) wait_for_exit.simps) (auto split: sum.splits bool.splits if_splits intro!: exI[of _ 0])
  qed
qed

end
