(* ===== verification/Reporting.thy ===== *)
theory Reporting
  imports ExecStore
begin

text \<open>
  Preparation of the local result report (\<open>src/reporting/reporting_pipeline.rs\<close> and
  \<open>reporting_pipeline_support.rs\<close>): inspection of what is on disk, building of the signed envelope,
  preparation of a new report, rebuilding of a lost envelope, and \<open>ensure\<close>, which the scheduler and the
  recovery call, each in its blocking and its async variant.  The lemmas characterise a successful
  preparation on the store (state and envelope present and in agreement, everything else untouched) and
  show that \<open>ensure\<close> is idempotent.
\<close>

subsection \<open>Model\<close>

record reporting_request =
  rq_execution_id :: string
  rq_action_id :: string
  rq_request_id :: string
  rq_plan_digest :: string
  rq_agent_id :: string
  rq_instance_id :: string
  rq_final_state :: string
  rq_result_path :: string
  rq_result :: action_result

datatype local_report_issue = NewReport | MissingState | CorruptState | MissingEnvelope | CorruptEnvelope
  | ManualRebuild

datatype prepared_report_origin = Existing | Prepared local_report_issue | EnvelopeRebuilt local_report_issue

record prepared_report =
  pr_envelope_path :: string
  pr_envelope :: report_envelope
  pr_state :: reporting_state
  pr_origin :: prepared_report_origin

datatype local_report_inspection = InspReady prepared_report | InspMissingState | InspCorruptState
  | InspMissingEnvelope reporting_state | InspCorruptEnvelope reporting_state

definition reporting_new ::
    "string \<Rightarrow> string \<Rightarrow> string \<Rightarrow> string \<Rightarrow> string \<Rightarrow> string \<Rightarrow> string option \<Rightarrow> string option \<Rightarrow> string option
     \<Rightarrow> 32 word \<Rightarrow> string option \<Rightarrow> string option \<Rightarrow> reporting_state" where
  "reporting_new execution_id action_id plan_digest request_id final_state res_path env_path digest sig
     attempt last_at last_err =
    \<lparr>rs_execution_id = execution_id, rs_action_id = action_id, rs_plan_digest = plan_digest,
     rs_request_id = request_id, rs_final_state = final_state, rs_result_path = res_path,
     rs_report_envelope_path = env_path, rs_result_digest = digest, rs_result_signature = sig,
     rs_report_attempt = attempt, rs_last_report_at = last_at, rs_last_report_error = last_err\<rparr>"

definition final_state_name :: "exec_env \<Rightarrow> action_result \<Rightarrow> string" where
  "final_state_name e r = ev_state_name e (ar_final_status r)"

definition store_reporting :: "exec_env \<Rightarrow> string \<Rightarrow> reporting_state \<Rightarrow> unit exec_op" where
  "store_reporting e k r = write_op (ev_write e (TReporting k))
    (\<lambda>s. s\<lparr>es_reporting := dir_put k r (es_reporting s)\<rparr>)"

definition store_envelope :: "exec_env \<Rightarrow> string \<Rightarrow> report_envelope \<Rightarrow> unit exec_op" where
  "store_envelope e k r = write_op (ev_write e (TEnvelope k))
    (\<lambda>s. s\<lparr>es_envelopes := dir_put k r (es_envelopes s)\<rparr>)"

definition build_report_envelope ::
    "exec_env \<Rightarrow> reporting_request \<Rightarrow> string \<Rightarrow> string \<Rightarrow> 32 word \<Rightarrow> string option \<Rightarrow> string option
     \<Rightarrow> (report_envelope \<times> string \<times> string) res" where
  "build_report_envelope e rq action_id plan_digest attempt digest sig =
    (case ev_digest_result e (rq_result rq) of
      Inl err \<Rightarrow> Inl err
    | Inr computed \<Rightarrow>
        (let result_digest = unwrap_or computed digest;
             result_signature = unwrap_or (ev_sign e (rq_agent_id rq) result_digest) sig;
             reported_at = ev_now e;
             envelope =
               \<lparr>re_report_id = ''rep_'' @ rq_execution_id rq @ ''_'' @ show_nat (unat attempt),
                re_action_id = action_id, re_report_attempt = attempt,
                re_final_status = ar_final_status (rq_result rq), re_execution_id = rq_execution_id rq,
                re_plan_digest = plan_digest, re_agent_id = rq_agent_id rq,
                re_instance_id = rq_instance_id rq,
                re_attestation = \<lparr>at_result_digest = result_digest, at_signature = result_signature,
                  at_issued_by = ev_issuer e (rq_agent_id rq), at_attested_at = reported_at\<rparr>,
                re_reported_at = reported_at, re_result = rq_result rq\<rparr>
         in (case ev_validate e envelope of
               Some code \<Rightarrow> Inl (IoError InvalidData code)
             | None \<Rightarrow> Inr (envelope, result_digest, result_signature))))"

definition inspect_with :: "exec_env \<Rightarrow> string \<Rightarrow> bool \<Rightarrow> bool \<Rightarrow> exec_store \<Rightarrow> local_report_inspection" where
  "inspect_with e k state_exists envelope_exists s =
    (if \<not> state_exists then InspMissingState
     else (case read_file e (TReporting k) (dir_get (es_reporting s) k) of
       Inl _ \<Rightarrow> InspCorruptState
     | Inr st \<Rightarrow>
         (if \<not> envelope_exists then InspMissingEnvelope st
          else (case read_file e (TEnvelope k) (dir_get (es_envelopes s) k) of
            Inl _ \<Rightarrow> InspCorruptEnvelope st
          | Inr env \<Rightarrow> InspReady \<lparr>pr_envelope_path = ev_envelope_path e k, pr_envelope = env,
              pr_state = st, pr_origin = Existing\<rparr>))))"

definition inspect_local_report :: "exec_env \<Rightarrow> string \<Rightarrow> local_report_inspection exec_op" where
  "inspect_local_report e k s =
    (Inr (inspect_with e k
       (path_exists e (TReporting k) (file_exists (dir_get (es_reporting s) k)))
       (path_exists e (TEnvelope k) (file_exists (dir_get (es_envelopes s) k))) s), s)"

definition inspect_local_report_async :: "exec_env \<Rightarrow> string \<Rightarrow> local_report_inspection exec_op" where
  "inspect_local_report_async e k s =
    (case stat_async e (TReporting k) (file_exists (dir_get (es_reporting s) k)) of
      Inl err \<Rightarrow> (Inl err, s)
    | Inr False \<Rightarrow> (Inr InspMissingState, s)
    | Inr True \<Rightarrow> (case read_file e (TReporting k) (dir_get (es_reporting s) k) of
        Inl _ \<Rightarrow> (Inr InspCorruptState, s)
      | Inr st \<Rightarrow> (case stat_async e (TEnvelope k) (file_exists (dir_get (es_envelopes s) k)) of
          Inl err \<Rightarrow> (Inl err, s)
        | Inr present \<Rightarrow> (Inr (inspect_with e k True present s), s))))"

definition load_complete_local_report :: "exec_env \<Rightarrow> string \<Rightarrow> prepared_report option exec_op" where
  "load_complete_local_report e k = bind_op (inspect_local_report e k) (\<lambda>i.
    return_op (case i of InspReady p \<Rightarrow> Some p | _ \<Rightarrow> None))"

definition load_complete_local_report_async :: "exec_env \<Rightarrow> string \<Rightarrow> prepared_report option exec_op" where
  "load_complete_local_report_async e k = bind_op (inspect_local_report_async e k) (\<lambda>i.
    return_op (case i of InspReady p \<Rightarrow> Some p | _ \<Rightarrow> None))"

definition sync_reporting_state ::
    "exec_env \<Rightarrow> string \<Rightarrow> reporting_state \<Rightarrow> string \<Rightarrow> string \<Rightarrow> string \<Rightarrow> reporting_state exec_op" where
  "sync_reporting_state e k st envelope_path result_digest result_signature =
    (let st1 = (if rs_report_envelope_path st \<noteq> Some envelope_path
                then st\<lparr>rs_report_envelope_path := Some envelope_path\<rparr> else st);
         st2 = (if rs_result_digest st1 \<noteq> Some result_digest
                then st1\<lparr>rs_result_digest := Some result_digest\<rparr> else st1);
         st3 = (if rs_result_signature st2 \<noteq> Some result_signature
                then st2\<lparr>rs_result_signature := Some result_signature\<rparr> else st2);
         changed = (rs_report_envelope_path st \<noteq> Some envelope_path
                    \<or> rs_result_digest st1 \<noteq> Some result_digest
                    \<or> rs_result_signature st2 \<noteq> Some result_signature)
     in bind_op (if changed then store_reporting e k st3 else return_op ()) (\<lambda>_. return_op st3))"

definition sync_reporting_state_async ::
    "exec_env \<Rightarrow> string \<Rightarrow> reporting_state \<Rightarrow> string \<Rightarrow> string \<Rightarrow> string \<Rightarrow> reporting_state exec_op" where
  "sync_reporting_state_async e k st envelope_path result_digest result_signature =
    (let st1 = (if rs_report_envelope_path st \<noteq> Some envelope_path
                then st\<lparr>rs_report_envelope_path := Some envelope_path\<rparr> else st);
         st2 = (if rs_result_digest st1 \<noteq> Some result_digest
                then st1\<lparr>rs_result_digest := Some result_digest\<rparr> else st1);
         st3 = (if rs_result_signature st2 \<noteq> Some result_signature
                then st2\<lparr>rs_result_signature := Some result_signature\<rparr> else st2);
         changed = (rs_report_envelope_path st \<noteq> Some envelope_path
                    \<or> rs_result_digest st1 \<noteq> Some result_digest
                    \<or> rs_result_signature st2 \<noteq> Some result_signature)
     in bind_op (if changed then store_reporting e k st3 else return_op ()) (\<lambda>_. return_op st3))"

definition prepare_local_report_with_issue ::
    "exec_env \<Rightarrow> reporting_request \<Rightarrow> local_report_issue \<Rightarrow> prepared_report exec_op" where
  "prepare_local_report_with_issue e rq issue =
    (let k = rq_execution_id rq; path = ev_envelope_path e k in
     bind_op (lift_res (build_report_envelope e rq (rq_action_id rq) (rq_plan_digest rq) 1 None None))
      (\<lambda>(envelope, result_digest, result_signature).
     bind_op (store_envelope e k envelope) (\<lambda>_.
     let st = reporting_new k (rq_action_id rq) (rq_plan_digest rq) (rq_request_id rq) (rq_final_state rq)
           (rq_result_path rq) (Some path) (Some result_digest) (Some result_signature) 0 None None
     in bind_op (store_reporting e k st) (\<lambda>_.
     return_op \<lparr>pr_envelope_path = path, pr_envelope = envelope, pr_state = st,
                pr_origin = Prepared issue\<rparr>))))"

definition prepare_local_report_with_issue_async ::
    "exec_env \<Rightarrow> reporting_request \<Rightarrow> local_report_issue \<Rightarrow> prepared_report exec_op" where
  "prepare_local_report_with_issue_async e rq issue =
    (let k = rq_execution_id rq; path = ev_envelope_path e k in
     bind_op (lift_res (build_report_envelope e rq (rq_action_id rq) (rq_plan_digest rq) 1 None None))
      (\<lambda>(envelope, result_digest, result_signature).
     bind_op (store_envelope e k envelope) (\<lambda>_.
     let st = reporting_new k (rq_action_id rq) (rq_plan_digest rq) (rq_request_id rq) (rq_final_state rq)
           (rq_result_path rq) (Some path) (Some result_digest) (Some result_signature) 0 None None
     in bind_op (store_reporting e k st) (\<lambda>_.
     return_op \<lparr>pr_envelope_path = path, pr_envelope = envelope, pr_state = st,
                pr_origin = Prepared issue\<rparr>))))"

definition rebuild_report_envelope_with_issue ::
    "exec_env \<Rightarrow> reporting_request \<Rightarrow> reporting_state \<Rightarrow> local_report_issue \<Rightarrow> prepared_report exec_op" where
  "rebuild_report_envelope_with_issue e rq st issue =
    (let k = rq_execution_id rq; path = ev_envelope_path e k in
     bind_op (lift_res (build_report_envelope e rq (rs_action_id st) (rs_plan_digest st)
                (sat_inc (rs_report_attempt st)) (rs_result_digest st) (rs_result_signature st)))
      (\<lambda>(envelope, result_digest, result_signature).
     bind_op (store_envelope e k envelope) (\<lambda>_.
     bind_op (sync_reporting_state e k st path result_digest result_signature) (\<lambda>st'.
     return_op \<lparr>pr_envelope_path = path, pr_envelope = envelope, pr_state = st',
                pr_origin = EnvelopeRebuilt issue\<rparr>))))"

definition rebuild_report_envelope_with_issue_async ::
    "exec_env \<Rightarrow> reporting_request \<Rightarrow> reporting_state \<Rightarrow> local_report_issue \<Rightarrow> prepared_report exec_op" where
  "rebuild_report_envelope_with_issue_async e rq st issue =
    (let k = rq_execution_id rq; path = ev_envelope_path e k in
     bind_op (lift_res (build_report_envelope e rq (rs_action_id st) (rs_plan_digest st)
                (sat_inc (rs_report_attempt st)) (rs_result_digest st) (rs_result_signature st)))
      (\<lambda>(envelope, result_digest, result_signature).
     bind_op (store_envelope e k envelope) (\<lambda>_.
     bind_op (sync_reporting_state_async e k st path result_digest result_signature) (\<lambda>st'.
     return_op \<lparr>pr_envelope_path = path, pr_envelope = envelope, pr_state = st',
                pr_origin = EnvelopeRebuilt issue\<rparr>))))"

definition ensure_local_report :: "exec_env \<Rightarrow> reporting_request \<Rightarrow> prepared_report exec_op" where
  "ensure_local_report e rq = bind_op (inspect_local_report e (rq_execution_id rq)) (\<lambda>i. case i of
      InspReady p \<Rightarrow> return_op p
    | InspMissingState \<Rightarrow> prepare_local_report_with_issue e rq MissingState
    | InspCorruptState \<Rightarrow> prepare_local_report_with_issue e rq CorruptState
    | InspMissingEnvelope st \<Rightarrow> rebuild_report_envelope_with_issue e rq st MissingEnvelope
    | InspCorruptEnvelope st \<Rightarrow> rebuild_report_envelope_with_issue e rq st CorruptEnvelope)"

definition ensure_local_report_async :: "exec_env \<Rightarrow> reporting_request \<Rightarrow> prepared_report exec_op" where
  "ensure_local_report_async e rq = bind_op (inspect_local_report_async e (rq_execution_id rq)) (\<lambda>i. case i of
      InspReady p \<Rightarrow> return_op p
    | InspMissingState \<Rightarrow> prepare_local_report_with_issue_async e rq MissingState
    | InspCorruptState \<Rightarrow> prepare_local_report_with_issue_async e rq CorruptState
    | InspMissingEnvelope st \<Rightarrow> rebuild_report_envelope_with_issue_async e rq st MissingEnvelope
    | InspCorruptEnvelope st \<Rightarrow> rebuild_report_envelope_with_issue_async e rq st CorruptEnvelope)"

definition prepare_local_report_async :: "exec_env \<Rightarrow> reporting_request \<Rightarrow> prepared_report exec_op" where
  "prepare_local_report_async e rq = prepare_local_report_with_issue_async e rq NewReport"

definition prepare_local_report :: "exec_env \<Rightarrow> reporting_request \<Rightarrow> prepared_report exec_op" where
  "prepare_local_report e rq = prepare_local_report_with_issue e rq NewReport"

definition rebuild_report_envelope :: "exec_env \<Rightarrow> reporting_request \<Rightarrow> reporting_state \<Rightarrow> prepared_report exec_op" where
  "rebuild_report_envelope e rq st = rebuild_report_envelope_with_issue e rq st ManualRebuild"

definition rebuild_report_envelope_async :: "exec_env \<Rightarrow> reporting_request \<Rightarrow> reporting_state \<Rightarrow> prepared_report exec_op" where
  "rebuild_report_envelope_async e rq st = rebuild_report_envelope_with_issue_async e rq st ManualRebuild"

subsection \<open>A complete report on disk\<close>

text \<open>State and envelope of an execution are both readable, and agree on what was attested.\<close>

definition report_ready :: "exec_store \<Rightarrow> string \<Rightarrow> prepared_report \<Rightarrow> bool" where
  "report_ready s k p \<longleftrightarrow>
     dir_get (es_reporting s) k = Present (pr_state p) \<and> dir_get (es_envelopes s) k = Present (pr_envelope p)"

definition report_consistent :: "prepared_report \<Rightarrow> bool" where
  "report_consistent p \<longleftrightarrow>
     rs_result_digest (pr_state p) = Some (at_result_digest (re_attestation (pr_envelope p))) \<and>
     rs_result_signature (pr_state p) = Some (at_signature (re_attestation (pr_envelope p))) \<and>
     rs_report_envelope_path (pr_state p) = Some (pr_envelope_path p) \<and>
     re_action_id (pr_envelope p) = rs_action_id (pr_state p) \<and>
     re_plan_digest (pr_envelope p) = rs_plan_digest (pr_state p)"

text \<open>Everything of the store except the report files of one execution.\<close>

definition same_but_report :: "string \<Rightarrow> exec_store \<Rightarrow> exec_store \<Rightarrow> bool" where
  "same_but_report k s s' \<longleftrightarrow>
     s'\<lparr>es_reporting := es_reporting s, es_envelopes := es_envelopes s\<rparr> = s \<and>
     (\<forall>j. j \<noteq> k \<longrightarrow> dir_get (es_reporting s') j = dir_get (es_reporting s) j
                 \<and> dir_get (es_envelopes s') j = dir_get (es_envelopes s) j)"

lemmas report_defs = prepare_local_report_with_issue_async_def rebuild_report_envelope_with_issue_async_def
  store_reporting_def store_envelope_def Let_def bind_op_def lift_res_def return_op_def

text \<open>The state after the synchronisation, written only when it differs.\<close>

definition synced_state :: "reporting_state \<Rightarrow> string \<Rightarrow> string \<Rightarrow> string \<Rightarrow> reporting_state" where
  "synced_state st path digest sig =
    st\<lparr>rs_report_envelope_path := Some path, rs_result_digest := Some digest, rs_result_signature := Some sig\<rparr>"

lemma sync_reporting_state_eq:
  "sync_reporting_state_async e k st path digest sig =
    (if synced_state st path digest sig = st then return_op st
     else bind_op (store_reporting e k (synced_state st path digest sig))
       (\<lambda>_. return_op (synced_state st path digest sig)))"
  by (cases st) (simp add: sync_reporting_state_async_def synced_state_def Let_def)

lemma synced_state_ids [simp]:
  "rs_action_id (synced_state st p d g) = rs_action_id st"
  "rs_plan_digest (synced_state st p d g) = rs_plan_digest st"
  "rs_report_envelope_path (synced_state st p d g) = Some p"
  "rs_result_digest (synced_state st p d g) = Some d"
  "rs_result_signature (synced_state st p d g) = Some g"
  by (simp_all add: synced_state_def)

lemma synced_state_fixD:
  "synced_state st p d g = st \<Longrightarrow>
   rs_report_envelope_path st = Some p \<and> rs_result_digest st = Some d \<and> rs_result_signature st = Some g"
  by (metis synced_state_ids)

lemma build_report_envelope_ok:
  assumes "build_report_envelope e rq a d n dg sg = Inr (env, rd, rsig)"
  shows "re_action_id env = a" "re_plan_digest env = d" "re_report_attempt env = n"
    "re_execution_id env = rq_execution_id rq" "re_result env = rq_result rq"
    "re_final_status env = ar_final_status (rq_result rq)"
    "at_result_digest (re_attestation env) = rd" "at_signature (re_attestation env) = rsig"
    "dg \<noteq> None \<Longrightarrow> dg = Some rd" "sg \<noteq> None \<Longrightarrow> sg = Some rsig"
    "dg = None \<Longrightarrow> ev_digest_result e (rq_result rq) = Inr rd"
    "sg = None \<Longrightarrow> rsig = ev_sign e (rq_agent_id rq) rd"
    "ev_validate e env = None"
  using assms by (auto simp: build_report_envelope_def Let_def split: sum.splits option.splits)

lemma same_but_report_refl [simp]: "same_but_report k s s"
  by (simp add: same_but_report_def)

lemma same_but_report_puts [simp]:
  "same_but_report k s (s\<lparr>es_envelopes := dir_put k v (es_envelopes s)\<rparr>)"
  "same_but_report k s (s\<lparr>es_reporting := dir_put k u (es_reporting s)\<rparr>)"
  "same_but_report k s (s\<lparr>es_envelopes := dir_put k v (es_envelopes s), es_reporting := dir_put k u (es_reporting s)\<rparr>)"
  by (simp_all add: same_but_report_def dir_laws)

lemma prepare_ok:
  assumes "prepare_local_report_with_issue_async e rq issue s = (Inr p, s')"
  shows "report_ready s' (rq_execution_id rq) p \<and> report_consistent p \<and>
    same_but_report (rq_execution_id rq) s s' \<and> pr_origin p = Prepared issue \<and>
    rs_action_id (pr_state p) = rq_action_id rq \<and> rs_plan_digest (pr_state p) = rq_plan_digest rq \<and>
    re_result (pr_envelope p) = rq_result rq \<and> re_report_attempt (pr_envelope p) = 1 \<and>
    ev_digest_result e (rq_result rq) = Inr (at_result_digest (re_attestation (pr_envelope p)))"
proof (cases "build_report_envelope e rq (rq_action_id rq) (rq_plan_digest rq) 1 None None")
  case (Inl err) then show ?thesis using assms by (simp add: report_defs)
next
  case (Inr r)
  obtain env rd rsig where r: "r = (env, rd, rsig)" by (cases r)
  show ?thesis
    using assms build_report_envelope_ok[OF Inr[unfolded r]] Inr r
    by (cases "ev_write e (TEnvelope (rq_execution_id rq))"; cases "ev_write e (TReporting (rq_execution_id rq))")
      (auto simp: report_defs reporting_new_def report_ready_def report_consistent_def dir_laws)
qed

lemma prepare_err:
  assumes "prepare_local_report_with_issue_async e rq issue s = (Inl err, s')"
  shows "same_but_report (rq_execution_id rq) s s' \<and>
    (dir_get (es_reporting s') (rq_execution_id rq) = dir_get (es_reporting s) (rq_execution_id rq) \<or>
     (\<exists>st. dir_get (es_reporting s') (rq_execution_id rq) = Present st \<and>
       rs_action_id st = rq_action_id rq \<and> rs_plan_digest st = rq_plan_digest rq))"
proof (cases "build_report_envelope e rq (rq_action_id rq) (rq_plan_digest rq) 1 None None")
  case (Inl err) then show ?thesis using assms by (simp add: report_defs)
next
  case (Inr r)
  obtain env rd rsig where r: "r = (env, rd, rsig)" by (cases r)
  show ?thesis
    using assms Inr r
    by (cases "ev_write e (TEnvelope (rq_execution_id rq))"; cases "ev_write e (TReporting (rq_execution_id rq))")
      (auto simp: report_defs reporting_new_def dir_laws)
qed

lemma rebuild_ok:
  assumes "rebuild_report_envelope_with_issue_async e rq st issue s = (Inr p, s')"
    and "dir_get (es_reporting s) (rq_execution_id rq) = Present st"
  shows "report_ready s' (rq_execution_id rq) p \<and> report_consistent p \<and>
    same_but_report (rq_execution_id rq) s s' \<and> pr_origin p = EnvelopeRebuilt issue \<and>
    rs_action_id (pr_state p) = rs_action_id st \<and> rs_plan_digest (pr_state p) = rs_plan_digest st \<and>
    re_result (pr_envelope p) = rq_result rq \<and>
    re_report_attempt (pr_envelope p) = sat_inc (rs_report_attempt st)"
proof (cases "build_report_envelope e rq (rs_action_id st) (rs_plan_digest st)
    (sat_inc (rs_report_attempt st)) (rs_result_digest st) (rs_result_signature st)")
  case (Inl err) then show ?thesis using assms by (simp add: report_defs)
next
  case (Inr r)
  obtain env rd rsig where r: "r = (env, rd, rsig)" by (cases r)
  show ?thesis
    using assms build_report_envelope_ok[OF Inr[unfolded r]] Inr r
    by (cases "ev_write e (TEnvelope (rq_execution_id rq))"; cases "ev_write e (TReporting (rq_execution_id rq))")
      (auto simp: report_defs sync_reporting_state_eq report_ready_def report_consistent_def dir_laws
        split: if_splits dest!: synced_state_fixD)
qed

lemma rebuild_err:
  assumes "rebuild_report_envelope_with_issue_async e rq st issue s = (Inl err, s')"
    and "dir_get (es_reporting s) (rq_execution_id rq) = Present st"
  shows "same_but_report (rq_execution_id rq) s s' \<and>
    (\<exists>st'. dir_get (es_reporting s') (rq_execution_id rq) = Present st' \<and>
       rs_action_id st' = rs_action_id st \<and> rs_plan_digest st' = rs_plan_digest st)"
proof (cases "build_report_envelope e rq (rs_action_id st) (rs_plan_digest st)
    (sat_inc (rs_report_attempt st)) (rs_result_digest st) (rs_result_signature st)")
  case (Inl err) then show ?thesis using assms by (simp add: report_defs)
next
  case (Inr r)
  obtain env rd rsig where r: "r = (env, rd, rsig)" by (cases r)
  show ?thesis
    using assms Inr r
    by (cases "ev_write e (TEnvelope (rq_execution_id rq))"; cases "ev_write e (TReporting (rq_execution_id rq))")
      (auto simp: report_defs sync_reporting_state_eq dir_laws split: if_splits)
qed

subsection \<open>Ensuring a report\<close>

lemma reported_plan_Present [simp]:
  "dir_get (es_reporting s) k = Present st \<Longrightarrow> reported_plan s k = Some (rs_action_id st, rs_plan_digest st)"
  by (simp add: reported_plan_def)

lemma inspect_async_cases:
  assumes "inspect_local_report_async e k s = (r, s')"
  shows "s' = s" "r = Inr (InspReady p) \<Longrightarrow> report_ready s k p \<and> pr_origin p = Existing"
    "r = Inr InspMissingState \<Longrightarrow> dir_get (es_reporting s) k = Missing"
    "r = Inr (InspMissingEnvelope st) \<Longrightarrow>
       dir_get (es_reporting s) k = Present st \<and> dir_get (es_envelopes s) k = Missing"
    "r = Inr (InspCorruptEnvelope st) \<Longrightarrow> dir_get (es_reporting s) k = Present st"
  using assms
  by (cases "dir_get (es_reporting s) k"; cases "dir_get (es_envelopes s) k";
      auto simp: inspect_local_report_async_def inspect_with_def stat_async_def report_ready_def read_file_def
        split: option.splits)+

lemma ensure_cases:
  assumes "ensure_local_report_async e rq s = (r, s')"
  obtains (err) err where "r = Inl err" "s' = s"
  | (ready) p where "r = Inr p" "s' = s" "report_ready s (rq_execution_id rq) p" "pr_origin p = Existing"
  | (prepare) i where "prepare_local_report_with_issue_async e rq i s = (r, s')"
  | (rebuild) st i where "rebuild_report_envelope_with_issue_async e rq st i s = (r, s')"
      "dir_get (es_reporting s) (rq_execution_id rq) = Present st"
proof -
  obtain i where i: "inspect_local_report_async e (rq_execution_id rq) s = (i, s)"
    using inspect_async_cases(1) by (metis prod.exhaust)
  note cs = inspect_async_cases[OF i]
  show thesis
  proof (cases i)
    case (Inl err)
    then have "r = Inl err" "s' = s" using assms i by (auto simp: ensure_local_report_async_def bind_op_def)
    then show thesis by (rule that(1))
  next
    case (Inr j)
    have eq: "ensure_local_report_async e rq s = (case j of
        InspReady p \<Rightarrow> return_op p
      | InspMissingState \<Rightarrow> prepare_local_report_with_issue_async e rq MissingState
      | InspCorruptState \<Rightarrow> prepare_local_report_with_issue_async e rq CorruptState
      | InspMissingEnvelope st \<Rightarrow> rebuild_report_envelope_with_issue_async e rq st MissingEnvelope
      | InspCorruptEnvelope st \<Rightarrow> rebuild_report_envelope_with_issue_async e rq st CorruptEnvelope) s"
      using i Inr by (simp add: ensure_local_report_async_def bind_op_def)
    show thesis
    proof (cases j)
      case (InspReady p)
      then show thesis using that(2)[of p] cs(2)[of p] assms eq Inr by (simp add: return_op_def)
    next
      case InspMissingState
      then show thesis using that(3) assms eq by simp
    next
      case InspCorruptState
      then show thesis using that(3) assms eq by simp
    next
      case (InspMissingEnvelope st)
      then show thesis using that(4) cs(4)[of st] assms eq Inr by simp
    next
      case (InspCorruptEnvelope st)
      then show thesis using that(4) cs(5)[of st] assms eq Inr by simp
    qed
  qed
qed

lemma ensure_ok:
  assumes "ensure_local_report_async e rq s = (Inr p, s')"
  shows "report_ready s' (rq_execution_id rq) p \<and> same_but_report (rq_execution_id rq) s s' \<and>
    (\<exists>pd. reported_plan s' (rq_execution_id rq) = Some pd \<and>
       (pd = (rq_action_id rq, rq_plan_digest rq) \<or> reported_plan s (rq_execution_id rq) = Some pd))"
  using assms
proof (cases rule: ensure_cases)
  case (ready p') then show ?thesis by (simp add: report_ready_def)
next
  case (prepare i) from prepare_ok[OF prepare] show ?thesis by (simp add: report_ready_def)
next
  case (rebuild st i) from rebuild_ok[OF rebuild] rebuild(2) show ?thesis by (simp add: report_ready_def)
qed simp

lemma ensure_err:
  assumes "ensure_local_report_async e rq s = (Inl err, s')"
  shows "same_but_report (rq_execution_id rq) s s' \<and>
    (reported_plan s' (rq_execution_id rq) = reported_plan s (rq_execution_id rq) \<or>
     reported_plan s' (rq_execution_id rq) = Some (rq_action_id rq, rq_plan_digest rq))"
  using assms
proof (cases rule: ensure_cases)
  case (prepare i)
  from prepare_err[OF prepare] show ?thesis by (auto simp: reported_plan_def)
next
  case (rebuild st i) from rebuild_err[OF rebuild] rebuild(2) show ?thesis by auto
qed simp_all

lemma ensure_ready:
  assumes "ev_stat_err e (TReporting (rq_execution_id rq)) = None"
    and "ev_stat_err e (TEnvelope (rq_execution_id rq)) = None"
    and "ev_read_err e (TReporting (rq_execution_id rq)) = None" "ev_read_err e (TEnvelope (rq_execution_id rq)) = None"
    and "report_ready s (rq_execution_id rq) p"
  shows "ensure_local_report_async e rq s =
    (Inr (p\<lparr>pr_envelope_path := ev_envelope_path e (rq_execution_id rq), pr_origin := Existing\<rparr>), s)"
  using assms by (cases p)
    (simp add: ensure_local_report_async_def inspect_local_report_async_def inspect_with_def stat_async_def
      report_ready_def bind_op_def return_op_def)

lemma load_complete_ready:
  assumes "ev_stat_err e (TReporting k) = None" "ev_stat_err e (TEnvelope k) = None"
    and "ev_read_err e (TReporting k) = None" "ev_read_err e (TEnvelope k) = None" "report_ready s k p"
  shows "load_complete_local_report_async e k s =
    (Inr (Some (p\<lparr>pr_envelope_path := ev_envelope_path e k, pr_origin := Existing\<rparr>)), s)"
  using assms by (cases p)
    (simp add: load_complete_local_report_async_def inspect_local_report_async_def inspect_with_def
      stat_async_def report_ready_def bind_op_def return_op_def)

subsection \<open>Blocking and async variants\<close>

lemma inspect_sync_async:
  assumes "ev_stat_err e = (\<lambda>_. None)"
  shows "inspect_local_report e k = inspect_local_report_async e k"
proof
  fix s
  show "inspect_local_report e k s = inspect_local_report_async e k s"
    using assms
    by (cases "dir_get (es_reporting s) k"; cases "dir_get (es_envelopes s) k")
      (simp_all add: inspect_local_report_def inspect_local_report_async_def inspect_with_def stat_async_def
        path_exists_def read_file_def split: option.splits)
qed

lemma prepare_sync_async: "prepare_local_report_with_issue e rq i = prepare_local_report_with_issue_async e rq i"
  unfolding prepare_local_report_with_issue_def prepare_local_report_with_issue_async_def ..

lemma rebuild_sync_async:
  "rebuild_report_envelope_with_issue e rq st i = rebuild_report_envelope_with_issue_async e rq st i"
  unfolding rebuild_report_envelope_with_issue_def rebuild_report_envelope_with_issue_async_def
    sync_reporting_state_def sync_reporting_state_async_def ..

lemma ensure_sync_async:
  "ev_stat_err e = (\<lambda>_. None) \<Longrightarrow> ensure_local_report e rq = ensure_local_report_async e rq"
  unfolding ensure_local_report_def ensure_local_report_async_def prepare_sync_async rebuild_sync_async
  by (simp add: inspect_sync_async)

end
