(* ===== verification/LocalExec.thy ===== *)
theory LocalExec
  imports ProcessControl Reporting
begin

text \<open>
  Running one plan (\<open>src/exec/local_exec.rs\<close>, \<open>src/exec/local_exec_support.rs\<close>, \<open>src/exec/recovery.rs\<close>): the
  capture of the child's output, the wait with cancel, grace period and kill, the choice or synthesis of
  the result, and \<open>execute_async\<close> itself.

  The child process is a record of what the agent observes of it: the answers of the successive
  \<open>try_wait\<close>, \<open>wait\<close> and signal calls in the order in which the code makes them, and what the child leaves in
  its result file.  The lemmas show that a timed-out or failing child is never reported as succeeded, that
  the returned result is the one on disk, and what the output log can contain.
\<close>

subsection \<open>Output capture\<close>

definition stream_truncated_marker :: string where
  "stream_truncated_marker = [CHR 0x0A] @ ''[truncated by wist-agentd]'' @ [CHR 0x0A]"

text \<open>One turn of the loop of \<open>spawn_stream_capture\<close> per chunk read: the log, the bytes counted as written
  and whether the marker is in the log.\<close>

fun capture_chunk :: "nat \<Rightarrow> string \<times> nat \<times> bool \<Rightarrow> string \<Rightarrow> string \<times> nat \<times> bool" where
  "capture_chunk limit (out, written, truncated) buf =
    (if written < limit then
       let remaining = limit - written;
           to_write = min (length buf) remaining;
           out1 = (if 0 < to_write then out @ take to_write buf else out);
           written1 = (if 0 < to_write then written + to_write else written)
       in (if to_write < length buf \<and> \<not> truncated
           then (out1 @ stream_truncated_marker, written1, True)
           else (out1, written1, truncated))
     else (out, written, truncated))"

definition spawn_stream_capture :: "nat \<Rightarrow> string list \<Rightarrow> string" where
  "spawn_stream_capture limit chunks = fst (foldl (capture_chunk limit) ([], 0, False) chunks)"

subsection \<open>The child process\<close>

datatype exit_status = ExitCode int | Signalled

definition exit_success :: "exit_status \<Rightarrow> bool" where
  "exit_success st = (st = ExitCode 0)"

datatype exit_classification = Completed exit_status | CompletedAfterTimeout exit_status | ClassTimedOut

record child_env =
  ce_spawn_err :: "io_error option"
  ce_pipe_err :: "io_error option"
  ce_pid :: "32 word option"
  ce_try0 :: "exit_status option res"
  ce_wait1 :: "exit_status res option"
  ce_try1 :: "exit_status option res"
  ce_pid_at_cancel :: "32 word option"
  ce_try2 :: "exit_status option res"
  ce_wait2 :: "exit_status res option"
  ce_kill_err :: "io_error option"
  ce_try3 :: "exit_status option res"
  ce_wait3 :: "exit_status res"
  ce_terminate_err :: "io_error option"
  ce_capture_err :: "io_error option"
  ce_result :: "action_result option option"

definition send_terminate :: "proc_env \<Rightarrow> 32 word \<Rightarrow> exec_store \<Rightarrow> io_error option \<times> exec_store" where
  "send_terminate p pid s = (case send_signal p pid SIGTERM s of
      (None, s') \<Rightarrow> (None, s')
    | (Some code, s') \<Rightarrow> (Some (IoError OtherKind ''kill''), s'))"

definition wait_after_cancel :: "exec_env \<Rightarrow> child_env \<Rightarrow> string \<Rightarrow> exit_classification exec_op" where
  "wait_after_cancel e c k = (case ce_wait2 c of
      Some (Inr st) \<Rightarrow> return_op (CompletedAfterTimeout st)
    | Some (Inl err) \<Rightarrow> fail_op err
    | None \<Rightarrow>
        bind_op (record_signal_request_async e k Kill) (\<lambda>_.
        let finish = (case ce_wait3 c of Inl err \<Rightarrow> fail_op err | Inr _ \<Rightarrow> return_op ClassTimedOut) in
        (case ce_kill_err c of
          None \<Rightarrow> finish
        | Some err \<Rightarrow> (case ce_try3 c of
            Inl err' \<Rightarrow> fail_op err'
          | Inr (Some _) \<Rightarrow> finish
          | Inr None \<Rightarrow> (if error_kind err \<noteq> InvalidInput then fail_op err else finish)))))"

definition wait_for_child :: "exec_env \<Rightarrow> proc_env \<Rightarrow> child_env \<Rightarrow> string \<Rightarrow> exit_classification exec_op" where
  "wait_for_child e p c k = (case ce_try0 c of
      Inl err \<Rightarrow> fail_op err
    | Inr (Some st) \<Rightarrow> return_op (Completed st)
    | Inr None \<Rightarrow> (case ce_wait1 c of
        Some (Inl err) \<Rightarrow> fail_op err
      | Some (Inr st) \<Rightarrow> return_op (Completed st)
      | None \<Rightarrow> (case ce_try1 c of
          Inl err \<Rightarrow> fail_op err
        | Inr (Some st) \<Rightarrow> return_op (Completed st)
        | Inr None \<Rightarrow>
            bind_op (record_signal_request_async e k Cancel) (\<lambda>_.
            (case ce_pid_at_cancel c of
              None \<Rightarrow> wait_after_cancel e c k
            | Some pid \<Rightarrow> (\<lambda>s. case send_terminate p pid s of
                (None, s') \<Rightarrow> wait_after_cancel e c k s'
              | (Some err, s') \<Rightarrow> (case ce_try2 c of
                  Inl err' \<Rightarrow> (Inl err', s')
                | Inr (Some st) \<Rightarrow> (Inr (CompletedAfterTimeout st), s')
                | Inr None \<Rightarrow> (if error_kind err \<noteq> InvalidInput then (Inl err, s')
                               else wait_after_cancel e c k s'))))))))"

subsection \<open>Results\<close>

record local_exec_request =
  lx_execution_id :: string
  lx_run_dir :: string
  lx_plan_digest :: string
  lx_request_id :: string
  lx_plan :: action_plan

definition action_result_new :: "string \<Rightarrow> string \<Rightarrow> final_status \<Rightarrow> action_result" where
  "action_result_new action_id execution_id st =
    \<lparr>ar_action_id = action_id, ar_execution_id = execution_id, ar_final_status = st, ar_request_id = None,
     ar_exit_reason = None, ar_step_records = [], ar_started_at = None, ar_finished_at = None\<rparr>"

definition step_status_of :: "string \<Rightarrow> step_status" where
  "step_status_of s = (if s = ''timed_out'' then StepTimedOut
     else if s = ''cancelled'' then StepCancelled else StepFailed)"

definition synthesize_result ::
    "exec_env \<Rightarrow> local_exec_request \<Rightarrow> final_status \<Rightarrow> string \<Rightarrow> string \<Rightarrow> action_result" where
  "synthesize_result e rq final error_code step_status =
    (let finished_at = ev_now e; plan = lx_plan rq in
     (action_result_new (ap_action_id plan) (lx_execution_id rq) final)
       \<lparr>ar_request_id := Some (lx_request_id rq), ar_exit_reason := Some error_code,
        ar_step_records :=
          [\<lparr>sr_step_id = ap_entry plan, sr_attempt = 1,
            sr_op = (case find (\<lambda>st. fst st = ap_entry plan) (ap_steps plan) of
                       None \<Rightarrow> None | Some st \<Rightarrow> snd st),
            sr_status = step_status_of step_status, sr_started_at = finished_at,
            sr_finished_at = Some finished_at, sr_error_code = Some error_code\<rparr>],
        ar_started_at := Some finished_at, ar_finished_at := Some finished_at\<rparr>)"

definition synthesize_recovery_result :: "exec_env \<Rightarrow> running_state \<Rightarrow> action_result" where
  "synthesize_recovery_result e st =
    (let code = ''agentd_recovered_incomplete_execution'' in
     (action_result_new (rn_action_id st) (rn_execution_id st) Failed)
       \<lparr>ar_request_id := Some (rn_request_id st), ar_exit_reason := Some code,
        ar_step_records :=
          [\<lparr>sr_step_id = unwrap_or ''unknown'' (rn_current_step_id st),
            sr_attempt = unwrap_or 1 (rn_attempt st), sr_op = None, sr_status = StepFailed,
            sr_started_at = rn_started_at st, sr_finished_at = Some (ev_now e),
            sr_error_code = Some code\<rparr>],
        ar_started_at := Some (rn_started_at st), ar_finished_at := Some (ev_now e)\<rparr>)"

definition store_result :: "exec_env \<Rightarrow> string \<Rightarrow> action_result \<Rightarrow> unit exec_op" where
  "store_result e w r = write_op (ev_write e (TResult w)) (\<lambda>s. s\<lparr>es_results := dir_put w r (es_results s)\<rparr>)"

definition write_exec_state_async ::
    "exec_env \<Rightarrow> string \<Rightarrow> string \<Rightarrow> string \<Rightarrow> string \<Rightarrow> string option \<Rightarrow> string \<Rightarrow> unit exec_op" where
  "write_exec_state_async e w execution_id action_id state reason detail =
    write_op (ev_write e (TProgress w))
      (\<lambda>s. s\<lparr>es_progress := dir_put w
         \<lparr>ps_execution_id = execution_id, ps_action_id = action_id, ps_state = state,
          ps_updated_at = ev_now e, ps_reason_code = reason, ps_detail = Some detail\<rparr> (es_progress s)\<rparr>)"

definition write_timed_out_result_async :: "exec_env \<Rightarrow> local_exec_request \<Rightarrow> string \<Rightarrow> action_result exec_op" where
  "write_timed_out_result_async e rq w =
    (let r = synthesize_result e rq TimedOut ''agentd_total_timeout'' ''timed_out'' in
     bind_op (store_result e w r) (\<lambda>_.
     bind_op (write_exec_state_async e w (lx_execution_id rq) (ap_action_id (lx_plan rq)) ''timed_out''
        (Some ''agentd_total_timeout'') ''agentd timed out execution and synthesized final result'') (\<lambda>_.
     return_op r)))"

definition exec_exit_reason :: "exit_status \<Rightarrow> string" where
  "exec_exit_reason st = (case st of
      ExitCode code \<Rightarrow> ''exec_exit_'' @ (if code < 0 then ''-'' else []) @ show_nat (nat \<bar>code\<bar>)
    | Signalled \<Rightarrow> ''exec_terminated_by_signal'')"

definition load_or_synthesize_result_async ::
    "exec_env \<Rightarrow> local_exec_request \<Rightarrow> string \<Rightarrow> exit_classification \<Rightarrow> action_result exec_op" where
  "load_or_synthesize_result_async e rq w exit_st s =
    (case stat_async e (TResult w) (file_exists (dir_get (es_results s) w)) of
      Inl err \<Rightarrow> (Inl err, s)
    | Inr result_exists \<Rightarrow> (case exit_st of
        Completed st \<Rightarrow>
          (if result_exists then (case read_file e (TResult w) (dir_get (es_results s) w) of
             Inl err \<Rightarrow> (Inl err, s)
           | Inr r \<Rightarrow>
               (if \<not> exit_success st \<and> ar_final_status r = Succeeded
                then (Inl (IoError OtherKind ''exec process exited non-zero with succeeded result''), s)
                else (Inr r, s)))
           else
             (let reason = exec_exit_reason st; r = synthesize_result e rq Failed reason ''failed'' in
              bind_op (store_result e w r) (\<lambda>_.
              bind_op (write_exec_state_async e w (lx_execution_id rq) (ap_action_id (lx_plan rq)) ''failed''
                 (Some reason) ''agentd synthesized failure result after abnormal exec exit'') (\<lambda>_.
              return_op r)) s))
      | CompletedAfterTimeout _ \<Rightarrow>
          (if result_exists then (case read_file e (TResult w) (dir_get (es_results s) w) of
             Inl err \<Rightarrow> (Inl err, s)
           | Inr r \<Rightarrow>
               (if ar_final_status r = Succeeded then write_timed_out_result_async e rq w s else (Inr r, s)))
           else write_timed_out_result_async e rq w s)
      | ClassTimedOut \<Rightarrow> write_timed_out_result_async e rq w s))"

subsection \<open>Executing a plan\<close>

record local_exec_outcome =
  lo_execution_id :: string
  lo_workdir :: string
  lo_result :: action_result

definition store_plan :: "exec_env \<Rightarrow> string \<Rightarrow> action_plan \<Rightarrow> unit exec_op" where
  "store_plan e w pl = write_op (ev_write e (TPlan w)) (\<lambda>s. s\<lparr>es_plans := dir_put w pl (es_plans s)\<rparr>)"

definition store_runtime :: "exec_env \<Rightarrow> string \<Rightarrow> runtime_context \<Rightarrow> unit exec_op" where
  "store_runtime e w rt = write_op (ev_write e (TRuntime w)) (\<lambda>s. s\<lparr>es_runtimes := dir_put w rt (es_runtimes s)\<rparr>)"

definition create_workdir :: "exec_env \<Rightarrow> string \<Rightarrow> unit exec_op" where
  "create_workdir e w = write_op (ev_write e (TWorkdir w)) id"

definition fail_if :: "io_error option \<Rightarrow> unit exec_op" where
  "fail_if err = (case err of None \<Rightarrow> return_op () | Some x \<Rightarrow> fail_op x)"

text \<open>What the child leaves in its result file by the time it is gone.  The agent reads that file only
  after the wait, so the model places the child's write at the spawn.\<close>

definition child_result :: "child_env \<Rightarrow> string \<Rightarrow> unit exec_op" where
  "child_result c w s = (Inr (), case ce_result c of
      None \<Rightarrow> s
    | Some f \<Rightarrow> s\<lparr>es_results := AList.update w f (es_results s)\<rparr>)"

definition execute_async :: "exec_env \<Rightarrow> proc_env \<Rightarrow> child_env \<Rightarrow> local_exec_request \<Rightarrow> local_exec_outcome exec_op" where
  "execute_async e p c rq =
    (let k = lx_execution_id rq; plan = lx_plan rq; w = workdir_path e (lx_run_dir rq) k;
         deadline = Some (ev_after_millis e (ap_max_total_duration_ms plan));
         runtime = \<lparr>rc_execution_id = k, rc_spawned_at = ev_now e, rc_deadline_at = deadline,
           rc_agent_id = ap_agent_id plan, rc_node_id = ap_node_id plan, rc_workdir = w\<rparr>
     in
     bind_op (create_workdir e w) (\<lambda>_.
     bind_op (store_plan e w plan) (\<lambda>_.
     bind_op (store_runtime e w runtime) (\<lambda>_.
     bind_op (fail_if (ce_spawn_err c)) (\<lambda>_.
     bind_op (fail_if (ce_pipe_err c)) (\<lambda>_.
     (case ce_pid c of
       None \<Rightarrow> fail_op (IoError OtherKind ''spawned child pid was not available'')
     | Some pid \<Rightarrow> (case process_identity p 0 pid of
         Inl err \<Rightarrow> fail_op err
       | Inr ident \<Rightarrow>
         let running = (running_builder k (ap_action_id plan) ''spawned'' w)
               \<lparr>rn_plan_digest := lx_plan_digest rq, rn_request_id := lx_request_id rq, rn_pid := Some pid,
                rn_process_identity := ident, rn_started_at := ev_now e, rn_deadline_at := deadline,
                rn_attempt := Some 1, rn_updated_at := ev_now e\<rparr>
         in bind_op (child_result c w) (\<lambda>_ s. case store_running e k running s of
           (Inl err, s') \<Rightarrow>
             bind_op (fail_if (ce_terminate_err c)) (\<lambda>_.
             bind_op (fail_if (ce_capture_err c)) (\<lambda>_.
             fail_op (IoError (error_kind err) ''failed to persist running state after spawn''))) s'
         | (Inr _, s') \<Rightarrow>
             bind_op (wait_for_child e p c k) (\<lambda>exit_st.
             bind_op (fail_if (ce_capture_err c)) (\<lambda>_.
             bind_op (load_or_synthesize_result_async e rq w exit_st) (\<lambda>r s2.
             let sig = read_file e (TRunning k) (dir_get (es_running s2) k);
                 finished = (running_builder k (ap_action_id plan) (final_state_name e r) w)
                   \<lparr>rn_plan_digest := lx_plan_digest rq, rn_request_id := lx_request_id rq, rn_pid := Some pid,
                    rn_process_identity := ident, rn_started_at := ev_now e, rn_deadline_at := deadline,
                    rn_attempt := Some 1,
                    rn_cancel_requested_at := (case sig of Inr st \<Rightarrow> rn_cancel_requested_at st | Inl _ \<Rightarrow> None),
                    rn_kill_requested_at := (case sig of Inr st \<Rightarrow> rn_kill_requested_at st | Inl _ \<Rightarrow> None),
                    rn_updated_at := ev_now e\<rparr>
             in bind_op (store_running e k finished) (\<lambda>_.
                return_op \<lparr>lo_execution_id = k, lo_workdir = w, lo_result = r\<rparr>) s2))) s')))))))))"

subsection \<open>Lemmas on the capture\<close>

text \<open>Some chunk straddles the limit: it starts below it and ends beyond it.\<close>

fun straddles :: "nat \<Rightarrow> nat \<Rightarrow> string list \<Rightarrow> bool" where
  "straddles limit n [] = False"
| "straddles limit n (b # bs) =
    ((n < limit \<and> limit < n + length b) \<or> straddles limit (n + length b) bs)"

lemma straddles_append:
  "straddles limit n (xs @ [x]) \<longleftrightarrow> straddles limit n xs \<or>
     (n + length (concat xs) < limit \<and> limit < n + length (concat xs) + length x)"
  by (induction xs arbitrary: n) (auto simp: add.assoc)

lemma straddles_reaches: "straddles limit n xs \<Longrightarrow> limit < n + length (concat xs)"
proof (induction xs arbitrary: n)
  case (Cons x xs) then show ?case by (auto simp: trans_less_add1 add.assoc[symmetric])
qed simp

lemma capture_state:
  "foldl (capture_chunk limit) ([], 0, False) chunks =
    (take limit (concat chunks) @ (if straddles limit 0 chunks then stream_truncated_marker else []),
     min limit (length (concat chunks)), straddles limit 0 chunks)"
proof (induction chunks rule: rev_induct)
  case (snoc b bs)
  let ?n = "length (concat bs)"
  show ?case
  proof (cases "?n < limit")
    case True
    then have "\<not> straddles limit 0 bs" using straddles_reaches[of limit 0 bs] by auto
    with True snoc show ?thesis by (auto simp: straddles_append min_def Let_def)
  next
    case False
    with snoc show ?thesis by (auto simp: straddles_append min_def)
  qed
qed simp

lemma capture_eq:
  "spawn_stream_capture limit chunks =
    take limit (concat chunks) @ (if straddles limit 0 chunks then stream_truncated_marker else [])"
  by (simp add: spawn_stream_capture_def capture_state)

subsection \<open>Lemmas on the result\<close>

lemma synthesize_result_simps [simp]:
  "ar_final_status (synthesize_result e rq f c st) = f"
  "ar_execution_id (synthesize_result e rq f c st) = lx_execution_id rq"
  by (simp_all add: synthesize_result_def action_result_new_def Let_def)

lemma synthesize_recovery_result_simps [simp]:
  "ar_final_status (synthesize_recovery_result e st) = Failed"
  "ar_execution_id (synthesize_recovery_result e st) = rn_execution_id st"
  "ar_action_id (synthesize_recovery_result e st) = rn_action_id st"
  by (simp_all add: synthesize_recovery_result_def action_result_new_def Let_def)

lemma store_result_ok: "store_result e w r s = (Inr u, s') \<Longrightarrow> s' = s\<lparr>es_results := dir_put w r (es_results s)\<rparr>"
  unfolding store_result_def by (rule write_op_ok)

lemma write_exec_state_results: "write_exec_state_async e w i a st rs d s = (r, s') \<Longrightarrow> es_results s' = es_results s"
  unfolding write_exec_state_async_def by (cases "ev_write e (TProgress w)") auto

lemma write_timed_out_ok:
  assumes "write_timed_out_result_async e rq w s = (Inr r, s')"
  shows "ar_final_status r = TimedOut \<and> dir_get (es_results s') w = Present r"
  using assms
  by (auto simp: write_timed_out_result_async_def Let_def bind_op_ok dir_laws
      dest!: store_result_ok write_exec_state_results)

lemma load_or_synthesize_ok:
  assumes "load_or_synthesize_result_async e rq w x s = (Inr r, s')"
  shows "dir_get (es_results s') w = Present r \<and>
    (ar_final_status r = Succeeded \<longrightarrow> x = Completed (ExitCode 0) \<and> s' = s)"
proof (cases x)
  case (Completed st)
  then show ?thesis using assms
    by (auto simp: load_or_synthesize_result_async_def Let_def bind_op_ok dir_laws exit_success_def
        split: sum.splits if_splits dest!: store_result_ok write_exec_state_results read_file_ok)
next
  case (CompletedAfterTimeout st)
  then show ?thesis using assms
    by (auto simp: load_or_synthesize_result_async_def
        split: sum.splits if_splits dest!: write_timed_out_ok read_file_ok)
next
  case ClassTimedOut
  then show ?thesis using assms
    by (auto simp: load_or_synthesize_result_async_def split: sum.splits dest!: write_timed_out_ok)
qed

subsection \<open>What an execution touches\<close>

text \<open>
  Relative to the store \<open>s\<close> in which it started, an execution \<open>k\<close> of the plan \<open>pd\<close> in working directory
  \<open>w\<close> changes at most its own running state (which always names that plan), the files of its working
  directory and the log of signals.
\<close>

definition exec_touches :: "string \<Rightarrow> string \<Rightarrow> string \<times> string \<Rightarrow> exec_store \<Rightarrow> exec_store \<Rightarrow> bool" where
  "exec_touches k w pd s t \<longleftrightarrow>
     es_queue t = es_queue s \<and> es_reporting t = es_reporting s \<and> es_envelopes t = es_envelopes s \<and>
     es_history t = es_history s \<and> (\<forall>j. j \<noteq> k \<longrightarrow> dir_get (es_running t) j = dir_get (es_running s) j) \<and>
     (\<forall>v. v \<noteq> w \<longrightarrow> dir_get (es_plans t) v = dir_get (es_plans s) v \<and> dir_get (es_results t) v = dir_get (es_results s) v) \<and>
     (running_plan t k = running_plan s k \<or> running_plan t k = Some pd) \<and>
     (dir_get (es_plans t) w = dir_get (es_plans s) w \<or>
       (\<exists>pl. dir_get (es_plans t) w = Present pl \<and> ap_action_id pl = fst pd))"

lemma exec_touches_refl [simp]: "exec_touches k w pd s s"
  by (simp add: exec_touches_def)

lemmas touch_defs = create_workdir_def store_plan_def store_runtime_def store_result_def
    write_exec_state_async_def store_running_def

lemma keeps_simple_ops:
  "keeps (exec_touches k w pd s) (create_workdir e v)"
  "ap_action_id pl = fst pd \<Longrightarrow> keeps (exec_touches k w pd s) (store_plan e w pl)"
  "keeps (exec_touches k w pd s) (store_runtime e w rt)"
  "keeps (exec_touches k w pd s) (fail_if er)"
  "keeps (exec_touches k w pd s) (child_result c w)"
  "keeps (exec_touches k w pd s) (store_result e w ar)"
  "keeps (exec_touches k w pd s) (write_exec_state_async e w x1 x2 x3 x4 x5)"
  "rn_action_id r = fst pd \<Longrightarrow> rn_plan_digest r = snd pd \<Longrightarrow> keeps (exec_touches k w pd s) (store_running e k r)"
proof -
  show "keeps (exec_touches k w pd s) (fail_if er)" by (cases er) (simp_all add: fail_if_def triple_def op_simps)
  show "keeps (exec_touches k w pd s) (child_result c w)"
    by (rule keepsI)
      (auto simp: child_result_def exec_touches_def plan_defs dir_get_def update_conv' split: option.splits)
qed (unfold touch_defs, (rule keeps_write; simp add: exec_touches_def plan_defs dir_laws)+)

lemma signal_requested_plan [simp]:
  "rn_action_id (signal_requested now kd st) = rn_action_id st"
  "rn_plan_digest (signal_requested now kd st) = rn_plan_digest st"
  by (cases kd; simp add: signal_requested_def)+

lemma record_signal_cases:
  assumes "record_signal_request_async e k kd s = (r, s')"
  obtains "s' = s"
  | st where "dir_get (es_running s) k = Present st"
      "s' = s\<lparr>es_running := dir_put k (signal_requested (ev_now e) kd st) (es_running s)\<rparr>"
proof (cases "dir_get (es_running s) k")
  case (Present st)
  then show ?thesis using assms that
    by (cases "ev_write e (TRunning k)")
      (auto simp: record_signal_request_async_def stat_async_def bind_op_def load_running_def store_running_def
        read_file_def
        split: option.splits)
qed (use assms that in \<open>auto simp: record_signal_request_async_def stat_async_def bind_op_def load_running_def read_file_def
      split: option.splits\<close>)

lemma keeps_record_signal: "keeps (exec_touches k w pd s) (record_signal_request_async e k kd)"
proof (rule keepsI)
  fix t assume t: "exec_touches k w pd s t"
  obtain r t' where r: "record_signal_request_async e k kd t = (r, t')" by fastforce
  from r have "exec_touches k w pd s t'"
    by (cases rule: record_signal_cases) (use t in \<open>auto simp: exec_touches_def plan_defs dir_laws\<close>)
  then show "exec_touches k w pd s (snd (record_signal_request_async e k kd t))" using r by simp
qed

lemma keeps_wait_after_cancel: "keeps (exec_touches k w pd s) (wait_after_cancel e c k)"
  unfolding wait_after_cancel_def Let_def by (intro keeps_intros keeps_record_signal)

lemma send_terminate_touches:
  "exec_touches k w pd s t \<Longrightarrow> send_terminate p pid t = (r, t') \<Longrightarrow> exec_touches k w pd s t'"
  by (auto simp: send_terminate_def send_signal_def exec_touches_def plan_defs split: prod.splits option.splits if_splits)

lemma keeps_wait_for_child: "keeps (exec_touches k w pd s) (wait_for_child e p c k)"
proof -
  have stop: "keeps (exec_touches k w pd s) (\<lambda>s. case send_terminate p pid s of
                (None, s') \<Rightarrow> wait_after_cancel e c k s'
              | (Some err, s') \<Rightarrow> (case ce_try2 c of
                  Inl err' \<Rightarrow> (Inl err', s')
                | Inr (Some st) \<Rightarrow> (Inr (CompletedAfterTimeout st), s')
                | Inr None \<Rightarrow> (if error_kind err \<noteq> InvalidInput then (Inl err, s')
                               else wait_after_cancel e c k s')))" for pid
    by (rule keepsI) (auto split: prod.splits option.splits sum.splits
        dest: send_terminate_touches intro: keepsD[OF keeps_wait_after_cancel])
  show ?thesis
    unfolding wait_for_child_def
    by (intro keeps_intros keeps_record_signal keeps_wait_after_cancel stop)
qed

lemma keeps_load_or_synthesize: "keeps (exec_touches k w pd s) (load_or_synthesize_result_async e rq w x)"
proof -
  let ?I = "exec_touches k w pd s"
  have timed: "keeps ?I (write_timed_out_result_async e rq w)"
    unfolding write_timed_out_result_async_def Let_def by (intro keeps_intros keeps_simple_ops)
  have synth: "keeps ?I (bind_op (store_result e w r) (\<lambda>_. bind_op (write_exec_state_async e w i a st rs d) (\<lambda>_. return_op r)))"
    for r i a st rs d
    by (intro keeps_intros keeps_simple_ops)
  show ?thesis
    by (rule keepsI) (auto simp: load_or_synthesize_result_async_def Let_def keepsD[OF timed] keepsD[OF synth]
        split: sum.splits exit_classification.splits)
qed

lemma execute_touches:
  assumes "pd = (ap_action_id (lx_plan rq), lx_plan_digest rq)"
  shows "exec_touches (lx_execution_id rq) (workdir_path e (lx_run_dir rq) (lx_execution_id rq)) pd s
    (snd (execute_async e p c rq s))"
proof -
  let ?k = "lx_execution_id rq" let ?w = "workdir_path e (lx_run_dir rq) ?k"
  let ?I = "exec_touches ?k ?w pd s"
  have run: "keeps ?I (\<lambda>t. case store_running e ?k r t of
           (Inl err, s') \<Rightarrow>
             bind_op (fail_if (ce_terminate_err c)) (\<lambda>_.
             bind_op (fail_if (ce_capture_err c)) (\<lambda>_. fail_op (f err))) s'
         | (Inr _, s') \<Rightarrow>
             bind_op (wait_for_child e p c ?k) (\<lambda>exit_st.
             bind_op (fail_if (ce_capture_err c)) (\<lambda>_.
             bind_op (load_or_synthesize_result_async e rq ?w exit_st) (\<lambda>x s2.
               bind_op (store_running e ?k (g x s2)) (\<lambda>_. return_op (h x)) s2))) s')"
    if "rn_action_id r = fst pd" "rn_plan_digest r = snd pd"
      "\<And>x t. rn_action_id (g x t) = fst pd" "\<And>x t. rn_plan_digest (g x t) = snd pd"
    for r f g and h :: "action_result \<Rightarrow> local_exec_outcome"
    by (intro keeps_catch keeps_bind keeps_fail keeps_simple_ops keeps_wait_for_child keeps_load_or_synthesize that
        keeps_state[where f = "\<lambda>t. bind_op (store_running e ?k (g _ t)) _"] keeps_return)
  have "keeps ?I (execute_async e p c rq)"
    unfolding execute_async_def Let_def
    by (intro keeps_intros keeps_simple_ops(1-5) run) (simp_all add: running_builder_def assms)
  then show ?thesis by (rule keepsD) simp
qed

subsection \<open>What an execution returns\<close>

text \<open>
  The exit status the agent saw before it asked the child to stop: at the first check, while it waited for the
  plan's total duration, or at the one check it makes when that time is up and nothing has been signalled yet.
\<close>

definition exit_before_stop :: "child_env \<Rightarrow> exit_status option" where
  "exit_before_stop c = (case ce_try0 c of
      Inr (Some st) \<Rightarrow> Some st
    | Inr None \<Rightarrow> (case ce_wait1 c of
        Some (Inr st) \<Rightarrow> Some st
      | None \<Rightarrow> (case ce_try1 c of Inr (Some st) \<Rightarrow> Some st | _ \<Rightarrow> None)
      | _ \<Rightarrow> None)
    | Inl _ \<Rightarrow> None)"

text \<open>The result file once the child is gone: what the child left there, or what was there before.\<close>

definition result_left_by :: "child_env \<Rightarrow> action_result disk_file \<Rightarrow> action_result disk_file" where
  "result_left_by c before = (case ce_result c of
      None \<Rightarrow> before
    | Some None \<Rightarrow> Corrupt
    | Some (Some r) \<Rightarrow> Present r)"

lemma wait_after_cancel_not_completed: "wait_after_cancel e c k s \<noteq> (Inr (Completed st), s')"
  by (auto simp: wait_after_cancel_def bind_op_def return_op_def fail_op_def Let_def
      split: option.splits sum.splits prod.splits if_splits)

lemma wait_for_child_completed:
  assumes "wait_for_child e p c k s = (Inr (Completed st), s')"
  shows "s' = s \<and> exit_before_stop c = Some st"
proof (cases "exit_before_stop c")
  case None
  then have "wait_for_child e p c k s \<noteq> (Inr (Completed st), s')"
    by (auto simp: wait_for_child_def exit_before_stop_def bind_op_def fail_op_def wait_after_cancel_not_completed
        split: option.splits sum.splits prod.splits if_splits)
  then show ?thesis using assms by blast
next
  case (Some x)
  then show ?thesis using assms
    by (auto simp: wait_for_child_def exit_before_stop_def return_op_def fail_op_def split: option.splits sum.splits)
qed

lemma execute_steps:
  assumes "execute_async e p c rq s = (Inr out, s')"
  defines "w \<equiv> workdir_path e (lx_run_dir rq) (lx_execution_id rq)"
  obtains t x t1 t2 where
    "dir_get (es_results t) w = result_left_by c (dir_get (es_results s) w)" "es_signals t = es_signals s"
    "wait_for_child e p c (lx_execution_id rq) t = (Inr x, t1)"
    "load_or_synthesize_result_async e rq w x t1 = (Inr (lo_result out), t2)"
    "lo_workdir out = w" "es_results s' = es_results t2" "es_signals s' = es_signals t2"
proof -
  let ?k = "lx_execution_id rq"
  have kept: "f s = (Inr u, t) \<Longrightarrow> es_results t = es_results s \<and> es_signals t = es_signals s"
    if "f \<in> {create_workdir e w, store_plan e w pl, store_runtime e w rt, store_running e k r}"
    for f u s t pl rt k r
    using that by (auto simp: touch_defs dest!: write_op_ok)
  have fail: "fail_if er t = (Inr u, t') \<longleftrightarrow> er = None \<and> t' = t" for er t u t'
    by (auto simp: fail_if_def return_op_def fail_op_def split: option.splits)
  have child: "child_result c w t = (Inr u, t') \<Longrightarrow>
      dir_get (es_results t') w = result_left_by c (dir_get (es_results t) w) \<and> es_signals t' = es_signals t" for t u t'
    by (auto simp: child_result_def result_left_by_def dir_get_def update_conv' split: option.splits)
  obtain pid ident where pid: "ce_pid c = Some pid" "process_identity p 0 pid = Inr ident"
    using assms(1) by (auto simp: execute_async_def Let_def bind_op_ok fail_op_def split: option.splits sum.splits)
  note ex = assms(1)[unfolded execute_async_def Let_def bind_op_ok pid option.case sum.case, folded w_def]
  from ex show thesis
  proof (elim exE conjE, goal_cases)
    case (1 a1 s1 a2 s2 a3 s3 a4 s4 a5 s5 a6 s6)
    note st = 1(1-6) and rest = 1(7)
    from rest obtain a7 s7 x u b v y b2 where run: "\<exists>r. store_running e ?k r s6 = (Inr a7, s7)"
        "wait_for_child e p c ?k s7 = (Inr x, u)" "fail_if (ce_capture_err c) u = (Inr b, v)"
        "load_or_synthesize_result_async e rq w x v = (Inr (lo_result out), y)"
        "\<exists>r. store_running e ?k r y = (Inr b2, s')" "lo_workdir out = w"
      by (simp add: bind_op_ok fail_op_def return_op_def split: prod.splits sum.splits) (blast | metis local_exec_outcome.select_convs)+
    have "es_results s5 = es_results s" "es_signals s5 = es_signals s"
      using st(1-5) kept unfolding fail by fastforce+
    then have s7: "dir_get (es_results s7) w = result_left_by c (dir_get (es_results s) w)" "es_signals s7 = es_signals s"
      using child[OF st(6)] kept run(1) by fastforce+
    have "v = u" using run(3) unfolding fail by simp
    moreover have "es_results s' = es_results y \<and> es_signals s' = es_signals y" using run(5) kept by fastforce
    ultimately show thesis using that[OF s7 run(2) _ run(6)] run(4) by simp
  qed
qed

lemma execute_ok:
  assumes "execute_async e p c rq s = (Inr out, s')"
  shows "lo_workdir out = workdir_path e (lx_run_dir rq) (lx_execution_id rq) \<and>
    dir_get (es_results s') (lo_workdir out) = Present (lo_result out) \<and>
    (ar_final_status (lo_result out) = Succeeded \<longrightarrow> exit_before_stop c = Some (ExitCode 0) \<and>
       es_signals s' = es_signals s \<and>
       result_left_by c (dir_get (es_results s) (lo_workdir out)) = Present (lo_result out))"
proof -
  from assms obtain t x t1 t2 where st:
      "dir_get (es_results t) (lo_workdir out) = result_left_by c (dir_get (es_results s) (lo_workdir out))"
      "es_signals t = es_signals s" "wait_for_child e p c (lx_execution_id rq) t = (Inr x, t1)"
      "load_or_synthesize_result_async e rq (lo_workdir out) x t1 = (Inr (lo_result out), t2)"
      "lo_workdir out = workdir_path e (lx_run_dir rq) (lx_execution_id rq)"
      "es_results s' = es_results t2" "es_signals s' = es_signals t2"
    by (rule execute_steps) metis
  note ok = load_or_synthesize_ok[OF st(4)]
  have "t1 = t \<and> exit_before_stop c = Some (ExitCode 0)" if "x = Completed (ExitCode 0)"
    using wait_for_child_completed st(3) that by blast
  then show ?thesis using ok st by auto
qed

end
