(* ===== verification/Scheduler.thy ===== *)
theory Scheduler
  imports LocalExec
begin

text \<open>
  The local scheduler (\<open>src/runtime/scheduler.rs\<close>, \<open>scheduler_queue_head.rs\<close>,
  \<open>scheduler_reporting_support.rs\<close>): submission of a plan, the handling of the queue head (load its plan,
  reconcile what an earlier run left behind, execute, report, or quarantine) and the drain loop.

  The environment of one drain is fixed, and \<open>ch k\<close> is the child process execution \<open>k\<close> would get.  The drain
  loop carries fuel; the lemmas show that one more than the length of the queue is always enough, because
  every reload follows a quarantine that has shortened the queue.
\<close>

subsection \<open>Submission\<close>

record drain_request =
  dr_run_dir :: string
  dr_instance_id :: string

record drain_outcome =
  do_execution_id :: string
  do_plan_digest :: string
  do_report :: report_envelope

record scheduler_outcome =
  so_execution_id :: string
  so_plan_digest :: string

fun risk_level_name :: "risk_level \<Rightarrow> string" where
  "risk_level_name R0 = ''R0''"
| "risk_level_name R1 = ''R1''"
| "risk_level_name R2 = ''R2''"
| "risk_level_name R3 = ''R3''"

definition next_execution_id :: "nat \<Rightarrow> string" where
  "next_execution_id nanos = ''exec_'' @ show_nat nanos"

definition remove_workdir :: "exec_env \<Rightarrow> string \<Rightarrow> exec_store \<Rightarrow> exec_store" where
  "remove_workdir e w s =
    (if ev_remove_err e (TWorkdir w) = None
     then s\<lparr>es_plans := dir_del w (es_plans s), es_runtimes := dir_del w (es_runtimes s),
            es_results := dir_del w (es_results s), es_progress := dir_del w (es_progress s)\<rparr>
     else s)"

definition submitted_item :: "exec_env \<Rightarrow> string \<Rightarrow> action_plan \<Rightarrow> string \<Rightarrow> exec_queue_item" where
  "submitted_item e execution_id plan plan_digest =
    (item_builder execution_id (ap_action_id plan) plan_digest (ap_request_id plan) (ev_now e))
      \<lparr>qi_deadline_at := Some (ev_after_millis e (ap_max_total_duration_ms plan)),
       qi_risk_level := Some (risk_level_name (ap_risk_level plan))\<rparr>"

definition submit_local_plan :: "exec_env \<Rightarrow> string \<Rightarrow> nat \<Rightarrow> action_plan \<Rightarrow> scheduler_outcome exec_op" where
  "submit_local_plan e run_dir nanos plan =
    (let execution_id = next_execution_id nanos; w = workdir_path e run_dir execution_id in
     bind_op (lift_res (ev_digest_plan e plan)) (\<lambda>plan_digest.
     bind_op (find_duplicate_execution e (ap_action_id plan) plan_digest) (\<lambda>existing.
     (case existing of
       Some other \<Rightarrow> fail_op (IoError AlreadyExists ''duplicate action plan already tracked locally'')
     | None \<Rightarrow>
         bind_op (create_workdir e w) (\<lambda>_.
         bind_op (store_plan e w plan) (\<lambda>_ s.
         (case bind_op (load_queue e) (\<lambda>q.
                store_queue e (enqueue (ev_now e) (submitted_item e execution_id plan plan_digest) q)) s of
           (Inl err, s') \<Rightarrow> (Inl err, remove_workdir e w s')
         | (Inr _, s') \<Rightarrow>
             (Inr \<lparr>so_execution_id = execution_id, so_plan_digest = plan_digest\<rparr>, s'))))))))"

subsection \<open>The queue head\<close>

record queue_head_context =
  hc_workdir :: string
  hc_running_path :: string
  hc_plan :: action_plan

datatype queue_head_disposition = Blocked | ReloadQueue | HeadCompleted drain_outcome

definition head_drain_outcome :: "exec_queue_item \<Rightarrow> report_envelope \<Rightarrow> drain_outcome" where
  "head_drain_outcome item report =
    \<lparr>do_execution_id = qi_execution_id item, do_plan_digest = qi_plan_digest item, do_report = report\<rparr>"

definition head_report_request ::
    "exec_env \<Rightarrow> drain_request \<Rightarrow> exec_queue_item \<Rightarrow> action_plan \<Rightarrow> string \<Rightarrow> action_result \<Rightarrow> reporting_request" where
  "head_report_request e dr item plan w r =
    \<lparr>rq_execution_id = qi_execution_id item, rq_action_id = qi_action_id item,
     rq_request_id = qi_request_id item, rq_plan_digest = qi_plan_digest item,
     rq_agent_id = ap_agent_id plan, rq_instance_id = dr_instance_id dr,
     rq_final_state = final_state_name e r, rq_result_path = result_path e w, rq_result = r\<rparr>"

definition read_queued_plan_async :: "exec_env \<Rightarrow> string \<Rightarrow> action_plan exec_op" where
  "read_queued_plan_async e w s = (read_file e (TPlan w) (dir_get (es_plans s) w), s)"

definition quarantine_queue_head_async :: "exec_env \<Rightarrow> exec_queue_item \<Rightarrow> string \<Rightarrow> string \<Rightarrow> unit exec_op" where
  "quarantine_queue_head_async e item running_path reason =
    quarantine_execution_async e (quarantine_queued_item item reason (Some running_path))"

definition load_queue_head_context_async ::
    "exec_env \<Rightarrow> drain_request \<Rightarrow> exec_queue_item \<Rightarrow> queue_head_context option exec_op" where
  "load_queue_head_context_async e dr item =
    (let w = workdir_path e (dr_run_dir dr) (qi_execution_id item); k = qi_execution_id item in
     (\<lambda>s. case read_queued_plan_async e w s of
        (Inr plan, s') \<Rightarrow> (Inr (Some \<lparr>hc_workdir = w, hc_running_path = k, hc_plan = plan\<rparr>), s')
      | (Inl err, s') \<Rightarrow>
          bind_op (quarantine_queue_head_async e item k ''queued execution plan unavailable'')
            (\<lambda>_. return_op None) s'))"

definition reconcile_completed_execution_async ::
    "exec_env \<Rightarrow> drain_request \<Rightarrow> exec_queue_item \<Rightarrow> action_plan \<Rightarrow> string \<Rightarrow> drain_outcome option exec_op" where
  "reconcile_completed_execution_async e dr item plan w =
    bind_op (load_complete_local_report_async e (qi_execution_id item)) (\<lambda>complete.
    (case complete of
      Some prepared \<Rightarrow> return_op (Some (head_drain_outcome item (pr_envelope prepared)))
    | None \<Rightarrow> (\<lambda>s.
        (case stat_async e (TResult w) (file_exists (dir_get (es_results s) w)) of
          Inl err \<Rightarrow> (Inl err, s)
        | Inr False \<Rightarrow> (Inr None, s)
        | Inr True \<Rightarrow>
            bind_op (lift_res (read_file e (TResult w) (dir_get (es_results s) w))) (\<lambda>r.
            bind_op (ensure_local_report_async e (head_report_request e dr item plan w r)) (\<lambda>prepared.
            return_op (Some (head_drain_outcome item (pr_envelope prepared))))) s))))"

definition recover_stale_execution_async ::
    "exec_env \<Rightarrow> drain_request \<Rightarrow> exec_queue_item \<Rightarrow> queue_head_context \<Rightarrow> running_state \<Rightarrow> drain_outcome exec_op" where
  "recover_stale_execution_async e dr item head st =
    (let recovered = synthesize_recovery_result e st in
     bind_op (store_result e (hc_workdir head) recovered) (\<lambda>_.
     bind_op (ensure_local_report_async e
        (head_report_request e dr item (hc_plan head) (hc_workdir head) recovered)) (\<lambda>prepared.
     return_op (head_drain_outcome item (pr_envelope prepared)))))"

definition reconcile_queue_head_async ::
    "exec_env \<Rightarrow> proc_env \<Rightarrow> drain_request \<Rightarrow> exec_queue_item \<Rightarrow> queue_head_context
     \<Rightarrow> queue_head_disposition option exec_op" where
  "reconcile_queue_head_async e p dr item head s =
    (let k = hc_running_path head in
     (case stat_async e (TRunning k) (file_exists (dir_get (es_running s) k)) of
       Inl err \<Rightarrow> (Inl err, s)
     | Inr False \<Rightarrow>
         bind_op (reconcile_completed_execution_async e dr item (hc_plan head) (hc_workdir head))
           (\<lambda>out. return_op (map_option HeadCompleted out)) s
     | Inr True \<Rightarrow> (case load_running e k s of
         (Inl err, s') \<Rightarrow>
           bind_op (quarantine_queue_head_async e item k ''queued execution state unavailable'')
             (\<lambda>_. return_op (Some ReloadQueue)) s'
       | (Inr st, s') \<Rightarrow>
           bind_op (execution_is_still_running_async e p st k) (\<lambda>(still, st1).
           if still then return_op (Some Blocked)
           else bind_op (reconcile_completed_execution_async e dr item (hc_plan head) (hc_workdir head)) (\<lambda>out.
             (case out of
               Some outcome \<Rightarrow>
                 bind_op (remove_running_async e k) (\<lambda>_. return_op (Some (HeadCompleted outcome)))
             | None \<Rightarrow>
                 bind_op (recover_stale_execution_async e dr item head st1) (\<lambda>recovered.
                 bind_op (remove_running_async e k) (\<lambda>_. return_op (Some (HeadCompleted recovered))))))) s')))"

definition execute_queue_head_async ::
    "exec_env \<Rightarrow> proc_env \<Rightarrow> (string \<Rightarrow> child_env) \<Rightarrow> drain_request \<Rightarrow> exec_queue_item \<Rightarrow> queue_head_context
     \<Rightarrow> queue_head_disposition exec_op" where
  "execute_queue_head_async e p ch dr item head s =
    (let k = qi_execution_id item in
     (case execute_async e p (ch k)
        \<lparr>lx_execution_id = k, lx_run_dir = dr_run_dir dr, lx_plan_digest = qi_plan_digest item,
         lx_request_id = qi_request_id item, lx_plan = hc_plan head\<rparr> s of
       (Inl err, s') \<Rightarrow>
         bind_op (quarantine_queue_head_async e item (hc_running_path head) ''local execution failed'')
           (\<lambda>_. return_op ReloadQueue) s'
     | (Inr local, s') \<Rightarrow>
         (case prepare_local_report_async e
             (head_report_request e dr item (hc_plan head) (lo_workdir local) (lo_result local)) s' of
           (Inl err, s'') \<Rightarrow>
             bind_op (quarantine_queue_head_async e item (hc_running_path head)
                ''local execution report preparation failed'')
               (\<lambda>_. return_op ReloadQueue) s''
         | (Inr prepared, s'') \<Rightarrow>
             bind_op (remove_running_async e (hc_running_path head)) (\<lambda>_.
             return_op (HeadCompleted (head_drain_outcome item (pr_envelope prepared)))) s'')))"

definition handle_queue_head_async ::
    "exec_env \<Rightarrow> proc_env \<Rightarrow> (string \<Rightarrow> child_env) \<Rightarrow> drain_request \<Rightarrow> exec_queue_item
     \<Rightarrow> queue_head_disposition exec_op" where
  "handle_queue_head_async e p ch dr item =
    bind_op (load_queue_head_context_async e dr item) (\<lambda>ctx.
    (case ctx of
      None \<Rightarrow> return_op ReloadQueue
    | Some head \<Rightarrow>
        bind_op (reconcile_queue_head_async e p dr item head) (\<lambda>disposition.
        (case disposition of
          Some d \<Rightarrow> return_op d
        | None \<Rightarrow> execute_queue_head_async e p ch dr item head))))"

subsection \<open>The drain loop\<close>

fun drain_loop ::
    "exec_env \<Rightarrow> proc_env \<Rightarrow> (string \<Rightarrow> child_env) \<Rightarrow> drain_request \<Rightarrow> nat \<Rightarrow> exec_queue
     \<Rightarrow> exec_store \<Rightarrow> (drain_outcome option res \<times> exec_store) option" where
  "drain_loop e p ch dr 0 q s = None"
| "drain_loop e p ch dr (Suc fuel) q s =
    (case eq_items q of
      [] \<Rightarrow> Some (Inr None, s)
    | item # _ \<Rightarrow> (case handle_queue_head_async e p ch dr item s of
        (Inl err, s') \<Rightarrow> Some (Inl err, s')
      | (Inr Blocked, s') \<Rightarrow> Some (Inr None, s')
      | (Inr ReloadQueue, s') \<Rightarrow> (case load_queue_async e s' of
          (Inl err, s'') \<Rightarrow> Some (Inl err, s'')
        | (Inr q', s'') \<Rightarrow> drain_loop e p ch dr fuel q' s'')
      | (Inr (HeadCompleted outcome), s') \<Rightarrow>
          Some (bind_op (store_queue e (queue_remove (ev_now e) (qi_execution_id item) q))
                  (\<lambda>_. return_op (Some outcome)) s')))"

definition drain_next_with_report_async ::
    "exec_env \<Rightarrow> proc_env \<Rightarrow> (string \<Rightarrow> child_env) \<Rightarrow> drain_request \<Rightarrow> exec_store
     \<Rightarrow> (drain_outcome option res \<times> exec_store) option" where
  "drain_next_with_report_async e p ch dr s = (case load_queue_async e s of
      (Inl err, s') \<Rightarrow> Some (Inl err, s')
    | (Inr q, s') \<Rightarrow> drain_loop e p ch dr (Suc (length (eq_items q))) q s')"

subsection \<open>Effect of the operations on what is tracked\<close>

lemma same_but_report_frame:
  assumes "same_but_report k s s'"
  shows "es_queue s' = es_queue s" "es_running s' = es_running s" "es_history s' = es_history s"
    "es_plans s' = es_plans s" "es_results s' = es_results s" "es_signals s' = es_signals s"
    "queued_items s' = queued_items s" "running_plan s' = running_plan s" "history_plan s' = history_plan s"
    "queued_with s' = queued_with s" "j \<noteq> k \<Longrightarrow> reported_plan s' j = reported_plan s j"
proof -
  have eq: "s'\<lparr>es_reporting := es_reporting s, es_envelopes := es_envelopes s\<rparr> = s"
    using assms by (simp add: same_but_report_def)
  show q: "es_queue s' = es_queue s" and r: "es_running s' = es_running s" and h: "es_history s' = es_history s"
    and "es_plans s' = es_plans s" "es_results s' = es_results s" "es_signals s' = es_signals s"
    by (subst eq[symmetric], simp)+
  show "queued_items s' = queued_items s" "running_plan s' = running_plan s" "history_plan s' = history_plan s"
    "queued_with s' = queued_with s"
    using q r h by (simp_all add: plan_defs fun_eq_iff)
  show "j \<noteq> k \<Longrightarrow> reported_plan s' j = reported_plan s j"
    using assms by (simp add: same_but_report_def reported_plan_def)
qed

lemma report_tracks:
  assumes "coherent s" "tracks s k pd" "same_but_report k s s'"
    and "reported_plan s' k = reported_plan s k \<or> reported_plan s' k = Some pd"
  shows "tracks s' = tracks s"
proof (cases "reported_plan s' k = reported_plan s k")
  case True
  then have "reported_plan s' = reported_plan s" using same_but_report_frame(11)[OF assms(3)] by (metis ext)
  then show ?thesis by (simp add: fun_eq_iff tracks_def same_but_report_frame[OF assms(3)])
next
  case False
  with assms(4) have new: "reported_plan s' k = Some pd" by blast
  show ?thesis
    by (rule tracks_shrink[OF assms(1), where k = k and ?pd0.0 = pd])
      (use new assms(2) same_but_report_frame[OF assms(3)] in \<open>auto simp: tracks_def\<close>)
qed

lemma ensure_tracks:
  assumes "coherent s" "tracks s (rq_execution_id rq) pd" "pd = (rq_action_id rq, rq_plan_digest rq)"
  shows "tracks (snd (ensure_local_report_async e rq s)) = tracks s"
proof -
  obtain r s' where r: "ensure_local_report_async e rq s = (r, s')" by fastforce
  have "tracks s' = tracks s"
  proof (cases r)
    case (Inl err)
    from ensure_err[OF r[unfolded Inl]] assms show ?thesis by (intro report_tracks) auto
  next
    case (Inr p)
    from ensure_ok[OF r[unfolded Inr]] assms show ?thesis
      by (intro report_tracks) auto
  qed
  then show ?thesis by (simp add: r)
qed

lemma prepare_tracks:
  assumes "coherent s" "tracks s (rq_execution_id rq) pd" "pd = (rq_action_id rq, rq_plan_digest rq)"
  shows "tracks (snd (prepare_local_report_with_issue_async e rq i s)) = tracks s"
proof -
  obtain r s' where r: "prepare_local_report_with_issue_async e rq i s = (r, s')" by fastforce
  have "tracks s' = tracks s"
  proof (cases r)
    case (Inl err)
    note pe = prepare_err[OF r[unfolded Inl]]
    show ?thesis using pe assms by (intro report_tracks) (auto simp: reported_plan_def)
  next
    case (Inr p)
    from prepare_ok[OF r[unfolded Inr]] assms show ?thesis
      by (intro report_tracks) (auto simp: report_ready_def)
  qed
  then show ?thesis by (simp add: r)
qed

lemma touches_tracks:
  assumes "coherent s" "tracks s k pd" "exec_touches k w pd s t"
  shows "tracks t = tracks s"
proof -
  have eqs: "queued_with t = queued_with s" "reported_plan t = reported_plan s" "history_plan t = history_plan s"
    "\<And>j. j \<noteq> k \<Longrightarrow> running_plan t j = running_plan s j"
    using assms(3) by (simp_all add: exec_touches_def plan_defs fun_eq_iff)
  from assms(3) consider "running_plan t k = running_plan s k" | "running_plan t k = Some pd"
    by (auto simp: exec_touches_def)
  then show ?thesis
  proof cases
    case 1
    then have "running_plan t = running_plan s" using eqs(4) by (metis ext)
    then show ?thesis by (simp add: fun_eq_iff tracks_def eqs)
  next
    case 2
    show ?thesis
      by (rule tracks_shrink[OF assms(1), where k = k and ?pd0.0 = pd])
        (use 2 assms(2) eqs in \<open>auto simp: tracks_def\<close>)
  qed
qed

lemma force_stop_touches:
  assumes "force_stop_expired_process_async e p st k s = (r, s')"
  shows "exec_touches k w pd s s'"
proof -
  have fk: "keeps (exec_touches k w pd s) (force_kill p pid)" for pid
    by (rule keepsI) (auto simp: force_kill_def send_signal_def exec_touches_def plan_defs split: option.splits)
  have lr: "keeps (exec_touches k w pd s) (load_running e k)"
    by (rule keepsI) (simp add: load_running_def)
  have "keeps (exec_touches k w pd s) (force_stop_expired_process_async e p st k)"
    unfolding force_stop_expired_process_async_def
    by (intro keeps_intros fk lr keeps_record_signal)
      (auto split: identity_state.splits intro!: keeps_intros fk lr keeps_record_signal)
  from keepsD[OF this, of s] show ?thesis using assms by simp
qed

lemma still_running_touches:
  assumes "execution_is_still_running_async e p st k s = (r, s')"
  shows "exec_touches k w pd s s'"
  using assms by (auto simp: execution_is_still_running_async_def return_op_def fail_op_def
      split: sum.splits running_state_status.splits dest: force_stop_touches)

subsection \<open>The queue head keeps what is tracked\<close>

lemma quarantine_head_effect:
  assumes "coherent t" "queued_with t (qi_execution_id item) (item_plan item)"
    and "quarantine_queue_head_async e item (qi_execution_id item) reason t = (r, t')"
  shows "tracks t' = tracks t \<and>
    (is_ok r \<longrightarrow> queued_items t' = filter (\<lambda>i. qi_execution_id i \<noteq> qi_execution_id item) (queued_items t))"
proof
  let ?q = "quarantine_queued_item item reason (Some (qi_execution_id item))"
  have "tracks (snd (quarantine_execution_async e ?q t)) = tracks t"
    by (rule quarantine_tracks[where ?pd0.0 = "item_plan item"])
      (use assms in \<open>auto simp: quarantine_queued_item_def anchored_def item_plan_def\<close>)
  then show "tracks t' = tracks t" using assms(3) by (simp add: quarantine_queue_head_async_def)
  show "is_ok r \<longrightarrow> queued_items t' = filter (\<lambda>i. qi_execution_id i \<noteq> qi_execution_id item) (queued_items t)"
    using assms(3) quarantine_ok[of e ?q t _ t' "qi_execution_id item"]
    by (cases r) (auto simp: quarantine_queue_head_async_def quarantine_queued_item_def)
qed

lemma reported_tracks: "reported_plan s k = Some pd \<Longrightarrow> tracks s k pd"
  by (simp add: tracks_def)

text \<open>The execution has a complete report on disk, for the item's plan, and \<open>out\<close> carries its envelope.\<close>

definition reported_outcome :: "exec_queue_item \<Rightarrow> drain_outcome \<Rightarrow> exec_store \<Rightarrow> bool" where
  "reported_outcome item out s \<longleftrightarrow>
     reported_plan s (qi_execution_id item) = Some (item_plan item) \<and>
     (\<exists>p. report_ready s (qi_execution_id item) p \<and> out = head_drain_outcome item (pr_envelope p))"

lemma reported_outcomeI:
  assumes "coherent s'" "tracks s' (qi_execution_id item) (item_plan item)" "report_ready s' (qi_execution_id item) p"
  shows "reported_outcome item (head_drain_outcome item (pr_envelope p)) s'"
proof -
  have "reported_plan s' (qi_execution_id item) = Some (rs_action_id (pr_state p), rs_plan_digest (pr_state p))"
    using assms(3) by (simp add: report_ready_def)
  with assms(1,2) have "reported_plan s' (qi_execution_id item) = Some (item_plan item)"
    using coherentD reported_tracks by metis
  then show ?thesis using assms(3) by (auto simp: reported_outcome_def)
qed

lemma reported_outcome_running [simp]:
  "reported_outcome item out (s\<lparr>es_running := x\<rparr>) = reported_outcome item out s"
  by (simp add: reported_outcome_def report_ready_def)

lemma load_complete_cases:
  assumes "load_complete_local_report_async e k s = (r, s')"
  shows "s' = s" "r = Inr (Some p) \<Longrightarrow> report_ready s k p"
proof -
  obtain i s1 where i: "inspect_local_report_async e k s = (i, s1)" by fastforce
  note c = inspect_async_cases[OF i]
  show "s' = s" using assms i c(1)
    by (auto simp: load_complete_local_report_async_def bind_op_def return_op_def split: sum.splits)
  show "r = Inr (Some p) \<Longrightarrow> report_ready s k p"
    using assms i c(1) c(2)[of p]
    by (auto simp: load_complete_local_report_async_def bind_op_def return_op_def
        split: sum.splits local_report_inspection.splits)
qed

lemma head_report_request_simps [simp]:
  "rq_execution_id (head_report_request e dr item plan w r) = qi_execution_id item"
  "rq_action_id (head_report_request e dr item plan w r) = qi_action_id item"
  "rq_plan_digest (head_report_request e dr item plan w r) = qi_plan_digest item"
  "rq_result (head_report_request e dr item plan w r) = r"
  by (simp_all add: head_report_request_def)

lemma ensure_head_effect:
  assumes "coherent s" "tracks s (qi_execution_id item) (item_plan item)"
    and "ensure_local_report_async e (head_report_request e dr item plan w res) s = (r, s')"
  shows "tracks s' = tracks s" "same_but_report (qi_execution_id item) s s'"
    "r = Inr p \<Longrightarrow> reported_outcome item (head_drain_outcome item (pr_envelope p)) s'"
proof -
  show t: "tracks s' = tracks s"
    using ensure_tracks[OF assms(1), of "head_report_request e dr item plan w res" "item_plan item" e] assms(2,3)
    by (simp add: item_plan_def)
  show "same_but_report (qi_execution_id item) s s'"
    using assms(3) ensure_ok[of e "head_report_request e dr item plan w res" s]
      ensure_err[of e "head_report_request e dr item plan w res" s] by (cases r) auto
  assume "r = Inr p"
  then have "report_ready s' (qi_execution_id item) p" using ensure_ok[of e "head_report_request e dr item plan w res" s p s'] assms(3) by simp
  with t assms(1,2) coherent_tracksI[OF assms(1) t] show "reported_outcome item (head_drain_outcome item (pr_envelope p)) s'"
    by (intro reported_outcomeI) simp_all
qed

lemma reconcile_completed_effect:
  assumes "coherent s" "tracks s (qi_execution_id item) (item_plan item)"
    and "reconcile_completed_execution_async e dr item plan w s = (r, s')"
  shows "tracks s' = tracks s" "same_but_report (qi_execution_id item) s s'" "r = Inr None \<Longrightarrow> s' = s"
    "r = Inr (Some out) \<Longrightarrow> reported_outcome item out s'"
proof -
  let ?k = "qi_execution_id item"
  obtain c s1 where c: "load_complete_local_report_async e ?k s = (c, s1)" by fastforce
  note lc = load_complete_cases[OF c]
  have "tracks s' = tracks s \<and> same_but_report ?k s s' \<and> (r = Inr None \<longrightarrow> s' = s) \<and>
    (\<forall>out. r = Inr (Some out) \<longrightarrow> reported_outcome item out s')"
  proof (cases "\<exists>p. c = Inr (Some p)")
    case True
    then obtain p where p: "c = Inr (Some p)" by blast
    with assms(3) c lc(1) have "s' = s" "r = Inr (Some (head_drain_outcome item (pr_envelope p)))"
      by (auto simp: reconcile_completed_execution_async_def bind_op_def)
    with reported_outcomeI[OF assms(1,2) lc(2)[OF p]] show ?thesis by auto
  next
    case False
    have r: "(s' = s \<and> (\<forall>out. r \<noteq> Inr (Some out))) \<or>
      (\<exists>res x. ensure_local_report_async e (head_report_request e dr item plan w res) s = (x, s') \<and>
        (\<forall>p. x = Inr p \<longrightarrow> r = Inr (Some (head_drain_outcome item (pr_envelope p)))) \<and> (\<forall>er. x = Inl er \<longrightarrow> r = Inl er))"
      using assms(3) c lc(1) False
      by (auto simp: reconcile_completed_execution_async_def bind_op_def lift_res_def return_op_def
          split: sum.splits option.splits bool.splits prod.splits)
    then show ?thesis
    proof
      assume "\<exists>res x. ensure_local_report_async e (head_report_request e dr item plan w res) s = (x, s') \<and>
        (\<forall>p. x = Inr p \<longrightarrow> r = Inr (Some (head_drain_outcome item (pr_envelope p)))) \<and> (\<forall>er. x = Inl er \<longrightarrow> r = Inl er)"
      then obtain res x where x: "ensure_local_report_async e (head_report_request e dr item plan w res) s = (x, s')"
        "\<And>p. x = Inr p \<Longrightarrow> r = Inr (Some (head_drain_outcome item (pr_envelope p)))" "\<And>er. x = Inl er \<Longrightarrow> r = Inl er"
        by blast
      note en = ensure_head_effect[OF assms(1,2) x(1)]
      show ?thesis using en x(2,3) by (cases x) auto
    qed auto
  qed
  then show "tracks s' = tracks s" "same_but_report ?k s s'" "r = Inr None \<Longrightarrow> s' = s"
    "r = Inr (Some out) \<Longrightarrow> reported_outcome item out s'" by auto
qed

text \<open>What handling the head \<open>item\<close> may do to the store: everything stays tracked; the queue is untouched
  except by a quarantine, which removes exactly the item's entries; and a completed head has its report.\<close>

definition head_effect :: "exec_queue_item \<Rightarrow> exec_store \<Rightarrow> queue_head_disposition res \<Rightarrow> exec_store \<Rightarrow> bool" where
  "head_effect item s r s' \<longleftrightarrow> tracks s' = tracks s \<and>
     (r = Inr Blocked \<longrightarrow> es_queue s' = es_queue s) \<and>
     (r = Inr ReloadQueue \<longrightarrow>
        queued_items s' = filter (\<lambda>i. qi_execution_id i \<noteq> qi_execution_id item) (queued_items s)) \<and>
     (\<forall>out. r = Inr (HeadCompleted out) \<longrightarrow> es_queue s' = es_queue s \<and> reported_outcome item out s' \<and>
        dir_get (es_running s') (qi_execution_id item) = Missing)"

lemma remove_running_head:
  assumes "coherent s" "reported_outcome item out s"
    and "remove_running_async e (qi_execution_id item) s = (r, s')"
  shows "tracks s' = tracks s \<and> es_queue s' = es_queue s \<and> reported_outcome item out s' \<and>
    (is_ok r \<longrightarrow> dir_get (es_running s') (qi_execution_id item) = Missing)"
  using assms tracks_del_running[OF assms(1), of "qi_execution_id item" "item_plan item"]
  by (auto simp: remove_running_async_def remove_op_def reported_outcome_def report_ready_def file_exists_iff dir_laws
      split: if_splits option.splits)

lemma quarantine_then_reload:
  assumes "coherent t" "queued_with t (qi_execution_id item) (item_plan item)" "tracks t = tracks s"
    "queued_items t = queued_items s"
    and "bind_op (quarantine_queue_head_async e item (qi_execution_id item) reason) (\<lambda>_. return_op ReloadQueue) t = (r, s')"
  shows "head_effect item s r s'"
proof -
  obtain x t' where x: "quarantine_queue_head_async e item (qi_execution_id item) reason t = (x, t')" by fastforce
  from quarantine_head_effect[OF assms(1,2) x] show ?thesis
    using assms(3-5) x by (cases x) (auto simp: bind_op_def return_op_def head_effect_def)
qed

lemma recover_stale_effect:
  assumes "coherent s" "tracks s (qi_execution_id item) (item_plan item)"
    and "recover_stale_execution_async e dr item head st s = (r, s')"
  shows "tracks s' = tracks s" "es_queue s' = es_queue s" "r = Inr out \<Longrightarrow> reported_outcome item out s'"
proof -
  let ?res = "synthesize_recovery_result e st"
  obtain x s1 where x: "store_result e (hc_workdir head) ?res s = (x, s1)" by fastforce
  have s1: "tracks s1 = tracks s \<and> es_queue s1 = es_queue s"
    using x by (cases "ev_write e (TResult (hc_workdir head))") (auto simp: store_result_def)
  have coh: "coherent s1" "tracks s1 (qi_execution_id item) (item_plan item)"
    using s1 assms(1,2) coherent_cong[of s1 s] by simp_all
  obtain y s2 where y: "ensure_local_report_async e
      (head_report_request e dr item (hc_plan head) (hc_workdir head) ?res) s1 = (y, s2)" by fastforce
  note en = ensure_head_effect[OF coh y]
  have "s' = s1 \<and> (\<forall>out. r \<noteq> Inr out) \<or> s' = s2 \<and> (\<forall>out. r = Inr out \<longrightarrow>
      (\<exists>p. y = Inr p \<and> out = head_drain_outcome item (pr_envelope p)))"
    using assms(3) x y by (cases x; cases y) (auto simp: recover_stale_execution_async_def Let_def bind_op_def return_op_def)
  moreover have "tracks s2 = tracks s" "es_queue s2 = es_queue s"
    using s1 en(1) same_but_report_frame(1)[OF en(2)] by simp_all
  ultimately show "tracks s' = tracks s" "es_queue s' = es_queue s" "r = Inr out \<Longrightarrow> reported_outcome item out s'"
    using s1 en(3) by auto
qed

lemma remove_then_complete:
  assumes "coherent t" "reported_outcome item out t" "tracks t = tracks s" "es_queue t = es_queue s"
    and "bind_op (remove_running_async e (qi_execution_id item)) (\<lambda>_. return_op (HeadCompleted out)) t = (r, s')"
  shows "head_effect item s r s'"
proof -
  obtain x t' where x: "remove_running_async e (qi_execution_id item) t = (x, t')" by fastforce
  from remove_running_head[OF assms(1,2) x] show ?thesis
    using assms(3-5) x by (cases x) (auto simp: bind_op_def return_op_def head_effect_def)
qed

lemma execute_head_effect:
  assumes "coherent s" "queued_with s (qi_execution_id item) (item_plan item)"
    and "hc_running_path head = qi_execution_id item" "ap_action_id (hc_plan head) = qi_action_id item"
    and "execute_queue_head_async e p ch dr item head s = (r, s')"
  shows "head_effect item s r s'"
proof -
  let ?k = "qi_execution_id item"
  let ?rq = "\<lparr>lx_execution_id = ?k, lx_run_dir = dr_run_dir dr, lx_plan_digest = qi_plan_digest item,
         lx_request_id = qi_request_id item, lx_plan = hc_plan head\<rparr>"
  let ?w = "workdir_path e (dr_run_dir dr) ?k"
  have tr: "tracks s ?k (item_plan item)" using assms(2) by (simp add: tracks_def)
  obtain x s1 where x: "execute_async e p (ch ?k) ?rq s = (x, s1)" by fastforce
  have touch: "exec_touches ?k ?w (item_plan item) s s1"
    using execute_touches[of "item_plan item" ?rq e s p "ch ?k"] x assms(4) by (simp add: item_plan_def)
  have t1: "tracks s1 = tracks s" by (rule touches_tracks[OF assms(1) tr touch])
  have coh: "coherent s1" "tracks s1 ?k (item_plan item)" using assms(1) tr coherent_tracksI[of s s1] t1 by simp_all
  have q1: "es_queue s1 = es_queue s" "queued_items s1 = queued_items s"
    using touch by (simp_all add: exec_touches_def queued_items_def)
  then have qw: "queued_with s1 ?k (item_plan item)" using assms(2) by (simp add: queued_with_def)
  show ?thesis
  proof (cases x)
    case (Inl err)
    with assms(3,5) x have "bind_op (quarantine_queue_head_async e item ?k ''local execution failed'')
        (\<lambda>_. return_op ReloadQueue) s1 = (r, s')" by (simp add: execute_queue_head_async_def)
    then show ?thesis by (rule quarantine_then_reload[OF coh(1) qw t1 q1(2)])
  next
    case (Inr lo)
    let ?pq = "head_report_request e dr item (hc_plan head) (lo_workdir lo) (lo_result lo)"
    obtain y s2 where y: "prepare_local_report_with_issue_async e ?pq NewReport s1 = (y, s2)" by fastforce
    have t2: "tracks s2 = tracks s1"
      using prepare_tracks[OF coh(1), of ?pq "item_plan item" e NewReport] coh(2) y by (simp add: item_plan_def)
    have same: "same_but_report ?k s1 s2"
      using y prepare_ok[of e ?pq NewReport s1] prepare_err[of e ?pq NewReport s1] by (cases y) auto
    note fr = same_but_report_frame[OF same]
    have coh2: "coherent s2" "tracks s2 ?k (item_plan item)" using coh t2 coherent_tracksI[of s1 s2] by simp_all
    show ?thesis
    proof (cases y)
      case (Inl err)
      with \<open>x = Inr lo\<close> assms(3,5) x y have "bind_op (quarantine_queue_head_async e item ?k
          ''local execution report preparation failed'') (\<lambda>_. return_op ReloadQueue) s2 = (r, s')"
        by (simp add: execute_queue_head_async_def prepare_local_report_async_def)
      then show ?thesis
        by (rule quarantine_then_reload[rotated 4]) (use coh2 qw fr t1 t2 q1 in simp_all)
    next
      case (Inr pr)
      have "report_ready s2 ?k pr" using prepare_ok[OF y[unfolded Inr]] by simp
      from reported_outcomeI[OF coh2 this]
      have "reported_outcome item (head_drain_outcome item (pr_envelope pr)) s2" .
      moreover have "bind_op (remove_running_async e ?k)
          (\<lambda>_. return_op (HeadCompleted (head_drain_outcome item (pr_envelope pr)))) s2 = (r, s')"
        using \<open>x = Inr lo\<close> Inr assms(3,5) x y
        by (simp add: execute_queue_head_async_def prepare_local_report_async_def)
      ultimately show ?thesis
        using t1 t2 fr(1) q1(1) by (intro remove_then_complete[OF coh2(1)]) simp_all
    qed
  qed
qed

text \<open>The same for the reconciliation, which may also find nothing to do.\<close>

definition head_effect_opt ::
    "exec_queue_item \<Rightarrow> exec_store \<Rightarrow> queue_head_disposition option res \<Rightarrow> exec_store \<Rightarrow> bool" where
  "head_effect_opt item s r s' \<longleftrightarrow> tracks s' = tracks s \<and> (r = Inr None \<longrightarrow> s' = s) \<and>
     (\<forall>d. r = Inr (Some d) \<longrightarrow> head_effect item s (Inr d) s')"

lemma head_effect_opt_trans:
  assumes "tracks t = tracks s" "es_queue t = es_queue s" "head_effect_opt item t r s'" "r \<noteq> Inr None"
  shows "head_effect_opt item s r s'"
  using assms by (auto simp: head_effect_opt_def head_effect_def queued_items_def)

lemma remove_then_complete_opt:
  assumes "coherent t" "reported_outcome item out t"
    and "bind_op (remove_running_async e (qi_execution_id item)) (\<lambda>_. return_op (Some (HeadCompleted out))) t = (r, s')"
  shows "head_effect_opt item t r s' \<and> r \<noteq> Inr None"
proof -
  obtain x t' where x: "remove_running_async e (qi_execution_id item) t = (x, t')" by fastforce
  from remove_running_head[OF assms(1,2) x] show ?thesis
    using assms(3) x by (cases x) (auto simp: bind_op_def return_op_def head_effect_def head_effect_opt_def)
qed

lemma reconcile_absent_effect:
  assumes "coherent s" "tracks s (qi_execution_id item) (item_plan item)"
    and "dir_get (es_running s) (qi_execution_id item) = Missing"
    and "bind_op (reconcile_completed_execution_async e dr item plan w)
           (\<lambda>out. return_op (map_option HeadCompleted out)) s = (r, s')"
  shows "head_effect_opt item s r s'"
proof -
  obtain x t where x: "reconcile_completed_execution_async e dr item plan w s = (x, t)" by fastforce
  note eff = reconcile_completed_effect[OF assms(1,2) x]
  note fr = same_but_report_frame[OF eff(2)]
  consider er where "x = Inl er" | "x = Inr None" | out where "x = Inr (Some out)"
    by (metis not_Some_eq sum.exhaust)
  then show ?thesis
  proof cases
    case 1 then show ?thesis using assms(4) x eff(1) by (auto simp: bind_op_def head_effect_opt_def)
  next
    case 2 then show ?thesis using assms(4) x eff(3) by (auto simp: bind_op_def return_op_def head_effect_opt_def)
  next
    case (3 out)
    then have "r = Inr (Some (HeadCompleted out))" "s' = t"
      using assms(4) x by (simp_all add: bind_op_def return_op_def)
    then show ?thesis using eff(1) eff(4)[OF 3] fr assms(3) by (simp add: head_effect_opt_def head_effect_def)
  qed
qed

lemma recover_then_complete_effect:
  assumes "coherent u" "tracks u (qi_execution_id item) (item_plan item)"
    and "bind_op (recover_stale_execution_async e dr item head st) (\<lambda>recovered.
           bind_op (remove_running_async e (qi_execution_id item)) (\<lambda>_. return_op (Some (HeadCompleted recovered)))) u = (r, s')"
  shows "head_effect_opt item u r s' \<and> r \<noteq> Inr None"
proof -
  obtain v u2 where v: "recover_stale_execution_async e dr item head st u = (v, u2)" by fastforce
  note rec = recover_stale_effect[OF assms(1,2) v]
  have coh: "coherent u2" by (rule coherent_tracksI[OF assms(1) rec(1)])
  show ?thesis
  proof (cases v)
    case (Inl er) then show ?thesis using assms(3) v rec(1) by (auto simp: bind_op_def head_effect_opt_def)
  next
    case (Inr out)
    then have "bind_op (remove_running_async e (qi_execution_id item)) (\<lambda>_. return_op (Some (HeadCompleted out))) u2 = (r, s')"
      using assms(3) v by (simp add: bind_op_def)
    from remove_then_complete_opt[OF coh rec(3)[OF Inr] this] show ?thesis
      using head_effect_opt_trans[OF rec(1,2)] by blast
  qed
qed

lemma reconcile_dead_effect:
  assumes "coherent t" "tracks t (qi_execution_id item) (item_plan item)"
    and "bind_op (reconcile_completed_execution_async e dr item plan w) (\<lambda>out. (case out of
             Some outcome \<Rightarrow>
               bind_op (remove_running_async e (qi_execution_id item)) (\<lambda>_. return_op (Some (HeadCompleted outcome)))
           | None \<Rightarrow> bind_op (recover_stale_execution_async e dr item head st) (\<lambda>recovered.
               bind_op (remove_running_async e (qi_execution_id item)) (\<lambda>_. return_op (Some (HeadCompleted recovered)))))) t = (r, s')"
  shows "head_effect_opt item t r s' \<and> r \<noteq> Inr None"
proof -
  obtain y u where y: "reconcile_completed_execution_async e dr item plan w t = (y, u)" by fastforce
  note eff = reconcile_completed_effect[OF assms(1,2) y]
  note fr = same_but_report_frame[OF eff(2)]
  have coh: "coherent u" "tracks u (qi_execution_id item) (item_plan item)"
    using assms(1,2) eff(1) coherent_tracksI[of t u] by simp_all
  consider er where "y = Inl er" | "y = Inr None" | out where "y = Inr (Some out)"
    by (metis not_Some_eq sum.exhaust)
  then show ?thesis
  proof cases
    case 1 then show ?thesis using assms(3) y eff(1) by (auto simp: bind_op_def head_effect_opt_def)
  next
    case 2
    have "bind_op (recover_stale_execution_async e dr item head st) (\<lambda>recovered.
           bind_op (remove_running_async e (qi_execution_id item)) (\<lambda>_. return_op (Some (HeadCompleted recovered)))) u = (r, s')"
      using assms(3) y 2 by (simp add: bind_op_def)
    from recover_then_complete_effect[OF coh this] show ?thesis
      using head_effect_opt_trans[OF eff(1) fr(1)] by blast
  next
    case (3 out)
    have "bind_op (remove_running_async e (qi_execution_id item)) (\<lambda>_. return_op (Some (HeadCompleted out))) u = (r, s')"
      using assms(3) y 3 by (simp add: bind_op_def)
    from remove_then_complete_opt[OF coh(1) eff(4)[OF 3] this] show ?thesis
      using head_effect_opt_trans[OF eff(1) fr(1)] by blast
  qed
qed

lemma reconcile_running_effect:
  assumes "coherent s" "tracks s (qi_execution_id item) (item_plan item)"
    and "bind_op (execution_is_still_running_async e p st (qi_execution_id item)) (\<lambda>(still, st1).
           if still then return_op (Some Blocked)
           else bind_op (reconcile_completed_execution_async e dr item plan w) (\<lambda>out. (case out of
               Some outcome \<Rightarrow>
                 bind_op (remove_running_async e (qi_execution_id item)) (\<lambda>_. return_op (Some (HeadCompleted outcome)))
             | None \<Rightarrow> bind_op (recover_stale_execution_async e dr item head st1) (\<lambda>recovered.
                 bind_op (remove_running_async e (qi_execution_id item)) (\<lambda>_. return_op (Some (HeadCompleted recovered))))))) s = (r, s')"
  shows "head_effect_opt item s r s'"
proof -
  let ?k = "qi_execution_id item"
  obtain x t where x: "execution_is_still_running_async e p st ?k s = (x, t)" by fastforce
  have touch: "exec_touches ?k w (item_plan item) s t" by (rule still_running_touches[OF x])
  have t1: "tracks t = tracks s" by (rule touches_tracks[OF assms(1,2) touch])
  have coh: "coherent t" "tracks t ?k (item_plan item)" using assms(1,2) t1 coherent_tracksI[of s t] by simp_all
  have q1: "es_queue t = es_queue s" using touch by (simp add: exec_touches_def)
  consider er where "x = Inl er" | st1 where "x = Inr (True, st1)" | st1 where "x = Inr (False, st1)"
    by (metis surj_pair sum.exhaust)
  then show ?thesis
  proof cases
    case 1 then show ?thesis using assms(3) x t1 by (auto simp: bind_op_def head_effect_opt_def)
  next
    case 2
    then show ?thesis using assms(3) x t1 q1
      by (auto simp: bind_op_def return_op_def head_effect_opt_def head_effect_def)
  next
    case (3 st1)
    have "bind_op (reconcile_completed_execution_async e dr item plan w) (\<lambda>out. (case out of
             Some outcome \<Rightarrow>
               bind_op (remove_running_async e ?k) (\<lambda>_. return_op (Some (HeadCompleted outcome)))
           | None \<Rightarrow> bind_op (recover_stale_execution_async e dr item head st1) (\<lambda>recovered.
               bind_op (remove_running_async e ?k) (\<lambda>_. return_op (Some (HeadCompleted recovered)))))) t = (r, s')"
      using assms(3) x 3 by (simp add: bind_op_def)
    from reconcile_dead_effect[OF coh this] show ?thesis using head_effect_opt_trans[OF t1 q1] by blast
  qed
qed

lemma reconcile_head_effect:
  assumes "coherent s" "queued_with s (qi_execution_id item) (item_plan item)"
    and "hc_running_path head = qi_execution_id item"
    and "reconcile_queue_head_async e p dr item head s = (r, s')"
  shows "head_effect_opt item s r s'"
proof (cases "stat_async e (TRunning (qi_execution_id item)) (file_exists (dir_get (es_running s) (qi_execution_id item)))")
  case (Inl err)
  then show ?thesis using assms(3,4) by (auto simp: reconcile_queue_head_async_def Let_def head_effect_opt_def)
next
  case (Inr b)
  then have b: "b = file_exists (dir_get (es_running s) (qi_execution_id item))"
    by (simp add: stat_async_def split: option.splits)
  have tr: "tracks s (qi_execution_id item) (item_plan item)" using assms(2) by (simp add: tracks_def)
  show ?thesis
  proof (cases "dir_get (es_running s) (qi_execution_id item) = Missing")
    case True
    then show ?thesis using assms(3,4) Inr b
      by (intro reconcile_absent_effect[OF assms(1) tr]) (simp_all add: reconcile_queue_head_async_def Let_def)
  next
    case False
    then have b: "b" using b by (cases "dir_get (es_running s) (qi_execution_id item)") simp_all
    show ?thesis
    proof (cases "read_file e (TRunning (qi_execution_id item)) (dir_get (es_running s) (qi_execution_id item))")
      case Bad: (Inl err)
      obtain x t where x: "quarantine_queue_head_async e item (qi_execution_id item) ''queued execution state unavailable'' s = (x, t)"
        by fastforce
      from quarantine_head_effect[OF assms(1,2) x] show ?thesis
        using assms(3,4) Inr b Bad x
        by (cases x) (auto simp: reconcile_queue_head_async_def Let_def load_running_def bind_op_def return_op_def
            head_effect_opt_def head_effect_def)
    next
      case Good: (Inr st)
      then show ?thesis using assms(3,4) Inr b
        by (intro reconcile_running_effect[OF assms(1) tr])
          (simp add: reconcile_queue_head_async_def Let_def load_running_def)
    qed
  qed
qed

subsection \<open>Plans of other executions are left alone\<close>

definition plans_but :: "string \<Rightarrow> string \<Rightarrow> exec_store \<Rightarrow> exec_store \<Rightarrow> bool" where
  "plans_but w a s t \<longleftrightarrow> set (queued_items t) \<subseteq> set (queued_items s) \<and>
     (\<forall>v. v \<noteq> w \<longrightarrow> dir_get (es_plans t) v = dir_get (es_plans s) v) \<and>
     (dir_get (es_plans t) w = dir_get (es_plans s) w \<or>
       (\<exists>pl. dir_get (es_plans t) w = Present pl \<and> ap_action_id pl = a))"

lemma plans_but_refl [simp]: "plans_but w a s s"
  by (simp add: plans_but_def)

lemma keeps_plansI:
  assumes "\<And>t r t'. m t = (r, t') \<Longrightarrow>
      dir_get (es_plans t') = dir_get (es_plans t) \<and> set (queued_items t') \<subseteq> set (queued_items t)"
  shows "keeps (plans_but w a s) m"
proof (rule keepsI)
  fix t assume "plans_but w a s t"
  then show "plans_but w a s (snd (m t))" using assms[of t "fst (m t)" "snd (m t)"] by (auto simp: plans_but_def)
qed

lemma plans_quarantine: "keeps (plans_but w a s) (quarantine_execution_async e r)"
proof -
  have 1: "keeps (plans_but w a s) (lookup_queued_execution_async e k)" for k
    by (rule keeps_plansI) (drule lookup_queued_async_same, simp)
  have 2: "keeps (plans_but w a s) (remove_local_report_artifacts_async e k)" for k
    unfolding remove_local_report_artifacts_async_def by (intro keeps_bind keeps_remove) (simp_all add: plans_but_def queued_items_def)
  have 3: "keeps (plans_but w a s) (store_history e k h)" for k h
    unfolding store_history_def by (rule keeps_write) (simp add: plans_but_def queued_items_def)
  have 4: "keeps (plans_but w a s) (remove_queued_execution_async e k)" for k
    by (rule keeps_plansI) (erule remove_queued_async_cases; auto simp: queued_items_def queue_remove_items)
  have 5: "keeps (plans_but w a s) (remove_running_async e k)" for k
    unfolding remove_running_async_def by (rule keeps_remove) (simp add: plans_but_def queued_items_def)
  show ?thesis
    unfolding quarantine_execution_async_def by (intro keeps_intros 1 2 3 4 5)
qed

lemma plans_ensure: "keeps (plans_but w a s) (ensure_local_report_async e rq)"
  by (rule keeps_plansI, rename_tac t r t', case_tac r)
    (auto dest!: ensure_ok ensure_err dest: same_but_report_frame(4,7))

lemma plans_prepare: "keeps (plans_but w a s) (prepare_local_report_with_issue_async e rq i)"
  by (rule keeps_plansI, rename_tac t r t', case_tac r)
    (auto dest!: prepare_ok prepare_err dest: same_but_report_frame(4,7))

lemma plans_load_complete: "keeps (plans_but w a s) (load_complete_local_report_async e k)"
  by (rule keeps_plansI) (drule load_complete_cases(1), simp)

lemma plans_touches: "plans_but w a s t \<Longrightarrow> exec_touches k w (a, d) t t' \<Longrightarrow> plans_but w a s t'"
  by (auto simp: plans_but_def exec_touches_def queued_items_def)

lemma plans_still_running: "keeps (plans_but w a s) (execution_is_still_running_async e p st k)"
proof (rule keepsI)
  fix t assume t: "plans_but w a s t"
  obtain r t' where r: "execution_is_still_running_async e p st k t = (r, t')" by fastforce
  from plans_touches[OF t still_running_touches[OF r]] r
  show "plans_but w a s (snd (execution_is_still_running_async e p st k t))" by simp
qed

lemma plans_store_result: "keeps (plans_but w a s) (store_result e v r)"
  unfolding store_result_def by (rule keeps_write) (simp add: plans_but_def queued_items_def)

lemma plans_remove_running: "keeps (plans_but w a s) (remove_running_async e k)"
  unfolding remove_running_async_def by (rule keeps_remove) (simp add: plans_but_def queued_items_def)

lemmas plans_keeps = plans_quarantine plans_ensure plans_prepare plans_load_complete plans_still_running
  plans_store_result plans_remove_running

lemma plans_reconcile_completed: "keeps (plans_but w a s) (reconcile_completed_execution_async e dr item plan v)"
proof -
  have "keeps (plans_but w a s) (bind_op (lift_res x) (\<lambda>r.
            bind_op (ensure_local_report_async e (head_report_request e dr item plan v r)) (\<lambda>prepared.
            return_op (Some (head_drain_outcome item (pr_envelope prepared))))))" for x
    by (intro keeps_intros plans_keeps)
  from keeps_stat[OF this] show ?thesis
    unfolding reconcile_completed_execution_async_def by (intro keeps_bind keeps_case_option keeps_return plans_keeps)
qed

lemma plans_execute:
  assumes "w = workdir_path e (lx_run_dir rq) (lx_execution_id rq)" "ap_action_id (lx_plan rq) = a"
  shows "keeps (plans_but w a s) (execute_async e p c rq)"
proof (rule keepsI)
  fix t assume t: "plans_but w a s t"
  show "plans_but w a s (snd (execute_async e p c rq t))"
    unfolding assms(1) by (rule plans_touches[OF t[unfolded assms(1)] execute_touches]) (simp add: assms(2))
qed

lemma plans_read: "keeps (plans_but w a s) (read_queued_plan_async e v)" "keeps (plans_but w a s) (load_running e k)"
  by (rule keepsI, simp add: read_queued_plan_async_def load_running_def)+

lemma plans_quarantine_head: "keeps (plans_but w a s) (quarantine_queue_head_async e item k reason)"
  unfolding quarantine_queue_head_async_def by (rule plans_quarantine)

lemma plans_recover_stale: "keeps (plans_but w a s) (recover_stale_execution_async e dr item head st)"
  unfolding recover_stale_execution_async_def Let_def by (intro keeps_intros plans_keeps)

lemma keeps_then_return: "keeps I m \<Longrightarrow> I t \<Longrightarrow> I (snd (bind_op m (\<lambda>_. return_op a) t))"
  by (intro keepsD[of I "bind_op m (\<lambda>_. return_op a)" t] keeps_bind keeps_return)

lemma plans_load_context: "keeps (plans_but w a s) (load_queue_head_context_async e dr item)"
  by (rule keepsI)
    (auto simp: load_queue_head_context_async_def Let_def read_queued_plan_async_def
      split: sum.splits intro: keeps_then_return plans_quarantine_head)

lemma plans_reconcile_head: "keeps (plans_but w a s) (reconcile_queue_head_async e p dr item head)"
proof (rule keepsI)
  fix t assume t: "plans_but w a s t"
  let ?k = "hc_running_path head"
  let ?rc = "reconcile_completed_execution_async e dr item (hc_plan head) (hc_workdir head)"
  have a: "keeps (plans_but w a s) (bind_op ?rc (\<lambda>out. return_op (map_option HeadCompleted out)))"
    by (intro keeps_intros plans_reconcile_completed)
  have b: "keeps (plans_but w a s) (bind_op (quarantine_queue_head_async e item ?k reason) (\<lambda>_. return_op (Some ReloadQueue)))"
    for reason
    by (intro keeps_intros plans_quarantine_head)
  have c: "keeps (plans_but w a s) (bind_op (execution_is_still_running_async e p st ?k) (\<lambda>(still, st1).
           if still then return_op (Some Blocked)
           else bind_op ?rc (\<lambda>out.
             (case out of
               Some outcome \<Rightarrow> bind_op (remove_running_async e ?k) (\<lambda>_. return_op (Some (HeadCompleted outcome)))
             | None \<Rightarrow>
                 bind_op (recover_stale_execution_async e dr item head st1) (\<lambda>recovered.
                 bind_op (remove_running_async e ?k) (\<lambda>_. return_op (Some (HeadCompleted recovered))))))))" for st
    by (intro keeps_bind plans_keeps)
      (auto intro!: keeps_intros plans_reconcile_completed plans_keeps plans_recover_stale split: prod.splits)
  show "plans_but w a s (snd (reconcile_queue_head_async e p dr item head t))"
    using t keepsD[OF a] keepsD[OF b] keepsD[OF c]
    by (simp add: reconcile_queue_head_async_def Let_def load_running_def split: sum.splits bool.splits)
qed

lemma plans_execute_head:
  assumes "w = workdir_path e (dr_run_dir dr) (qi_execution_id item)" "ap_action_id (hc_plan head) = a"
  shows "keeps (plans_but w a s) (execute_queue_head_async e p ch dr item head)"
proof -
  have prep: "keeps (plans_but w a s) (\<lambda>s'. case prepare_local_report_async e rq s' of
           (Inl err, s'') \<Rightarrow>
             bind_op (quarantine_queue_head_async e item (hc_running_path head) reason) (\<lambda>_. return_op ReloadQueue) s''
         | (Inr prepared, s'') \<Rightarrow>
             bind_op (remove_running_async e (hc_running_path head)) (\<lambda>_.
             return_op (HeadCompleted (head_drain_outcome item (pr_envelope prepared)))) s'')" for rq reason
    unfolding prepare_local_report_async_def
    by (intro keeps_catch keeps_bind keeps_return plans_keeps plans_quarantine_head)
  show ?thesis
    unfolding execute_queue_head_async_def Let_def
    by (intro keeps_catch prep plans_execute keeps_bind keeps_return plans_quarantine_head) (simp_all add: assms)
qed

lemma plans_handle:
  assumes "w = workdir_path e (dr_run_dir dr) (qi_execution_id item)"
    and plan: "\<And>pl. dir_get (es_plans s) w = Present pl \<Longrightarrow> ap_action_id pl = a"
    and "handle_queue_head_async e p ch dr item s = (r, s')"
  shows "plans_but w a s s'"
proof -
  obtain x t where x: "load_queue_head_context_async e dr item s = (x, t)" by fastforce
  have t: "plans_but w a s t" using keepsD[OF plans_load_context[of w a s e dr item], of s] x by simp
  show ?thesis
  proof (cases x)
    case (Inr ctx)
    show ?thesis
    proof (cases ctx)
      case (Some head)
      have "ap_action_id (hc_plan head) = a"
        using x Inr Some plan assms(1)
        by (auto simp: load_queue_head_context_async_def Let_def read_queued_plan_async_def bind_op_ok return_op_def
            split: sum.splits dest!: read_file_ok)
      then have "keeps (plans_but w a s) (bind_op (reconcile_queue_head_async e p dr item head) (\<lambda>disposition.
        (case disposition of Some d \<Rightarrow> return_op d | None \<Rightarrow> execute_queue_head_async e p ch dr item head)))"
        by (intro keeps_intros plans_reconcile_head plans_execute_head assms(1))
      from keepsD[OF this t] show ?thesis
        using x Inr Some assms(3) by (simp add: handle_queue_head_async_def bind_op_def)
    qed (use x Inr assms(3) t in \<open>simp add: handle_queue_head_async_def bind_op_def return_op_def\<close>)
  qed (use x assms(3) t in \<open>simp add: handle_queue_head_async_def bind_op_def\<close>)
qed

text \<open>The plan file of a queued execution is the plan the item was made from.\<close>

definition plans_agree :: "exec_env \<Rightarrow> string \<Rightarrow> exec_store \<Rightarrow> bool" where
  "plans_agree e run_dir s \<longleftrightarrow> (\<forall>item\<in>set (queued_items s). \<forall>pl.
     dir_get (es_plans s) (workdir_path e run_dir (qi_execution_id item)) = Present pl \<longrightarrow>
     ap_action_id pl = qi_action_id item)"

lemma workdir_path_inj [simp]: "workdir_path e d k = workdir_path e d j \<longleftrightarrow> k = j"
  by (simp add: workdir_path_def)

lemma handle_effect:
  assumes "coherent s" "item \<in> set (queued_items s)" "plans_agree e (dr_run_dir dr) s"
    and "handle_queue_head_async e p ch dr item s = (r, s')"
  shows "head_effect item s r s'"
proof -
  let ?w = "workdir_path e (dr_run_dir dr) (qi_execution_id item)" let ?k = "qi_execution_id item"
  have qw: "queued_with s ?k (item_plan item)" using assms(2) by (auto simp: queued_with_def)
  show ?thesis
  proof (cases "read_file e (TPlan ?w) (dir_get (es_plans s) ?w)")
    case (Inr plan)
    note Present = read_file_ok[OF Inr]
    let ?head = "\<lparr>hc_workdir = ?w, hc_running_path = ?k, hc_plan = plan\<rparr>"
    obtain x t where x: "reconcile_queue_head_async e p dr item ?head s = (x, t)" by fastforce
    have eff: "head_effect_opt item s x t" by (rule reconcile_head_effect[OF assms(1) qw _ x]) simp
    have act: "ap_action_id plan = qi_action_id item" using assms(2,3) Present by (auto simp: plans_agree_def)
    have step: "(r, s') = (case x of Inl er \<Rightarrow> (Inl er, t) | Inr (Some d) \<Rightarrow> (Inr d, t)
        | Inr None \<Rightarrow> execute_queue_head_async e p ch dr item ?head t)"
      using assms(4) Inr x
      by (simp add: handle_queue_head_async_def load_queue_head_context_async_def read_queued_plan_async_def
          Let_def bind_op_def return_op_def split: sum.splits option.splits)
    consider er where "x = Inl er" | d where "x = Inr (Some d)" | "x = Inr None" by (metis not_Some_eq sum.exhaust)
    then show ?thesis
    proof cases
      case 1 then show ?thesis using step eff by (simp add: head_effect_opt_def head_effect_def)
    next
      case 2 then show ?thesis using step eff by (simp add: head_effect_opt_def)
    next
      case 3
      with eff have "t = s" by (simp add: head_effect_opt_def)
      with 3 step have "execute_queue_head_async e p ch dr item ?head s = (r, s')" by simp
      from execute_head_effect[OF assms(1) qw _ _ this] act show ?thesis by simp
    qed
  next
    case (Inl err)
    then show ?thesis using assms(4)
      by (intro quarantine_then_reload[OF assms(1) qw, where e = e and reason = "''queued execution plan unavailable''"])
        (auto simp: handle_queue_head_async_def load_queue_head_context_async_def read_queued_plan_async_def
          Let_def bind_op_def return_op_def split: sum.splits prod.splits)
  qed
qed

lemma plans_agree_handle:
  assumes "coherent s" "plans_agree e (dr_run_dir dr) s" "item \<in> set (queued_items s)"
    and "handle_queue_head_async e p ch dr item s = (r, s')"
  shows "plans_agree e (dr_run_dir dr) s' \<and> set (queued_items s') \<subseteq> set (queued_items s)"
proof -
  let ?w = "workdir_path e (dr_run_dir dr) (qi_execution_id item)"
  have but: "plans_but ?w (qi_action_id item) s s'"
    by (rule plans_handle[OF refl _ assms(4)]) (use assms(2,3) in \<open>auto simp: plans_agree_def\<close>)
  have same: "qi_action_id i = qi_action_id item"
    if "i \<in> set (queued_items s)" "qi_execution_id i = qi_execution_id item" for i
    using coherentD[OF assms(1), of "qi_execution_id item" "item_plan i" "item_plan item"] that assms(3)
    by (auto simp: tracks_def queued_with_def item_plan_def)
  have "ap_action_id pl = qi_action_id i"
    if i: "i \<in> set (queued_items s')"
      and pl: "dir_get (es_plans s') (workdir_path e (dr_run_dir dr) (qi_execution_id i)) = Present pl" for i pl
  proof -
    have i': "i \<in> set (queued_items s)" using i but by (auto simp: plans_but_def)
    show ?thesis
    proof (cases "qi_execution_id i = qi_execution_id item")
      case True then show ?thesis using but pl same[OF i'] assms(2) i' by (auto simp: plans_but_def plans_agree_def)
    next
      case False then show ?thesis using but pl assms(2) i' by (auto simp: plans_but_def plans_agree_def)
    qed
  qed
  then show ?thesis using but by (auto simp: plans_agree_def plans_but_def)
qed

lemma load_queue_async_items:
  "load_queue_async e s = (Inr q, s') \<Longrightarrow> s' = s \<and> eq_items q = queued_items s"
  by (cases "es_queue s") (auto simp: load_queue_async_def stat_async_def queued_items_def queue_new_def read_file_def
      split: option.splits)

lemma drain_complete_effect:
  assumes "coherent s'" "reported_outcome item out s'" "eq_items q = queued_items s'" "queued_items s' \<noteq> []"
    and "bind_op (store_queue e (queue_remove (ev_now e) (qi_execution_id item) q)) (\<lambda>_. return_op (Some out)) s' = (r, t)"
  shows "tracks t = tracks s'"
proof -
  obtain q0 where q0: "es_queue s' = Present q0" "eq_items q0 = eq_items q"
    using assms(3,4) by (auto simp: queued_items_def split: disk_file.splits)
  have "tracks (s'\<lparr>es_queue := Present (queue_remove (ev_now e) (qi_execution_id item) q0)\<rparr>) = tracks s'"
    by (rule tracks_queue_remove[OF assms(1) _ q0(1)]) (use assms(2) in \<open>auto simp: reported_outcome_def\<close>)
  moreover have "tracks (s'\<lparr>es_queue := Present (queue_remove (ev_now e) (qi_execution_id item) q)\<rparr>) =
      tracks (s'\<lparr>es_queue := Present (queue_remove (ev_now e) (qi_execution_id item) q0)\<rparr>)"
    by (simp add: fun_eq_iff tracks_def plan_defs queue_remove_items q0(2))
  ultimately show ?thesis
    using assms(5) by (cases "ev_write e TQueue") (auto simp: store_queue_def bind_op_def return_op_def)
qed

text \<open>One more unit of fuel than there are items is enough, and the drain forgets no plan.\<close>

lemma drain_complete_plans:
  assumes "plans_agree e d s" "eq_items q = queued_items s" "plans_agree e d s'"
    and "bind_op (store_queue e (queue_remove (ev_now e) k q)) (\<lambda>_. return_op out) s' = (r, t)"
    and "es_queue s' = es_queue s"
  shows "plans_agree e d t"
proof -
  have "t = s' \<or> t = s'\<lparr>es_queue := Present (queue_remove (ev_now e) k q)\<rparr>"
    using assms(4) by (cases "ev_write e TQueue") (auto simp: store_queue_def bind_op_def return_op_def)
  moreover have "queued_items s' = eq_items q" using assms(2,5) by (simp add: queued_items_def)
  ultimately show ?thesis
  proof (elim disjE)
    assume "t = s'\<lparr>es_queue := Present (queue_remove (ev_now e) k q)\<rparr>"
    then have "set (queued_items t) \<subseteq> set (queued_items s')" "es_plans t = es_plans s'"
      using \<open>queued_items s' = eq_items q\<close> by (auto simp: queued_items_def queue_remove_items)
    then show ?thesis using assms(3) by (auto simp: plans_agree_def)
  qed (use assms(3) in simp)
qed

lemma drain_loop_returns:
  assumes "coherent s" "plans_agree e (dr_run_dir dr) s" "eq_items q = queued_items s" "length (eq_items q) < fuel"
  shows "\<exists>r s'. drain_loop e p ch dr fuel q s = Some (r, s') \<and> tracks s' = tracks s \<and>
    plans_agree e (dr_run_dir dr) s'"
  using assms
proof (induction fuel arbitrary: q s)
  case (Suc fuel)
  show ?case
  proof (cases "eq_items q")
    case Nil then show ?thesis using Suc.prems(2) by simp
  next
    case (Cons item rest)
    obtain r s' where h: "handle_queue_head_async e p ch dr item s = (r, s')" by fastforce
    have item: "item \<in> set (queued_items s)" using Cons Suc.prems(3) by (metis list.set_intros(1))
    have eff: "head_effect item s r s'" by (rule handle_effect[OF Suc.prems(1) item Suc.prems(2) h])
    then have tr: "tracks s' = tracks s" by (simp add: head_effect_def)
    have coh: "coherent s'" by (rule coherent_tracksI[OF Suc.prems(1) tr])
    note pa = plans_agree_handle[OF Suc.prems(1,2) item h]
    consider er where "r = Inl er" | "r = Inr Blocked" | "r = Inr ReloadQueue" | out where "r = Inr (HeadCompleted out)"
      by (metis queue_head_disposition.exhaust sum.exhaust)
    then show ?thesis
    proof cases
      case 3
      from eff 3 have q': "queued_items s' = filter (\<lambda>i. qi_execution_id i \<noteq> qi_execution_id item) (queued_items s)"
        by (simp add: head_effect_def)
      obtain x s2 where x: "load_queue_async e s' = (x, s2)" by fastforce
      show ?thesis
      proof (cases x)
        case (Inl er) then show ?thesis using Cons h 3 x tr pa by (simp add: load_queue_async_same[OF x])
      next
        case (Inr q2)
        with x load_queue_async_items[of e s' q2 s2] have q2: "s2 = s'" "eq_items q2 = queued_items s'" by simp_all
        have "length (queued_items s') < length (queued_items s)"
          unfolding q' using item by (intro length_filter_less) auto
        then have "length (eq_items q2) < fuel" using q2 Suc.prems(3,4) by simp
        with Suc.IH[OF coh conjunct1[OF pa] q2(2)]
        show ?thesis using Cons h 3 x Inr q2(1) tr by simp
      qed
    next
      case (4 out)
      obtain y t where y: "bind_op (store_queue e (queue_remove (ev_now e) (qi_execution_id item) q))
          (\<lambda>_. return_op (Some out)) s' = (y, t)" by fastforce
      have "tracks t = tracks s'"
        by (rule drain_complete_effect[OF coh _ _ _ y])
          (use eff 4 Suc.prems(3) Cons in \<open>auto simp: head_effect_def queued_items_def\<close>)
      moreover have "plans_agree e (dr_run_dir dr) t"
        by (rule drain_complete_plans[OF Suc.prems(2,3) conjunct1[OF pa] y]) (use eff 4 in \<open>auto simp: head_effect_def\<close>)
      ultimately show ?thesis using Cons h 4 y tr by simp
    qed (use Cons h tr pa in auto)
  qed
qed simp

lemma drain_returns:
  assumes "coherent s" "plans_agree e (dr_run_dir dr) s"
  shows "\<exists>r s'. drain_next_with_report_async e p ch dr s = Some (r, s') \<and> tracks s' = tracks s \<and>
    plans_agree e (dr_run_dir dr) s'"
proof -
  obtain x s1 where x: "load_queue_async e s = (x, s1)" by fastforce
  show ?thesis
  proof (cases x)
    case (Inl er)
    then show ?thesis using x load_queue_async_same[OF x] assms by (simp add: drain_next_with_report_async_def)
  next
    case (Inr q)
    with x load_queue_async_items[of e s q s1] have "s1 = s" "eq_items q = queued_items s" by simp_all
    then show ?thesis
      using drain_loop_returns[OF assms, of q "Suc (length (eq_items q))" p ch] x Inr
      by (simp add: drain_next_with_report_async_def)
  qed
qed

end
