(* ===== verification/Recovery.thy ===== *)
theory Recovery
  imports Scheduler
begin

text \<open>
  Recovery of incomplete executions at the start of a tick (\<open>src/runtime/daemon_recovery.rs\<close>): each running
  record is left alone, finished with a result and its report, or quarantined.  The lemmas follow one entry through every
  path of its recovery and then the loop over the running directory.
\<close>

subsection \<open>Model\<close>

definition recovery_report_request ::
    "exec_env \<Rightarrow> string \<Rightarrow> running_state \<Rightarrow> action_plan \<Rightarrow> action_result \<Rightarrow> reporting_request" where
  "recovery_report_request e instance_id st plan r =
    \<lparr>rq_execution_id = rn_execution_id st, rq_action_id = rn_action_id st, rq_request_id = rn_request_id st,
     rq_plan_digest = rn_plan_digest st, rq_agent_id = ap_agent_id plan, rq_instance_id = instance_id,
     rq_final_state = final_state_name e r, rq_result_path = result_path e (rn_workdir st), rq_result = r\<rparr>"

definition quarantine_running_state_async :: "exec_env \<Rightarrow> string \<Rightarrow> running_state \<Rightarrow> string \<Rightarrow> unit exec_op" where
  "quarantine_running_state_async e k st detail =
    quarantine_execution_async e (quarantine_running_state st detail k)"

definition finish_recovery ::
    "exec_env \<Rightarrow> string \<Rightarrow> string \<Rightarrow> action_plan \<Rightarrow> running_state \<Rightarrow> action_result \<Rightarrow> unit exec_op" where
  "finish_recovery e instance_id k plan st r s =
    (case ensure_local_report_async e (recovery_report_request e instance_id st plan r) s of
      (Inl err, s') \<Rightarrow> quarantine_running_state_async e k st ''running execution report preparation failed'' s'
    | (Inr prepared, s') \<Rightarrow> remove_running_async e k s')"

definition recover_without_result ::
    "exec_env \<Rightarrow> proc_env \<Rightarrow> string \<Rightarrow> string \<Rightarrow> action_plan \<Rightarrow> running_state \<Rightarrow> unit exec_op" where
  "recover_without_result e p instance_id k plan st =
    bind_op (execution_is_still_running_async e p st k) (\<lambda>(still, st1).
    if still then return_op ()
    else let recovered = synthesize_recovery_result e st1 in
         bind_op (store_result e (rn_workdir st) recovered) (\<lambda>_.
         finish_recovery e instance_id k plan st1 recovered))"

definition recover_entry :: "exec_env \<Rightarrow> proc_env \<Rightarrow> string \<Rightarrow> string \<Rightarrow> unit exec_op" where
  "recover_entry e p instance_id k s = (case read_file e (TRunning k) (dir_get (es_running s) k) of
      Inl err \<Rightarrow>
        quarantine_execution_async e (quarantine_unreadable_running k ''running state unreadable'' k) s
    | Inr st \<Rightarrow>
        (let w = rn_workdir st in
         case read_file e (TPlan w) (dir_get (es_plans s) w) of
           Inl err \<Rightarrow> quarantine_running_state_async e k st ''running execution plan unavailable'' s
         | Inr plan \<Rightarrow> (case stat_async e (TResult w) (file_exists (dir_get (es_results s) w)) of
             Inl err \<Rightarrow> (Inl err, s)
           | Inr True \<Rightarrow> (case read_file e (TResult w) (dir_get (es_results s) w) of
               Inl err \<Rightarrow> quarantine_running_state_async e k st ''running execution result unavailable'' s
             | Inr r \<Rightarrow> finish_recovery e instance_id k plan st r s)
           | Inr False \<Rightarrow>
               recover_without_result e p instance_id k plan st s)))"

fun recover_entries :: "exec_env \<Rightarrow> proc_env \<Rightarrow> string \<Rightarrow> string list \<Rightarrow> unit exec_op" where
  "recover_entries e p instance_id [] = return_op ()"
| "recover_entries e p instance_id (k # ks) =
    bind_op (recover_entry e p instance_id k) (\<lambda>_. recover_entries e p instance_id ks)"

definition recover_incomplete_executions :: "exec_env \<Rightarrow> proc_env \<Rightarrow> string \<Rightarrow> unit exec_op" where
  "recover_incomplete_executions e p instance_id s = (case stat_async e TRunningDir True of
      Inl err \<Rightarrow> (Inl err, s)
    | Inr _ \<Rightarrow> (case read_dir e TRunningDir (map fst (es_running s)) of
        Inl err \<Rightarrow> (Inl err, s)
      | Inr ks \<Rightarrow> recover_entries e p instance_id ks s))"

subsection \<open>Well-formed stores\<close>

text \<open>Directories have one file per name, the queue is readable, and every running state is readable and
  filed under its own execution id.\<close>

definition store_wf :: "exec_store \<Rightarrow> bool" where
  "store_wf s \<longleftrightarrow> wf_dirs s \<and> es_queue s \<noteq> Corrupt \<and> (\<forall>k. dir_get (es_running s) k \<noteq> Corrupt) \<and>
     (\<forall>k st. dir_get (es_running s) k = Present st \<longrightarrow> rn_execution_id st = k)"

lemma wf_updates [simp]:
  "store_wf s \<Longrightarrow> store_wf (s\<lparr>es_queue := Present q\<rparr>)"
  "store_wf s \<Longrightarrow> store_wf (s\<lparr>es_reporting := dir_put k x1 (es_reporting s)\<rparr>)"
  "store_wf s \<Longrightarrow> store_wf (s\<lparr>es_reporting := dir_del k (es_reporting s)\<rparr>)"
  "store_wf s \<Longrightarrow> store_wf (s\<lparr>es_history := dir_put k x2 (es_history s)\<rparr>)"
  "store_wf s \<Longrightarrow> store_wf (s\<lparr>es_running := dir_del k (es_running s)\<rparr>)"
  "store_wf s \<Longrightarrow> rn_execution_id r = k \<Longrightarrow> store_wf (s\<lparr>es_running := dir_put k r (es_running s)\<rparr>)"
  "store_wf (s\<lparr>es_envelopes := x3\<rparr>) = store_wf s" "store_wf (s\<lparr>es_plans := x4\<rparr>) = store_wf s"
  "store_wf (s\<lparr>es_runtimes := x5\<rparr>) = store_wf s" "store_wf (s\<lparr>es_results := x6\<rparr>) = store_wf s"
  "store_wf (s\<lparr>es_progress := x7\<rparr>) = store_wf s" "store_wf (s\<lparr>es_signals := x8\<rparr>) = store_wf s"
  by (auto simp: store_wf_def wf_dirs_def distinct_dir_put distinct_dir_del dir_laws)

lemma keeps_sameI: "(\<And>t r t'. m t = (r, t') \<Longrightarrow> t' = t) \<Longrightarrow> keeps I m"
  by (rule keepsI) (metis prod.collapse)

lemma wf_quarantine: "keeps store_wf (quarantine_execution_async e r)"
proof -
  have 1: "keeps store_wf (lookup_queued_execution_async e k)" for k
    by (rule keeps_sameI) (rule lookup_queued_async_same)
  have 2: "keeps store_wf (remove_local_report_artifacts_async e k)" for k
    unfolding remove_local_report_artifacts_async_def by (intro keeps_bind keeps_remove) simp_all
  have 3: "keeps store_wf (store_history e k h)" for k h
    unfolding store_history_def by (rule keeps_write) simp
  have 4: "keeps store_wf (remove_queued_execution_async e k)" for k
  proof (rule keepsI)
    fix t assume t: "store_wf t"
    obtain r' t' where r': "remove_queued_execution_async e k t = (r', t')" by fastforce
    then have "store_wf t'" by (cases rule: remove_queued_async_cases) (use t in simp_all)
    then show "store_wf (snd (remove_queued_execution_async e k t))" using r' by simp
  qed
  have 5: "keeps store_wf (remove_running_async e k)" for k
    unfolding remove_running_async_def by (rule keeps_remove) simp
  show ?thesis unfolding quarantine_execution_async_def by (intro keeps_intros 1 2 3 4 5)
qed

lemma wf_simple:
  "keeps store_wf (remove_running_async e k)" "keeps store_wf (store_reporting e k r)"
  "keeps store_wf (store_envelope e k v)" "keeps store_wf (store_result e w ar)"
  "keeps store_wf (store_queue e q)" "keeps store_wf (load_running e k)" "keeps store_wf (read_queued_plan_async e w)"
  "keeps store_wf (create_workdir e w)" "keeps store_wf (store_plan e w pl)" "keeps store_wf (store_runtime e w rt)"
  "keeps store_wf (write_exec_state_async e w x1 x2 x3 x4 x5)"
proof -
  show "keeps store_wf (remove_running_async e k)"
    unfolding remove_running_async_def by (rule keeps_remove) simp
  show "keeps store_wf (load_running e k)" "keeps store_wf (read_queued_plan_async e w)"
    by (rule keepsI, simp add: load_running_def read_queued_plan_async_def)+
qed (unfold store_reporting_def store_envelope_def store_queue_def touch_defs, (rule keeps_write; simp)+)

lemma wf_fail_if: "keeps store_wf (fail_if er)"
  unfolding fail_if_def by (intro keeps_intros)

lemma wf_child: "keeps store_wf (child_result c w)"
  by (rule keepsI) (simp add: child_result_def split: option.splits)

lemma wf_load_queue: "keeps store_wf (load_queue_async e)"
  by (rule keeps_sameI) (rule load_queue_async_same)

lemma wf_prepare: "keeps store_wf (prepare_local_report_with_issue_async e rq i)"
  unfolding prepare_local_report_with_issue_async_def Let_def
  by (intro keeps_bind keeps_lift) (auto split: prod.splits intro!: keeps_intros wf_simple)

lemma wf_rebuild: "keeps store_wf (rebuild_report_envelope_with_issue_async e rq st i)"
  unfolding rebuild_report_envelope_with_issue_async_def sync_reporting_state_eq Let_def
  by (intro keeps_bind keeps_lift) (auto split: prod.splits intro!: keeps_intros wf_simple)

lemma wf_ensure: "keeps store_wf (ensure_local_report_async e rq)"
proof (rule keepsI)
  fix t assume t: "store_wf t"
  obtain r t' where r: "ensure_local_report_async e rq t = (r, t')" by fastforce
  then have "store_wf t'"
  proof (cases rule: ensure_cases)
    case (prepare i) then show ?thesis using keepsD[OF wf_prepare t, of e rq i] by simp
  next
    case (rebuild st i) then show ?thesis using keepsD[OF wf_rebuild t, of e rq st i] by simp
  qed (use t in simp_all)
  then show "store_wf (snd (ensure_local_report_async e rq t))" using r by simp
qed

lemma wf_load_complete: "keeps store_wf (load_complete_local_report_async e k)"
  by (rule keeps_sameI) (rule load_complete_cases(1))

lemma wf_record_signal: "keeps store_wf (record_signal_request_async e k kd)"
proof (rule keepsI)
  fix t assume t: "store_wf t"
  obtain r t' where r: "record_signal_request_async e k kd t = (r, t')" by fastforce
  then have "store_wf t'"
  proof (cases rule: record_signal_cases)
    case (2 st)
    moreover have "rn_execution_id (signal_requested (ev_now e) kd st) = k"
      using t 2(1) by (cases kd) (auto simp: store_wf_def signal_requested_def)
    ultimately show ?thesis using t by simp
  qed (use t in simp)
  then show "store_wf (snd (record_signal_request_async e k kd t))" using r by simp
qed

lemma wf_force_kill: "keeps store_wf (force_kill p pid)"
  by (rule keepsI) (auto simp: force_kill_def send_signal_def split: option.splits)

lemma wf_still_running: "keeps store_wf (execution_is_still_running_async e p st k)"
proof -
  have "keeps store_wf (force_stop_expired_process_async e p st k)"
    unfolding force_stop_expired_process_async_def
    by (intro keeps_intros wf_force_kill wf_simple wf_record_signal)
      (auto split: identity_state.splits intro!: keeps_intros wf_force_kill wf_simple wf_record_signal)
  then show ?thesis
    unfolding execution_is_still_running_async_def
    by (auto split: sum.splits running_state_status.splits intro!: keeps_intros)
qed

lemma wf_wait: "keeps store_wf (wait_for_child e p c k)"
proof -
  have a: "keeps store_wf (wait_after_cancel e c k)"
    unfolding wait_after_cancel_def Let_def by (intro keeps_intros wf_record_signal)
  have "keeps store_wf (\<lambda>s. case send_terminate p pid s of
                (None, s') \<Rightarrow> wait_after_cancel e c k s'
              | (Some err, s') \<Rightarrow> (case ce_try2 c of
                  Inl err' \<Rightarrow> (Inl err', s')
                | Inr (Some st) \<Rightarrow> (Inr (CompletedAfterTimeout st), s')
                | Inr None \<Rightarrow> (if error_kind err \<noteq> InvalidInput then (Inl err, s')
                               else wait_after_cancel e c k s')))" for pid
    by (rule keepsI) (auto simp: send_terminate_def send_signal_def split: prod.splits option.splits sum.splits if_splits
        intro: keepsD[OF a])
  then show ?thesis unfolding wait_for_child_def by (intro keeps_intros wf_record_signal a)
qed

lemma wf_load_or_synthesize: "keeps store_wf (load_or_synthesize_result_async e rq w x)"
proof -
  have timed: "keeps store_wf (write_timed_out_result_async e rq w)"
    unfolding write_timed_out_result_async_def Let_def by (intro keeps_intros wf_simple)
  have synth: "keeps store_wf (bind_op (store_result e w r) (\<lambda>_. bind_op (write_exec_state_async e w i a st rs d) (\<lambda>_. return_op r)))"
    for r i a st rs d
    by (intro keeps_intros wf_simple)
  show ?thesis
    by (rule keepsI) (auto simp: load_or_synthesize_result_async_def Let_def keepsD[OF timed] keepsD[OF synth]
        split: sum.splits exit_classification.splits)
qed

lemma wf_store_running: "rn_execution_id r = k \<Longrightarrow> keeps store_wf (store_running e k r)"
  unfolding store_running_def by (rule keeps_write) simp

lemma wf_execute: "keeps store_wf (execute_async e p c rq)"
  unfolding execute_async_def Let_def
  by (intro keeps_intros wf_simple wf_fail_if wf_child keeps_catch wf_wait wf_load_or_synthesize wf_store_running
      keeps_state[where f = "\<lambda>t. bind_op (store_running e (lx_execution_id rq) (_ t)) _"])
    (simp_all add: running_builder_def)

lemmas wf_keeps = wf_quarantine wf_simple wf_ensure wf_prepare wf_load_complete wf_still_running wf_execute

lemma wf_quarantine_head: "keeps store_wf (quarantine_queue_head_async e item k reason)"
  unfolding quarantine_queue_head_async_def by (rule wf_quarantine)

lemma wf_reconcile_completed: "keeps store_wf (reconcile_completed_execution_async e dr item plan v)"
proof -
  have "keeps store_wf (bind_op (lift_res x) (\<lambda>r.
            bind_op (ensure_local_report_async e (head_report_request e dr item plan v r)) (\<lambda>prepared.
            return_op (Some (head_drain_outcome item (pr_envelope prepared))))))" for x
    by (intro keeps_intros wf_keeps)
  from keeps_stat[OF this] show ?thesis
    unfolding reconcile_completed_execution_async_def by (intro keeps_bind keeps_case_option keeps_return wf_keeps)
qed

lemma wf_recover_stale: "keeps store_wf (recover_stale_execution_async e dr item head st)"
  unfolding recover_stale_execution_async_def Let_def by (intro keeps_intros wf_keeps)

lemma wf_load_context: "keeps store_wf (load_queue_head_context_async e dr item)"
  by (rule keepsI)
    (auto simp: load_queue_head_context_async_def Let_def read_queued_plan_async_def
      split: sum.splits intro: keeps_then_return wf_quarantine_head)

lemma wf_reconcile_head: "keeps store_wf (reconcile_queue_head_async e p dr item head)"
proof (rule keepsI)
  fix t assume t: "store_wf t"
  let ?k = "hc_running_path head"
  let ?rc = "reconcile_completed_execution_async e dr item (hc_plan head) (hc_workdir head)"
  have a: "keeps store_wf (bind_op ?rc (\<lambda>out. return_op (map_option HeadCompleted out)))"
    by (intro keeps_intros wf_reconcile_completed)
  have b: "keeps store_wf (bind_op (quarantine_queue_head_async e item ?k reason) (\<lambda>_. return_op (Some ReloadQueue)))"
    for reason
    by (intro keeps_intros wf_quarantine_head)
  have c: "keeps store_wf (bind_op (execution_is_still_running_async e p st ?k) (\<lambda>(still, st1).
           if still then return_op (Some Blocked)
           else bind_op ?rc (\<lambda>out.
             (case out of
               Some outcome \<Rightarrow> bind_op (remove_running_async e ?k) (\<lambda>_. return_op (Some (HeadCompleted outcome)))
             | None \<Rightarrow>
                 bind_op (recover_stale_execution_async e dr item head st1) (\<lambda>recovered.
                 bind_op (remove_running_async e ?k) (\<lambda>_. return_op (Some (HeadCompleted recovered))))))))" for st
    by (intro keeps_bind wf_keeps)
      (auto intro!: keeps_intros wf_reconcile_completed wf_keeps wf_recover_stale split: prod.splits)
  show "store_wf (snd (reconcile_queue_head_async e p dr item head t))"
    using t keepsD[OF a] keepsD[OF b] keepsD[OF c]
    by (simp add: reconcile_queue_head_async_def Let_def load_running_def split: sum.splits bool.splits)
qed

lemma wf_execute_head: "keeps store_wf (execute_queue_head_async e p ch dr item head)"
  unfolding execute_queue_head_async_def prepare_local_report_async_def Let_def
  by (intro keeps_catch keeps_bind keeps_return wf_keeps wf_quarantine_head)

lemma wf_handle: "keeps store_wf (handle_queue_head_async e p ch dr item)"
  unfolding handle_queue_head_async_def
  by (intro keeps_intros wf_load_context wf_reconcile_head wf_execute_head)

lemma wf_drain_loop: "store_wf s \<Longrightarrow> drain_loop e p ch dr fuel q s = Some (r, s') \<Longrightarrow> store_wf s'"
proof (induction fuel arbitrary: q s)
  case (Suc fuel)
  show ?case
  proof (cases "eq_items q")
    case (Cons item rest)
    obtain x t where x: "handle_queue_head_async e p ch dr item s = (x, t)" by fastforce
    have t: "store_wf t" using keepsD[OF wf_handle Suc.prems(1)] x by (metis snd_conv)
    consider er where "x = Inl er" | "x = Inr Blocked" | "x = Inr ReloadQueue" | out where "x = Inr (HeadCompleted out)"
      by (metis queue_head_disposition.exhaust sum.exhaust)
    then show ?thesis
    proof cases
      case 3
      obtain y u where y: "load_queue_async e t = (y, u)" by fastforce
      have "u = t" by (rule load_queue_async_same[OF y])
      then show ?thesis using Suc.prems(2) Cons x 3 y t Suc.IH by (cases y) auto
    next
      case (4 out)
      have "store_wf (snd (bind_op (store_queue e (queue_remove (ev_now e) (qi_execution_id item) q))
          (\<lambda>_. return_op (Some out)) t))"
        by (rule keeps_then_return[OF wf_simple(5) t])
      then show ?thesis using Suc.prems(2) Cons x 4 by simp
    qed (use Suc.prems(2) Cons x t in auto)
  qed (use Suc.prems in simp)
qed simp

lemma wf_drain:
  assumes "store_wf s" "drain_next_with_report_async e p ch dr s = Some (r, s')"
  shows "store_wf s'"
proof -
  obtain x t where x: "load_queue_async e s = (x, t)" by fastforce
  have "t = s" by (rule load_queue_async_same[OF x])
  then show ?thesis using assms x wf_drain_loop[OF assms(1)]
    by (cases x) (auto simp: drain_next_with_report_async_def simp del: drain_loop.simps)
qed

subsection \<open>What recovering one entry does\<close>

definition state_plan :: "running_state \<Rightarrow> string \<times> string" where
  "state_plan st = (rn_action_id st, rn_plan_digest st)"

lemma force_stop_state:
  assumes "force_stop_expired_process_async e p st k s = (Inr (still, st1), s')"
  shows "rn_execution_id st1 = rn_execution_id st \<and> state_plan st1 = state_plan st"
proof (cases "rn_pid st")
  case None then show ?thesis using assms by (simp add: force_stop_expired_process_async_def return_op_def)
next
  case (Some pid)
  show ?thesis
  proof (cases "process_identity_state p 1 pid (rn_process_identity st)")
    case (Inr i)
    then show ?thesis using assms Some
      by (cases i) (auto simp: force_stop_expired_process_async_def return_op_def bind_op_ok state_plan_def)
  qed (use assms Some in \<open>simp add: force_stop_expired_process_async_def fail_op_def\<close>)
qed

lemma still_running_state:
  assumes "execution_is_still_running_async e p st k s = (Inr (still, st1), s')"
  shows "rn_execution_id st1 = rn_execution_id st \<and> state_plan st1 = state_plan st"
  using assms force_stop_state[of e p st k s still st1 s']
  by (auto simp: execution_is_still_running_async_def return_op_def fail_op_def
      split: sum.splits running_state_status.splits)

text \<open>Recovery of entry \<open>k\<close> only removes queue items, touches no plan and no record of another execution, and
  removes no result.\<close>

definition rec_frame :: "string \<Rightarrow> exec_store \<Rightarrow> exec_store \<Rightarrow> bool" where
  "rec_frame k s t \<longleftrightarrow> set (queued_items t) \<subseteq> set (queued_items s) \<and> dir_get (es_plans t) = dir_get (es_plans s) \<and>
     (\<forall>v. dir_get (es_results t) v = Missing \<longrightarrow> dir_get (es_results s) v = Missing) \<and>
     (\<forall>j. j \<noteq> k \<longrightarrow> dir_get (es_running t) j = dir_get (es_running s) j \<and>
        dir_get (es_reporting t) j = dir_get (es_reporting s) j \<and>
        dir_get (es_envelopes t) j = dir_get (es_envelopes s) j \<and>
        dir_get (es_history t) j = dir_get (es_history s) j)"

lemma rec_frame_refl [simp]: "rec_frame k s s"
  by (simp add: rec_frame_def)

lemma rec_frame_simps [simp]:
  "rec_frame k s t \<Longrightarrow> rec_frame k s (t\<lparr>es_envelopes := dir_del k (es_envelopes t)\<rparr>)"
  "rec_frame k s t \<Longrightarrow> rec_frame k s (t\<lparr>es_reporting := dir_del k (es_reporting t)\<rparr>)"
  "rec_frame k s t \<Longrightarrow> rec_frame k s (t\<lparr>es_history := dir_put k h (es_history t)\<rparr>)"
  "rec_frame k s t \<Longrightarrow> rec_frame k s (t\<lparr>es_results := dir_put w r (es_results t)\<rparr>)"
  "rec_frame k s t \<Longrightarrow> rec_frame k s (t\<lparr>es_running := dir_del k (es_running t)\<rparr>)"
  by (auto simp: rec_frame_def queued_items_def dir_laws)

lemma frame_quarantine:
  assumes "qr_running_path r = Some k" "qr_execution_id r = k"
  shows "keeps (rec_frame k s) (quarantine_execution_async e r)"
proof -
  have 1: "keeps (rec_frame k s) (lookup_queued_execution_async e j)" for j
    by (rule keeps_sameI) (rule lookup_queued_async_same)
  have 2: "keeps (rec_frame k s) (remove_local_report_artifacts_async e k)"
    unfolding remove_local_report_artifacts_async_def by (intro keeps_bind keeps_remove) simp_all
  have 3: "keeps (rec_frame k s) (store_history e k h)" for h
    unfolding store_history_def by (rule keeps_write) simp
  have 4: "keeps (rec_frame k s) (remove_queued_execution_async e j)" for j
  proof (rule keepsI)
    fix t assume t: "rec_frame k s t"
    obtain r' t' where r': "remove_queued_execution_async e j t = (r', t')" by fastforce
    then have "rec_frame k s t'"
      by (cases rule: remove_queued_async_cases) (use t in \<open>auto simp: rec_frame_def queued_items_def queue_remove_items\<close>)
    then show "rec_frame k s (snd (remove_queued_execution_async e j t))" using r' by simp
  qed
  have 5: "keeps (rec_frame k s) (remove_running_async e k)"
    unfolding remove_running_async_def by (rule keeps_remove) simp
  show ?thesis unfolding quarantine_execution_async_def assms option.case by (intro keeps_intros 1 2 3 4 5)
qed

lemma frame_same_but_report: "rec_frame k s t \<Longrightarrow> same_but_report k t t' \<Longrightarrow> rec_frame k s t'"
  using same_but_report_frame[of k t t'] by (simp add: rec_frame_def same_but_report_def)

lemma frame_ensure:
  assumes "rq_execution_id rq = k" shows "keeps (rec_frame k s) (ensure_local_report_async e rq)"
proof (rule keepsI)
  fix t assume t: "rec_frame k s t"
  obtain r t' where r: "ensure_local_report_async e rq t = (r, t')" by fastforce
  have "same_but_report k t t'"
    using r assms ensure_ok[of e rq t _ t'] ensure_err[of e rq t _ t'] by (cases r) auto
  from frame_same_but_report[OF t this] r show "rec_frame k s (snd (ensure_local_report_async e rq t))" by simp
qed

lemma frame_still_running: "keeps (rec_frame k s) (execution_is_still_running_async e p st k)"
proof (rule keepsI)
  fix t assume t: "rec_frame k s t"
  obtain r t' where r: "execution_is_still_running_async e p st k t = (r, t')" by fastforce
  have touch: "exec_touches k w (state_plan st) t t'" for w by (rule still_running_touches[OF r])
  have "dir_get (es_plans t') v = dir_get (es_plans t) v \<and> dir_get (es_results t') v = dir_get (es_results t) v" for v
    using touch[of "CHR ''x'' # v"] unfolding exec_touches_def by (metis not_Cons_self)
  then show "rec_frame k s (snd (execution_is_still_running_async e p st k t))"
    using t r touch by (auto simp: rec_frame_def exec_touches_def queued_items_def fun_eq_iff)
qed

lemma frame_simple: "keeps (rec_frame k s) (store_result e w r)" "keeps (rec_frame k s) (remove_running_async e k)"
  unfolding store_result_def remove_running_async_def by (rule keeps_write keeps_remove, simp)+

lemma frame_quarantine_running:
  "rn_execution_id st = k \<Longrightarrow> keeps (rec_frame k s) (quarantine_running_state_async e k st d)"
  unfolding quarantine_running_state_async_def
  by (rule frame_quarantine) (simp_all add: quarantine_running_state_def)

lemma frame_finish:
  "rn_execution_id st = k \<Longrightarrow> keeps (rec_frame k s) (finish_recovery e inst k plan st r)"
  unfolding finish_recovery_def
  by (intro keeps_catch frame_ensure frame_simple frame_quarantine_running) (simp_all add: recovery_report_request_def)

lemma frame_without_result:
  assumes "rn_execution_id st = k" "rec_frame k s t"
  shows "rec_frame k s (snd (recover_without_result e p inst k plan st t))"
proof -
  obtain x u where x: "execution_is_still_running_async e p st k t = (x, u)" by fastforce
  have u: "rec_frame k s u" using keepsD[OF frame_still_running assms(2), of e p st] x by simp
  consider er where "x = Inl er" | st1 where "x = Inr (True, st1)" | st1 where "x = Inr (False, st1)"
    by (metis surj_pair sum.exhaust)
  then show ?thesis
  proof cases
    case (3 st1)
    have "rn_execution_id st1 = k" using still_running_state[OF x[unfolded 3]] assms(1) by simp
    then have "keeps (rec_frame k s) (bind_op (store_result e (rn_workdir st) r) (\<lambda>_. finish_recovery e inst k plan st1 r))"
      for r by (intro keeps_bind frame_simple frame_finish)
    from keepsD[OF this u] show ?thesis using x 3
      by (simp add: recover_without_result_def Let_def bind_op_def[of "execution_is_still_running_async e p st k"])
  qed (use x u in \<open>simp_all add: recover_without_result_def bind_op_def return_op_def\<close>)
qed

lemma frame_entry:
  assumes "\<And>st. dir_get (es_running t) k = Present st \<Longrightarrow> rn_execution_id st = k" "rec_frame k s t"
  shows "rec_frame k s (snd (recover_entry e p inst k t))"
proof (cases "read_file e (TRunning k) (dir_get (es_running t) k)")
  case (Inr st)
  note id = assms(1)[OF read_file_ok[OF Inr]]
  show ?thesis
    using assms(2) Inr keepsD[OF frame_quarantine_running[OF id]] keepsD[OF frame_finish[OF id]] frame_without_result[OF id]
    by (simp add: recover_entry_def Let_def split: sum.splits bool.splits)
qed (use assms(2) in \<open>auto simp: recover_entry_def quarantine_unreadable_running_def
       intro!: keepsD[OF frame_quarantine]\<close>)

text \<open>The process of a running state may be alive: it exists, under the recorded identity or under one that cannot
  be read, and either its deadline has not passed or it could not be stopped (its identity became unreadable, the
  agent may not signal it, or it was still there after the wait that follows the kill).\<close>

definition may_be_alive :: "proc_env \<Rightarrow> running_state \<Rightarrow> bool" where
  "may_be_alive p st = (case rn_pid st of
      None \<Rightarrow> False
    | Some pid \<Rightarrow> (case inspect_running_state p st of
        Inr Active \<Rightarrow> True
      | Inr Expired \<Rightarrow> (case process_identity_state p 1 pid (rn_process_identity st) of
          Inr Unavailable \<Rightarrow> True
        | Inr Matches \<Rightarrow> (case pe_signal p (sint pid) SIGKILL of
            None \<Rightarrow> wait_for_exit p pid 2 0 = Inr True
          | Some code \<Rightarrow> code = EPERM)
        | _ \<Rightarrow> False)
      | _ \<Rightarrow> False))"

text \<open>What became of execution \<open>k\<close> between \<open>s\<close> and \<open>s'\<close> once its entry has been recovered.  Its running state is
  gone, and it has a complete report or is quarantined; or its running state stays because it left no result and
  its process may be alive.\<close>

definition finished :: "string \<Rightarrow> exec_store \<Rightarrow> bool" where
  "finished k s \<longleftrightarrow> dir_get (es_running s) k = Missing \<and>
     ((\<exists>r. report_ready s k r) \<or> (\<exists>h. dir_get (es_history s) k = Present h \<and> hr_state h = ''quarantined''))"

definition settled :: "proc_env \<Rightarrow> string \<Rightarrow> exec_store \<Rightarrow> exec_store \<Rightarrow> bool" where
  "settled p k s s' \<longleftrightarrow> finished k s' \<or>
     (\<exists>st. dir_get (es_running s) k = Present st \<and> may_be_alive p st \<and>
        dir_get (es_results s) (rn_workdir st) = Missing \<and> running_plan s' k = Some (state_plan st))"

lemma settledI: "finished k s' \<Longrightarrow> settled p k s s'"
  by (simp add: settled_def)

lemma still_running_alive:
  assumes "execution_is_still_running_async e p st k s = (Inr (True, st1), s')"
  shows "may_be_alive p st"
proof (cases "rn_pid st")
  case None
  then show ?thesis using assms by (simp add: execution_is_still_running_async_def inspect_running_state_def return_op_def)
next
  case (Some pid)
  show ?thesis
  proof (cases "inspect_running_state p st = Inr Expired")
    case True
    then have stop: "force_stop_expired_process_async e p st k s = (Inr (True, st1), s')"
      using assms by (simp add: execution_is_still_running_async_def)
    show ?thesis
      using stop True Some
      by (auto simp: force_stop_expired_process_async_def may_be_alive_def bind_op_ok return_op_def fail_op_def
          force_kill_def send_signal_def split: sum.splits identity_state.splits option.splits if_splits)
  next
    case False
    then show ?thesis using assms Some
      by (auto simp: execution_is_still_running_async_def may_be_alive_def return_op_def fail_op_def
          split: sum.splits running_state_status.splits)
  qed
qed

lemma quarantine_running_effect:
  assumes "coherent t" "running_plan t k = Some (state_plan st)" "rn_execution_id st = k"
    and "quarantine_running_state_async e k st d t = (r, t')"
  shows "tracks t' = tracks t \<and> (is_ok r \<longrightarrow> finished k t')"
proof
  let ?q = "quarantine_running_state st d k"
  have "tracks (snd (quarantine_execution_async e ?q t)) = tracks t"
    by (rule quarantine_tracks[where ?pd0.0 = "state_plan st"])
      (use assms in \<open>auto simp: quarantine_running_state_def anchored_def state_plan_def\<close>)
  then show "tracks t' = tracks t" using assms(4) by (simp add: quarantine_running_state_async_def)
  show "is_ok r \<longrightarrow> finished k t'"
    using assms(3,4) quarantine_ok[of e ?q t _ t' k]
    by (cases r) (auto simp: quarantine_running_state_async_def quarantine_running_state_def finished_def)
qed

lemma finish_recovery_effect:
  assumes "coherent t" "running_plan t k = Some (state_plan st)" "rn_execution_id st = k"
    and "finish_recovery e inst k plan st res t = (r, t')"
  shows "tracks t' = tracks t \<and> (is_ok r \<longrightarrow> finished k t')"
proof -
  let ?rq = "recovery_report_request e inst st plan res"
  have rq: "rq_execution_id ?rq = k" "(rq_action_id ?rq, rq_plan_digest ?rq) = state_plan st"
    using assms(3) by (simp_all add: recovery_report_request_def state_plan_def)
  have tr: "tracks t k (state_plan st)" using assms(2) by (simp add: tracks_def)
  obtain x u where x: "ensure_local_report_async e ?rq t = (x, u)" by fastforce
  have t1: "tracks u = tracks t"
    using ensure_tracks[OF assms(1), of ?rq "state_plan st" e, unfolded rq(1), OF tr rq(2)[symmetric]]
    unfolding x by simp
  have coh: "coherent u" by (rule coherent_tracksI[OF assms(1) t1])
  show ?thesis
  proof (cases x)
    case (Inl err)
    have sb: "same_but_report (rq_execution_id ?rq) t u" using ensure_err[OF x[unfolded Inl]] by blast
    then have "running_plan u k = Some (state_plan st)" using same_but_report_frame(8)[OF sb] assms(2) by simp
    moreover have "quarantine_running_state_async e k st ''running execution report preparation failed'' u = (r, t')"
      using Inl x assms(4) by (simp add: finish_recovery_def)
    ultimately show ?thesis using quarantine_running_effect[OF coh _ assms(3), of e _ r t'] t1 by simp
  next
    case (Inr pr)
    note en = ensure_ok[OF x[unfolded Inr], unfolded rq(1)]
    have tu: "tracks u k (state_plan st)" using t1 tr by simp
    obtain pd where pd: "reported_plan u k = Some pd" using en by blast
    have "pd = state_plan st" by (rule coherentD[OF coh reported_tracks[OF pd] tu])
    then have del: "tracks (u\<lparr>es_running := dir_del k (es_running u)\<rparr>) = tracks u"
      using tracks_del_running[OF coh, of k pd] pd by simp
    have "remove_running_async e k u = (r, t')" using Inr x assms(4) by (simp add: finish_recovery_def)
    then have "t' = u \<or> t' = u\<lparr>es_running := dir_del k (es_running u)\<rparr>"
      by (auto simp: remove_running_async_def remove_op_def split: if_splits option.splits)
    moreover have "is_ok r \<longrightarrow> finished k t'"
      using en \<open>remove_running_async e k u = (r, t')\<close>
      by (cases "dir_get (es_running u) k")
        (auto simp: remove_running_async_def remove_op_def finished_def report_ready_def dir_laws
          split: if_splits option.splits)
    ultimately show ?thesis using t1 del by metis
  qed
qed

lemma without_result_effect:
  assumes "coherent s" "dir_get (es_running s) k = Present st" "rn_execution_id st = k"
    and "dir_get (es_results s) (rn_workdir st) = Missing"
    and "recover_without_result e p inst k plan st s = (r, s')"
  shows "tracks s' = tracks s \<and> (is_ok r \<longrightarrow> settled p k s s')"
proof -
  let ?w = "rn_workdir st"
  have rp: "running_plan s k = Some (state_plan st)" using assms(2) by (simp add: running_plan_def state_plan_def)
  have tr: "tracks s k (state_plan st)" using rp by (simp add: tracks_def)
  obtain x t where x: "execution_is_still_running_async e p st k s = (x, t)" by fastforce
  have touch: "exec_touches k ?w (state_plan st) s t" by (rule still_running_touches[OF x])
  have t1: "tracks t = tracks s" by (rule touches_tracks[OF assms(1) tr touch])
  have rpt: "running_plan t k = Some (state_plan st)" using touch rp by (auto simp: exec_touches_def)
  consider er where "x = Inl er" | st1 where "x = Inr (True, st1)" | st1 where "x = Inr (False, st1)"
    by (metis surj_pair sum.exhaust)
  then show ?thesis
  proof cases
    case 1 then show ?thesis using assms(5) x t1 by (auto simp: recover_without_result_def bind_op_def)
  next
    case (2 st1)
    then have "s' = t" using assms(5) x by (simp add: recover_without_result_def bind_op_def return_op_def)
    then show ?thesis using t1 rpt assms(2,4) still_running_alive[OF x[unfolded 2]] by (auto simp: settled_def)
  next
    case (3 st1)
    note ids = still_running_state[OF x[unfolded 3]]
    let ?r = "synthesize_recovery_result e st1"
    obtain y u where y: "store_result e ?w ?r t = (y, u)" by fastforce
    have u: "tracks u = tracks t" "running_plan u k = Some (state_plan st1)"
      using y rpt ids by (cases "ev_write e (TResult ?w)"; auto simp: store_result_def running_plan_def)+
    have coh: "coherent u" using coherent_tracksI[OF assms(1), of u] u t1 by simp
    have "(case y of Inl er \<Rightarrow> (Inl er, u) | Inr _ \<Rightarrow> finish_recovery e inst k plan st1 ?r u) = (r, s')"
      using assms(5) x 3 y by (simp add: recover_without_result_def bind_op_def Let_def split: sum.splits)
    then show ?thesis using u t1 finish_recovery_effect[OF coh u(2)] ids assms(3)
      by (auto split: sum.splits intro: settledI)
  qed
qed

lemma recover_entry_effect:
  assumes "coherent s" "dir_get (es_running s) k = Present st" "rn_execution_id st = k"
    and "ev_read_err e (TRunning k) = None" "recover_entry e p inst k s = (r, s')"
  shows "tracks s' = tracks s \<and> (is_ok r \<longrightarrow> settled p k s s')"
proof -
  have rp: "running_plan s k = Some (state_plan st)" using assms(2) by (simp add: running_plan_def state_plan_def)
  note qe = quarantine_running_effect[OF assms(1) rp assms(3)] and fe = finish_recovery_effect[OF assms(1) rp assms(3)]
  have none: "stat_async e t (file_exists f) = Inr False \<Longrightarrow> f = Missing" for t and f :: "action_result disk_file"
    by (cases f) (auto simp: stat_async_def split: option.splits)
  show ?thesis
    using assms(2,4,5) qe fe without_result_effect[OF assms(1-3) none]
    by (auto simp: recover_entry_def Let_def split: sum.splits bool.splits intro: settledI)
qed

subsection \<open>Recovery as a whole\<close>

lemma wf_recover_without: "keeps store_wf (recover_without_result e p inst k plan st)"
  unfolding recover_without_result_def finish_recovery_def quarantine_running_state_async_def Let_def
  by (intro keeps_bind wf_still_running)
    (auto split: prod.splits intro!: keeps_intros keeps_catch wf_simple wf_ensure wf_quarantine)

lemma wf_recover_entry: "keeps store_wf (recover_entry e p inst k)"
proof (rule keepsI)
  fix t assume t: "store_wf t"
  have f: "keeps store_wf (finish_recovery e inst k plan st r)" for plan st r
    unfolding finish_recovery_def quarantine_running_state_async_def
    by (intro keeps_catch wf_ensure wf_quarantine wf_simple)
  show "store_wf (snd (recover_entry e p inst k t))"
    using t keepsD[OF wf_quarantine] keepsD[OF wf_recover_without] keepsD[OF f]
    by (simp add: recover_entry_def quarantine_running_state_async_def Let_def split: sum.splits bool.splits)
qed

text \<open>The records of one execution are the same in two stores.\<close>

definition same_records :: "string \<Rightarrow> exec_store \<Rightarrow> exec_store \<Rightarrow> bool" where
  "same_records j s t \<longleftrightarrow> dir_get (es_running t) j = dir_get (es_running s) j \<and>
     dir_get (es_reporting t) j = dir_get (es_reporting s) j \<and> dir_get (es_envelopes t) j = dir_get (es_envelopes s) j \<and>
     dir_get (es_history t) j = dir_get (es_history s) j"

lemma same_records_frame: "rec_frame k s t \<Longrightarrow> j \<noteq> k \<Longrightarrow> same_records j s t"
  by (simp add: rec_frame_def same_records_def)

lemma settled_later: "settled p j s t \<Longrightarrow> same_records j t u \<Longrightarrow> settled p j s u"
  by (auto simp: settled_def finished_def same_records_def report_ready_def running_plan_def)

lemma settled_earlier: "settled p j t u \<Longrightarrow> rec_frame k s t \<Longrightarrow> j \<noteq> k \<Longrightarrow> settled p j s u"
  by (auto simp: settled_def rec_frame_def)

lemma recover_entries_effect:
  assumes "coherent s" "store_wf s" "distinct ks" "\<forall>k\<in>set ks. dir_get (es_running s) k \<noteq> Missing"
    and "\<forall>k. ev_read_err e (TRunning k) = None" "recover_entries e p inst ks s = (r, s')"
  shows "tracks s' = tracks s \<and> store_wf s' \<and> set (queued_items s') \<subseteq> set (queued_items s) \<and>
    dir_get (es_plans s') = dir_get (es_plans s) \<and> (\<forall>j. j \<notin> set ks \<longrightarrow> same_records j s s') \<and>
    (is_ok r \<longrightarrow> (\<forall>k\<in>set ks. settled p k s s'))"
  using assms
proof (induction ks arbitrary: s)
  case Nil then show ?case by (simp add: return_op_def same_records_def)
next
  case (Cons k ks)
  obtain st where st: "dir_get (es_running s) k = Present st" "rn_execution_id st = k"
    using Cons.prems(2,4) by (cases "dir_get (es_running s) k") (auto simp: store_wf_def)
  obtain x t where x: "recover_entry e p inst k s = (x, t)" by fastforce
  have eff: "tracks t = tracks s" "is_ok x \<longrightarrow> settled p k s t"
    using recover_entry_effect[OF Cons.prems(1) st _ x] Cons.prems(5) by simp_all
  have fr: "rec_frame k s t" using frame_entry[of s k s e p inst] st x by simp
  have wf: "store_wf t" using keepsD[OF wf_recover_entry Cons.prems(2), of e p inst k] x by simp
  have sub: "set (queued_items t) \<subseteq> set (queued_items s)" "dir_get (es_plans t) = dir_get (es_plans s)"
    using fr by (auto simp: rec_frame_def)
  show ?case
  proof (cases x)
    case (Inl er)
    then have "s' = t" "\<not> is_ok r" using x Cons.prems(6) by (auto simp: bind_op_def)
    then show ?thesis using eff(1) wf sub same_records_frame[OF fr] by simp
  next
    case (Inr y)
    have coh: "coherent t" by (rule coherent_tracksI[OF Cons.prems(1) eff(1)])
    have present: "\<forall>j\<in>set ks. dir_get (es_running t) j \<noteq> Missing"
      using fr Cons.prems(3,4) by (auto simp: rec_frame_def)
    have "recover_entries e p inst ks t = (r, s')" using x Inr Cons.prems(6) by (simp add: bind_op_def)
    from Cons.IH[OF coh wf _ present Cons.prems(5) this] Cons.prems(3)
    have ih: "tracks s' = tracks t" "store_wf s'" "set (queued_items s') \<subseteq> set (queued_items t)"
      "dir_get (es_plans s') = dir_get (es_plans t)" "\<forall>j. j \<notin> set ks \<longrightarrow> same_records j t s'"
      "is_ok r \<longrightarrow> (\<forall>k\<in>set ks. settled p k t s')"
      by auto
    have "settled p k s s'" using settled_later[of p k s t s'] eff(2) Inr ih(5) Cons.prems(3) by simp
    moreover have "same_records j s s'" if "j \<notin> set (k # ks)" for j
      using that ih(5) same_records_frame[OF fr, of j] by (simp add: same_records_def)
    moreover have "is_ok r \<longrightarrow> (\<forall>j\<in>set ks. settled p j s s')"
      using ih(6) settled_earlier[OF _ fr] Cons.prems(3) by (metis distinct.simps(2))
    moreover have "set (queued_items s') \<subseteq> set (queued_items s)" using ih(3) sub(1) by blast
    ultimately show ?thesis using ih(1,2,4) eff(1) sub(2) by simp
  qed
qed

lemma dir_key_present: "k \<in> set (map fst d) \<Longrightarrow> dir_get d k \<noteq> Missing"
  by (cases "map_of d k") (auto simp: dir_get_def map_of_eq_None_iff split: option.splits)

lemma recover_effect:
  assumes "coherent s" "store_wf s" "\<forall>k. ev_read_err e (TRunning k) = None"
    and "recover_incomplete_executions e p inst s = (r, s')"
  shows "tracks s' = tracks s \<and> store_wf s' \<and> set (queued_items s') \<subseteq> set (queued_items s) \<and>
    dir_get (es_plans s') = dir_get (es_plans s) \<and>
    (is_ok r \<longrightarrow> (\<forall>k. dir_get (es_running s) k \<noteq> Missing \<longrightarrow> settled p k s s'))"
proof (cases "stat_async e TRunningDir True")
  case (Inl er) then show ?thesis using assms by (auto simp: recover_incomplete_executions_def)
next
  case (Inr b)
  let ?ks = "map fst (es_running s)"
  show ?thesis
  proof (cases "ev_read_err e TRunningDir")
    case None
    have "recover_entries e p inst ?ks s = (r, s')"
      using assms(4) Inr None by (simp add: recover_incomplete_executions_def)
    from recover_entries_effect[OF assms(1,2) _ _ assms(3) this] dir_key_present[of _ "es_running s"] assms(2)
    have "tracks s' = tracks s \<and> store_wf s' \<and> set (queued_items s') \<subseteq> set (queued_items s) \<and>
      dir_get (es_plans s') = dir_get (es_plans s) \<and> (is_ok r \<longrightarrow> (\<forall>k\<in>set ?ks. settled p k s s'))"
      by (auto simp: store_wf_def wf_dirs_def)
    moreover have "k \<in> set ?ks" if "dir_get (es_running s) k \<noteq> Missing" for k
      using that by (auto simp: dir_get_def split: option.splits dest: map_of_SomeD intro!: image_eqI[of k fst])
    ultimately show ?thesis by blast
  next
    case (Some er)
    then show ?thesis using assms Inr by (auto simp: recover_incomplete_executions_def read_dir_def)
  qed
qed

end
