(* ===== verification/Agent.thy ===== *)
theory Agent
  imports Recovery
begin

text \<open>
  The agent's execution service as a transition system: submissions, drains of the queue and startup
  recoveries in any order, each under its own environment (clock, failures of stats, reads, writes and removes,
  process table, child behaviour).  The lemmas show that a step keeps the store coherent and never forgets a
  plan that was accepted, so that an accepted plan is never accepted a second time, as long as the search for
  duplicates and the recovery can look at the records: a record that cannot be read is skipped by the one and
  quarantined without its plan by the other.
\<close>

subsection \<open>Model\<close>

datatype agent_event =
    Submitted nat action_plan "scheduler_outcome res"
  | Drained "drain_outcome option res"
  | Recovered "unit res"

text \<open>What stays fixed over the life of an installation: how plans are digested and where the working
  directories are.\<close>

record installation =
  in_digest :: "action_plan \<Rightarrow> string res"
  in_actions_dir :: string
  in_run_dir :: string

definition env_of :: "installation \<Rightarrow> exec_env \<Rightarrow> bool" where
  "env_of i e \<longleftrightarrow> ev_digest_plan e = in_digest i \<and> ev_actions_dir e = in_actions_dir i"

definition id_unused :: "exec_store \<Rightarrow> string \<Rightarrow> bool" where
  "id_unused s k \<longleftrightarrow> (\<forall>pd. \<not> tracks s k pd)"

inductive agent_step :: "installation \<Rightarrow> exec_env \<Rightarrow> agent_event \<Rightarrow> exec_store \<Rightarrow> exec_store \<Rightarrow> bool"
  for i where
  submit: "env_of i e \<Longrightarrow> submit_local_plan e (in_run_dir i) nanos plan s = (r, s') \<Longrightarrow>
    agent_step i e (Submitted nanos plan r) s s'"
| drain: "env_of i e \<Longrightarrow> dr_run_dir dr = in_run_dir i \<Longrightarrow>
    drain_next_with_report_async e p ch dr s = Some (r, s') \<Longrightarrow> agent_step i e (Drained r) s s'"
| recover: "env_of i e \<Longrightarrow>
    recover_incomplete_executions e p instance_id s = (r, s') \<Longrightarrow> agent_step i e (Recovered r) s s'"

inductive_cases agent_step_SubmittedE: "agent_step i e (Submitted nanos plan r) s s'"

text \<open>A history of an installation: what happened, and under which environment.\<close>

type_synonym agent_trace = "(exec_env \<times> agent_event) list"

inductive agent_run :: "installation \<Rightarrow> agent_trace \<Rightarrow> exec_store \<Rightarrow> exec_store \<Rightarrow> bool"
  for i where
  stop: "agent_run i [] s s"
| step: "agent_step i e ev s s' \<Longrightarrow> agent_run i tr s' s'' \<Longrightarrow> agent_run i ((e, ev) # tr) s s''"

text \<open>
  What the guarantees need of the environment, by the kind of step: at a submission every stat and every read
  works, at a recovery the running records can be read, at a drain nothing.  Writes, removes and everything
  else may fail at any step.
\<close>

fun reliable :: "exec_env \<times> agent_event \<Rightarrow> bool" where
  "reliable (e, Submitted nanos plan r) = ((\<forall>t. ev_stat_err e t = None) \<and> (\<forall>t. ev_read_err e t = None))"
| "reliable (e, Drained r) = True"
| "reliable (e, Recovered r) = (\<forall>k. ev_read_err e (TRunning k) = None)"

text \<open>The clock readings (in nanoseconds) from which the submissions made their execution ids.\<close>

fun submit_times :: "agent_trace \<Rightarrow> nat list" where
  "submit_times [] = []"
| "submit_times ((e, Submitted nanos plan r) # tr) = nanos # submit_times tr"
| "submit_times (_ # tr) = submit_times tr"

definition undisturbed :: "agent_trace \<Rightarrow> bool" where
  "undisturbed tr \<longleftrightarrow> list_all reliable tr \<and> distinct (submit_times tr)"

definition empty_store :: exec_store where
  "empty_store = \<lparr>es_queue = Missing, es_running = [], es_reporting = [], es_envelopes = [], es_history = [],
     es_plans = [], es_runtimes = [], es_results = [], es_progress = [], es_signals = []\<rparr>"

text \<open>The plans a trace accepted, by action and digest.\<close>

fun accepted :: "agent_trace \<Rightarrow> (string \<times> string) list" where
  "accepted [] = []"
| "accepted ((e, Submitted nanos plan (Inr out)) # tr) = (ap_action_id plan, so_plan_digest out) # accepted tr"
| "accepted (_ # tr) = accepted tr"

subsection \<open>Submission\<close>

lemma submit_duplicate:
  assumes "ev_stat_err e = (\<lambda>_. None)" "ev_read_err e = (\<lambda>_. None)" "store_wf s"
    and "ev_digest_plan e plan = Inr d" "tracks s k (ap_action_id plan, d)"
  shows "submit_local_plan e run nanos plan s =
    (Inl (IoError AlreadyExists ''duplicate action plan already tracked locally''), s)"
proof -
  obtain r where r: "find_duplicate_execution e (ap_action_id plan) d s = (Inr r, s)" "r \<noteq> None"
    using find_duplicate_async_iff[OF assms(1,2), of s "ap_action_id plan" d] assms(3,5) sync_async_ops[OF assms(1)]
    by (auto simp: store_wf_def)
  then show ?thesis using assms(4)
    by (auto simp: submit_local_plan_def Let_def bind_op_def lift_res_def fail_op_def)
qed

text \<open>A submission that is not rejected as a duplicate changes the queue and the new working directory only.\<close>

definition submit_effect :: "string \<Rightarrow> string \<Rightarrow> action_plan \<Rightarrow> string \<Rightarrow> exec_store \<Rightarrow> exec_store \<Rightarrow> bool \<Rightarrow> bool" where
  "submit_effect k w plan d s s' queued \<longleftrightarrow>
     s'\<lparr>es_queue := es_queue s, es_plans := es_plans s, es_runtimes := es_runtimes s, es_results := es_results s,
        es_progress := es_progress s\<rparr> = s \<and>
     (\<forall>v. v \<noteq> w \<longrightarrow> dir_get (es_plans s') v = dir_get (es_plans s) v) \<and>
     (if queued
      then (\<exists>item. set (queued_items s') = insert item (set (queued_items s)) \<and> qi_execution_id item = k \<and>
              item_plan item = (ap_action_id plan, d)) \<and> es_queue s' \<noteq> Corrupt \<and>
           dir_get (es_plans s') w \<in> {Missing, Present plan}
      else es_queue s' = es_queue s)"

lemma submitted_item_simps [simp]:
  "qi_execution_id (submitted_item e k plan d) = k" "item_plan (submitted_item e k plan d) = (ap_action_id plan, d)"
  by (simp_all add: submitted_item_def item_builder_def item_plan_def)

lemma submit_enters:
  assumes "ev_stat_err e = (\<lambda>_. None)" "ev_read_err e = (\<lambda>_. None)" "store_wf s" "ev_digest_plan e plan = Inr d"
    and "find_duplicate_execution e (ap_action_id plan) d s = (Inr None, s)"
    and "submit_local_plan e run nanos plan s = (r, s')"
  shows "\<exists>queued. submit_effect (next_execution_id nanos) (workdir_path e run (next_execution_id nanos)) plan d s s' queued \<and>
    (is_ok r \<longrightarrow> queued \<and> r = Inr \<lparr>so_execution_id = next_execution_id nanos, so_plan_digest = d\<rparr>)"
proof -
  let ?k = "next_execution_id nanos" let ?w = "workdir_path e run ?k"
  let ?s1 = "s\<lparr>es_plans := dir_put ?w plan (es_plans s)\<rparr>"
  have q1: "es_queue ?s1 \<noteq> Corrupt" "queued_items ?s1 = queued_items s"
    using assms(3) by (simp_all add: store_wf_def queued_items_def)
  obtain q where q: "load_queue e ?s1 = (Inr q, ?s1)" "eq_items q = queued_items s"
    using load_queue_ok[of e ?s1] assms(1,2) q1 sync_async_ops(1)[OF assms(1)] by auto
  have items: "set (eq_items (enqueue now it q)) = insert it (set (queued_items s))" for now it
    using q(2) by (simp add: enqueue_items flip: set_mset_mset)
  have submit: "submit_local_plan e run nanos plan s =
    bind_op (create_workdir e ?w) (\<lambda>_. bind_op (store_plan e ?w plan) (\<lambda>_ s.
         (case bind_op (load_queue e) (\<lambda>q. store_queue e (enqueue (ev_now e) (submitted_item e ?k plan d) q)) s of
           (Inl err, s') \<Rightarrow> (Inl err, remove_workdir e ?w s')
         | (Inr _, s') \<Rightarrow> (Inr \<lparr>so_execution_id = ?k, so_plan_digest = d\<rparr>, s')))) s"
    using assms(4,5) by (simp add: submit_local_plan_def Let_def bind_op_def[of "lift_res _"] lift_res_def
        bind_op_def[of "find_duplicate_execution _ _ _"])
  let ?q = "enqueue (ev_now e) (submitted_item e ?k plan d) q"
  let ?s2 = "?s1\<lparr>es_queue := Present ?q\<rparr>"
  have in_q: "queued_items ?s2 = eq_items ?q" by (simp add: queued_items_def)
  have eff: "submit_effect ?k ?w plan d s s False" "submit_effect ?k ?w plan d s ?s1 False"
    "submit_effect ?k ?w plan d s (remove_workdir e ?w ?s1) False"
    by (simp_all add: submit_effect_def remove_workdir_def dir_laws)
  have eff2: "submit_effect ?k ?w plan d s ?s2 True" "submit_effect ?k ?w plan d s (remove_workdir e ?w ?s2) True"
    using items[of "ev_now e" "submitted_item e ?k plan d"] in_q
    by (auto simp: submit_effect_def remove_workdir_def dir_laws queued_items_def
        intro!: exI[of _ "submitted_item e ?k plan d"])
  note ops = submit bind_op_def create_workdir_def store_plan_def store_queue_def q(1)
  show ?thesis
  proof (cases "ev_write e (TWorkdir ?w) = Done \<and> ev_write e (TPlan ?w) = Done")
    case True
    then show ?thesis using assms(6) eff eff2 by (cases "ev_write e TQueue") (auto simp: ops)
  next
    case False
    then have "\<not> is_ok r \<and> (s' = s \<or> s' = ?s1)"
      using assms(6) by (cases "ev_write e (TWorkdir ?w)"; cases "ev_write e (TPlan ?w)") (auto simp: ops)
    then show ?thesis using eff by auto
  qed
qed

lemma submit_cases:
  assumes "ev_stat_err e = (\<lambda>_. None)" "ev_read_err e = (\<lambda>_. None)" "store_wf s"
    and "submit_local_plan e run nanos plan s = (r, s')"
  obtains (rejected) "s' = s" "\<not> is_ok r"
  | (entered) d queued where "ev_digest_plan e plan = Inr d" "\<forall>k. \<not> tracks s k (ap_action_id plan, d)"
      "submit_effect (next_execution_id nanos) (workdir_path e run (next_execution_id nanos)) plan d s s' queued"
      "is_ok r \<Longrightarrow> queued \<and> r = Inr \<lparr>so_execution_id = next_execution_id nanos, so_plan_digest = d\<rparr>"
proof (cases "ev_digest_plan e plan")
  case (Inl er)
  then show thesis using assms(4) rejected by (auto simp: submit_local_plan_def Let_def bind_op_def lift_res_def)
next
  case (Inr d)
  obtain x where x: "find_duplicate_execution e (ap_action_id plan) d s = (Inr x, s)"
      "(x \<noteq> None) = (\<exists>k. tracks s k (ap_action_id plan, d))"
    using find_duplicate_async_iff[OF assms(1,2), of s "ap_action_id plan" d] assms(3) sync_async_ops[OF assms(1)]
    by (auto simp: store_wf_def)
  show thesis
  proof (cases x)
    case None
    then show thesis using submit_enters[OF assms(1-3) Inr _ assms(4)] x entered[OF Inr] by auto
  next
    case (Some k)
    then obtain j where "tracks s j (ap_action_id plan, d)" using x by auto
    from submit_duplicate[OF assms(1-3) Inr this, of run nanos] show thesis
      by (intro rejected) (use assms(4) in auto)
  qed
qed

lemma submit_effect_tracks:
  assumes "submit_effect k w plan d s s' queued"
  shows "tracks s' j pd \<longleftrightarrow> tracks s j pd \<or> queued \<and> j = k \<and> pd = (ap_action_id plan, d)"
proof -
  have eq: "s'\<lparr>es_queue := es_queue s, es_plans := es_plans s, es_runtimes := es_runtimes s, es_results := es_results s,
        es_progress := es_progress s\<rparr> = s"
    using assms by (simp add: submit_effect_def)
  have "es_running s' = es_running s" "es_reporting s' = es_reporting s" "es_history s' = es_history s"
    by (subst eq[symmetric], simp)+
  then have "running_plan s' = running_plan s" "reported_plan s' = reported_plan s" "history_plan s' = history_plan s"
    by (simp_all add: fun_eq_iff running_plan_def reported_plan_def history_plan_def)
  moreover have "queued_with s' j pd \<longleftrightarrow> queued_with s j pd \<or> queued \<and> j = k \<and> pd = (ap_action_id plan, d)"
  proof (cases queued)
    case True
    then obtain new where "set (queued_items s') = insert new (set (queued_items s))" "qi_execution_id new = k"
        "item_plan new = (ap_action_id plan, d)"
      using assms unfolding submit_effect_def by auto
    then show ?thesis using True unfolding queued_with_def by auto
  next
    case False
    then have "queued_items s' = queued_items s" using assms by (simp add: submit_effect_def queued_items_def)
    then show ?thesis using False by (simp add: queued_with_def)
  qed
  ultimately show ?thesis unfolding tracks_def by metis
qed

lemma submit_effect_wf:
  assumes "submit_effect k w plan d s s' queued" "store_wf s"
  shows "store_wf s'"
proof -
  have eq: "s'\<lparr>es_queue := es_queue s, es_plans := es_plans s, es_runtimes := es_runtimes s, es_results := es_results s,
        es_progress := es_progress s\<rparr> = s"
    using assms by (simp add: submit_effect_def)
  have "es_running s' = es_running s" "es_reporting s' = es_reporting s" "es_history s' = es_history s"
    by (subst eq[symmetric], simp)+
  moreover have "es_queue s' \<noteq> Corrupt" using assms by (auto simp: submit_effect_def store_wf_def split: if_splits)
  ultimately show ?thesis using assms(2) by (simp add: store_wf_def wf_dirs_def)
qed

subsection \<open>The invariant\<close>

definition agent_inv :: "installation \<Rightarrow> exec_store \<Rightarrow> bool" where
  "agent_inv i s \<longleftrightarrow> coherent s \<and> store_wf s \<and>
     (\<forall>e. ev_actions_dir e = in_actions_dir i \<longrightarrow> plans_agree e (in_run_dir i) s)"

lemma plans_agree_env: "ev_actions_dir e = ev_actions_dir e' \<Longrightarrow> plans_agree e d s = plans_agree e' d s"
  by (simp add: plans_agree_def workdir_path_def)

lemma agent_invI:
  assumes "coherent s" "store_wf s" "env_of i e" "plans_agree e (in_run_dir i) s"
  shows "agent_inv i s"
  unfolding agent_inv_def
proof (intro conjI allI impI assms(1,2))
  fix e' :: exec_env assume "ev_actions_dir e' = in_actions_dir i"
  then have "ev_actions_dir e' = ev_actions_dir e" using assms(3) by (simp add: env_of_def)
  from plans_agree_env[OF this] assms(4) show "plans_agree e' (in_run_dir i) s" by blast
qed

lemma agent_invD:
  "agent_inv i s \<Longrightarrow> coherent s" "agent_inv i s \<Longrightarrow> store_wf s"
  "agent_inv i s \<Longrightarrow> env_of i e \<Longrightarrow> plans_agree e (in_run_dir i) s"
  by (auto simp: agent_inv_def env_of_def)

lemma tracks_empty_store [simp]: "\<not> tracks empty_store k pd"
  by (simp add: empty_store_def tracks_def queued_with_def queued_items_def running_plan_def reported_plan_def
      history_plan_def dir_get_def)

lemma agent_inv_empty: "agent_inv i empty_store"
proof -
  have "coherent empty_store" by (simp add: coherent_def)
  moreover have "store_wf empty_store" by (simp add: store_wf_def wf_dirs_def empty_store_def dir_get_def)
  moreover have "queued_items empty_store = []" by (simp add: queued_items_def empty_store_def)
  ultimately show ?thesis by (simp add: agent_inv_def plans_agree_def)
qed

lemma plans_agree_submit:
  assumes "plans_agree e run s" "id_unused s k"
    and "submit_effect k (workdir_path e run k) plan d s s' queued"
  shows "plans_agree e run s'"
proof -
  have fresh: "qi_execution_id it \<noteq> k" if "it \<in> set (queued_items s)" for it
    using that assms(2) unfolding id_unused_def tracks_def queued_with_def by blast
  show ?thesis
  proof (cases queued)
    case True
    then obtain new where new: "set (queued_items s') = insert new (set (queued_items s))"
        "qi_execution_id new = k" "qi_action_id new = ap_action_id plan"
      using assms(3) by (auto simp: submit_effect_def item_plan_def)
    then show ?thesis using assms(1,3) True fresh by (auto simp: plans_agree_def submit_effect_def)
  next
    case False
    then show ?thesis using assms(1,3) fresh by (auto simp: plans_agree_def submit_effect_def queued_items_def)
  qed
qed

lemma submit_coherent:
  assumes "coherent s" "id_unused s k" "submit_effect k w plan d s s' queued"
  shows "coherent s'"
  using assms(1,2) submit_effect_tracks[OF assms(3)] unfolding coherent_def id_unused_def by metis

lemma agent_step_inv:
  assumes "agent_step i e ev s s'" "agent_inv i s" "reliable (e, ev)"
    and "\<And>nanos plan r. ev = Submitted nanos plan r \<Longrightarrow> id_unused s (next_execution_id nanos)"
  shows "agent_inv i s' \<and> (\<forall>k pd. tracks s k pd \<longrightarrow> tracks s' k pd)"
  using assms(1)
proof cases
  case (submit nanos plan r)
  note inv = agent_invD[OF assms(2)]
  have ok: "ev_stat_err e = (\<lambda>_. None)" "ev_read_err e = (\<lambda>_. None)" using assms(3) submit(1) by auto
  have new: "id_unused s (next_execution_id nanos)" by (rule assms(4)[OF submit(1)])
  from ok inv(2) submit(3) show ?thesis
  proof (cases rule: submit_cases)
    case (entered d queued)
    have "agent_inv i s'"
      by (rule agent_invI[OF submit_coherent[OF inv(1) new entered(3)] submit_effect_wf[OF entered(3) inv(2)]
          submit(2) plans_agree_submit[OF inv(3)[OF submit(2)] new entered(3)]])
    then show ?thesis using submit_effect_tracks[OF entered(3)] by blast
  qed (use assms(2) in simp)
next
  case (drain dr p ch r)
  note inv = agent_invD[OF assms(2)]
  have "tracks s' = tracks s" "plans_agree e (in_run_dir i) s'"
    using drain_returns[OF inv(1), of e dr p ch] inv(3)[OF drain(2)] drain(3,4) by auto
  moreover have "store_wf s'" by (rule wf_drain[OF inv(2) drain(4)])
  ultimately show ?thesis using agent_invI[OF coherent_tracksI[OF inv(1)] _ drain(2)] by simp
next
  case (recover p instance_id r)
  have ok: "\<forall>k. ev_read_err e (TRunning k) = None" using assms(3) recover(1) by simp
  note inv = agent_invD[OF assms(2)] and eff = recover_effect[OF agent_invD(1,2)[OF assms(2)] ok recover(3)]
  have "plans_agree e (in_run_dir i) s'"
    using eff inv(3)[OF recover(2)] by (auto simp: plans_agree_def)
  then show ?thesis using eff agent_invI[OF coherent_tracksI[OF inv(1)] _ recover(2)] by auto
qed

text \<open>A step that is not a submission brings up no new execution id, and a submission only its own.\<close>

lemma agent_step_ids:
  assumes "agent_step i e ev s s'" "agent_inv i s" "reliable (e, ev)" "id_unused s k"
    and "\<And>nanos plan r. ev = Submitted nanos plan r \<Longrightarrow> k \<noteq> next_execution_id nanos"
  shows "id_unused s' k"
  using assms(1)
proof cases
  case (submit nanos plan r)
  have ok: "ev_stat_err e = (\<lambda>_. None)" "ev_read_err e = (\<lambda>_. None)" using assms(3) submit(1) by auto
  from ok agent_invD(2)[OF assms(2)] submit(3) show ?thesis
  proof (cases rule: submit_cases)
    case (entered d queued)
    then show ?thesis using submit_effect_tracks[OF entered(3)] assms(4) assms(5)[OF submit(1)] by (simp add: id_unused_def)
  qed (use assms(4) in simp)
next
  case (drain dr p ch r)
  note inv = agent_invD[OF assms(2)]
  have "tracks s' = tracks s" using drain_returns[OF inv(1), of e dr p ch] inv(3)[OF drain(2)] drain(3,4) by auto
  then show ?thesis using assms(4) by (simp add: id_unused_def)
next
  case (recover p instance_id r)
  have ok: "\<forall>k. ev_read_err e (TRunning k) = None" using assms(3) recover(1) by simp
  show ?thesis using recover_effect[OF agent_invD(1,2)[OF assms(2)] ok recover(3)] assms(4) by (simp add: id_unused_def)
qed

subsection \<open>Runs\<close>

text \<open>In an undisturbed run every submission finds its execution id unused, so each step is one of a store that
  satisfies the invariant; \<open>fresh_for\<close> is what carries this along a run.\<close>

definition fresh_for :: "agent_trace \<Rightarrow> exec_store \<Rightarrow> bool" where
  "fresh_for tr s \<longleftrightarrow> (\<forall>n\<in>set (submit_times tr). id_unused s (next_execution_id n))"

lemma fresh_for_empty: "fresh_for tr empty_store"
  by (simp add: fresh_for_def id_unused_def)

lemma undisturbed_step:
  assumes "agent_step i e ev s s'" "agent_inv i s" "undisturbed ((e, ev) # tr)" "fresh_for ((e, ev) # tr) s"
  shows "agent_inv i s' \<and> (\<forall>k pd. tracks s k pd \<longrightarrow> tracks s' k pd) \<and> undisturbed tr \<and> fresh_for tr s' \<and> reliable (e, ev)"
proof -
  have rel: "reliable (e, ev)" and und: "undisturbed tr"
    using assms(3) by (cases ev; simp add: undisturbed_def)+
  have new: "id_unused s (next_execution_id nanos)" if "ev = Submitted nanos plan r" for nanos plan r
    using assms(4) that by (simp add: fresh_for_def)
  have "id_unused s' (next_execution_id n)" if n: "n \<in> set (submit_times tr)" for n
  proof (rule agent_step_ids[OF assms(1,2) rel])
    show "id_unused s (next_execution_id n)" using assms(4) n by (cases ev) (simp_all add: fresh_for_def)
    show "next_execution_id n \<noteq> next_execution_id nanos" if "ev = Submitted nanos plan r" for nanos plan r
      using that assms(3) n by (auto simp: undisturbed_def next_execution_id_def)
  qed
  then show ?thesis using agent_step_inv[OF assms(1,2) rel new] und rel by (simp add: fresh_for_def)
qed

lemma agent_run_inv:
  "agent_run i tr s s' \<Longrightarrow> undisturbed tr \<Longrightarrow> fresh_for tr s \<Longrightarrow> agent_inv i s \<Longrightarrow>
   agent_inv i s' \<and> (\<forall>k pd. tracks s k pd \<longrightarrow> tracks s' k pd)"
proof (induction rule: agent_run.induct)
  case (step e ev s s' tr s'')
  then show ?case using undisturbed_step[OF step.hyps(1) step.prems(3,1,2)] by blast
qed simp

lemma accepted_step:
  assumes "agent_step i e (Submitted nanos plan (Inr out)) s s'" "agent_inv i s"
    and "reliable (e, Submitted nanos plan (Inr out))"
  shows "in_digest i plan = Inr (so_plan_digest out) \<and>
    tracks s' (so_execution_id out) (ap_action_id plan, so_plan_digest out) \<and>
    (\<forall>k. \<not> tracks s k (ap_action_id plan, so_plan_digest out))"
proof -
  have st: "env_of i e" "submit_local_plan e (in_run_dir i) nanos plan s = (Inr out, s')"
    using assms(1) by (auto elim: agent_step_SubmittedE)
  have ok: "ev_stat_err e = (\<lambda>_. None)" "ev_read_err e = (\<lambda>_. None)" using assms(3) by auto
  from ok agent_invD(2)[OF assms(2)] st(2) show ?thesis
  proof (cases rule: submit_cases)
    case (entered d queued)
    then show ?thesis using st(1) submit_effect_tracks[OF entered(3)] by (auto simp: env_of_def)
  qed simp
qed

lemma accepted_other: "(\<nexists>nanos plan out. ev = Submitted nanos plan (Inr out)) \<Longrightarrow> accepted ((e, ev) # tr) = accepted tr"
  by (cases "((e, ev) # tr)" rule: accepted.cases) auto

lemma accepted_new:
  "agent_run i tr s s' \<Longrightarrow> undisturbed tr \<Longrightarrow> fresh_for tr s \<Longrightarrow> agent_inv i s \<Longrightarrow>
   distinct (accepted tr) \<and> (\<forall>pd\<in>set (accepted tr). \<forall>k. \<not> tracks s k pd)"
proof (induction rule: agent_run.induct)
  case (step e ev s s' tr s'')
  note st = undisturbed_step[OF step.hyps(1) step.prems(3,1,2)]
  from step.IH st have IH: "distinct (accepted tr)" "\<forall>pd\<in>set (accepted tr). \<forall>k. \<not> tracks s' k pd" by blast+
  have old: "\<forall>pd\<in>set (accepted tr). \<forall>k. \<not> tracks s k pd" using IH(2) st by blast
  show ?case
  proof (cases "\<exists>nanos plan out. ev = Submitted nanos plan (Inr out)")
    case True
    then obtain nanos plan out where ev: "ev = Submitted nanos plan (Inr out)" by blast
    have "reliable (e, Submitted nanos plan (Inr out))" using st ev by simp
    from accepted_step[OF step.hyps(1)[unfolded ev] step.prems(3) this] show ?thesis using IH old ev by auto
  next
    case False
    from accepted_other[OF this] show ?thesis using IH(1) old by simp
  qed
qed simp

lemma accepted_tracked:
  "agent_run i tr s s' \<Longrightarrow> undisturbed tr \<Longrightarrow> fresh_for tr s \<Longrightarrow> agent_inv i s \<Longrightarrow> pd \<in> set (accepted tr) \<Longrightarrow>
   \<exists>k. tracks s' k pd"
proof (induction rule: agent_run.induct)
  case (step e ev s s' tr s'')
  note st = undisturbed_step[OF step.hyps(1) step.prems(3,1,2)]
  show ?case
  proof (cases "pd \<in> set (accepted tr)")
    case False
    then obtain nanos plan out where ev: "ev = Submitted nanos plan (Inr out)"
        "pd = (ap_action_id plan, so_plan_digest out)"
      using step.prems(4) accepted_other[of ev e tr] by force
    have "reliable (e, Submitted nanos plan (Inr out))" using st ev by simp
    then have "\<exists>k. tracks s' k pd" using accepted_step[OF step.hyps(1)[unfolded ev(1)] step.prems(3)] ev(2) by blast
    then show ?thesis using agent_run_inv[OF step.hyps(2)] st by blast
  qed (use step st in blast)
qed simp

end
