(* ===== verification/ExecClaims.thy ===== *)
theory ExecClaims
  imports Agent
begin

text \<open>
  The properties of the execution service (queue, store, scheduler, local execution, process control,
  reporting, recovery), each with a witness on a concrete installation: \<open>sample_env\<close> is an environment in
  which every file operation succeeds and a plan's digest is derived from its action id, \<open>sample_plan\<close> a
  plan, \<open>sample_inst\<close> the installation they belong to.
\<close>

subsection \<open>Concrete inputs\<close>

definition sample_env :: exec_env where
  "sample_env = \<lparr>ev_now = ''2026-01-01T00:00:00Z'', ev_after_millis = (\<lambda>_. ''2026-01-01T00:01:00Z''),
     ev_digest_plan = (\<lambda>p. Inr (''sha-'' @ ap_action_id p)), ev_digest_result = (\<lambda>_. Inr ''sha-result''),
     ev_sign = (\<lambda>_ _. ''sig''), ev_issuer = (\<lambda>_. ''agent''), ev_validate = (\<lambda>_. None), ev_state_name = (\<lambda>_. ''failed''),
     ev_write = (\<lambda>_. Done), ev_stat_err = (\<lambda>_. None), ev_read_err = (\<lambda>_. None), ev_remove_err = (\<lambda>_. None),
     ev_actions_dir = ''actions'', ev_plan_file = ''plan.json'', ev_result_file = ''result.json'',
     ev_envelope_path = (\<lambda>k. k)\<rparr>"

definition sample_plan :: action_plan where
  "sample_plan = \<lparr>ap_action_id = ''a1'', ap_request_id = ''r1'', ap_agent_id = ''agent'', ap_node_id = ''node'',
     ap_max_total_duration_ms = 60000, ap_risk_level = R1, ap_entry = ''s1'', ap_steps = [(''s1'', None)]\<rparr>"

definition sample_inst :: installation where
  "sample_inst = \<lparr>in_digest = ev_digest_plan sample_env, in_actions_dir = ''actions'', in_run_dir = ''/run''\<rparr>"

definition sample_dr :: drain_request where
  "sample_dr = \<lparr>dr_run_dir = ''/run'', dr_instance_id = ''i1''\<rparr>"

definition sample_proc :: proc_env where
  "sample_proc = \<lparr>pe_probe = (\<lambda>_ _. None), pe_signal = (\<lambda>_ _. None), pe_stat = (\<lambda>_ _. Inr None),
     pe_oversleep = (\<lambda>_. 0), pe_parse_rfc3339 = (\<lambda>_. Some 100), pe_now_utc = 200\<rparr>"

definition sample_child :: child_env where
  "sample_child = \<lparr>ce_spawn_err = None, ce_pipe_err = None, ce_pid = Some 42, ce_try0 = Inr (Some (ExitCode 0)),
     ce_wait1 = None, ce_try1 = Inr None, ce_pid_at_cancel = None, ce_try2 = Inr None, ce_wait2 = None,
     ce_kill_err = None, ce_try3 = Inr None, ce_wait3 = Inr (ExitCode 0), ce_terminate_err = None,
     ce_capture_err = None, ce_result = None\<rparr>"

definition sample_submit :: "scheduler_outcome res \<times> exec_store" where
  "sample_submit = submit_local_plan sample_env ''/run'' 7 sample_plan empty_store"

definition sample_out :: scheduler_outcome where
  "sample_out = \<lparr>so_execution_id = ''exec_7'', so_plan_digest = ''sha-a1''\<rparr>"

definition duplicate_error :: io_error where
  "duplicate_error = IoError AlreadyExists ''duplicate action plan already tracked locally''"

definition sample_running :: running_state where
  "sample_running = (running_builder ''exec_9'' ''a1'' ''spawned'' ''/run/actions/exec_9'')
     \<lparr>rn_pid := Some 42, rn_deadline_at := Some ''2026-01-01T00:01:00Z''\<rparr>"

definition sample_item :: exec_queue_item where
  "sample_item = item_builder ''exec_9'' ''a1'' ''sha-a1'' ''r1'' ''2026-01-01T00:00:00Z''"

definition sample_queued :: exec_store where
  "sample_queued = empty_store\<lparr>es_queue := Present \<lparr>eq_updated_at = [], eq_items = [sample_item]\<rparr>\<rparr>"

definition sample_quarantined :: exec_store where
  "sample_quarantined = empty_store\<lparr>es_queue := Present \<lparr>eq_updated_at = ''2026-01-01T00:00:00Z'', eq_items = []\<rparr>,
     es_history := [(''exec_9'', Some (history_quarantined ''2026-01-01T00:00:00Z'' ''exec_9'' (Some ''a1'')
       (Some ''sha-a1'') (Some ''r1'') ''queued execution plan unavailable''))]\<rparr>"

definition sample_interrupted :: exec_store where
  "sample_interrupted = empty_store\<lparr>es_running := [(''exec_9'', Some sample_running)]\<rparr>"

definition sample_crashed :: exec_store where
  "sample_crashed = sample_interrupted\<lparr>es_plans := [(''/run/actions/exec_9'', Some sample_plan)]\<rparr>"

definition sample_kill_proc :: proc_env where
  "sample_kill_proc = sample_proc\<lparr>pe_probe := (\<lambda>t _. if t < 2 then None else Some ESRCH),
     pe_stat := (\<lambda>_ _. Inr (Some ''42 (sh) S 1 1 1 0 -1 4 0 0 0 0 0 0 0 0 20 0 1 0 777 0''))\<rparr>"

definition sample_expired :: running_state where
  "sample_expired = sample_running\<lparr>rn_process_identity := Some ''linux_proc_start:777''\<rparr>"

definition sample_blind_env :: exec_env where
  "sample_blind_env = sample_env\<lparr>ev_read_err := (\<lambda>t. if t = TRunning ''exec_9'' then Some OtherKind else None)\<rparr>"

definition sample_dead_proc :: proc_env where
  "sample_dead_proc = sample_proc\<lparr>pe_probe := (\<lambda>_ _. Some ESRCH)\<rparr>"

definition sample_result :: action_result where
  "sample_result = \<lparr>ar_action_id = ''a1'', ar_execution_id = ''exec_9'', ar_final_status = Succeeded,
     ar_request_id = None, ar_exit_reason = None, ar_step_records = [], ar_started_at = None, ar_finished_at = None\<rparr>"

definition sample_rq :: local_exec_request where
  "sample_rq = \<lparr>lx_execution_id = ''exec_9'', lx_run_dir = ''/run'', lx_plan_digest = ''sha-a1'', lx_request_id = ''r1'',
     lx_plan = sample_plan\<rparr>"

definition sample_results :: exec_store where
  "sample_results = empty_store\<lparr>es_results := [(''/w'', Some sample_result)]\<rparr>"

definition sample_report_rq :: reporting_request where
  "sample_report_rq = \<lparr>rq_execution_id = ''exec_9'', rq_action_id = ''a1'', rq_request_id = ''r1'', rq_plan_digest = ''sha-a1'',
     rq_agent_id = ''agent'', rq_instance_id = ''i1'', rq_final_state = ''succeeded'', rq_result_path = ''/w/result.json'',
     rq_result = sample_result\<rparr>"

definition sample_fault :: fault_plan where
  "sample_fault = \<lparr>fp_step = Some 2, fp_written = 1, fp_kind = OtherKind\<rparr>"

definition sample_quarantine :: quarantine_request where
  "sample_quarantine = quarantine_queued_item sample_item ''queued execution plan unavailable'' (Some ''exec_9'')"

definition sample_trace :: agent_trace where
  "sample_trace = [(sample_env, Submitted 7 sample_plan (Inr sample_out))]"

definition sample_again :: agent_trace where
  "sample_again = sample_trace @ [(sample_env, Submitted 8 sample_plan (Inl duplicate_error))]"

definition sample_stat_error :: exec_env where
  "sample_stat_error = sample_env\<lparr>ev_stat_err := (\<lambda>t. if t = TQueue then Some OtherKind else None)\<rparr>"

definition sample_read_error :: exec_env where
  "sample_read_error = sample_env\<lparr>ev_read_err := (\<lambda>t. if t = THistory ''exec_9'' then Some OtherKind else None)\<rparr>"

lemma digit_7: "digit 7 = CHR ''7''"
  by code_simp

lemma sample_id: "next_execution_id 7 = ''exec_7''"
  by (simp add: next_execution_id_def show_nat.simps[of 7] digit_7)

lemma digit_8: "digit 8 = CHR ''8''"
  by code_simp

lemma sample_id_8: "next_execution_id 8 = ''exec_8''"
  by (simp add: next_execution_id_def show_nat.simps[of 8] digit_8)

lemmas submit_eval = submit_local_plan_def bind_op_def lift_res_def find_duplicate_execution_def load_queue_def path_exists_def
  Let_def find_duplicate_running_execution_def find_duplicate_reporting_execution_def find_duplicate_history_execution_def
  queue_matches_def create_workdir_def store_plan_def store_queue_def queue_new_def

lemmas sample_defs = sample_env_def sample_plan_def sample_inst_def sample_dr_def sample_proc_def sample_child_def
  sample_out_def duplicate_error_def

lemma sample_submit_ok: "fst sample_submit = Inr sample_out"
  by (simp add: sample_submit_def submit_eval sample_id sample_defs empty_store_def)

subsection \<open>Accepted plans\<close>

text \<open>
  C1.  Over any sequence of submissions, queue drains and recoveries of an installation that starts empty,
  with any clock, any failing writes and removes, any process table and any child behaviour, no plan is
  accepted twice: the (action id, plan digest) pairs of the successful \<open>submit_local_plan\<close> calls are
  pairwise different.  Two assumptions are needed.  Every step is \<open>reliable\<close>: at a submission every \<open>stat\<close> and
  every read works, and at a recovery the running records can be read; drains may meet any failure.  And no two
  submissions read the same nanosecond from the clock, from which \<open>next_execution_id\<close> makes the execution id.
  Without the first the code does accept a plan twice: see \<open>stat_error_accepts_twice\<close> and
  \<open>read_error_accepts_twice\<close> below, and \<open>read_error_forgets_plan\<close> for a recovery.
\<close>

theorem accepted_at_most_once:
  assumes "agent_run i tr empty_store s'" "list_all reliable tr" "distinct (submit_times tr)"
  shows "distinct (accepted tr)"
  using accepted_new[OF assms(1) _ fresh_for_empty agent_inv_empty] assms(2,3) by (simp add: undisturbed_def)

lemma sample_store: "submit_local_plan sample_env ''/run'' 7 sample_plan empty_store = (Inr sample_out, snd sample_submit)"
  using sample_submit_ok by (metis prod.collapse sample_submit_def)

lemma sample_step: "agent_step sample_inst sample_env (Submitted 7 sample_plan (Inr sample_out)) empty_store (snd sample_submit)"
  by (rule agent_step.submit) (simp_all add: env_of_def sample_inst_def sample_store, simp add: sample_env_def)

lemma sample_run: "agent_run sample_inst sample_trace empty_store (snd sample_submit)"
  unfolding sample_trace_def by (rule agent_run.step[OF sample_step agent_run.stop])

lemma sample_trace_facts: "list_all reliable sample_trace" "distinct (submit_times sample_trace)" "undisturbed sample_trace"
  "accepted sample_trace = [(''a1'', ''sha-a1'')]"
  by (simp_all add: sample_trace_def undisturbed_def sample_defs)

lemma sample_resubmit:
  "submit_local_plan sample_env ''/run'' 8 sample_plan (snd sample_submit) = (Inl duplicate_error, snd sample_submit)"
proof -
  have "tracks (snd sample_submit) ''exec_7'' (ap_action_id sample_plan, ''sha-a1'')"
    using accepted_step[OF sample_step agent_inv_empty] by (simp add: sample_defs)
  moreover have "store_wf (snd sample_submit)"
    using agent_run_inv[OF sample_run sample_trace_facts(3) fresh_for_empty agent_inv_empty] agent_invD(2) by blast
  ultimately show ?thesis
    using submit_duplicate[of sample_env "snd sample_submit" sample_plan "''sha-a1''"] by (simp add: sample_defs)
qed

lemma sample_run_again: "agent_run sample_inst sample_again empty_store (snd sample_submit)"
proof -
  have "agent_step sample_inst sample_env (Submitted 8 sample_plan (Inl duplicate_error)) (snd sample_submit) (snd sample_submit)"
    by (rule agent_step.submit) (simp_all add: env_of_def sample_inst_def sample_resubmit, simp add: sample_env_def)
  from agent_run.step[OF sample_step agent_run.step[OF this agent_run.stop]] show ?thesis
    by (simp add: sample_again_def sample_trace_def)
qed

theorem accepted_at_most_once_witness:
  "agent_run sample_inst sample_again empty_store (snd sample_submit) \<and>
   accepted sample_again = [(''a1'', ''sha-a1'')] \<and> distinct (accepted sample_again)"
proof -
  have rel: "list_all reliable sample_again" "distinct (submit_times sample_again)"
    by (simp_all add: sample_again_def sample_trace_def sample_env_def)
  have "accepted sample_again = [(''a1'', ''sha-a1'')]" by (simp add: sample_again_def sample_trace_def sample_defs)
  then show ?thesis using sample_run_again accepted_at_most_once[OF sample_run_again rel] by blast
qed

text \<open>
  What the assumptions on submissions and recoveries exclude.  When the \<open>stat\<close> of the queue file fails during a submission, the blocking
  \<open>load_or_default\<close> takes the queue for absent: the queued plan is accepted again, and the queue file is
  overwritten by one that holds the new item only.
\<close>

lemma stat_error_accepts_twice:
  "\<exists>s'. agent_run sample_inst
      (sample_trace @ [(sample_stat_error, Submitted 8 sample_plan (Inr (sample_out\<lparr>so_execution_id := ''exec_8''\<rparr>)))]) empty_store s' \<and>
    map qi_execution_id (queued_items (snd sample_submit)) = [''exec_7''] \<and>
    map qi_execution_id (queued_items s') = [''exec_8'']"
proof -
  obtain x s' where x: "submit_local_plan sample_stat_error ''/run'' 8 sample_plan (snd sample_submit) = (x, s')" by fastforce
  have res: "x = Inr (sample_out\<lparr>so_execution_id := ''exec_8''\<rparr>)" "map qi_execution_id (queued_items s') = [''exec_8'']"
    using x by (auto simp: submit_eval sample_submit_def sample_id sample_id_8 sample_stat_error_def sample_defs empty_store_def
        queued_items_def submitted_item_def item_builder_def enqueue_def vec_insert_def)
  have "map qi_execution_id (queued_items (snd sample_submit)) = [''exec_7'']"
    by (simp add: submit_eval sample_submit_def sample_id sample_defs empty_store_def queued_items_def
        submitted_item_def item_builder_def enqueue_def vec_insert_def)
  moreover have "agent_step sample_inst sample_stat_error (Submitted 8 sample_plan x) (snd sample_submit) s'"
    by (rule agent_step.submit) (simp_all add: env_of_def sample_inst_def x, simp add: sample_stat_error_def sample_env_def)
  note agent_run.step[OF sample_step agent_run.step[OF this agent_run.stop]]
  ultimately show ?thesis using res by (auto simp: sample_trace_def)
qed

text \<open>
  In the same way a history record that cannot be read at the moment of a submission is skipped, and the plan it
  tracks is accepted again.
\<close>

lemma read_error_accepts_twice:
  "tracks sample_quarantined ''exec_9'' (''a1'', ''sha-a1'') \<and>
   fst (submit_local_plan sample_env ''/run'' 7 sample_plan sample_quarantined) = Inl duplicate_error \<and>
   fst (submit_local_plan sample_read_error ''/run'' 7 sample_plan sample_quarantined) = Inr sample_out"
proof (intro conjI)
  show "tracks sample_quarantined ''exec_9'' (''a1'', ''sha-a1'')"
    by (simp add: tracks_def history_plan_def sample_quarantined_def empty_store_def dir_get_def history_quarantined_def)
  note ev = submit_eval sample_id sample_defs sample_quarantined_def empty_store_def history_quarantined_def
    history_matches_def fail_op_def
  show "fst (submit_local_plan sample_env ''/run'' 7 sample_plan sample_quarantined) = Inl duplicate_error"
    by (simp add: ev)
  show "fst (submit_local_plan sample_read_error ''/run'' 7 sample_plan sample_quarantined) = Inr sample_out"
    by (simp add: ev sample_read_error_def read_file_def)
qed

text \<open>
  A recovery that cannot read a running record quarantines the execution without its plan, which is then no longer
  tracked.
\<close>

lemma read_error_forgets_plan:
  "tracks sample_interrupted ''exec_9'' (''a1'', []) \<and>
   fst (recover_incomplete_executions sample_blind_env sample_dead_proc ''i1'' sample_interrupted) = Inr () \<and>
   \<not> tracks (snd (recover_incomplete_executions sample_blind_env sample_dead_proc ''i1'' sample_interrupted)) ''exec_9'' (''a1'', [])"
  by (simp add: recover_incomplete_executions_def recover_entry_def read_file_def read_dir_def sample_blind_env_def sample_env_def
      sample_interrupted_def sample_running_def running_builder_def empty_store_def dir_get_def stat_async_def
      quarantine_execution_async_def quarantine_unreadable_running_def lookup_queued_execution_async_def load_queue_async_def
      remove_local_report_artifacts_async_def remove_op_def store_history_def quarantine_record_def
      remove_queued_execution_async_def remove_running_async_def history_quarantined_def bind_op_def return_op_def dir_put_def
      dir_del_def tracks_def queued_with_def queued_items_def running_plan_def reported_plan_def history_plan_def)

text \<open>
  C27.  A plan that was accepted earlier in the life of the installation, whatever has happened to it since
  (still queued, running, reported, quarantined), is rejected when it is submitted again, with any environment in
  which \<open>stat\<close> and reads work and the digest can be computed: the submission returns \<open>AlreadyExists\<close> and leaves
  the store exactly as it was.  The history before it is \<open>undisturbed\<close>: \<open>stat\<close> and reads
  work at submissions, running records can be read at recoveries, and submissions differ in their time.
\<close>

theorem resubmission_rejected:
  assumes "agent_run i tr empty_store s" "undisturbed tr" "(ap_action_id plan, d) \<in> set (accepted tr)"
    and "ev_stat_err e = (\<lambda>_. None)" "ev_read_err e = (\<lambda>_. None)" "ev_digest_plan e plan = Inr d"
  shows "submit_local_plan e run nanos plan s = (Inl duplicate_error, s)"
proof -
  obtain k where k: "tracks s k (ap_action_id plan, d)"
    using accepted_tracked[OF assms(1,2) fresh_for_empty agent_inv_empty assms(3)] by blast
  have "store_wf s" using agent_run_inv[OF assms(1,2) fresh_for_empty agent_inv_empty] agent_invD(2) by blast
  from submit_duplicate[OF assms(4,5) this assms(6) k] show ?thesis by (simp add: duplicate_error_def)
qed

theorem resubmission_rejected_witness:
  "submit_local_plan sample_env ''/run'' 8 sample_plan (snd sample_submit) = (Inl duplicate_error, snd sample_submit)"
  by (rule resubmission_rejected[OF sample_run sample_trace_facts(3), where d = "''sha-a1''"])
    (simp_all add: sample_trace_facts(4), simp_all add: sample_defs)

text \<open>
   Duplicate detection is exact: when \<open>stat\<close> and reads work and the store is well formed, the search over queue,
  running, reporting and history files succeeds, changes nothing, and finds a match exactly when some readable
  record tracks the plan.
\<close>

theorem duplicate_detection_exact:
  assumes "ev_stat_err e = (\<lambda>_. None)" "ev_read_err e = (\<lambda>_. None)" "store_wf s"
  shows "\<exists>r. find_duplicate_execution_async e a d s = (Inr r, s) \<and> (r \<noteq> None) = (\<exists>k. tracks s k (a, d))"
  using find_duplicate_async_iff[OF assms(1,2)] assms(3) by (simp add: store_wf_def)

theorem duplicate_detection_exact_witness:
  "find_duplicate_execution_async sample_env ''a1'' ''sha-a1'' empty_store = (Inr None, empty_store)"
proof -
  have wf: "store_wf empty_store" using agent_invD(2)[OF agent_inv_empty] .
  have st: "ev_stat_err sample_env = (\<lambda>_. None)" "ev_read_err sample_env = (\<lambda>_. None)" by (simp_all add: sample_env_def)
  from duplicate_detection_exact[OF st wf, of "''a1''" "''sha-a1''"] show ?thesis by auto
qed

subsection \<open>Draining\<close>

text \<open>
  C7.  Draining ends: in every store an installation can reach by an \<open>undisturbed\<close> history, the drain loop returns
  after at most one round per queued item (the model's fuel), whatever fails meanwhile, reads and \<open>stat\<close>
  included, and it forgets no tracked plan.
\<close>

theorem drain_always_returns:
  assumes "agent_run i tr empty_store s" "undisturbed tr" "env_of i e" "dr_run_dir dr = in_run_dir i"
  shows "\<exists>r s'. drain_next_with_report_async e p ch dr s = Some (r, s') \<and> tracks s' = tracks s"
proof -
  have inv: "agent_inv i s" using agent_run_inv[OF assms(1,2) fresh_for_empty agent_inv_empty] by blast
  have "plans_agree e (dr_run_dir dr) s" using agent_invD(3)[OF inv assms(3)] assms(4) by simp
  from drain_returns[OF agent_invD(1)[OF inv] this] show ?thesis by blast
qed

theorem drain_always_returns_witness:
  "\<exists>r s'. drain_next_with_report_async sample_env sample_proc (\<lambda>_. sample_child) sample_dr (snd sample_submit) = Some (r, s') \<and>
     tracks s' = tracks (snd sample_submit)"
  by (rule drain_always_returns[OF sample_run sample_trace_facts(3)]) (simp_all add: env_of_def sample_inst_def sample_dr_def, simp_all add: sample_env_def)

text \<open>
   A head that the scheduler reports as completed is completed: its report state and its envelope are on
  disk and are the ones returned, its running state is gone, and the queue file is untouched until the loop
  removes the item.  A head that is dropped (\<open>ReloadQueue\<close>) has left the queue.
\<close>

theorem head_completed_is_reported:
  assumes "coherent s" "item \<in> set (queued_items s)" "plans_agree e (dr_run_dir dr) s"
    and "handle_queue_head_async e p ch dr item s = (Inr disposition, s')"
  shows "case disposition of
      Blocked \<Rightarrow> es_queue s' = es_queue s
    | ReloadQueue \<Rightarrow> queued_items s' = filter (\<lambda>i. qi_execution_id i \<noteq> qi_execution_id item) (queued_items s)
    | HeadCompleted out \<Rightarrow> es_queue s' = es_queue s \<and> dir_get (es_running s') (qi_execution_id item) = Missing \<and>
        (\<exists>pr. report_ready s' (qi_execution_id item) pr \<and> do_report out = pr_envelope pr)"
  using handle_effect[OF assms] by (cases disposition) (auto simp: head_effect_def reported_outcome_def head_drain_outcome_def)

lemma sample_queued_facts:
  "coherent sample_queued" "sample_item \<in> set (queued_items sample_queued)" "plans_agree sample_env ''/run'' sample_queued"
proof -
  have items: "queued_items sample_queued = [sample_item]" by (simp add: sample_queued_def queued_items_def)
  then show "sample_item \<in> set (queued_items sample_queued)" by simp
  show "plans_agree sample_env ''/run'' sample_queued"
    by (simp add: plans_agree_def items) (simp add: sample_queued_def empty_store_def dir_get_def)
  have "tracks sample_queued k pd \<longleftrightarrow> queued_with sample_queued k pd" for k pd
    by (simp add: tracks_def running_plan_def reported_plan_def history_plan_def)
      (simp add: sample_queued_def empty_store_def dir_get_def)
  then show "coherent sample_queued" by (simp add: coherent_def queued_with_def items)
qed

lemma sample_handle:
  "handle_queue_head_async sample_env sample_proc (\<lambda>_. sample_child) sample_dr sample_item sample_queued =
    (Inr ReloadQueue, sample_quarantined)"
  by (simp add: handle_queue_head_async_def load_queue_head_context_async_def Let_def read_queued_plan_async_def
      sample_queued_def empty_store_def dir_get_def bind_op_def return_op_def quarantine_queue_head_async_def
      quarantine_execution_async_def quarantine_queued_item_def lookup_queued_execution_async_def load_queue_async_def
      stat_async_def sample_env_def sample_item_def item_builder_def remove_local_report_artifacts_async_def remove_op_def
      store_history_def quarantine_record_def remove_queued_execution_async_def queue_remove_def store_queue_def
      remove_running_async_def sample_dr_def sample_quarantined_def dir_put_def)

theorem head_completed_is_reported_witness:
  "handle_queue_head_async sample_env sample_proc (\<lambda>_. sample_child) sample_dr sample_item sample_queued =
    (Inr ReloadQueue, sample_quarantined) \<and>
   queued_items sample_quarantined = filter (\<lambda>i. qi_execution_id i \<noteq> ''exec_9'') (queued_items sample_queued)"
  using head_completed_is_reported[OF sample_queued_facts(1,2) _ sample_handle] sample_queued_facts(3) sample_handle
  by (simp add: sample_dr_def sample_item_def item_builder_def)

subsection \<open>Recovery\<close>

text \<open>
  C8.  Startup recovery settles what it finds: in every store that satisfies the agent's invariant (every
  store an installation reaches by an undisturbed history does), a recovery that can read the running records and
  returns without error leaves no execution hanging.  The running state of each is gone, and the execution has a
  complete report on disk or is quarantined in the history; the one exception is an execution that left no result
  and whose process may be alive: the process exists, under the recorded identity or one that cannot be read, and
  its deadline has not passed, or it could not be killed.  Only that execution keeps its running state.  Recovery
  also keeps the invariant, forgets no tracked plan and adds no item to the queue.
\<close>

theorem recovery_settles:
  assumes "agent_inv i s" "env_of i e" "\<forall>k. ev_read_err e (TRunning k) = None"
    and "recover_incomplete_executions e p instance_id s = (Inr u, s')"
  shows "agent_inv i s' \<and> tracks s' = tracks s \<and> set (queued_items s') \<subseteq> set (queued_items s) \<and>
    (\<forall>k. dir_get (es_running s) k \<noteq> Missing \<longrightarrow> settled p k s s')"
  using recover_effect[OF agent_invD(1,2)[OF assms(1)] assms(3,4)]
    agent_step_inv[OF agent_step.recover[OF assms(2,4)] assms(1)] assms(3) by simp

lemma sample_crashed_inv: "agent_inv sample_inst sample_crashed"
proof -
  have "tracks sample_crashed k pd \<longleftrightarrow> running_plan sample_crashed k = Some pd" for k pd
    by (simp add: tracks_def reported_plan_def history_plan_def queued_with_def queued_items_def)
      (simp add: sample_crashed_def sample_interrupted_def empty_store_def dir_get_def)
  then have "coherent sample_crashed" by (simp add: coherent_def)
  moreover have "store_wf sample_crashed"
    by (auto simp: store_wf_def wf_dirs_def sample_crashed_def sample_interrupted_def empty_store_def dir_get_def
        sample_running_def running_builder_def split: if_splits)
  moreover have "queued_items sample_crashed = []"
    by (simp add: queued_items_def sample_crashed_def sample_interrupted_def empty_store_def)
  ultimately show ?thesis by (simp add: agent_inv_def plans_agree_def)
qed

lemma sample_dead: "\<not> may_be_alive sample_dead_proc sample_running"
  by (simp add: may_be_alive_def sample_running_def running_builder_def inspect_running_state_def process_identity_state_def
      process_exists_def classify_existence_error_def sample_dead_proc_def sample_proc_def ESRCH_def)

lemma sample_recover:
  "\<exists>s'. recover_incomplete_executions sample_env sample_dead_proc ''i1'' sample_crashed = (Inr (), s')"
proof -
  have "fst (recover_incomplete_executions sample_env sample_dead_proc ''i1'' sample_crashed) = Inr ()"
    by (simp add: recover_incomplete_executions_def recover_entry_def recover_without_result_def finish_recovery_def
        execution_is_still_running_async_def inspect_running_state_def process_identity_state_def process_exists_def
        classify_existence_error_def sample_dead_proc_def sample_proc_def ESRCH_def sample_crashed_def sample_interrupted_def
        sample_running_def running_builder_def sample_env_def empty_store_def dir_get_def stat_async_def store_result_def
        recovery_report_request_def ensure_local_report_async_def inspect_local_report_async_def inspect_with_def
        prepare_local_report_with_issue_async_def build_report_envelope_def store_envelope_def store_reporting_def
        remove_running_async_def remove_op_def bind_op_def return_op_def lift_res_def Let_def)
  then show ?thesis by (metis prod.collapse)
qed

theorem recovery_settles_witness:
  "\<exists>s'. recover_incomplete_executions sample_env sample_dead_proc ''i1'' sample_crashed = (Inr (), s') \<and>
     dir_get (es_running sample_crashed) ''exec_9'' = Present sample_running \<and> finished ''exec_9'' s'"
proof -
  obtain s' where s': "recover_incomplete_executions sample_env sample_dead_proc ''i1'' sample_crashed = (Inr (), s')"
    using sample_recover by blast
  have e: "env_of sample_inst sample_env" "\<forall>k. ev_read_err sample_env (TRunning k) = None"
    by (simp add: env_of_def sample_inst_def) (simp_all add: sample_env_def)
  have st: "dir_get (es_running sample_crashed) ''exec_9'' = Present sample_running"
    by (simp add: sample_crashed_def sample_interrupted_def dir_get_def)
  then have "settled sample_dead_proc ''exec_9'' sample_crashed s'"
    using recovery_settles[OF sample_crashed_inv e s'] by simp
  then show ?thesis using s' st sample_dead by (auto simp: settled_def)
qed

subsection \<open>Local execution\<close>

text \<open>
  C14.  Success is never reported for an execution that did not succeed: when a local execution returns, the result
  it returns is the one on disk, and if that result says \<open>Succeeded\<close> then the agent saw the child exit with code 0
  before it asked it to stop (at the first check, while it waited for the plan's total duration, or at the one
  check it makes when that time is up), it sent no signal, and the result file is the one the child left.  A child
  that was told to stop, or exited with another code or by a signal, is never reported as succeeded.  (A result file
  found later, by recovery or by the reconciliation of the queue head, is reported as it is: then no exit status
  is known.)
\<close>

theorem succeeded_means_exit_zero:
  assumes "execute_async e p c rq s = (Inr out, s')"
  shows "dir_get (es_results s') (lo_workdir out) = Present (lo_result out) \<and>
    (ar_final_status (lo_result out) = Succeeded \<longrightarrow> exit_before_stop c = Some (ExitCode 0) \<and>
       es_signals s' = es_signals s \<and>
       result_left_by c (dir_get (es_results s) (lo_workdir out)) = Present (lo_result out))"
  using execute_ok[OF assms] by blast

lemma sample_execute:
  "\<exists>s'. execute_async sample_env sample_proc (sample_child\<lparr>ce_result := Some (Some sample_result)\<rparr>) sample_rq empty_store =
     (Inr \<lparr>lo_execution_id = ''exec_9'', lo_workdir = ''/run/actions/exec_9'', lo_result = sample_result\<rparr>, s')"
proof -
  have "fst (execute_async sample_env sample_proc (sample_child\<lparr>ce_result := Some (Some sample_result)\<rparr>) sample_rq empty_store) =
     Inr \<lparr>lo_execution_id = ''exec_9'', lo_workdir = ''/run/actions/exec_9'', lo_result = sample_result\<rparr>"
    by (simp add: execute_async_def create_workdir_def store_plan_def store_runtime_def store_running_def fail_if_def
        child_result_def process_identity_def process_identity_token_def wait_for_child_def load_or_synthesize_result_async_def
        workdir_path_def sample_rq_def sample_defs sample_result_def running_builder_def empty_store_def dir_get_def stat_async_def
        exit_success_def final_state_name_def bind_op_def return_op_def fail_op_def Let_def)
  then show ?thesis by (metis prod.collapse)
qed

theorem succeeded_means_exit_zero_witness:
  "\<exists>s'. execute_async sample_env sample_proc (sample_child\<lparr>ce_result := Some (Some sample_result)\<rparr>) sample_rq empty_store =
     (Inr \<lparr>lo_execution_id = ''exec_9'', lo_workdir = ''/run/actions/exec_9'', lo_result = sample_result\<rparr>, s') \<and>
   ar_final_status sample_result = Succeeded \<and> es_signals s' = [] \<and>
   exit_before_stop (sample_child\<lparr>ce_result := Some (Some sample_result)\<rparr>) = Some (ExitCode 0)"
proof -
  obtain s' where ex: "execute_async sample_env sample_proc (sample_child\<lparr>ce_result := Some (Some sample_result)\<rparr>) sample_rq empty_store =
     (Inr \<lparr>lo_execution_id = ''exec_9'', lo_workdir = ''/run/actions/exec_9'', lo_result = sample_result\<rparr>, s')"
    using sample_execute by blast
  have ok: "ar_final_status sample_result = Succeeded" "es_signals empty_store = []"
    by (simp_all add: sample_result_def empty_store_def)
  from succeeded_means_exit_zero[OF ex] ex ok show ?thesis by auto
qed

text \<open>
   What a captured stream holds: exactly the first \<open>limit\<close> bytes of the child's output, followed by the
  truncation marker when some chunk crosses the limit strictly inside it.  When the limit falls on a chunk
  boundary the rest of the output is dropped without a marker.
\<close>

theorem captured_stream_content:
  "spawn_stream_capture limit chunks =
    take limit (concat chunks) @ (if straddles limit 0 chunks then stream_truncated_marker else [])"
  by (rule capture_eq)

text \<open>
  The dropped output can be silent: with a limit of 4 and the chunks \<open>abcd\<close>, \<open>efgh\<close> the capture is
  \<open>abcd\<close> with no marker, indistinguishable from a child that printed four bytes.
\<close>

lemma truncation_can_be_silent:
  "spawn_stream_capture 4 [''abcd'', ''efgh''] = spawn_stream_capture 4 [''abcd''] \<and>
   spawn_stream_capture 4 [''abc'', ''efgh''] = ''abce'' @ stream_truncated_marker"
  by (simp add: capture_eq)

subsection \<open>Processes\<close>

text \<open>
  C15.  The agent kills only an execution that is past its deadline, and as far as it can tell only that one: when
  the liveness check that scheduler and recovery share sends a signal, it is one \<open>SIGKILL\<close>, to the recorded pid,
  read as a signed number as the system call does; a process with this pid existed when it was looked up again
  right before the signal, its identity token was then the recorded one unless the record has none, and the
  recorded deadline had passed.  A record without an identity token is taken to match any process.
\<close>

theorem kill_only_expired_match:
  assumes "execution_is_still_running_async e p st k s = (r, s')"
  shows "es_signals s' = es_signals s \<or>
    (\<exists>pid. rn_pid st = Some pid \<and> pid \<noteq> 0 \<and> es_signals s' = es_signals s @ [(sint pid, SIGKILL)] \<and>
       process_exists p 1 pid = Inr True \<and>
       (rn_process_identity st = None \<or> process_identity p 1 pid = Inr (rn_process_identity st)) \<and>
       deadline_has_elapsed p (rn_deadline_at st))"
proof (cases "inspect_running_state p st = Inr Expired")
  case True
  then obtain pid where pid: "rn_pid st = Some pid" "deadline_has_elapsed p (rn_deadline_at st)"
    by (auto simp: inspect_running_state_def split: option.splits sum.splits if_splits
        elim!: derive_running_state_status.elims)
  have stop: "force_stop_expired_process_async e p st k s = (r, s')"
    using assms True by (simp add: execution_is_still_running_async_def)
  show ?thesis
  proof (cases "process_identity_state p 1 pid (rn_process_identity st) = Inr Matches")
    case True
    obtain x t where x: "record_signal_request_async e k Kill s = (x, t)" by fastforce
    have t: "es_signals t = es_signals s" using x by (rule record_signal_cases) simp_all
    have "es_signals s' = es_signals t \<or> pid \<noteq> 0 \<and> es_signals s' = es_signals t @ [(sint pid, SIGKILL)]"
      using stop x pid True by (auto simp: force_stop_expired_process_async_def bind_op_def load_running_def force_kill_def
          send_signal_def return_op_def split: sum.splits option.splits if_splits)
    then show ?thesis using pid t identity_matches[OF True] by auto
  next
    case False
    then have "s' = s" using stop pid
      by (auto simp: force_stop_expired_process_async_def return_op_def fail_op_def split: sum.splits identity_state.splits)
    then show ?thesis by simp
  qed
next
  case False
  then show ?thesis using assms
    by (auto simp: execution_is_still_running_async_def return_op_def fail_op_def
        split: sum.splits running_state_status.splits)
qed

lemmas kill_eval = execution_is_still_running_async_def force_stop_expired_process_async_def inspect_running_state_def
  process_identity_state_def process_exists_def classify_process_identity_def deadline_has_elapsed_def
  record_signal_request_async_def load_running_def store_running_def force_kill_def send_signal_def SIGKILL_def
  process_is_running_def classify_existence_error_def ESRCH_def EPERM_def dir_put_def
  sample_running_def running_builder_def sample_interrupted_def empty_store_def sample_env_def dir_get_def stat_async_def
  bind_op_def return_op_def

lemma sample_wait: "pid \<noteq> 0 \<Longrightarrow> wait_for_exit sample_kill_proc pid 2 0 = Inr False"
  by (subst wait_for_exit.simps)
    (simp add: process_is_running_def process_exists_def classify_existence_error_def sample_kill_proc_def ESRCH_def)

lemma sample_identity: "process_identity_token sample_kill_proc t 42 = Inr (Some ''linux_proc_start:777'')"
  by code_simp

lemmas sample_kill_simps = sample_wait sample_identity sample_kill_proc_def[THEN arg_cong[where f = pe_probe]]
  sample_kill_proc_def[THEN arg_cong[where f = pe_signal]] sample_kill_proc_def[THEN arg_cong[where f = pe_parse_rfc3339]]
  sample_kill_proc_def[THEN arg_cong[where f = pe_now_utc]] sample_proc_def

lemma sample_kill:
  "es_signals (snd (execution_is_still_running_async sample_env sample_kill_proc sample_expired ''exec_9'' sample_interrupted)) = [(42, 9)]"
  by (simp add: kill_eval sample_kill_simps sample_expired_def process_identity_def)

theorem kill_only_expired_match_witness:
  "es_signals (snd (execution_is_still_running_async sample_env sample_kill_proc sample_expired ''exec_9'' sample_interrupted)) =
     es_signals sample_interrupted @ [(42, SIGKILL)] \<and>
   process_identity sample_kill_proc 1 42 = Inr (Some ''linux_proc_start:777'') \<and>
   deadline_has_elapsed sample_kill_proc (rn_deadline_at sample_expired)"
proof -
  obtain r s' where rs: "execution_is_still_running_async sample_env sample_kill_proc sample_expired ''exec_9'' sample_interrupted = (r, s')"
    by fastforce
  have st: "rn_pid sample_expired = Some 42" "rn_process_identity sample_expired = Some ''linux_proc_start:777''"
    "es_signals sample_interrupted = []" "es_signals s' = [(42, 9)]"
    using sample_kill rs by (simp_all add: sample_expired_def sample_running_def sample_interrupted_def empty_store_def)
  from kill_only_expired_match[OF rs] show ?thesis using st rs by auto
qed

text \<open>
  A recorded pid of \<open>2\<^sup>3\<^sup>1\<close> or more is a negative number to the system call, which then addresses a process
  group: with the pid \<open>2\<^sup>3\<^sup>2 - 2\<close> in the record the signal goes to the group 2.
\<close>

lemma large_pid_kills_group:
  "es_signals (snd (execution_is_still_running_async sample_env sample_kill_proc
     (sample_running\<lparr>rn_pid := Some 4294967294\<rparr>) ''exec_9'' sample_interrupted)) = [(- 2, SIGKILL)]"
  by (simp add: kill_eval sample_kill_simps)

text \<open>
  C28.  A process cannot choose its identity: the token the agent derives from \<open>/proc/<pid>/stat\<close> does not
  depend on the process name.  Whatever name stands between the parentheses, even one that contains \<open>) \<close> or
  white space, the fields are read from after the last closing parenthesis.
\<close>

theorem identity_independent_of_name:
  assumes "pe_stat p t pid = Inr (Some (shown @ '' ('' @ name @ '') '' @ rest))" "CHR '')'' \<notin> set rest"
  shows "process_identity_token p t pid =
     Inr (map_option (\<lambda>start. ''linux_proc_start:'' @ start) (nth_opt 19 (split_whitespace rest)))"
  using assms rsplit_paren_tail[OF assms(2), of "shown @ '' ('' @ name"]
  by (simp add: process_identity_token_def split: option.splits)

theorem identity_independent_of_name_witness:
  "process_identity_token (sample_proc\<lparr>pe_stat := (\<lambda>_ _. Inr (Some (''7'' @ '' ('' @ ''x) R 1'' @ '') '' @ ''S 1'')))\<rparr>) 0 7 =
     Inr (map_option (\<lambda>start. ''linux_proc_start:'' @ start) (nth_opt 19 (split_whitespace ''S 1'')))"
  by (rule identity_independent_of_name[where shown = "''7''" and name = "''x) R 1''"]) simp_all

text \<open>
   Waiting for a killed process ends and answers truthfully: \<open>wait_for_exit\<close> is a total function of the
  answers of the operating system; there is a last poll that saw what it reports, every earlier poll saw the
  process running, and it reports the process alive only when at least 250 milliseconds have passed.
\<close>

theorem wait_for_exit_truthful:
  assumes "wait_for_exit p pid t 0 = Inr alive"
  shows "\<exists>n. process_is_running p (t + n) pid = Inr alive \<and> (\<forall>j<n. process_is_running p (t + j) pid = Inr True) \<and>
    (alive \<longrightarrow> 250 \<le> (\<Sum>j<n. 10 + pe_oversleep p (t + j)))"
  using wait_for_exit_polls[OF assms] by simp

theorem wait_for_exit_truthful_witness:
  "wait_for_exit (sample_proc\<lparr>pe_probe := (\<lambda>t _. if t < 3 then None else Some ESRCH)\<rparr>) 42 0 0 = Inr False \<and>
   (\<exists>n. process_is_running (sample_proc\<lparr>pe_probe := (\<lambda>t _. if t < 3 then None else Some ESRCH)\<rparr>) n 42 = Inr False)"
proof -
  have "wait_for_exit (sample_proc\<lparr>pe_probe := (\<lambda>t _. if t < 3 then None else Some ESRCH)\<rparr>) 42 0 0 = Inr False"
    by (simp add: wait_for_exit.simps process_is_running_def process_exists_def process_is_zombie_def
        classify_existence_error_def ESRCH_def sample_proc_def)
  from this wait_for_exit_truthful[OF this] show ?thesis by auto
qed

subsection \<open>Reports and quarantine\<close>

text \<open>
   Ensuring a local report is idempotent: once it has succeeded, report state and envelope are on disk,
  nothing but the report of this execution has changed, and ensuring it again, with any request for the same
  execution and any environment in which \<open>stat\<close> and reads work, returns the same report and changes nothing.
\<close>

theorem ensure_report_idempotent:
  assumes "ensure_local_report_async e rq s = (Inr pr, s')"
    and "ev_stat_err e' = (\<lambda>_. None)" "ev_read_err e' = (\<lambda>_. None)" "rq_execution_id rq' = rq_execution_id rq"
  shows "report_ready s' (rq_execution_id rq) pr \<and> same_but_report (rq_execution_id rq) s s' \<and>
    ensure_local_report_async e' rq' s' =
      (Inr (pr\<lparr>pr_envelope_path := ev_envelope_path e' (rq_execution_id rq), pr_origin := Existing\<rparr>), s')"
  using ensure_ok[OF assms(1)] ensure_ready[of e' rq' s' pr] assms(2-4) by simp

lemmas report_eval = ensure_local_report_async_def inspect_local_report_async_def inspect_with_def
  prepare_local_report_with_issue_async_def build_report_envelope_def store_envelope_def store_reporting_def
  bind_op_def return_op_def lift_res_def stat_async_def

lemma sample_ensure:
  "\<exists>pr s'. ensure_local_report_async sample_env sample_report_rq empty_store = (Inr pr, s')"
  by (simp add: report_eval sample_env_def empty_store_def dir_get_def Let_def)

theorem ensure_report_idempotent_witness:
  "\<exists>pr s'. ensure_local_report_async sample_env sample_report_rq empty_store = (Inr pr, s') \<and>
     ensure_local_report_async sample_env sample_report_rq s' =
       (Inr (pr\<lparr>pr_envelope_path := ev_envelope_path sample_env (rq_execution_id sample_report_rq), pr_origin := Existing\<rparr>), s')"
proof -
  obtain pr s' where en: "ensure_local_report_async sample_env sample_report_rq empty_store = (Inr pr, s')"
    using sample_ensure by blast
  have "ev_stat_err sample_env = (\<lambda>_. None)" "ev_read_err sample_env = (\<lambda>_. None)" by (simp_all add: sample_env_def)
  from ensure_report_idempotent[OF en this refl] en show ?thesis by blast
qed

text \<open>
   A freshly prepared report is internally consistent: envelope and state name the action and plan of the
  request, the attestation carries the digest of the enclosed result, the state records the same digest and
  signature, and it is the first attempt.
\<close>

theorem prepared_report_consistent:
  assumes "prepare_local_report_async e rq s = (Inr pr, s')"
  shows "report_consistent pr \<and> re_result (pr_envelope pr) = rq_result rq \<and> re_report_attempt (pr_envelope pr) = 1 \<and>
    rs_action_id (pr_state pr) = rq_action_id rq \<and> rs_plan_digest (pr_state pr) = rq_plan_digest rq \<and>
    ev_digest_result e (rq_result rq) = Inr (at_result_digest (re_attestation (pr_envelope pr)))"
  using prepare_ok[OF assms[unfolded prepare_local_report_async_def]] by blast

theorem prepared_report_consistent_witness:
  "\<exists>pr s'. prepare_local_report_async sample_env sample_report_rq empty_store = (Inr pr, s') \<and> report_consistent pr"
proof -
  have "\<exists>pr s'. prepare_local_report_async sample_env sample_report_rq empty_store = (Inr pr, s')"
    by (simp add: prepare_local_report_async_def report_eval sample_env_def Let_def)
  then obtain pr s' where "prepare_local_report_async sample_env sample_report_rq empty_store = (Inr pr, s')" by blast
  from this prepared_report_consistent[OF this] show ?thesis by blast
qed

text \<open>
   Quarantine moves an execution out of the way and nothing else: when it succeeds the history holds a
  quarantine record for it, its report, envelope, queue items and running state are gone, and every record of
  every other execution, all plans and all results are unchanged.
\<close>

theorem quarantine_effect:
  assumes "quarantine_execution_async e r s = (Inr u, s')" "qr_remove_from_queue r" "qr_running_path r = Some p"
  shows "(\<exists>h. dir_get (es_history s') (qr_execution_id r) = Present h \<and> hr_state h = ''quarantined'' \<and>
            hr_detail h = qr_detail r) \<and>
    dir_get (es_reporting s') (qr_execution_id r) = Missing \<and> dir_get (es_envelopes s') (qr_execution_id r) = Missing \<and>
    queued_items s' = filter (\<lambda>i. qi_execution_id i \<noteq> qr_execution_id r) (queued_items s) \<and>
    dir_get (es_running s') p = Missing \<and>
    (\<forall>j. j \<noteq> qr_execution_id r \<longrightarrow> dir_get (es_history s') j = dir_get (es_history s) j \<and>
            dir_get (es_reporting s') j = dir_get (es_reporting s) j \<and>
            dir_get (es_envelopes s') j = dir_get (es_envelopes s) j) \<and>
    (\<forall>j. j \<noteq> p \<longrightarrow> dir_get (es_running s') j = dir_get (es_running s) j) \<and>
    es_plans s' = es_plans s \<and> es_results s' = es_results s"
  using quarantine_ok[OF assms] by auto

lemma sample_quarantine_run: "quarantine_execution_async sample_env sample_quarantine sample_queued = (Inr (), sample_quarantined)"
  by (simp add: sample_quarantine_def sample_queued_def empty_store_def dir_get_def bind_op_def
      quarantine_execution_async_def quarantine_queued_item_def lookup_queued_execution_async_def load_queue_async_def
      stat_async_def sample_env_def sample_item_def item_builder_def remove_local_report_artifacts_async_def remove_op_def
      store_history_def quarantine_record_def remove_queued_execution_async_def queue_remove_def store_queue_def
      remove_running_async_def sample_quarantined_def dir_put_def return_op_def)

theorem quarantine_effect_witness:
  "quarantine_execution_async sample_env sample_quarantine sample_queued = (Inr (), sample_quarantined) \<and>
   dir_get (es_running sample_quarantined) ''exec_9'' = Missing"
  using quarantine_effect[OF sample_quarantine_run, of "''exec_9''"] sample_quarantine_run
  by (simp add: sample_quarantine_def quarantine_queued_item_def)

text \<open>
   The blocking and the async variant of quarantine agree whenever \<open>stat\<close> works, on every store and
  every outcome of writes and removes.
\<close>

theorem quarantine_blocking_equals_async:
  assumes "ev_stat_err e = (\<lambda>_. None)"
  shows "quarantine_execution e r s = quarantine_execution_async e r s"
  using quarantine_sync_async[OF assms] by simp

theorem quarantine_blocking_equals_async_witness:
  "quarantine_execution sample_env sample_quarantine sample_queued = (Inr (), sample_quarantined)"
  using quarantine_blocking_equals_async[of sample_env sample_quarantine sample_queued] sample_quarantine_run
  by (simp add: sample_env_def)

text \<open>
   The blocking and the async variant of the report pipeline agree whenever \<open>stat\<close> works.
\<close>

theorem report_blocking_equals_async:
  assumes "ev_stat_err e = (\<lambda>_. None)"
  shows "ensure_local_report e rq s = ensure_local_report_async e rq s"
  using ensure_sync_async[OF assms] by simp

theorem report_blocking_equals_async_witness:
  "\<exists>pr s'. ensure_local_report sample_env sample_report_rq empty_store = (Inr pr, s')"
  using sample_ensure report_blocking_equals_async[of sample_env sample_report_rq empty_store]
  by (simp add: sample_env_def)

subsection \<open>Files\<close>

text \<open>
  C29.  Atomic writes are atomic: wherever \<open>write_bytes_atomic_async\<close> is stopped, the target holds its old
  contents or the complete new ones, an error before the rename leaves the old contents, success means the new
  ones are in place, and no other file than the target and its temporary file is touched.  On the target the
  routine refines the abstract three-outcome write that every store of the model uses.
\<close>

theorem atomic_write_refines:
  assumes "with_extension path ''tmp'' \<noteq> path"
  shows "snd (write_bytes_atomic_async p path bytes s) path =
           snd (write_op (outcome_of_plan p) (\<lambda>_. Some (bytes @ [CHR 0x0A])) (s path)) \<and>
         result_kind (fst (write_bytes_atomic_async p path bytes s)) =
           result_kind (fst (write_op (outcome_of_plan p) (\<lambda>_. Some (bytes @ [CHR 0x0A])) (s path))) \<and>
         (\<forall>q. q \<noteq> path \<longrightarrow> q \<noteq> with_extension path ''tmp'' \<longrightarrow> snd (write_bytes_atomic_async p path bytes s) q = s q)"
  using write_bytes_atomic_target[OF assms] write_bytes_atomic_other by blast

theorem atomic_write_refines_witness:
  "snd (write_bytes_atomic_async sample_fault ''/s/q.json'' ''new'' (\<lambda>_. Some ''old'')) ''/s/q.json'' = Some ''old''"
  using atomic_write_refines[of "''/s/q.json''" sample_fault "''new''" "\<lambda>_. Some ''old''"]
  by (simp add: outcome_of_plan_def sample_fault_def with_extension_def dir_part_def name_part_def file_stem_def)

subsection \<open>The queue\<close>

text \<open>
  C23.  Whatever sequence of \<open>enqueue\<close> and \<open>remove\<close> calls a fresh execution queue goes through, its
  items are the still waiting items in arrival order, sorted stably by priority: a lower numeric
  priority runs first, and items of equal priority run in the order in which they arrived.
\<close>

theorem queue_is_stable_sort:
  "eq_items (queue_run es (queue_new now)) = sort_key qi_priority (arrival_run es [])"
  by (rule queue_run_refines) (simp add: queue_new_def)

end
