(* ===== verification/LogReader.thy ===== *)
theory LogReader
  imports AtomicFile
begin

text \<open>
  Reading complete lines from a tracked log file (\<open>src/telemetry/logs/files/file_reader.rs\<close>): the chunked
  read loop with its line, byte and line-length limits, the fingerprint of a file's first bytes and the probe
  of the bytes before a checkpoint.

  A file is a record of its bytes and its device and inode numbers; how the operating system splits its
  contents into reads is a list of sizes the environment supplies, and every property is proved for all of
  them.  Offsets are natural numbers (a file is shorter than \<open>2^63\<close> bytes).  \<open>String::from_utf8_lossy\<close> is
  \<open>utf8_lossy\<close>.  The lemmas show that a read partitions the bytes it consumes: nothing is skipped and nothing
  is returned twice.
\<close>

subsection \<open>Lossy decoding\<close>

definition newline :: char where
  "newline = CHR 0x0A"

definition byte_in :: "nat \<Rightarrow> nat \<Rightarrow> char \<Rightarrow> bool" where
  "byte_in lo hi c \<longleftrightarrow> lo \<le> (of_char c :: nat) \<and> (of_char c :: nat) \<le> hi"

text \<open>The bytes of one decoding step: how many it consumes and whether they are a valid sequence.\<close>

definition second_ok :: "char \<Rightarrow> char \<Rightarrow> bool" where
  "second_ok b c =
    (if byte_in 0xE0 0xE0 b then byte_in 0xA0 0xBF c
     else if byte_in 0xED 0xED b then byte_in 0x80 0x9F c
     else if byte_in 0xF0 0xF0 b then byte_in 0x90 0xBF c
     else if byte_in 0xF4 0xF4 b then byte_in 0x80 0x8F c
     else byte_in 0x80 0xBF c)"

definition sequence_width :: "char \<Rightarrow> nat" where
  "sequence_width b =
    (if byte_in 0 0x7F b then 1 else if byte_in 0xC2 0xDF b then 2 else if byte_in 0xE0 0xEF b then 3
     else if byte_in 0xF0 0xF4 b then 4 else 0)"

fun continues :: "nat \<Rightarrow> string \<Rightarrow> nat" where
  "continues 0 cs = 0"
| "continues (Suc n) [] = 0"
| "continues (Suc n) (c # cs) = (if byte_in 0x80 0xBF c then Suc (continues n cs) else 0)"

definition utf8_step :: "char \<Rightarrow> string \<Rightarrow> bool \<times> nat" where
  "utf8_step b cs =
    (let w = sequence_width b in
     if w = 0 then (False, 1)
     else if w = 1 then (True, 1)
     else (case cs of
       [] \<Rightarrow> (False, 1)
     | c # rest \<Rightarrow>
         (if \<not> second_ok b c then (False, 1)
          else let n = continues (w - 2) rest in (n = w - 2, 2 + n))))"

definition replacement :: string where
  "replacement = [CHR 0xEF, CHR 0xBF, CHR 0xBD]"

lemma utf8_step_pos: "0 < snd (utf8_step b cs)"
  by (simp add: utf8_step_def Let_def split: list.splits)

function utf8_lossy :: "string \<Rightarrow> string" where
  "utf8_lossy [] = []"
| "utf8_lossy (b # cs) =
    (case utf8_step b cs of (ok, n) \<Rightarrow>
      (if ok then take n (b # cs) else replacement) @ utf8_lossy (drop n (b # cs)))"
  by pat_completeness auto
termination
proof (relation "measure length")
  fix b cs x y assume "(x, y) = utf8_step b cs"
  then have "0 < y" using utf8_step_pos[of b cs] by (metis snd_conv)
  then show "(drop y (b # cs), b # cs) \<in> measure length" by simp
qed simp

function utf8_valid :: "string \<Rightarrow> bool" where
  "utf8_valid [] = True"
| "utf8_valid (b # cs) = (case utf8_step b cs of (ok, n) \<Rightarrow> ok \<and> utf8_valid (drop n (b # cs)))"
  by pat_completeness auto
termination
proof (relation "measure length")
  fix b cs x y assume "(x, y) = utf8_step b cs"
  then have "0 < y" using utf8_step_pos[of b cs] by (metis snd_conv)
  then show "(drop y (b # cs), b # cs) \<in> measure length" by simp
qed simp

subsection \<open>Model\<close>

record read_limits =
  rl_max_line_bytes :: nat
  rl_max_bytes :: nat
  rl_max_lines :: nat

definition read_limits_new :: "nat \<Rightarrow> nat \<Rightarrow> nat \<Rightarrow> read_limits" where
  "read_limits_new max_line_bytes max_bytes max_lines =
    \<lparr>rl_max_line_bytes = max max_line_bytes 1, rl_max_bytes = max max_bytes 1, rl_max_lines = max max_lines 1\<rparr>"

record observed_file_identity =
  oi_device_id :: "nat option"
  oi_inode :: "nat option"
  oi_fingerprint :: "string option"
  oi_file_len :: nat

record raw_file_line =
  rw_text :: string
  rw_start_offset :: nat
  rw_end_offset :: nat

record read_from_offset =
  rf_identity :: observed_file_identity
  rf_lines :: "raw_file_line list"
  rf_committed_end_offset :: nat
  rf_truncated_lines :: nat

text \<open>A file on disk, and what reading it answers: an error of open or read, or the sizes of the reads.\<close>

record log_file =
  lf_bytes :: string
  lf_device_id :: "nat option"
  lf_inode :: "nat option"
  lf_reads :: "nat list"
  lf_read_err :: "io_kind option"

type_synonym log_files = "string \<Rightarrow> log_file option"

definition open_log :: "log_files \<Rightarrow> string \<Rightarrow> log_file res" where
  "open_log fs path = (case fs path of
      None \<Rightarrow> Inl (IoError NotFound ''open'')
    | Some f \<Rightarrow> (case lf_read_err f of Some k \<Rightarrow> Inl (IoError k ''read'') | None \<Rightarrow> Inr f))"

fun split_reads :: "nat list \<Rightarrow> string \<Rightarrow> string list" where
  "split_reads sizes [] = []"
| "split_reads [] (c # cs) = [c # cs]"
| "split_reads (n # ns) (c # cs) = take (Suc n) (c # cs) # split_reads ns (drop n cs)"

definition nibble_to_hex :: "nat \<Rightarrow> char" where
  "nibble_to_hex v = (if v \<le> 9 then char_of (48 + v) else char_of (97 + (v - 10)))"

definition fingerprint :: "string \<Rightarrow> string" where
  "fingerprint bytes = concat (map (\<lambda>b. [nibble_to_hex (of_char b div 16), nibble_to_hex (of_char b mod 16)]) bytes)"

definition identity_from_metadata :: "log_file \<Rightarrow> observed_file_identity" where
  "identity_from_metadata f =
    \<lparr>oi_device_id = lf_device_id f, oi_inode = lf_inode f, oi_fingerprint = Some (fingerprint (take 32 (lf_bytes f))),
     oi_file_len = length (lf_bytes f)\<rparr>"

definition inspect_path_async :: "log_files \<Rightarrow> string \<Rightarrow> observed_file_identity res" where
  "inspect_path_async fs path = (case open_log fs path of Inl e \<Rightarrow> Inl e | Inr f \<Rightarrow> Inr (identity_from_metadata f))"

text \<open>A buffered reader: the reads that are still to come, the first one partly consumed.\<close>

record read_chunk =
  rk_take :: nat
  rk_has_newline :: bool
  rk_bytes :: string

fun read_chunk_async :: "string list \<Rightarrow> read_chunk option" where
  "read_chunk_async [] = None"
| "read_chunk_async (available # _) =
    (if available = [] then None
     else (case position (\<lambda>b. b = newline) available of
       Some pos \<Rightarrow> Some \<lparr>rk_take = pos + 1, rk_has_newline = True, rk_bytes = take (pos + 1) available\<rparr>
     | None \<Rightarrow> Some \<lparr>rk_take = length available, rk_has_newline = False, rk_bytes = available\<rparr>))"

fun consume :: "nat \<Rightarrow> string list \<Rightarrow> string list" where
  "consume n [] = []"
| "consume n (b # bs) = (if n < length b then drop n b # bs else bs)"

fun skip_to_line_end_async :: "string list \<Rightarrow> nat \<times> string list" where
  "skip_to_line_end_async [] = (0, [])"
| "skip_to_line_end_async (b # bs) =
    (if b = [] then (0, b # bs)
     else (case position (\<lambda>c. c = newline) b of
       Some pos \<Rightarrow> (pos + 1, consume (pos + 1) (b # bs))
     | None \<Rightarrow> (case skip_to_line_end_async bs of (n, rest) \<Rightarrow> (length b + n, rest))))"

definition append_bounded :: "string \<Rightarrow> string \<Rightarrow> nat \<Rightarrow> string \<times> bool" where
  "append_bounded buf chunk limit =
    (if limit \<le> length buf then (buf, True)
     else let room = limit - length buf in
          if room < length chunk then (buf @ take room chunk, True) else (buf @ chunk, False))"

record read_acc =
  ra_lines :: "raw_file_line list"
  ra_truncated_lines :: nat
  ra_committed :: nat
  ra_line_start :: nat
  ra_line_consumed :: nat
  ra_consumed_total :: nat
  ra_buf :: string

definition commit_line :: "read_acc \<Rightarrow> string \<Rightarrow> bool \<Rightarrow> nat \<Rightarrow> nat \<Rightarrow> read_acc" where
  "commit_line acc buf truncated taken skipped =
    (let end_offset = ra_line_start acc + (ra_line_consumed acc + taken + skipped) in
     acc\<lparr>ra_lines := ra_lines acc @
           [\<lparr>rw_text = utf8_lossy buf, rw_start_offset = ra_line_start acc, rw_end_offset = end_offset\<rparr>],
         ra_truncated_lines := ra_truncated_lines acc + (if truncated then 1 else 0),
         ra_committed := end_offset, ra_line_start := end_offset, ra_line_consumed := 0,
         ra_consumed_total := ra_consumed_total acc + taken + skipped, ra_buf := []\<rparr>)"

lemma read_chunk_pos: "read_chunk_async rd = Some ch \<Longrightarrow> 0 < rk_take ch"
  by (cases rd) (auto split: if_splits option.splits)

lemma consume_shorter:
  "read_chunk_async rd = Some ch \<Longrightarrow> length (concat (consume (rk_take ch) rd)) < length (concat rd)"
  by (cases rd) (auto split: if_splits option.splits)

lemma skip_length: "length (concat (snd (skip_to_line_end_async rd))) \<le> length (concat rd)"
  by (induction rd) (auto split: option.splits prod.splits)

function read_loop :: "read_limits \<Rightarrow> read_acc \<Rightarrow> string list \<Rightarrow> read_acc" where
  "read_loop lim acc rd =
    (if rl_max_lines lim \<le> length (ra_lines acc) then acc
     else if ra_line_consumed acc = 0 \<and> rl_max_bytes lim \<le> ra_consumed_total acc then acc
     else (case read_chunk_async rd of
       None \<Rightarrow> acc
     | Some ch \<Rightarrow>
         (if ra_line_consumed acc = 0 \<and> 0 < ra_consumed_total acc \<and>
             rl_max_bytes lim < ra_consumed_total acc + rk_take ch
          then acc
          else (case append_bounded (ra_buf acc) (rk_bytes ch) (rl_max_line_bytes lim) of (buf, truncated) \<Rightarrow>
            (if \<not> rk_has_newline ch \<and> \<not> truncated
             then read_loop lim
                (acc\<lparr>ra_buf := buf, ra_line_consumed := ra_line_consumed acc + rk_take ch,
                     ra_consumed_total := ra_consumed_total acc + rk_take ch\<rparr>)
                (consume (rk_take ch) rd)
             else if rk_has_newline ch
             then read_loop lim (commit_line acc buf truncated (rk_take ch) 0) (consume (rk_take ch) rd)
             else (case skip_to_line_end_async (consume (rk_take ch) rd) of (skipped, rd2) \<Rightarrow>
                read_loop lim (commit_line acc buf truncated (rk_take ch) skipped) rd2))))))"
  by pat_completeness auto
termination
proof (relation "measure (\<lambda>(lim, acc, rd). length (concat rd))")
  fix lim acc rd ch x buf truncated xa skipped rd2
  assume "read_chunk_async rd = Some ch" "(skipped, rd2) = skip_to_line_end_async (consume (rk_take ch) rd)"
  then show "((lim, commit_line acc buf truncated (rk_take ch) skipped, rd2), lim, acc, rd)
      \<in> measure (\<lambda>(lim, acc, rd). length (concat rd))"
    using skip_length[of "consume (rk_take ch) rd"] consume_shorter[of rd ch]
    by simp (metis le_less_trans snd_conv)
qed (simp_all add: consume_shorter)

declare read_loop.simps [simp del]

definition read_from_offset_async :: "log_files \<Rightarrow> string \<Rightarrow> nat \<Rightarrow> read_limits \<Rightarrow> read_from_offset res" where
  "read_from_offset_async fs path start_offset lim = (case open_log fs path of
      Inl e \<Rightarrow> Inl e
    | Inr f \<Rightarrow>
        (let identity = identity_from_metadata f;
             bounded = min start_offset (oi_file_len identity);
             acc = read_loop lim
               \<lparr>ra_lines = [], ra_truncated_lines = 0, ra_committed = bounded, ra_line_start = bounded,
                ra_line_consumed = 0, ra_consumed_total = 0, ra_buf = []\<rparr>
               (split_reads (lf_reads f) (drop bounded (lf_bytes f)))
         in Inr \<lparr>rf_identity = identity, rf_lines = ra_lines acc, rf_committed_end_offset = ra_committed acc,
                 rf_truncated_lines = ra_truncated_lines acc\<rparr>))"

definition checkpoint_probe_async :: "log_files \<Rightarrow> string \<Rightarrow> nat \<Rightarrow> string option res" where
  "checkpoint_probe_async fs path offset =
    (if offset = 0 then Inr None
     else (case open_log fs path of
       Inl e \<Rightarrow> Inl e
     | Inr f \<Rightarrow>
         (let probe_len = min offset 16; probe_start = offset - probe_len in
          if length (lf_bytes f) < offset then Inl (IoError OtherKind ''read_exact'')
          else Inr (Some (fingerprint (take probe_len (drop probe_start (lf_bytes f))))))))"

definition stable_file_id_async :: "(string \<Rightarrow> string option) \<Rightarrow> string \<Rightarrow> observed_file_identity \<Rightarrow> string" where
  "stable_file_id_async canonicalize path identity =
    (case (oi_device_id identity, oi_inode identity) of
      (Some device_id, Some inode) \<Rightarrow> ''dev:'' @ show_nat device_id @ '':ino:'' @ show_nat inode
    | _ \<Rightarrow>
        (let canonical = unwrap_or path (canonicalize path) in
         case oi_fingerprint identity of
           Some fp \<Rightarrow> ''path:'' @ canonical @ '':fingerprint:'' @ fp
         | None \<Rightarrow> ''path:'' @ canonical))"

lemma utf8_lossy_valid: "utf8_valid bs \<Longrightarrow> utf8_lossy bs = bs"
proof (induction bs rule: utf8_lossy.induct)
  case (2 b cs)
  obtain ok n where n: "utf8_step b cs = (ok, n)" by fastforce
  then have "utf8_lossy (drop n (b # cs)) = drop n (b # cs)" "ok" using 2 by auto
  then show ?case using n by simp
qed simp

text \<open>What a read means: the spans of bytes it consumed, one per returned line.\<close>

definition complete_line :: "string \<Rightarrow> bool" where
  "complete_line raw \<longleftrightarrow> raw \<noteq> [] \<and> last raw = newline \<and> newline \<notin> set (butlast raw)"

fun spans :: "nat \<Rightarrow> nat \<Rightarrow> string list \<Rightarrow> raw_file_line list" where
  "spans limit offset [] = []"
| "spans limit offset (raw # raws) =
    \<lparr>rw_text = utf8_lossy (take limit raw), rw_start_offset = offset, rw_end_offset = offset + length raw\<rparr>
    # spans limit (offset + length raw) raws"

definition overlong_tail :: "nat \<Rightarrow> string \<Rightarrow> bool" where
  "overlong_tail limit raw \<longleftrightarrow> newline \<notin> set raw \<and> limit < length raw"

definition read_inv ::
    "nat \<Rightarrow> nat \<Rightarrow> string \<Rightarrow> read_acc \<Rightarrow> string list \<Rightarrow> string list \<Rightarrow> string \<Rightarrow> bool" where
  "read_inv limit start whole acc rd raws partial \<longleftrightarrow>
     whole = concat raws @ partial @ concat rd \<and> [] \<notin> set rd \<and>
     ra_lines acc = spans limit start raws \<and>
     ra_truncated_lines acc = length (filter (\<lambda>raw. limit < length raw) raws) \<and>
     ra_committed acc = start + length (concat raws) \<and> ra_line_start acc = start + length (concat raws) \<and>
     ra_line_consumed acc = length partial \<and> ra_buf acc = partial \<and> length partial \<le> limit \<and>
     newline \<notin> set partial \<and> ra_consumed_total acc = length (concat raws) + length partial \<and>
     (\<forall>raw\<in>set (butlast raws). complete_line raw) \<and>
     (raws \<noteq> [] \<longrightarrow> complete_line (last raws) \<or> (overlong_tail limit (last raws) \<and> partial = [] \<and> rd = []))"

subsection \<open>Chunks\<close>

lemma spans_append: "spans limit offset (xs @ ys) = spans limit offset xs @ spans limit (offset + length (concat xs)) ys"
  by (induction xs arbitrary: offset) (simp_all add: add.assoc)

lemma length_spans [simp]: "length (spans limit offset raws) = length raws"
  by (induction raws arbitrary: offset) simp_all

lemma complete_line_snoc [simp]: "complete_line (x @ [newline]) \<longleftrightarrow> newline \<notin> set x"
  by (simp add: complete_line_def)

lemma complete_lineE:
  assumes "complete_line raw" obtains x where "raw = x @ [newline]" "newline \<notin> set x"
  using assms by (metis append_butlast_last_id complete_line_def)

lemma take_newline:
  assumes "position (\<lambda>c. c = newline) b = Some pos"
  shows "complete_line (take (pos + 1) b) \<and> pos < length b"
proof -
  from position_Some[OF assms] have "pos < length b" "b ! pos = newline" "newline \<notin> set (take pos b)"
    by (auto simp: in_set_conv_nth)
  then show ?thesis by (simp add: take_Suc_conv_app_nth)
qed

lemma position_none: "position (\<lambda>c. c = newline) b = None \<Longrightarrow> newline \<notin> set b"
  by (auto simp: position_None)

lemma consume_concat:
  "rd = b # bs \<Longrightarrow> n \<le> length b \<Longrightarrow> concat rd = take n b @ concat (consume n rd)"
  by (simp flip: append_assoc)

lemma read_chunk_spec:
  assumes "read_chunk_async rd = Some ch" "[] \<notin> set rd"
  shows "concat rd = rk_bytes ch @ concat (consume (rk_take ch) rd)" "rk_take ch = length (rk_bytes ch)"
    "[] \<notin> set (consume (rk_take ch) rd)"
    "rk_has_newline ch \<Longrightarrow> complete_line (rk_bytes ch)" "\<not> rk_has_newline ch \<Longrightarrow> newline \<notin> set (rk_bytes ch)"
proof -
  obtain b bs where rd: "rd = b # bs" using assms(1) by (cases rd) auto
  show "concat rd = rk_bytes ch @ concat (consume (rk_take ch) rd)" "rk_take ch = length (rk_bytes ch)"
    "[] \<notin> set (consume (rk_take ch) rd)"
    "rk_has_newline ch \<Longrightarrow> complete_line (rk_bytes ch)" "\<not> rk_has_newline ch \<Longrightarrow> newline \<notin> set (rk_bytes ch)"
    using assms rd take_newline[of b] position_none[of b]
    by (auto split: option.splits if_splits simp flip: append_assoc)
qed

lemma read_chunk_None: "read_chunk_async rd = None \<Longrightarrow> [] \<notin> set rd \<Longrightarrow> rd = []"
  by (cases rd) (auto split: if_splits option.splits)

lemma skip_spec:
  "skip_to_line_end_async rd = (n, rest) \<Longrightarrow> [] \<notin> set rd \<Longrightarrow>
   \<exists>y. concat rd = y @ concat rest \<and> length y = n \<and> [] \<notin> set rest \<and> (complete_line y \<or> newline \<notin> set y \<and> rest = [])"
proof (induction rd arbitrary: n rest)
  case (Cons b bs)
  show ?case
  proof (cases "position (\<lambda>c. c = newline) b")
    case (Some pos)
    then show ?thesis using Cons.prems take_newline[OF Some]
      by (intro exI[of _ "take (pos + 1) b"]) (auto split: if_splits simp flip: append_assoc)
  next
    case None
    obtain m r where r: "skip_to_line_end_async bs = (m, r)" by fastforce
    from Cons.IH[OF r] Cons.prems(2) obtain y where y: "concat bs = y @ concat r" "length y = m" "[] \<notin> set r"
      "complete_line y \<or> newline \<notin> set y \<and> r = []" by auto
    have "complete_line (b @ y)" if "complete_line y" using that position_none[OF None]
      by (auto elim!: complete_lineE simp flip: append_assoc)
    then show ?thesis using Cons.prems None r y position_none[OF None]
      by (intro exI[of _ "b @ y"]) (auto split: if_splits)
  qed
qed simp

lemma append_bounded_spec:
  assumes "length partial \<le> limit" "0 < length chunk"
  shows "append_bounded partial chunk limit = (take limit (partial @ chunk), limit < length (partial @ chunk))"
  using assms by (auto simp: append_bounded_def Let_def)

subsection \<open>The read loop\<close>

lemma read_inv_last:
  "read_inv limit start whole acc rd raws partial \<Longrightarrow> rd \<noteq> [] \<Longrightarrow> raws \<noteq> [] \<Longrightarrow> complete_line (last raws)"
  by (auto simp: read_inv_def)

lemma read_inv_more:
  assumes "read_inv limit start whole acc rd raws partial" "read_chunk_async rd = Some ch"
    and "\<not> rk_has_newline ch" "length (partial @ rk_bytes ch) \<le> limit"
  shows "read_inv limit start whole
    (acc\<lparr>ra_buf := partial @ rk_bytes ch, ra_line_consumed := ra_line_consumed acc + rk_take ch,
         ra_consumed_total := ra_consumed_total acc + rk_take ch\<rparr>)
    (consume (rk_take ch) rd) raws (partial @ rk_bytes ch)"
proof -
  have rd: "rd \<noteq> []" using assms(2) by auto
  show ?thesis using assms read_chunk_spec[OF assms(2)] read_inv_last[OF assms(1) rd] by (simp add: read_inv_def)
qed

lemma all_complete:
  assumes "\<forall>raw\<in>set (butlast raws). complete_line raw" "raws \<noteq> [] \<Longrightarrow> complete_line (last raws)"
  shows "\<forall>raw\<in>set raws. complete_line raw"
  using assms by (cases raws rule: rev_cases) auto

lemma read_inv_commit:
  assumes inv: "read_inv limit start whole acc rd raws partial" and rd: "rd \<noteq> []"
    and split: "concat rd = bytes @ concat rd2" "[] \<notin> set rd2" and raw: "raw = partial @ bytes"
    and line: "complete_line raw \<or> (overlong_tail limit raw \<and> rd2 = [])"
    and taken: "taken + skipped = length bytes"
  shows "read_inv limit start whole (commit_line acc (take limit raw) (limit < length raw) taken skipped) rd2 (raws @ [raw]) []"
proof -
  have all: "\<forall>r\<in>set raws. complete_line r"
    by (rule all_complete) (use inv read_inv_last[OF inv rd] in \<open>auto simp: read_inv_def\<close>)
  have len: "ra_line_consumed acc + taken + skipped = length raw" using inv raw taken by (simp add: read_inv_def)
  show ?thesis
    using inv split raw line all len taken
    by (auto simp: read_inv_def commit_line_def Let_def spans_append butlast_append)
qed

definition read_stopped :: "read_limits \<Rightarrow> string list \<Rightarrow> string list \<Rightarrow> string \<Rightarrow> bool" where
  "read_stopped lim rd raws partial \<longleftrightarrow> rl_max_lines lim \<le> length raws \<or> rd = [] \<or>
     (partial = [] \<and> (rl_max_bytes lim \<le> length (concat raws) \<or> raws \<noteq> []))"

lemma read_loop_unfold:
  assumes "\<not> rl_max_lines lim \<le> length (ra_lines acc)"
    and "\<not> (ra_line_consumed acc = 0 \<and> rl_max_bytes lim \<le> ra_consumed_total acc)"
    and "read_chunk_async rd = Some ch"
    and "\<not> (ra_line_consumed acc = 0 \<and> 0 < ra_consumed_total acc \<and> rl_max_bytes lim < ra_consumed_total acc + rk_take ch)"
    and "append_bounded (ra_buf acc) (rk_bytes ch) (rl_max_line_bytes lim) = (buf, truncated)"
  shows "read_loop lim acc rd =
    (if \<not> rk_has_newline ch \<and> \<not> truncated
     then read_loop lim (acc\<lparr>ra_buf := buf, ra_line_consumed := ra_line_consumed acc + rk_take ch,
            ra_consumed_total := ra_consumed_total acc + rk_take ch\<rparr>) (consume (rk_take ch) rd)
     else if rk_has_newline ch
     then read_loop lim (commit_line acc buf truncated (rk_take ch) 0) (consume (rk_take ch) rd)
     else (case skip_to_line_end_async (consume (rk_take ch) rd) of (skipped, rd2) \<Rightarrow>
        read_loop lim (commit_line acc buf truncated (rk_take ch) skipped) rd2))"
  using assms by (subst read_loop.simps) (simp only: if_False option.case prod.case)

lemma read_loop_commit:
  assumes inv: "read_inv (rl_max_line_bytes lim) start whole acc rd raws partial" and some: "read_chunk_async rd = Some ch"
    and eq: "read_loop lim acc rd =
    (if rk_has_newline ch
     then read_loop lim (commit_line acc (take (rl_max_line_bytes lim) (partial @ rk_bytes ch))
            (rl_max_line_bytes lim < length (partial @ rk_bytes ch)) (rk_take ch) 0) (consume (rk_take ch) rd)
     else (case skip_to_line_end_async (consume (rk_take ch) rd) of (skipped, rd2) \<Rightarrow>
        read_loop lim (commit_line acc (take (rl_max_line_bytes lim) (partial @ rk_bytes ch))
            (rl_max_line_bytes lim < length (partial @ rk_bytes ch)) (rk_take ch) skipped) rd2))"
    and ends: "rk_has_newline ch \<or> rl_max_line_bytes lim < length (partial @ rk_bytes ch)"
  shows "\<exists>acc' rd' raw. read_loop lim acc rd = read_loop lim acc' rd' \<and>
    read_inv (rl_max_line_bytes lim) start whole acc' rd' (raws @ [raw]) [] \<and> length (concat rd') < length (concat rd)"
proof (cases "rk_has_newline ch")
  case True
  have rd: "rd \<noteq> []" using some by auto
  note ch = read_chunk_spec[OF some]
  have ne: "[] \<notin> set rd" and nl: "newline \<notin> set partial" using inv by (simp_all add: read_inv_def)
  have "complete_line (partial @ rk_bytes ch)"
    using ch(4)[OF ne True] nl by (auto elim!: complete_lineE simp flip: append_assoc)
  then have "read_inv (rl_max_line_bytes lim) start whole (commit_line acc (take (rl_max_line_bytes lim) (partial @ rk_bytes ch))
            (rl_max_line_bytes lim < length (partial @ rk_bytes ch)) (rk_take ch) 0) (consume (rk_take ch) rd)
            (raws @ [partial @ rk_bytes ch]) []"
    by (intro read_inv_commit[OF inv rd ch(1)[OF ne] ch(3)[OF ne] refl]) (use ch(2)[OF ne] in simp_all)
  then show ?thesis using True eq consume_shorter[OF some] by (metis (full_types))
next
  case False
  have rd: "rd \<noteq> []" using some by auto
  have ne: "[] \<notin> set rd" and nl: "newline \<notin> set partial" using inv by (simp_all add: read_inv_def)
  note ch = read_chunk_spec[OF some ne]
  obtain skipped rd2 where sk: "skip_to_line_end_async (consume (rk_take ch) rd) = (skipped, rd2)" by fastforce
  from skip_spec[OF sk ch(3)] obtain y where y: "concat (consume (rk_take ch) rd) = y @ concat rd2" "length y = skipped"
    "[] \<notin> set rd2" "complete_line y \<or> newline \<notin> set y \<and> rd2 = []" by blast
  let ?max = "rl_max_line_bytes lim" let ?raw = "partial @ rk_bytes ch @ y"
  have tr: "?max < length (partial @ rk_bytes ch)" using ends False by simp
  then have buf: "take ?max (partial @ rk_bytes ch) = take ?max ?raw" "(?max < length (partial @ rk_bytes ch)) = (?max < length ?raw)"
    by auto
  have "complete_line ?raw \<or> (overlong_tail ?max ?raw \<and> rd2 = [])"
    using y(4) ch(5)[OF False] nl tr by (auto simp: overlong_tail_def elim!: complete_lineE simp flip: append_assoc)
  then have "read_inv ?max start whole (commit_line acc (take ?max ?raw) (?max < length ?raw) (rk_take ch) skipped) rd2 (raws @ [?raw]) []"
    by (intro read_inv_commit[OF inv rd, of "rk_bytes ch @ y"]) (use ch(1,2) y in simp_all)
  moreover have "length (concat rd2) < length (concat rd)"
    using consume_shorter[OF some] skip_length[of "consume (rk_take ch) rd"] sk by simp
  moreover have "read_loop lim acc rd = read_loop lim (commit_line acc (take ?max ?raw) (?max < length ?raw) (rk_take ch) skipped) rd2"
    unfolding eq sk buf using False by simp
  ultimately show ?thesis by blast
qed

lemma read_loop_cases:
  assumes inv: "read_inv (rl_max_line_bytes lim) start whole acc rd raws partial"
  obtains (stop) "read_loop lim acc rd = acc" "read_stopped lim rd raws partial"
  | (step) acc' rd' raws' partial' where "read_loop lim acc rd = read_loop lim acc' rd'"
      "read_inv (rl_max_line_bytes lim) start whole acc' rd' raws' partial'" "length (concat rd') < length (concat rd)"
proof -
  let ?max = "rl_max_line_bytes lim"
  have acc: "length (ra_lines acc) = length raws" "ra_line_consumed acc = length partial" "ra_buf acc = partial"
    "ra_consumed_total acc = length (concat raws) + length partial" "[] \<notin> set rd" "length partial \<le> ?max"
    using inv by (simp_all add: read_inv_def)
  consider (lines) "rl_max_lines lim \<le> length (ra_lines acc)"
    | (bytes) "ra_line_consumed acc = 0" "rl_max_bytes lim \<le> ra_consumed_total acc"
    | (eof) "read_chunk_async rd = None"
    | (over) ch where "read_chunk_async rd = Some ch" "ra_line_consumed acc = 0" "0 < ra_consumed_total acc"
        "rl_max_bytes lim < ra_consumed_total acc + rk_take ch"
    | (go) ch where "\<not> rl_max_lines lim \<le> length (ra_lines acc)"
        "\<not> (ra_line_consumed acc = 0 \<and> rl_max_bytes lim \<le> ra_consumed_total acc)" "read_chunk_async rd = Some ch"
        "\<not> (ra_line_consumed acc = 0 \<and> 0 < ra_consumed_total acc \<and> rl_max_bytes lim < ra_consumed_total acc + rk_take ch)"
    by (cases "read_chunk_async rd") metis+
  then show thesis
  proof cases
    case eof
    then have "rd = []" using read_chunk_None acc(5) by blast
    then show ?thesis using eof by (intro stop) (subst read_loop.simps, simp_all add: read_stopped_def)
  next
    case (go ch)
    note ch = read_chunk_spec[OF go(3) acc(5)]
    have ab: "append_bounded (ra_buf acc) (rk_bytes ch) ?max = (take ?max (partial @ rk_bytes ch), ?max < length (partial @ rk_bytes ch))"
      using append_bounded_spec[of partial ?max "rk_bytes ch"] read_chunk_pos[OF go(3)] ch(2) acc(3,6) by simp
    note eq = read_loop_unfold[OF go ab]
    show ?thesis
    proof (cases "\<not> rk_has_newline ch \<and> \<not> ?max < length (partial @ rk_bytes ch)")
      case True
      then have "take ?max (partial @ rk_bytes ch) = partial @ rk_bytes ch" by (intro take_all) linarith
      note buf = this
      have "read_loop lim acc rd = read_loop lim (acc\<lparr>ra_buf := partial @ rk_bytes ch,
          ra_line_consumed := ra_line_consumed acc + rk_take ch,
          ra_consumed_total := ra_consumed_total acc + rk_take ch\<rparr>) (consume (rk_take ch) rd)"
        unfolding eq buf using True by presburger
      moreover have "length (partial @ rk_bytes ch) \<le> ?max" using True by linarith
      ultimately show ?thesis using step read_inv_more[OF inv go(3)] True consume_shorter[OF go(3)] by blast
    next
      case False
      then have "read_loop lim acc rd =
        (if rk_has_newline ch
         then read_loop lim (commit_line acc (take ?max (partial @ rk_bytes ch)) (?max < length (partial @ rk_bytes ch))
                (rk_take ch) 0) (consume (rk_take ch) rd)
         else (case skip_to_line_end_async (consume (rk_take ch) rd) of (skipped, rd2) \<Rightarrow>
            read_loop lim (commit_line acc (take ?max (partial @ rk_bytes ch)) (?max < length (partial @ rk_bytes ch))
                (rk_take ch) skipped) rd2))"
        using eq by presburger
      from read_loop_commit[OF inv go(3) this] False step show ?thesis by blast
    qed
  next
    case lines then show ?thesis using acc by (intro stop) (subst read_loop.simps, simp_all add: read_stopped_def)
  next
    case bytes then show ?thesis using acc by (intro stop) (subst read_loop.simps, simp_all add: read_stopped_def)
  next
    case (over ch)
    then show ?thesis using acc by (intro stop) (subst read_loop.simps, auto simp: read_stopped_def)
  qed
qed

lemma read_loop_inv:
  assumes "read_inv (rl_max_line_bytes lim) start whole acc rd raws partial"
  shows "\<exists>rd' raws' partial'. read_inv (rl_max_line_bytes lim) start whole (read_loop lim acc rd) rd' raws' partial' \<and>
    read_stopped lim rd' raws' partial'"
  using assms
proof (induction "length (concat rd)" arbitrary: acc rd raws partial rule: less_induct)
  case less
  from less.prems show ?case
  proof (cases rule: read_loop_cases)
    case stop then show ?thesis using less.prems by metis
  next
    case (step acc' rd' raws' partial') then show ?thesis using less.hyps[OF step(3,2)] by simp
  qed
qed

lemma split_reads_concat [simp]: "concat (split_reads sizes bytes) = bytes"
  by (induction sizes bytes rule: split_reads.induct) simp_all

lemma split_reads_nonempty [simp]: "[] \<notin> set (split_reads sizes bytes)"
  by (induction sizes bytes rule: split_reads.induct) simp_all

text \<open>A read of a file: the bytes from the offset on are the spans of the returned lines followed by a rest that
  stays for the next read.\<close>

lemma read_from_offset_spec:
  assumes "read_from_offset_async fs path start lim = Inr r"
  obtains f raws rest where "fs path = Some f" "rf_identity r = identity_from_metadata f"
    "drop (min start (length (lf_bytes f))) (lf_bytes f) = concat raws @ rest"
    "rf_lines r = spans (rl_max_line_bytes lim) (min start (length (lf_bytes f))) raws"
    "rf_committed_end_offset r = min start (length (lf_bytes f)) + length (concat raws)"
    "rf_truncated_lines r = length (filter (\<lambda>raw. rl_max_line_bytes lim < length raw) raws)"
    "\<forall>raw\<in>set (butlast raws). complete_line raw"
    "raws \<noteq> [] \<Longrightarrow> complete_line (last raws) \<or> overlong_tail (rl_max_line_bytes lim) (last raws) \<and> rest = []"
    "raws = [] \<Longrightarrow> 0 < rl_max_lines lim \<Longrightarrow> 0 < rl_max_bytes lim \<Longrightarrow>
       newline \<notin> set rest \<and> length rest \<le> rl_max_line_bytes lim"
proof -
  obtain f where f: "open_log fs path = Inr f" using assms by (cases "open_log fs path") (auto simp: read_from_offset_async_def)
  then have fs: "fs path = Some f" by (auto simp: open_log_def split: option.splits)
  define b where "b = min start (length (lf_bytes f))"
  let ?acc = "\<lparr>ra_lines = [], ra_truncated_lines = 0, ra_committed = b, ra_line_start = b,
                ra_line_consumed = 0, ra_consumed_total = 0, ra_buf = []\<rparr>"
  let ?rd = "split_reads (lf_reads f) (drop b (lf_bytes f))"
  have "read_inv (rl_max_line_bytes lim) b (drop b (lf_bytes f)) ?acc ?rd [] []" by (simp add: read_inv_def)
  from read_loop_inv[OF this] obtain rd' raws partial where
    inv: "read_inv (rl_max_line_bytes lim) b (drop b (lf_bytes f)) (read_loop lim ?acc ?rd) rd' raws partial"
    and stop: "read_stopped lim rd' raws partial" by blast
  have r: "r = \<lparr>rf_identity = identity_from_metadata f, rf_lines = ra_lines (read_loop lim ?acc ?rd),
      rf_committed_end_offset = ra_committed (read_loop lim ?acc ?rd),
      rf_truncated_lines = ra_truncated_lines (read_loop lim ?acc ?rd)\<rparr>"
    using assms f by (simp add: read_from_offset_async_def Let_def identity_from_metadata_def b_def)
  show thesis
  proof (rule that[OF fs, of raws "partial @ concat rd'"])
    show "raws = [] \<Longrightarrow> 0 < rl_max_lines lim \<Longrightarrow> 0 < rl_max_bytes lim \<Longrightarrow>
       newline \<notin> set (partial @ concat rd') \<and> length (partial @ concat rd') \<le> rl_max_line_bytes lim"
      using stop inv by (auto simp: read_stopped_def read_inv_def)
  qed (use inv r in \<open>simp_all add: read_inv_def flip: b_def, auto\<close>)
qed

end
