(* ===== verification/LogCheckpoint.thy ===== *)
theory LogCheckpoint
  imports LogReader
begin

text \<open>
  Checkpoints of file inputs: the persisted records of \<open>src/state_store/log_checkpoint_state.rs\<close>, the resume
  decision of \<open>src/telemetry/logs/files/file_watcher.rs\<close> and the checkpoint table of
  \<open>src/telemetry/logs/files/checkpoint_support.rs\<close>.  The record of an unfinished multi-line entry
  (\<open>wist_shared::records::Record\<close>) is data of another crate.  The lemmas show when a file is resumed at its
  checkpoint, that the table keeps at most one entry per path, and what a lookup returns after an update.
\<close>

subsection \<open>Model\<close>

datatype completion = Boundary | Deadline | Oversized

record delimited_record =
  lr_body :: string
  lr_start_offset :: nat
  lr_end_offset :: nat
  lr_lines :: nat
  lr_completion :: completion

record pending_multiline_state =
  pm_source_path :: string
  pm_last_updated_at :: string
  pm_record :: delimited_record

record tracked_file_checkpoint =
  tc_file_id :: string
  tc_path :: string
  tc_device_id :: "nat option"
  tc_inode :: "nat option"
  tc_fingerprint :: "string option"
  tc_checkpoint_offset :: nat
  tc_checkpoint_probe :: "string option"
  tc_last_size :: "nat option"
  tc_last_read_at :: "string option"
  tc_last_commit_point_at :: "string option"
  tc_rotated_from_path :: "string option"
  tc_real_path :: string
  tc_pending_multiline :: "pending_multiline_state option"

record log_checkpoint_state =
  lc_input_id :: string
  lc_updated_at :: string
  lc_last_scan_ms :: "int option"
  lc_pending_multiline :: "pending_multiline_state option"
  lc_files :: "tracked_file_checkpoint list"

definition log_checkpoint_state_new :: "string \<Rightarrow> string \<Rightarrow> log_checkpoint_state" where
  "log_checkpoint_state_new input_id updated_at =
    \<lparr>lc_input_id = input_id, lc_updated_at = updated_at, lc_last_scan_ms = None, lc_pending_multiline = None,
     lc_files = []\<rparr>"

datatype startup_position = Head | Tail

record resume_decision =
  rd_start_offset :: nat
  rd_rotated_from_path :: "string option"
  rd_truncated :: bool
  rd_rotated :: bool

definition short_file_append_keeps_prefix ::
    "tracked_file_checkpoint \<Rightarrow> observed_file_identity \<Rightarrow> string \<Rightarrow> string \<Rightarrow> bool" where
  "short_file_append_keeps_prefix previous current previous_fingerprint current_fingerprint =
    (case tc_last_size previous of
      None \<Rightarrow> False
    | Some previous_size \<Rightarrow>
        previous_size < 32 \<and> previous_size < oi_file_len current \<and>
        starts_with previous_fingerprint current_fingerprint)"

definition fingerprints_match :: "tracked_file_checkpoint \<Rightarrow> observed_file_identity \<Rightarrow> bool" where
  "fingerprints_match previous current = (case (tc_fingerprint previous, oi_fingerprint current) of
      (Some p, Some c) \<Rightarrow> p = c \<or> short_file_append_keeps_prefix previous current p c
    | _ \<Rightarrow> True)"

definition checkpoint_probe_matches_async :: "log_files \<Rightarrow> string \<Rightarrow> tracked_file_checkpoint \<Rightarrow> bool res" where
  "checkpoint_probe_matches_async fs path previous =
    (if tc_checkpoint_offset previous = 0 then Inr True
     else (case tc_checkpoint_probe previous of
       None \<Rightarrow> Inr True
     | Some expected \<Rightarrow> (case checkpoint_probe_async fs path (tc_checkpoint_offset previous) of
         Inl e \<Rightarrow> Inl e
       | Inr probe \<Rightarrow> Inr (probe = Some expected))))"

definition if_empty_then :: "string \<Rightarrow> string \<Rightarrow> string" where
  "if_empty_then s fallback = (if s = [] then fallback else s)"

definition same_identity :: "string \<Rightarrow> observed_file_identity \<Rightarrow> tracked_file_checkpoint \<Rightarrow> bool" where
  "same_identity source_path current previous =
    (let same_path = (tc_path previous = [] \<or> tc_path previous = source_path) in
     if tc_device_id previous \<noteq> None \<and> tc_inode previous \<noteq> None \<and> oi_device_id current \<noteq> None \<and> oi_inode current \<noteq> None
     then same_path \<and> tc_device_id previous = oi_device_id current \<and> tc_inode previous = oi_inode current \<and>
          fingerprints_match previous current
     else same_path \<and> fingerprints_match previous current)"

definition decide_resume_async ::
    "log_files \<Rightarrow> string \<Rightarrow> observed_file_identity \<Rightarrow> tracked_file_checkpoint option \<Rightarrow> startup_position \<Rightarrow> resume_decision" where
  "decide_resume_async fs source_path current previous startup_position = (case previous of
      None \<Rightarrow>
        \<lparr>rd_start_offset = (case startup_position of Head \<Rightarrow> 0 | Tail \<Rightarrow> oi_file_len current),
         rd_rotated_from_path = None, rd_truncated = False, rd_rotated = False\<rparr>
    | Some prev \<Rightarrow>
        (if same_identity source_path current prev
         then (if oi_file_len current < tc_checkpoint_offset prev \<or>
                  checkpoint_probe_matches_async fs source_path prev \<noteq> Inr True
               then \<lparr>rd_start_offset = 0, rd_rotated_from_path = None, rd_truncated = True, rd_rotated = False\<rparr>
               else \<lparr>rd_start_offset = tc_checkpoint_offset prev, rd_rotated_from_path = None,
                     rd_truncated = False, rd_rotated = False\<rparr>)
         else \<lparr>rd_start_offset = 0, rd_rotated_from_path = Some (if_empty_then (tc_path prev) source_path),
               rd_truncated = False, rd_rotated = True\<rparr>))"

definition checkpoint_for_path :: "log_checkpoint_state \<Rightarrow> string \<Rightarrow> tracked_file_checkpoint option" where
  "checkpoint_for_path state source_path = find (\<lambda>entry. tc_path entry = source_path) (lc_files state)"

definition relocate_checkpoint_path ::
    "log_checkpoint_state \<Rightarrow> tracked_file_checkpoint \<Rightarrow> string \<Rightarrow> log_checkpoint_state" where
  "relocate_checkpoint_path state previous rotated_path =
    (case position (\<lambda>entry. tc_file_id entry = tc_file_id previous \<or> tc_path entry = tc_path previous) (lc_files state) of
      None \<Rightarrow> state
    | Some i \<Rightarrow> state\<lparr>lc_files := (lc_files state)[i := (lc_files state ! i)\<lparr>tc_path := rotated_path\<rparr>]\<rparr>)"

definition inode_pair_matches :: "nat option \<Rightarrow> nat option \<Rightarrow> nat option \<Rightarrow> nat option \<Rightarrow> bool" where
  "inode_pair_matches left_device left_inode right_device right_inode =
    (left_device \<noteq> None \<and> left_inode \<noteq> None \<and> left_device = right_device \<and> left_inode = right_inode)"

definition matches_by_fingerprint :: "log_files \<Rightarrow> tracked_file_checkpoint \<Rightarrow> string \<Rightarrow> bool" where
  "matches_by_fingerprint fs previous path =
    (if tc_device_id previous \<noteq> None \<or> tc_inode previous \<noteq> None then False
     else (case tc_fingerprint previous of
       None \<Rightarrow> False
     | Some fp \<Rightarrow> (case inspect_path_async fs path of
         Inl _ \<Rightarrow> False
       | Inr identity \<Rightarrow> oi_fingerprint identity = Some fp)))"

text \<open>A directory listing: the entries of the parent directory, each with the outcome of its \<open>metadata\<close>.\<close>

type_synonym dir_listing = "(string \<times> (nat option \<times> nat option) res) list res"

fun find_rotated_path_loop ::
    "log_files \<Rightarrow> string \<Rightarrow> tracked_file_checkpoint \<Rightarrow> (string \<times> (nat option \<times> nat option) res) list \<Rightarrow> string option res" where
  "find_rotated_path_loop fs source_path previous [] = Inr None"
| "find_rotated_path_loop fs source_path previous ((path, metadata) # entries) =
    (if path = source_path then find_rotated_path_loop fs source_path previous entries
     else (case metadata of
       Inl e \<Rightarrow> Inl e
     | Inr (dev, ino) \<Rightarrow>
         (if inode_pair_matches (tc_device_id previous) (tc_inode previous) dev ino \<or> matches_by_fingerprint fs previous path
          then Inr (Some path)
          else find_rotated_path_loop fs source_path previous entries)))"

definition find_rotated_path_async ::
    "log_files \<Rightarrow> dir_listing \<Rightarrow> string \<Rightarrow> tracked_file_checkpoint \<Rightarrow> string option res" where
  "find_rotated_path_async fs listing source_path previous =
    (case listing of Inl e \<Rightarrow> Inl e | Inr entries \<Rightarrow> find_rotated_path_loop fs source_path previous entries)"

record checkpoint_update =
  cu_checkpoint_offset :: nat
  cu_observed_at :: string
  cu_real_path :: string
  cu_pending_multiline :: "pending_multiline_state option"
  cu_rotated_from_path :: "string option"

definition stored_identity_matches :: "tracked_file_checkpoint \<Rightarrow> observed_file_identity \<Rightarrow> string \<Rightarrow> bool" where
  "stored_identity_matches checkpoint identity source_path =
    (if inode_pair_matches (tc_device_id checkpoint) (tc_inode checkpoint) (oi_device_id identity) (oi_inode identity) then True
     else tc_path checkpoint = source_path \<and> tc_fingerprint checkpoint \<noteq> None \<and>
          tc_fingerprint checkpoint = oi_fingerprint identity)"

definition checkpoint_from_observation ::
    "string \<Rightarrow> string \<Rightarrow> observed_file_identity \<Rightarrow> string option \<Rightarrow> checkpoint_update \<Rightarrow> tracked_file_checkpoint" where
  "checkpoint_from_observation file_id path identity checkpoint_probe update =
    \<lparr>tc_file_id = file_id, tc_path = path, tc_device_id = oi_device_id identity, tc_inode = oi_inode identity,
     tc_fingerprint = oi_fingerprint identity, tc_checkpoint_offset = cu_checkpoint_offset update,
     tc_checkpoint_probe = checkpoint_probe, tc_last_size = Some (oi_file_len identity),
     tc_last_read_at = Some (cu_observed_at update), tc_last_commit_point_at = Some (cu_observed_at update),
     tc_rotated_from_path = cu_rotated_from_path update, tc_real_path = cu_real_path update,
     tc_pending_multiline = cu_pending_multiline update\<rparr>"

text \<open>\<open>Vec::retain\<close> with a running index.\<close>

definition keep_only_newest_at_path ::
    "tracked_file_checkpoint list \<Rightarrow> string \<Rightarrow> nat \<Rightarrow> tracked_file_checkpoint list" where
  "keep_only_newest_at_path entries path keep_index =
    map snd (filter (\<lambda>(i, entry). i = keep_index \<or> tc_path entry \<noteq> path) (enumerate 0 entries))"

definition upsert_checkpoint_async ::
    "log_files \<Rightarrow> (string \<Rightarrow> string option) \<Rightarrow> log_checkpoint_state \<Rightarrow> string \<Rightarrow> observed_file_identity \<Rightarrow> checkpoint_update
     \<Rightarrow> log_checkpoint_state" where
  "upsert_checkpoint_async fs canonicalize state source_path identity update =
    (let file_id = stable_file_id_async canonicalize source_path identity;
         probe = (case checkpoint_probe_async fs source_path (cu_checkpoint_offset update) of
                    Inl _ \<Rightarrow> None | Inr p \<Rightarrow> p);
         existing = position (\<lambda>entry. tc_file_id entry = file_id \<or> stored_identity_matches entry identity source_path)
                      (lc_files state);
         path = (case existing of Some i \<Rightarrow> tc_path (lc_files state ! i) | None \<Rightarrow> source_path);
         checkpoint = checkpoint_from_observation file_id path identity probe update
     in (case existing of
          Some i \<Rightarrow> state\<lparr>lc_files := keep_only_newest_at_path ((lc_files state)[i := checkpoint]) path i\<rparr>
        | None \<Rightarrow> state\<lparr>lc_files := keep_only_newest_at_path (lc_files state @ [checkpoint]) path (length (lc_files state))\<rparr>))"

definition checkpoint_real_path :: "tracked_file_checkpoint \<Rightarrow> string" where
  "checkpoint_real_path checkpoint = if_empty_then (tc_real_path checkpoint) (tc_path checkpoint)"

text \<open>The checkpoint file and the file with the next sequence number.\<close>

definition load_or_default_from_path_async ::
    "string \<Rightarrow> io_kind option \<Rightarrow> log_checkpoint_state disk_file \<Rightarrow> string \<Rightarrow> log_checkpoint_state res" where
  "load_or_default_from_path_async now stat_err f input_id = (case stat_err of
      Some k \<Rightarrow> Inl (IoError k ''stat'')
    | None \<Rightarrow> (case f of Missing \<Rightarrow> Inr (log_checkpoint_state_new input_id now) | _ \<Rightarrow> read_json_async f))"

subsection \<open>The checkpoint table\<close>

lemma keep_only_newest_split:
  assumes "i < length entries"
  shows "keep_only_newest_at_path entries path i =
    filter (\<lambda>e. tc_path e \<noteq> path) (take i entries) @ entries ! i # filter (\<lambda>e. tc_path e \<noteq> path) (drop (Suc i) entries)"
proof -
  have split: "entries = take i entries @ entries ! i # drop (Suc i) entries" using assms by (simp add: id_take_nth_drop)
  have *: "map snd (filter (\<lambda>(j, entry). j = i \<or> tc_path entry \<noteq> path) (enumerate n xs)) = filter (\<lambda>e. tc_path e \<noteq> path) xs"
    if "i \<notin> {n..<n + length xs}" for n xs
    using that by (induction xs arbitrary: n) (auto simp: Suc_le_eq)
  show ?thesis
    unfolding keep_only_newest_at_path_def
    using assms by (subst split) (simp add: enumerate_append_eq * min_def)
qed

definition paths_distinct :: "log_checkpoint_state \<Rightarrow> bool" where
  "paths_distinct state \<longleftrightarrow> distinct (map tc_path (lc_files state))"

definition names_file :: "(string \<Rightarrow> string option) \<Rightarrow> string \<Rightarrow> observed_file_identity \<Rightarrow> tracked_file_checkpoint \<Rightarrow> bool" where
  "names_file canonicalize source_path identity entry \<longleftrightarrow>
     tc_file_id entry = stable_file_id_async canonicalize source_path identity \<or>
     stored_identity_matches entry identity source_path"

definition observed_checkpoint ::
    "log_files \<Rightarrow> (string \<Rightarrow> string option) \<Rightarrow> string \<Rightarrow> observed_file_identity \<Rightarrow> checkpoint_update \<Rightarrow> string \<Rightarrow> tracked_file_checkpoint" where
  "observed_checkpoint fs canonicalize source_path identity update path =
    checkpoint_from_observation (stable_file_id_async canonicalize source_path identity) path identity
      (case checkpoint_probe_async fs source_path (cu_checkpoint_offset update) of Inl _ \<Rightarrow> None | Inr p \<Rightarrow> p) update"

lemma upsert_cases:
  obtains (fresh) "\<forall>e\<in>set (lc_files state). \<not> names_file canonicalize source_path identity e"
      "lc_files (upsert_checkpoint_async fs canonicalize state source_path identity update) =
         filter (\<lambda>e. tc_path e \<noteq> source_path) (lc_files state) @ [observed_checkpoint fs canonicalize source_path identity update source_path]"
  | (known) pre old post where "lc_files state = pre @ old # post" "names_file canonicalize source_path identity old"
      "lc_files (upsert_checkpoint_async fs canonicalize state source_path identity update) =
         filter (\<lambda>e. tc_path e \<noteq> tc_path old) pre @ observed_checkpoint fs canonicalize source_path identity update (tc_path old) # filter (\<lambda>e. tc_path e \<noteq> tc_path old) post"
proof -
  let ?P = "\<lambda>e. tc_file_id e = stable_file_id_async canonicalize source_path identity \<or>
    stored_identity_matches e identity source_path"
  let ?cp = "observed_checkpoint fs canonicalize source_path identity update"
  show thesis
  proof (cases "position ?P (lc_files state)")
    case None
    then have "lc_files (upsert_checkpoint_async fs canonicalize state source_path identity update) =
         filter (\<lambda>e. tc_path e \<noteq> source_path) (lc_files state) @ [observed_checkpoint fs canonicalize source_path identity update source_path]"
      by (simp add: upsert_checkpoint_async_def Let_def observed_checkpoint_def keep_only_newest_split)
    then show thesis using fresh None by (auto simp: position_None names_file_def)
  next
    case (Some i)
    let ?old = "lc_files state ! i"
    from position_Some[OF Some] have i: "i < length (lc_files state)" and n: "?P ?old" by auto
    have "lc_files (upsert_checkpoint_async fs canonicalize state source_path identity update) =
         filter (\<lambda>e. tc_path e \<noteq> tc_path ?old) (take i (lc_files state)) @ ?cp (tc_path ?old)
         # filter (\<lambda>e. tc_path e \<noteq> tc_path ?old) (drop (Suc i) (lc_files state))"
      using Some i by (simp add: upsert_checkpoint_async_def Let_def observed_checkpoint_def keep_only_newest_split)
    then show thesis
      using known[of "take i (lc_files state)" ?old "drop (Suc i) (lc_files state)"] i n
      by (simp add: names_file_def id_take_nth_drop[symmetric])
  qed
qed

lemma distinct_map_filter_append: "distinct (map f (xs @ ys)) \<Longrightarrow> distinct (map f (filter P xs @ filter Q ys))"
  by (auto simp: distinct_map_filter)

lemma observed_checkpoint_simps [simp]:
  "tc_path (observed_checkpoint fs canonicalize source_path identity update path) = path"
  "tc_checkpoint_offset (observed_checkpoint fs canonicalize source_path identity update path) = cu_checkpoint_offset update"
  by (simp_all add: observed_checkpoint_def checkpoint_from_observation_def)

lemma upsert_distinct:
  assumes "paths_distinct state"
  shows "paths_distinct (upsert_checkpoint_async fs canonicalize state source_path identity update)"
  by (cases rule: upsert_cases[of state canonicalize source_path identity fs update])
    (use assms in \<open>auto simp: paths_distinct_def distinct_map_filter\<close>)

lemma find_append: "find P (xs @ ys) = (case find P xs of None \<Rightarrow> find P ys | Some x \<Rightarrow> Some x)"
  by (induction xs) auto

lemma find_none_filter: "find (\<lambda>e. f e = a) (filter (\<lambda>e. f e \<noteq> a) xs) = None"
  by (induction xs) auto

lemma lookup_after_upsert:
  assumes "\<forall>e\<in>set (lc_files state). names_file canonicalize source_path identity e \<longrightarrow> tc_path e = source_path"
  shows "checkpoint_for_path (upsert_checkpoint_async fs canonicalize state source_path identity update) q =
    (if q = source_path then Some (observed_checkpoint fs canonicalize source_path identity update source_path)
     else checkpoint_for_path state q)"
proof (cases rule: upsert_cases[of state canonicalize source_path identity fs update])
  case fresh
  then show ?thesis
    by (auto simp: checkpoint_for_path_def find_append find_none_filter find_filter_other split: option.splits)
next
  case (known pre old post)
  have "tc_path old = source_path" using assms known(1,2) by auto
  then show ?thesis using known
    by (auto simp: checkpoint_for_path_def find_append find_none_filter find_filter_other split: option.splits)
qed

subsection \<open>Resuming\<close>

lemma resume_offset:
  "rd_start_offset (decide_resume_async fs path current (Some prev) sp) = 0 \<or>
   (rd_start_offset (decide_resume_async fs path current (Some prev) sp) = tc_checkpoint_offset prev \<and>
    tc_checkpoint_offset prev \<le> oi_file_len current \<and> same_identity path current prev \<and>
    checkpoint_probe_matches_async fs path prev = Inr True)"
  by (simp add: decide_resume_async_def)

lemma fingerprint_append: "fingerprint (xs @ ys) = fingerprint xs @ fingerprint ys"
  by (simp add: fingerprint_def)

text \<open>The checkpoint an earlier read of a file with contents \<open>old\<close> left behind.\<close>

definition checkpoint_of :: "string \<Rightarrow> nat option \<Rightarrow> nat option \<Rightarrow> string \<Rightarrow> nat \<Rightarrow> tracked_file_checkpoint \<Rightarrow> bool" where
  "checkpoint_of path dev ino old offset cp \<longleftrightarrow>
     tc_path cp = path \<and> tc_device_id cp = dev \<and> tc_inode cp = ino \<and> offset \<le> length old \<and>
     tc_checkpoint_offset cp = offset \<and> tc_last_size cp = Some (length old) \<and>
     tc_fingerprint cp = Some (fingerprint (take 32 old)) \<and>
     tc_checkpoint_probe cp = (if offset = 0 then None
       else Some (fingerprint (take (min offset 16) (drop (offset - min offset 16) old))))"

lemma resume_appended:
  assumes "checkpoint_of path (lf_device_id f) (lf_inode f) old offset cp" "fs path = Some f" "lf_read_err f = None"
    and "lf_bytes f = old @ new"
  shows "decide_resume_async fs path (identity_from_metadata f) (Some cp) sp =
    \<lparr>rd_start_offset = offset, rd_rotated_from_path = None, rd_truncated = False, rd_rotated = False\<rparr>"
proof -
  have op: "open_log fs path = Inr f" using assms(2,3) by (simp add: open_log_def)
  have len: "offset \<le> length old" using assms(1) by (simp add: checkpoint_of_def)
  have "fingerprint (take 32 old) = fingerprint (take 32 (old @ new)) \<or>
      length old < 32 \<and> length old < length (old @ new) \<and> prefix (fingerprint (take 32 old)) (fingerprint (take 32 (old @ new)))"
  proof (cases "32 \<le> length old \<or> new = []")
    case False then show ?thesis by (auto simp: fingerprint_append)
  qed auto
  then have fp: "fingerprints_match cp (identity_from_metadata f)"
    using assms(1,4) by (auto simp: fingerprints_match_def identity_from_metadata_def checkpoint_of_def
        short_file_append_keeps_prefix_def starts_with_def)
  then have same: "same_identity path (identity_from_metadata f) cp"
    using assms(1) by (auto simp: same_identity_def Let_def checkpoint_of_def identity_from_metadata_def)
  have probe: "checkpoint_probe_matches_async fs path cp = Inr True"
    using assms(1,4) op len
    by (auto simp: checkpoint_probe_matches_async_def checkpoint_probe_async_def checkpoint_of_def Let_def)
  show ?thesis using same probe assms(1,4) len
    by (simp add: decide_resume_async_def checkpoint_of_def identity_from_metadata_def)
qed


text \<open>What a commit after a read leaves behind is such a checkpoint.\<close>

lemma observed_checkpoint_of:
  assumes "fs path = Some f" "lf_read_err f = None" "cu_checkpoint_offset update \<le> length (lf_bytes f)"
  shows "checkpoint_of path (lf_device_id f) (lf_inode f) (lf_bytes f) (cu_checkpoint_offset update)
    (observed_checkpoint fs canonicalize path (identity_from_metadata f) update path)"
  using assms
  by (auto simp: checkpoint_of_def observed_checkpoint_def checkpoint_from_observation_def identity_from_metadata_def
      checkpoint_probe_async_def open_log_def Let_def)

end
