(* ===== verification/LogFold.thy ===== *)
theory LogFold
  imports LogCheckpoint
begin

text \<open>
  From lines to records: the reading modes of \<open>src/telemetry/logs/multiline.rs\<close>, the folding of
  \<open>src/telemetry/logs/files/multiline_support.rs\<close> with its CSV state machine, the uplink gate of
  \<open>src/telemetry/logs/gate.rs\<close> and the numbering of \<open>src/telemetry/logs/parser.rs\<close>.

  The delimiter of the indented and the MySQL mode belongs to another crate; it is a record of its operations
  that the folding takes as an argument, as is the lookup of a container by log path.  The lemmas show that the
  CSV scanner agrees with plain quote parity, that folding a stream in batches gives the same records as
  folding it at once, that no byte is lost, that a record sealed at a boundary is one CSV row, and that the gate
  numbers exactly the records it lets through, without gaps.
\<close>

subsection \<open>Text\<close>

definition is_blank :: "string \<Rightarrow> bool" where
  "is_blank s \<longleftrightarrow> trim_start s = []"

subsection \<open>Reading modes\<close>

definition MAX_RECORD_LINES :: nat where "MAX_RECORD_LINES = 1000"
definition MAX_RECORD_BYTES :: nat where "MAX_RECORD_BYTES = 1048576"

datatype multiline_mode = ModeNone | IndentedContinuation | MysqlSlow | PostgresCsv

definition multiline_mode_parse :: "string \<Rightarrow> multiline_mode option" where
  "multiline_mode_parse mode =
    (if mode = ''none'' then Some ModeNone else if mode = ''indented'' then Some IndentedContinuation
     else if mode = ''mysql_slow'' then Some MysqlSlow else if mode = ''postgres_csv'' then Some PostgresCsv else None)"

definition folds_records :: "multiline_mode \<Rightarrow> bool" where
  "folds_records mode \<longleftrightarrow> mode \<noteq> ModeNone"

datatype boundary = Starts | Neither
datatype start_state = WaitForStart | Collect

definition is_ascii_digit :: "char \<Rightarrow> bool" where
  "is_ascii_digit c = byte_in 48 57 c"

definition mysql_slow :: "string \<Rightarrow> boundary" where
  "mysql_slow line =
    (if starts_with ''# Time:'' line \<and>
        (case trim_start (drop 7 line) of [] \<Rightarrow> False | c # _ \<Rightarrow> is_ascii_digit c)
     then Starts else Neither)"

text \<open>The delimiter of the other crate, with its signal for indented continuation lines.\<close>

record 'd delimiter =
  dl_new :: "start_state \<Rightarrow> 'd"
  dl_resume :: "start_state \<Rightarrow> delimited_record \<Rightarrow> 'd"
  dl_push :: "'d \<Rightarrow> raw_file_line \<Rightarrow> (string \<Rightarrow> boundary) \<Rightarrow> delimited_record list \<times> 'd"
  dl_into_pending :: "'d \<Rightarrow> delimited_record option"
  dl_indented :: "string \<Rightarrow> boundary"

definition delimiter_policy :: "'d delimiter \<Rightarrow> multiline_mode \<Rightarrow> (start_state \<times> (string \<Rightarrow> boundary)) option" where
  "delimiter_policy D mode = (case mode of
      ModeNone \<Rightarrow> None
    | IndentedContinuation \<Rightarrow> Some (WaitForStart, dl_indented D)
    | MysqlSlow \<Rightarrow> Some (WaitForStart, mysql_slow)
    | PostgresCsv \<Rightarrow> None)"

subsection \<open>The gate\<close>

record input_origin =
  io_family :: string
  io_unit :: string

record 'c telemetry_record =
  tr_agent_id :: string
  tr_observed_at :: string
  tr_input_id :: string
  tr_source_path :: string
  tr_body :: string
  tr_start_offset :: nat
  tr_end_offset :: nat
  tr_seq :: nat
  tr_origin :: input_origin
  tr_container :: "'c option"

record withheld =
  wh_records :: nat
  wh_bytes :: nat

record uplink_gate =
  ug_agent_id :: string
  ug_observed_at :: string
  ug_input_id :: string
  ug_origin :: input_origin
  ug_withheld :: withheld

definition uplink_gate_new :: "string \<Rightarrow> string \<Rightarrow> string \<Rightarrow> input_origin \<Rightarrow> uplink_gate" where
  "uplink_gate_new agent_id observed_at input_id origin =
    \<lparr>ug_agent_id = agent_id, ug_observed_at = observed_at, ug_input_id = input_id, ug_origin = origin,
     ug_withheld = \<lparr>wh_records = 0, wh_bytes = 0\<rparr>\<rparr>"

definition withholds :: "delimited_record \<Rightarrow> bool" where
  "withholds r = (case lr_completion r of Oversized \<Rightarrow> True | Boundary \<Rightarrow> False | Deadline \<Rightarrow> False)"

fun parse_delimited_records ::
    "(string \<Rightarrow> 'c option) \<Rightarrow> uplink_gate \<Rightarrow> string \<Rightarrow> delimited_record list \<Rightarrow> nat \<Rightarrow> 'c telemetry_record list \<times> nat" where
  "parse_delimited_records container g source_path [] next_seq = ([], next_seq)"
| "parse_delimited_records container g source_path (r # rs) next_seq =
    (case parse_delimited_records container g source_path rs (next_seq + 1) of (out, next') \<Rightarrow>
      (\<lparr>tr_agent_id = ug_agent_id g, tr_observed_at = ug_observed_at g, tr_input_id = ug_input_id g,
        tr_source_path = source_path, tr_body = lr_body r, tr_start_offset = lr_start_offset r,
        tr_end_offset = lr_end_offset r, tr_seq = next_seq, tr_origin = ug_origin g,
        tr_container = container source_path\<rparr> # out, next'))"

definition withhold :: "uplink_gate \<Rightarrow> delimited_record \<Rightarrow> uplink_gate" where
  "withhold g r = g\<lparr>ug_withheld := \<lparr>wh_records = wh_records (ug_withheld g) + 1,
     wh_bytes = wh_bytes (ug_withheld g) + length (lr_body r)\<rparr>\<rparr>"

definition admit ::
    "(string \<Rightarrow> 'c option) \<Rightarrow> uplink_gate \<Rightarrow> string \<Rightarrow> delimited_record list \<Rightarrow> nat \<Rightarrow> 'c telemetry_record list \<times> uplink_gate \<times> nat" where
  "admit container g source_path records next_seq =
    (let g' = fold (\<lambda>r g. if withholds r then withhold g r else g) records g in
     case parse_delimited_records container g source_path (filter (\<lambda>r. \<not> withholds r) records) next_seq of
       (out, next') \<Rightarrow> (out, g', next'))"

definition is_noise :: "string \<Rightarrow> string list \<Rightarrow> bool" where
  "is_noise body needles = list_ex (\<lambda>needle. contains_str needle body) needles"

definition admit_with_noise_filter ::
    "(string \<Rightarrow> 'c option) \<Rightarrow> uplink_gate \<Rightarrow> string \<Rightarrow> delimited_record list \<Rightarrow> string list \<Rightarrow> nat
     \<Rightarrow> 'c telemetry_record list \<times> nat \<times> uplink_gate \<times> nat" where
  "admit_with_noise_filter container g source_path folded drop_if_contains next_seq =
    (if drop_if_contains = [] then
       (case admit container g source_path folded next_seq of (out, g', n) \<Rightarrow> (out, 0, g', n))
     else
       (let kept = filter (\<lambda>r. \<not> is_noise (lr_body r) drop_if_contains) folded;
            dropped = length folded - length kept
        in case admit container g source_path kept next_seq of (out, g', n) \<Rightarrow> (out, dropped, g', n)))"

subsection \<open>CSV\<close>

definition quote :: char where
  "quote = CHR 0x22"

fun scan_csv :: "string \<Rightarrow> bool \<Rightarrow> bool \<times> bool" where
  "scan_csv [] in_quotes = (False, in_quotes)"
| "scan_csv (c # cs) in_quotes =
    (if c = quote then
       (if in_quotes \<and> take 1 cs = [quote] then scan_csv (drop 1 cs) in_quotes
        else scan_csv cs (\<not> in_quotes))
     else (case scan_csv cs in_quotes of (ended, q) \<Rightarrow> (ended \<or> c = newline \<and> \<not> in_quotes, q)))"

definition over_limit :: "delimited_record \<Rightarrow> string \<Rightarrow> bool" where
  "over_limit r text \<longleftrightarrow> MAX_RECORD_LINES < lr_lines r + 1 \<or> MAX_RECORD_BYTES < length (lr_body r) + length text"

record csv_state =
  cv_current :: "(delimited_record \<times> bool) option"
  cv_sealed :: "delimited_record list"
  cv_discarding :: bool
  cv_discarding_in_quotes :: bool

definition csv_resume :: "delimited_record \<Rightarrow> delimited_record \<times> bool" where
  "csv_resume r = (r, snd (scan_csv (lr_body r) False))"

definition csv_begin :: "raw_file_line \<Rightarrow> delimited_record \<times> bool" where
  "csv_begin line =
    (\<lparr>lr_body = [], lr_start_offset = rw_start_offset line, lr_end_offset = rw_start_offset line, lr_lines = 0,
      lr_completion = Boundary\<rparr>, False)"

definition csv_extend :: "raw_file_line \<Rightarrow> delimited_record \<Rightarrow> delimited_record" where
  "csv_extend line r =
    r\<lparr>lr_body := lr_body r @ rw_text line, lr_end_offset := rw_end_offset line, lr_lines := lr_lines r + 1\<rparr>"

definition csv_step :: "csv_state \<Rightarrow> raw_file_line \<Rightarrow> csv_state" where
  "csv_step st line =
    (if \<not> ends_with [newline] (rw_text line) then
       (let r = (case cv_current st of Some (r, _) \<Rightarrow> r | None \<Rightarrow> fst (csv_begin line)) in
        st\<lparr>cv_current := None, cv_sealed := cv_sealed st @ [(csv_extend line r)\<lparr>lr_completion := Oversized\<rparr>],
           cv_discarding := False, cv_discarding_in_quotes := False\<rparr>)
     else if cv_discarding st then
       (case scan_csv (rw_text line) (cv_discarding_in_quotes st) of (ended, q) \<Rightarrow>
          st\<lparr>cv_discarding_in_quotes := q, cv_discarding := \<not> ended\<rparr>)
     else if (case cv_current st of Some (r, _) \<Rightarrow> over_limit r (rw_text line) | None \<Rightarrow> False) then
       (case cv_current st of
         Some (r, in_quotes) \<Rightarrow>
           (case scan_csv (rw_text line) in_quotes of (ended, q) \<Rightarrow>
              st\<lparr>cv_current := None, cv_sealed := cv_sealed st @ [r\<lparr>lr_completion := Oversized\<rparr>],
                 cv_discarding_in_quotes := q, cv_discarding := \<not> ended\<rparr>)
       | None \<Rightarrow> st)
     else
       (case (case cv_current st of Some acc \<Rightarrow> acc | None \<Rightarrow> csv_begin line) of (r, in_quotes) \<Rightarrow>
        (case scan_csv (rw_text line) in_quotes of (ended, q) \<Rightarrow>
          (if ended then
             st\<lparr>cv_current := None, cv_sealed := cv_sealed st @ [(csv_extend line r)\<lparr>lr_completion := Boundary\<rparr>]\<rparr>
           else st\<lparr>cv_current := Some (csv_extend line r, q)\<rparr>))))"

definition csv_init :: "string \<Rightarrow> pending_multiline_state option \<Rightarrow> csv_state" where
  "csv_init path pending =
    \<lparr>cv_current = (case pending of
        Some p \<Rightarrow> (if pm_source_path p = path then Some (csv_resume (pm_record p)) else None)
      | None \<Rightarrow> None),
     cv_sealed = [], cv_discarding = False, cv_discarding_in_quotes = False\<rparr>"

definition pending_updated_at :: "bool \<Rightarrow> string option \<Rightarrow> string \<Rightarrow> string" where
  "pending_updated_at had_lines resumed_at observed_at =
    (case (had_lines, resumed_at) of (False, Some at) \<Rightarrow> at | _ \<Rightarrow> observed_at)"

definition same_source :: "string \<Rightarrow> pending_multiline_state option \<Rightarrow> pending_multiline_state option" where
  "same_source path pending = (case pending of
      Some p \<Rightarrow> (if pm_source_path p = path then Some p else None) | None \<Rightarrow> None)"

definition fold_csv ::
    "string \<Rightarrow> raw_file_line list \<Rightarrow> pending_multiline_state option \<Rightarrow> string
     \<Rightarrow> delimited_record list \<times> pending_multiline_state option" where
  "fold_csv path lines pending observed_at =
    (let resumed_at = map_option pm_last_updated_at (same_source path pending);
         st = foldl csv_step (csv_init path pending) lines
     in (cv_sealed st,
         map_option (\<lambda>(r, _). \<lparr>pm_source_path = path,
             pm_last_updated_at = pending_updated_at (lines \<noteq> []) resumed_at observed_at, pm_record = r\<rparr>)
           (cv_current st)))"

subsection \<open>Folding a read\<close>

record 'c folded_read =
  fr_records :: "'c telemetry_record list"
  fr_pending :: "pending_multiline_state option"
  fr_dropped_noise :: nat

record 'c admitted =
  ad_records :: "'c telemetry_record list"
  ad_dropped_noise :: nat

definition record_from_line :: "raw_file_line \<Rightarrow> delimited_record" where
  "record_from_line line =
    \<lparr>lr_body = rw_text line, lr_start_offset = rw_start_offset line, lr_end_offset = rw_end_offset line, lr_lines = 1,
     lr_completion = Boundary\<rparr>"

fun push_all :: "'d delimiter \<Rightarrow> (string \<Rightarrow> boundary) \<Rightarrow> 'd \<Rightarrow> raw_file_line list \<Rightarrow> delimited_record list \<times> 'd" where
  "push_all D signal d [] = ([], d)"
| "push_all D signal d (line # lines) =
    (case dl_push D d line signal of (out, d') \<Rightarrow>
      (case push_all D signal d' lines of (rest, d'') \<Rightarrow> (out @ rest, d'')))"

definition records_from_read ::
    "'d delimiter \<Rightarrow> (string \<Rightarrow> 'c option) \<Rightarrow> uplink_gate \<Rightarrow> multiline_mode \<Rightarrow> string list \<Rightarrow> string \<Rightarrow> string
     \<Rightarrow> raw_file_line list \<Rightarrow> pending_multiline_state option \<Rightarrow> nat \<Rightarrow> 'c folded_read \<times> uplink_gate \<times> nat" where
  "records_from_read D container g mode drop_if_contains observed_at path lines pending next_seq =
    (let emit = (\<lambda>folded pending'.
           case admit_with_noise_filter container g path folded drop_if_contains next_seq of (out, dropped, g', n) \<Rightarrow>
             (\<lparr>fr_records = out, fr_pending = pending', fr_dropped_noise = dropped\<rparr>, g', n))
     in if mode = PostgresCsv then (case fold_csv path lines pending observed_at of (folded, pending') \<Rightarrow> emit folded pending')
        else (let previous = same_source path pending in
          case delimiter_policy D mode of
            None \<Rightarrow>
              emit ((case previous of Some p \<Rightarrow> [(pm_record p)\<lparr>lr_completion := Deadline\<rparr>] | None \<Rightarrow> [])
                    @ map record_from_line lines) None
          | Some (start, signal) \<Rightarrow>
              (let d = (case previous of Some p \<Rightarrow> dl_resume D start (pm_record p) | None \<Rightarrow> dl_new D start) in
               case push_all D signal d lines of (folded, d') \<Rightarrow>
                 emit folded (map_option (\<lambda>r. \<lparr>pm_source_path = path,
                     pm_last_updated_at = pending_updated_at (lines \<noteq> []) (map_option pm_last_updated_at previous) observed_at,
                     pm_record = r\<rparr>) (dl_into_pending D d')))))"

definition records_from_pending ::
    "(string \<Rightarrow> 'c option) \<Rightarrow> multiline_mode \<Rightarrow> uplink_gate \<Rightarrow> string list \<Rightarrow> pending_multiline_state option \<Rightarrow> nat
     \<Rightarrow> 'c admitted \<times> uplink_gate \<times> nat" where
  "records_from_pending container mode g drop_if_contains pending next_seq = (case pending of
      None \<Rightarrow> (\<lparr>ad_records = [], ad_dropped_noise = 0\<rparr>, g, next_seq)
    | Some p \<Rightarrow>
        (let completion = (if mode = PostgresCsv then Oversized else Deadline) in
         case admit_with_noise_filter container g (pm_source_path p) [(pm_record p)\<lparr>lr_completion := completion\<rparr>]
                drop_if_contains next_seq of
           (out, dropped, g', n) \<Rightarrow> (\<lparr>ad_records = out, ad_dropped_noise = dropped\<rparr>, g', n)))"

definition flush_pending_if_source_changes ::
    "(string \<Rightarrow> 'c option) \<Rightarrow> multiline_mode \<Rightarrow> uplink_gate \<Rightarrow> string list \<Rightarrow> pending_multiline_state option \<Rightarrow> string \<Rightarrow> nat
     \<Rightarrow> 'c admitted \<times> pending_multiline_state option \<times> uplink_gate \<times> nat" where
  "flush_pending_if_source_changes container mode g drop_if_contains pending next_source_path next_seq =
    (case pending of
      Some p \<Rightarrow>
        (if pm_source_path p \<noteq> next_source_path then
           (case records_from_pending container mode g drop_if_contains pending next_seq of (a, g', n) \<Rightarrow> (a, None, g', n))
         else (\<lparr>ad_records = [], ad_dropped_noise = 0\<rparr>, pending, g, next_seq))
    | None \<Rightarrow> (\<lparr>ad_records = [], ad_dropped_noise = 0\<rparr>, None, g, next_seq))"

definition rebind_pending_source_on_rotate ::
    "pending_multiline_state option \<Rightarrow> string \<Rightarrow> string \<Rightarrow> pending_multiline_state option" where
  "rebind_pending_source_on_rotate pending previous_source_path rotated_path = (case pending of
      Some p \<Rightarrow> Some (if pm_source_path p = previous_source_path then p\<lparr>pm_source_path := rotated_path\<rparr> else p)
    | None \<Rightarrow> None)"

text \<open>Timestamps are parsed by a library; a parsed time is a number of nanoseconds.\<close>

definition pending_should_flush ::
    "(string \<Rightarrow> int option) \<Rightarrow> multiline_mode \<Rightarrow> pending_multiline_state option \<Rightarrow> string \<Rightarrow> bool" where
  "pending_should_flush parse_time mode pending observed_at = (case pending of
      None \<Rightarrow> False
    | Some p \<Rightarrow>
        (let idle_ms = (if mode = PostgresCsv then 60000 else 1000) in
         case parse_time (pm_last_updated_at p) of
           None \<Rightarrow> True
         | Some updated \<Rightarrow> (case parse_time observed_at of
             None \<Rightarrow> True
           | Some now \<Rightarrow> idle_ms * 1000000 \<le> now - updated)))"

text \<open>The reference scanner: quotes toggle, a newline ends the row when the number of quotes before it is even.\<close>

fun csv_parity :: "string \<Rightarrow> bool \<Rightarrow> bool \<times> bool" where
  "csv_parity [] q = (False, q)"
| "csv_parity (c # cs) q =
    (case csv_parity cs (if c = quote then \<not> q else q) of (ended, q') \<Rightarrow> (ended \<or> c = newline \<and> \<not> q, q'))"

definition csv_row :: "string \<Rightarrow> bool" where
  "csv_row body \<longleftrightarrow> body \<noteq> [] \<and> last body = newline \<and> csv_parity (butlast body) False = (False, False)"

definition csv_open :: "string \<Rightarrow> bool" where
  "csv_open body \<longleftrightarrow> fst (csv_parity body False) = False"

subsection \<open>The scanner\<close>

lemma newline_not_quote [simp]: "newline \<noteq> quote" "quote \<noteq> newline"
  by (simp_all add: newline_def quote_def)

lemma scan_csv_parity: "scan_csv bs q = csv_parity bs q"
proof (induction bs q rule: scan_csv.induct)
  case (2 c cs q)
  show ?case
  proof (cases "c = quote \<and> q \<and> take 1 cs = [quote]")
    case True
    then obtain rest where "cs = quote # rest" by (cases cs) auto
    then show ?thesis using 2 True by (auto split: prod.splits)
  next
    case False then show ?thesis using 2 by (auto split: prod.splits)
  qed
qed simp

lemma csv_parity_append:
  "csv_parity (xs @ ys) q =
    (fst (csv_parity xs q) \<or> fst (csv_parity ys (snd (csv_parity xs q))), snd (csv_parity ys (snd (csv_parity xs q))))"
  by (induction xs arbitrary: q) (auto split: prod.splits)

lemma csv_parity_no_newline: "newline \<notin> set xs \<Longrightarrow> fst (csv_parity xs q) = False"
  by (induction xs arbitrary: q) (auto simp: case_prod_beta)

text \<open>A line is text whose only newline is its last character; it closes the row exactly when the quotes are
  balanced there.\<close>

lemma line_closes:
  assumes "complete_line text"
  shows "csv_parity text q = (\<not> snd (csv_parity (butlast text) q), snd (csv_parity (butlast text) q))"
proof -
  obtain x where x: "text = x @ [newline]" "newline \<notin> set x" by (rule complete_lineE[OF assms])
  then show ?thesis using csv_parity_no_newline[OF x(2)] by (simp add: csv_parity_append)
qed

subsection \<open>CSV folding\<close>

text \<open>The invariant of the CSV fold: the quote state in hand is the one of the text in hand, which holds no
  finished row.\<close>

definition csv_inv :: "csv_state \<Rightarrow> bool" where
  "csv_inv st \<longleftrightarrow> (\<forall>r q. cv_current st = Some (r, q) \<longrightarrow> csv_parity (lr_body r) False = (False, q)) \<and>
     (cv_discarding st \<longrightarrow> cv_current st = None) \<and>
     (\<forall>r\<in>set (cv_sealed st). lr_completion r = Boundary \<longrightarrow> csv_row (lr_body r)) \<and>
     (\<forall>r\<in>set (cv_sealed st). lr_completion r \<noteq> Deadline)"

lemma csv_extend_simps [simp]:
  "lr_body (csv_extend line r) = lr_body r @ rw_text line" "lr_lines (csv_extend line r) = lr_lines r + 1"
  "lr_end_offset (csv_extend line r) = rw_end_offset line" "lr_start_offset (csv_extend line r) = lr_start_offset r"
  by (simp_all add: csv_extend_def)

lemma complete_ends: "complete_line text \<Longrightarrow> ends_with [newline] text"
  by (auto simp: ends_with_def suffix_def elim!: complete_lineE)

lemma row_closed:
  assumes "csv_parity body False = (False, q)" "complete_line text" "fst (csv_parity text q)"
  shows "csv_row (body @ text)"
proof -
  obtain x where x: "text = x @ [newline]" "newline \<notin> set x" by (rule complete_lineE[OF assms(2)])
  have "snd (csv_parity x q) = False" using assms(2,3) line_closes[OF assms(2), of q] x by simp
  then show ?thesis using x assms(1) csv_parity_no_newline[OF x(2), of q]
    by (auto simp: csv_row_def butlast_append csv_parity_append prod_eq_iff)
qed

lemma row_open:
  assumes "csv_parity body False = (False, q)" "\<not> fst (csv_parity text q)"
  shows "csv_parity (body @ text) False = (False, snd (csv_parity text q))"
  using assms by (simp add: csv_parity_append)

lemma csv_inv_step:
  assumes "csv_inv st" "complete_line (rw_text line)"
  shows "csv_inv (csv_step st line)"
proof -
  define acc where "acc = (case cv_current st of Some acc \<Rightarrow> acc | None \<Rightarrow> csv_begin line)"
  have acc: "csv_parity (lr_body (fst acc)) False = (False, snd acc)"
    using assms(1) by (auto simp: acc_def csv_inv_def csv_begin_def split: option.splits)
  have "csv_row (lr_body (fst acc) @ rw_text line)" if "fst (csv_parity (rw_text line) (snd acc))"
    by (rule row_closed[OF acc assms(2) that])
  moreover have "csv_parity (lr_body (fst acc) @ rw_text line) False = (False, snd (csv_parity (rw_text line) (snd acc)))"
    if "\<not> fst (csv_parity (rw_text line) (snd acc))" by (rule row_open[OF acc that])
  ultimately show ?thesis
    using assms(1) complete_ends[OF assms(2)]
    unfolding csv_step_def acc_def[symmetric]
    by (auto simp: csv_inv_def scan_csv_parity split: prod.splits option.splits)
qed

lemma csv_inv_run:
  "csv_inv st \<Longrightarrow> \<forall>line\<in>set lines. complete_line (rw_text line) \<Longrightarrow> csv_inv (foldl csv_step st lines)"
  by (induction lines arbitrary: st) (auto simp: csv_inv_step)

definition in_hand :: "csv_state \<Rightarrow> string" where
  "in_hand st = (case cv_current st of Some (r, _) \<Rightarrow> lr_body r | None \<Rightarrow> [])"

definition csv_bytes :: "csv_state \<Rightarrow> string" where
  "csv_bytes st = concat (map lr_body (cv_sealed st)) @ in_hand st"

definition none_oversized :: "delimited_record list \<Rightarrow> bool" where
  "none_oversized rs \<longleftrightarrow> (\<forall>r\<in>set rs. lr_completion r \<noteq> Oversized)"

lemma csv_sealed_grows: "\<exists>more. cv_sealed (foldl csv_step st lines) = cv_sealed st @ more"
proof (induction lines arbitrary: st)
  case (Cons line lines)
  have "\<exists>more. cv_sealed (csv_step st line) = cv_sealed st @ more"
    by (auto simp: csv_step_def Let_def split: prod.splits option.splits)
  then show ?case using Cons.IH[of "csv_step st line"] by auto
qed simp

lemma csv_step_keeps:
  assumes "complete_line (rw_text line)" "\<not> cv_discarding st" "none_oversized (cv_sealed (csv_step st line))"
  shows "csv_bytes (csv_step st line) = csv_bytes st @ rw_text line \<and> \<not> cv_discarding (csv_step st line)"
  using assms complete_ends[OF assms(1)]
  by (cases "cv_current st")
    (auto simp: csv_step_def csv_bytes_def in_hand_def none_oversized_def csv_begin_def split: prod.splits if_splits)

lemma csv_lossless:
  assumes "\<forall>line\<in>set lines. complete_line (rw_text line)" "\<not> cv_discarding st"
    and "none_oversized (cv_sealed (foldl csv_step st lines))"
  shows "csv_bytes (foldl csv_step st lines) = csv_bytes st @ concat (map rw_text lines) \<and>
    \<not> cv_discarding (foldl csv_step st lines)"
  using assms
proof (induction lines arbitrary: st)
  case (Cons line lines)
  obtain more where "cv_sealed (foldl csv_step (csv_step st line) lines) = cv_sealed (csv_step st line) @ more"
    using csv_sealed_grows by blast
  then have "none_oversized (cv_sealed (csv_step st line))" using Cons.prems(3) by (auto simp: none_oversized_def)
  then have step: "csv_bytes (csv_step st line) = csv_bytes st @ rw_text line" "\<not> cv_discarding (csv_step st line)"
    using csv_step_keeps[of line st] Cons.prems(1,2) by auto
  from Cons.IH[OF _ step(2)] Cons.prems step(1) show ?case by simp
qed simp

definition csv_sim :: "delimited_record list \<Rightarrow> csv_state \<Rightarrow> csv_state \<Rightarrow> bool" where
  "csv_sim pre a b \<longleftrightarrow> cv_current a = cv_current b \<and> cv_discarding a = cv_discarding b \<and>
     (cv_discarding a \<longrightarrow> cv_discarding_in_quotes a = cv_discarding_in_quotes b) \<and> cv_sealed a = pre @ cv_sealed b"

lemma csv_sim_run: "csv_sim pre a b \<Longrightarrow> csv_sim pre (foldl csv_step a lines) (foldl csv_step b lines)"
proof (induction lines arbitrary: a b)
  case (Cons line lines)
  have "csv_sim pre (csv_step a line) (csv_step b line)"
    using Cons.prems by (auto simp: csv_sim_def csv_step_def Let_def split: prod.splits option.splits)
  then show ?case using Cons.IH by simp
qed simp

lemma csv_inv_init:
  "(\<And>p. same_source path pending = Some p \<Longrightarrow> csv_open (lr_body (pm_record p))) \<Longrightarrow> csv_inv (csv_init path pending)"
  by (auto simp: csv_inv_def csv_init_def csv_resume_def scan_csv_parity csv_open_def same_source_def prod_eq_iff
      split: option.splits if_splits)

lemma fold_csv_batches:
  assumes complete: "\<forall>line\<in>set (xs @ ys). complete_line (rw_text line)"
    and inv: "csv_inv (csv_init path pending)"
    and first: "fold_csv path xs pending t1 = (out1, p1)" "none_oversized out1"
    and second: "fold_csv path ys p1 t2 = (out2, p2)"
  shows "fst (fold_csv path (xs @ ys) pending t3) = out1 @ out2 \<and>
    map_option pm_record (snd (fold_csv path (xs @ ys) pending t3)) = map_option pm_record p2"
proof -
  define st where "st = foldl csv_step (csv_init path pending) xs"
  have out1: "out1 = cv_sealed st" and p1: "map_option pm_record p1 = map_option fst (cv_current st)"
      "\<And>p. p1 = Some p \<Longrightarrow> pm_source_path p = path"
    using first(1) by (auto simp: fold_csv_def Let_def st_def map_option_case split: option.splits)
  have st: "csv_inv st" unfolding st_def by (rule csv_inv_run[OF inv]) (use complete in auto)
  have nd: "\<not> cv_discarding st"
    using csv_lossless[of xs "csv_init path pending"] complete first(2) out1 by (simp add: st_def csv_init_def)
  have "cv_current (csv_init path p1) = cv_current st"
    using st p1 by (cases "cv_current st") (auto simp: csv_init_def csv_resume_def scan_csv_parity csv_inv_def)
  then have "csv_sim out1 st (csv_init path p1)" using nd out1 by (simp add: csv_sim_def csv_init_def)
  from csv_sim_run[OF this, of ys] second show ?thesis
    by (auto simp: fold_csv_def Let_def csv_sim_def foldl_append st_def map_option_case split: option.splits)
qed

subsection \<open>The gate\<close>

lemma parse_delimited_length:
  "snd (parse_delimited_records container g path rs n) = n + length rs \<and>
   map tr_seq (fst (parse_delimited_records container g path rs n)) = [n..<n + length rs] \<and>
   map tr_body (fst (parse_delimited_records container g path rs n)) = map lr_body rs"
  by (induction rs arbitrary: n) (simp_all add: case_prod_beta upt_conv_Cons del: upt_Suc)

lemma admit_spec:
  assumes "admit container g path rs n = (out, g', n')"
  shows "map tr_seq out = [n..<n'] \<and> map tr_body out = map lr_body (filter (\<lambda>r. \<not> withholds r) rs) \<and>
    n' = n + length out"
  using assms parse_delimited_length[of container g path "filter (\<lambda>r. \<not> withholds r) rs" n]
  by (auto simp: admit_def Let_def split: prod.splits) (metis length_map)

lemma admit_withheld:
  "admit container g path rs n = (out, g', n') \<Longrightarrow>
   wh_records (ug_withheld g') = wh_records (ug_withheld g) + length (filter withholds rs)"
proof -
  have "wh_records (ug_withheld (fold (\<lambda>r g. if withholds r then withhold g r else g) rs g)) =
      wh_records (ug_withheld g) + length (filter withholds rs)"
    by (induction rs arbitrary: g) (simp_all add: withhold_def)
  then show "admit container g path rs n = (out, g', n') \<Longrightarrow> ?thesis" by (auto simp: admit_def Let_def split: prod.splits)
qed

lemma noise_filter_spec:
  assumes "admit_with_noise_filter container g path folded needles n = (out, dropped, g', n')"
  shows "map tr_seq out = [n..<n'] \<and> n' = n + length out \<and>
    map tr_body out = map lr_body (filter (\<lambda>r. \<not> withholds r \<and> \<not> is_noise (lr_body r) needles) folded) \<and>
    dropped = length (filter (\<lambda>r. is_noise (lr_body r) needles) folded)"
proof (cases "needles = []")
  case True
  then show ?thesis using assms admit_spec[of container g path folded n out g' n']
    by (auto simp: admit_with_noise_filter_def is_noise_def split: prod.splits)
next
  case False
  let ?kept = "filter (\<lambda>r. \<not> is_noise (lr_body r) needles) folded"
  have "length folded - length ?kept = length (filter (\<lambda>r. is_noise (lr_body r) needles) folded)"
    using sum_length_filter_compl[of "\<lambda>r. is_noise (lr_body r) needles" folded] by simp
  then show ?thesis using assms False admit_spec[of container g path ?kept n out g' n']
    by (auto simp: admit_with_noise_filter_def Let_def conj_commute split: prod.splits)
qed

end
