(* ===== verification/LogDelivery.thy ===== *)
theory LogDelivery
  imports LogFold "HOL-Library.Multiset" "HOL-Library.Sublist"
begin

text \<open>
  Delivery of telemetry records: the in-memory budget of \<open>src/telemetry/buffer.rs\<close>, the spool file of
  \<open>src/telemetry/spool.rs\<close> and the delivery of \<open>src/telemetry/logs/files/delivery_support.rs\<close>.

  The world is the contents of the spool file and of its quarantine file, what the sink has received, and how
  often the sink and the spool were written.  The JSON codec of the records, the sink's answers (a failing
  sink may have taken a prefix of the batch) and the outcome of every file operation are the environment; an
  append may stop after any number of bytes.  The lemmas show that staging partitions the records within the
  budget, that delivery loses nothing it accepts, and that replay delivers the spool in order or keeps it.
\<close>

subsection \<open>Model\<close>

record 'c stage_result =
  sg_staged :: "'c telemetry_record list"
  sg_overflowed :: "'c telemetry_record list"

definition estimate_record_size :: "'c telemetry_record \<Rightarrow> nat" where
  "estimate_record_size r =
    length (tr_body r) + length (tr_input_id r) + length (tr_source_path r) + length (tr_agent_id r) + 64"

record 'c telemetry_buffer =
  tb_max_bytes :: nat
  tb_used_bytes :: nat
  tb_staged :: "'c telemetry_record list"

definition telemetry_buffer_new :: "nat \<Rightarrow> 'c telemetry_buffer" where
  "telemetry_buffer_new max_bytes = \<lparr>tb_max_bytes = max_bytes, tb_used_bytes = 0, tb_staged = []\<rparr>"

fun stage_loop ::
    "'c telemetry_buffer \<Rightarrow> 'c telemetry_record list \<Rightarrow> 'c telemetry_record list \<Rightarrow> 'c telemetry_buffer \<times> 'c telemetry_record list" where
  "stage_loop b overflowed [] = (b, overflowed)"
| "stage_loop b overflowed (r # rs) =
    (if tb_max_bytes b < tb_used_bytes b + estimate_record_size r then stage_loop b (overflowed @ [r]) rs
     else stage_loop (b\<lparr>tb_used_bytes := tb_used_bytes b + estimate_record_size r, tb_staged := tb_staged b @ [r]\<rparr>)
            overflowed rs)"

definition stage_all :: "'c telemetry_buffer \<Rightarrow> 'c telemetry_record list \<Rightarrow> 'c stage_result \<times> 'c telemetry_buffer" where
  "stage_all b records = (case stage_loop b [] records of (b', overflowed) \<Rightarrow>
     (\<lparr>sg_staged = tb_staged b', sg_overflowed = overflowed\<rparr>, b'\<lparr>tb_staged := []\<rparr>))"

datatype sink_answer = SinkOk | SinkErr nat string

datatype append_fault = OpenFails io_kind | WriteFails nat io_kind

record 'c delivery_env =
  de_encode :: "'c telemetry_record \<Rightarrow> string option"
  de_parse :: "string \<Rightarrow> 'c telemetry_record option"
  de_sink :: "nat \<Rightarrow> sink_answer"
  de_append :: "nat \<Rightarrow> append_fault option"
  de_stat_err :: "io_kind option"
  de_open_err :: "io_kind option"
  de_remove_err :: "io_kind option"
  de_bad_err :: "io_kind option"
  de_capacity :: "nat \<Rightarrow> nat"

record 'c delivery_world =
  dw_spool :: "string option"
  dw_bad :: string
  dw_sent :: "'c telemetry_record list"
  dw_sink_calls :: nat
  dw_appends :: nat

type_synonym ('c, 'a) delivery_op = "('c delivery_world, 'a) op"

definition sink_write :: "'c delivery_env \<Rightarrow> 'c telemetry_record list \<Rightarrow> ('c, unit) delivery_op" where
  "sink_write e records w = (case de_sink e (dw_sink_calls w) of
      SinkOk \<Rightarrow> (Inr (), w\<lparr>dw_sent := dw_sent w @ records, dw_sink_calls := dw_sink_calls w + 1\<rparr>)
    | SinkErr n msg \<Rightarrow>
        (Inl (IoError OtherKind msg), w\<lparr>dw_sent := dw_sent w @ take n records, dw_sink_calls := dw_sink_calls w + 1\<rparr>))"

text \<open>The bytes an append writes, up to the first record that cannot be encoded.\<close>

fun encode_records :: "'c delivery_env \<Rightarrow> 'c telemetry_record list \<Rightarrow> string \<times> bool" where
  "encode_records e [] = ([], True)"
| "encode_records e (r # rs) = (case de_encode e r of
      None \<Rightarrow> ([], False)
    | Some line \<Rightarrow> (case encode_records e rs of (bytes, ok) \<Rightarrow> (line @ [newline] @ bytes, ok)))"

definition append_records_async :: "'c delivery_env \<Rightarrow> 'c telemetry_record list \<Rightarrow> ('c, unit) delivery_op" where
  "append_records_async e records w =
    (if records = [] then (Inr (), w)
     else (case encode_records e records of (bytes, ok) \<Rightarrow>
       (let old = unwrap_or [] (dw_spool w); w' = w\<lparr>dw_appends := dw_appends w + 1\<rparr> in
        case de_append e (dw_appends w) of
          Some (OpenFails k) \<Rightarrow> (Inl (IoError k ''open''), w')
        | Some (WriteFails n k) \<Rightarrow> (Inl (IoError k ''write''), w'\<lparr>dw_spool := Some (old @ take n bytes)\<rparr>)
        | None \<Rightarrow>
            (if ok then Inr () else Inl (IoError OtherKind ''json''), w'\<lparr>dw_spool := Some (old @ bytes)\<rparr>))))"

definition spool_size_async :: "'c delivery_env \<Rightarrow> 'c delivery_world \<Rightarrow> nat res" where
  "spool_size_async e w = (case de_stat_err e of
      Some k \<Rightarrow> Inl (IoError k ''stat'')
    | None \<Rightarrow> Inr (case dw_spool w of Some bytes \<Rightarrow> length bytes | None \<Rightarrow> 0))"

definition has_records_async :: "'c delivery_env \<Rightarrow> 'c delivery_world \<Rightarrow> bool res" where
  "has_records_async e w = (case de_stat_err e of
      Some k \<Rightarrow> Inl (IoError k ''stat'')
    | None \<Rightarrow> Inr (case dw_spool w of Some bytes \<Rightarrow> 0 < length bytes | None \<Rightarrow> False))"

function split_lines :: "string \<Rightarrow> string list" where
  "split_lines bytes = (case position (\<lambda>c. c = newline) bytes of
      None \<Rightarrow> (if bytes = [] then [] else [bytes])
    | Some i \<Rightarrow> take (i + 1) bytes # split_lines (drop (i + 1) bytes))"
  by pat_completeness auto
termination
proof (relation "measure length")
  fix bytes i assume "position (\<lambda>c. c = newline) bytes = Some i"
  from position_Some[OF this] show "(drop (i + 1) bytes, bytes) \<in> measure length" by auto
qed simp

declare split_lines.simps [simp del]

definition strip_eol :: "string \<Rightarrow> string" where
  "strip_eol line = rev (dropWhile (\<lambda>c. c = CHR 0x0D \<or> c = newline) (rev line))"

definition parse_record_line :: "'c delivery_env \<Rightarrow> string \<Rightarrow> 'c telemetry_record option" where
  "parse_record_line e line = de_parse e (strip_eol line)"

definition quarantine_line :: "'c delivery_env \<Rightarrow> string \<Rightarrow> ('c, unit) delivery_op" where
  "quarantine_line e line w = (case de_bad_err e of
      Some k \<Rightarrow> (Inl (IoError k ''bad''), w)
    | None \<Rightarrow> (Inr (), w\<lparr>dw_bad := dw_bad w @ line @ (if ends_with [newline] line then [] else [newline])\<rparr>))"

definition clear_async :: "'c delivery_env \<Rightarrow> ('c, unit) delivery_op" where
  "clear_async e w = (case dw_spool w of
      None \<Rightarrow> (Inr (), w)
    | Some _ \<Rightarrow> (case de_remove_err e of
        Some k \<Rightarrow> (Inl (IoError k ''remove''), w)
      | None \<Rightarrow> (Inr (), w\<lparr>dw_spool := None\<rparr>)))"

fun replay_loop ::
    "'c delivery_env \<Rightarrow> nat \<Rightarrow> string list \<Rightarrow> 'c telemetry_record list \<Rightarrow> nat \<Rightarrow> ('c, nat) delivery_op" where
  "replay_loop e cap [] batch replayed w =
    bind_op (if batch \<noteq> [] then sink_write e batch else return_op ()) (\<lambda>_.
    bind_op (clear_async e) (\<lambda>_. return_op (replayed + length batch))) w"
| "replay_loop e cap (line # lines) batch replayed w =
    (if \<not> utf8_valid line then (Inl (IoError InvalidData ''stream did not contain valid UTF-8''), w)
     else if is_blank line then replay_loop e cap lines batch replayed w
     else (case (case parse_record_line e line of
                   Some r \<Rightarrow> (Inr (batch @ [r]), w)
                 | None \<Rightarrow> (case quarantine_line e line w of (Inl err, w') \<Rightarrow> (Inl err, w') | (Inr _, w') \<Rightarrow> (Inr batch, w'))) of
       (Inl err, w') \<Rightarrow> (Inl err, w')
     | (Inr batch', w') \<Rightarrow>
         (if cap \<le> length batch' then
            (case sink_write e batch' w' of
              (Inl err, w'') \<Rightarrow> (Inl err, w'')
            | (Inr _, w'') \<Rightarrow> replay_loop e cap lines [] (replayed + length batch') w'')
          else replay_loop e cap lines batch' replayed w')))"

definition replay_records_async :: "'c delivery_env \<Rightarrow> nat \<Rightarrow> ('c, nat) delivery_op" where
  "replay_records_async e batch_size w = (case dw_spool w of
      None \<Rightarrow> (Inr 0, w)
    | Some bytes \<Rightarrow> (case de_open_err e of
        Some k \<Rightarrow> (Inl (IoError k ''open''), w)
      | None \<Rightarrow> replay_loop e (de_capacity e (max batch_size 1)) (split_lines bytes) [] 0 w))"

record delivery_outcome =
  do_records_processed :: nat
  do_emitted_directly :: nat
  do_spooled :: nat
  do_sink_error :: "string option"

definition spool_pending :: "'c delivery_env \<Rightarrow> 'c telemetry_record list \<Rightarrow> 'c telemetry_record list \<Rightarrow> ('c, nat) delivery_op" where
  "spool_pending e staged overflowed =
    (let to_spool = staged @ overflowed in
     bind_op (append_records_async e to_spool) (\<lambda>_. return_op (length to_spool)))"

fun error_message :: "io_error \<Rightarrow> string" where
  "error_message (IoError k msg) = msg"

definition deliver_staged :: "'c delivery_env \<Rightarrow> 'c telemetry_record list \<Rightarrow> nat \<Rightarrow> ('c, nat \<times> nat \<times> string option) delivery_op" where
  "deliver_staged e staged spooled w =
    (if staged = [] then (Inr (0, spooled, None), w)
     else (case sink_write e staged w of
       (Inr _, w') \<Rightarrow> (Inr (length staged, spooled, None), w')
     | (Inl err, w') \<Rightarrow>
         (case append_records_async e staged w' of
           (Inl spool_err, w'') \<Rightarrow>
             (Inl (IoError (error_kind spool_err)
                (error_message spool_err @ ''; while buffering records that failed to send: '' @ error_message err)), w'')
         | (Inr _, w'') \<Rightarrow> (Inr (0, spooled + length staged, Some (error_message err)), w''))))"

definition deliver_fresh ::
    "'c delivery_env \<Rightarrow> 'c telemetry_record list \<Rightarrow> 'c telemetry_record list \<Rightarrow> ('c, nat \<times> nat \<times> string option) delivery_op" where
  "deliver_fresh e staged overflowed =
    bind_op (if overflowed \<noteq> [] then append_records_async e overflowed else return_op ())
      (\<lambda>_. deliver_staged e staged (length overflowed))"

definition deliver_records ::
    "'c delivery_env \<Rightarrow> nat \<Rightarrow> 'c telemetry_record list \<Rightarrow> ('c, delivery_outcome) delivery_op" where
  "deliver_records e in_memory_budget_bytes records w =
    (let staged = fst (stage_all (telemetry_buffer_new in_memory_budget_bytes) records);
         finish = (\<lambda>(emitted, spooled, sink_error). return_op
           \<lparr>do_records_processed = length records, do_emitted_directly = emitted, do_spooled = spooled,
            do_sink_error = sink_error\<rparr>)
     in case has_records_async e w of
          Inl err \<Rightarrow> (Inl err, w)
        | Inr True \<Rightarrow> bind_op (spool_pending e (sg_staged staged) (sg_overflowed staged)) (\<lambda>n. finish (0, n, None)) w
        | Inr False \<Rightarrow> bind_op (deliver_fresh e (sg_staged staged) (sg_overflowed staged)) finish w)"

definition replay_spool_if_present :: "'c delivery_env \<Rightarrow> nat \<Rightarrow> ('c, nat) delivery_op" where
  "replay_spool_if_present e batch_size w = (case has_records_async e w of
      Inl err \<Rightarrow> (Inl err, w)
    | Inr False \<Rightarrow> (Inr 0, w)
    | Inr True \<Rightarrow> replay_records_async e batch_size w)"


subsection \<open>Staging\<close>

lemma stage_loop_partition:
  assumes "stage_loop b overflowed rs = (b', overflowed')"
  shows "\<exists>st ov. tb_staged b' = tb_staged b @ st \<and> overflowed' = overflowed @ ov \<and> mset st + mset ov = mset rs
    \<and> subseq st rs \<and> subseq ov rs \<and> tb_used_bytes b' = tb_used_bytes b + sum_list (map estimate_record_size st)
    \<and> tb_max_bytes b' = tb_max_bytes b \<and> (tb_used_bytes b \<le> tb_max_bytes b \<longrightarrow> tb_used_bytes b' \<le> tb_max_bytes b)"
  using assms
proof (induction rs arbitrary: b overflowed)
  case (Cons r rs)
  show ?case
  proof (cases "tb_max_bytes b < tb_used_bytes b + estimate_record_size r")
    case True
    then have "stage_loop b (overflowed @ [r]) rs = (b', overflowed')" using Cons.prems by simp
    from Cons.IH[OF this] obtain st ov where "tb_staged b' = tb_staged b @ st" "overflowed' = (overflowed @ [r]) @ ov"
      "mset st + mset ov = mset rs" "subseq st rs" "subseq ov rs"
      "tb_used_bytes b' = tb_used_bytes b + sum_list (map estimate_record_size st)" "tb_max_bytes b' = tb_max_bytes b"
      "tb_used_bytes b \<le> tb_max_bytes b \<longrightarrow> tb_used_bytes b' \<le> tb_max_bytes b"
      by blast
    then show ?thesis by (intro exI[of _ st] exI[of _ "r # ov"]) auto
  next
    case False
    let ?b = "b\<lparr>tb_used_bytes := tb_used_bytes b + estimate_record_size r, tb_staged := tb_staged b @ [r]\<rparr>"
    have "stage_loop ?b overflowed rs = (b', overflowed')" using Cons.prems False by simp
    from Cons.IH[OF this] obtain st ov where "tb_staged b' = tb_staged ?b @ st" "overflowed' = overflowed @ ov"
      "mset st + mset ov = mset rs" "subseq st rs" "subseq ov rs"
      "tb_used_bytes b' = tb_used_bytes ?b + sum_list (map estimate_record_size st)" "tb_max_bytes b' = tb_max_bytes ?b"
      "tb_used_bytes ?b \<le> tb_max_bytes ?b \<longrightarrow> tb_used_bytes b' \<le> tb_max_bytes ?b"
      by blast
    then show ?thesis using False by (intro exI[of _ "r # st"] exI[of _ ov]) auto
  qed
qed auto

lemma stage_all_partition:
  fixes rs :: "'c telemetry_record list" and n :: nat
  defines "s \<equiv> fst (stage_all (telemetry_buffer_new n) rs)"
  shows "mset (sg_staged s) + mset (sg_overflowed s) = mset rs" "subseq (sg_staged s) rs" "subseq (sg_overflowed s) rs"
    "sum_list (map estimate_record_size (sg_staged s)) \<le> n"
proof -
  obtain b ov where l: "stage_loop (telemetry_buffer_new n) [] rs = (b, ov)" by fastforce
  from stage_loop_partition[OF l] show "mset (sg_staged s) + mset (sg_overflowed s) = mset rs"
    "subseq (sg_staged s) rs" "subseq (sg_overflowed s) rs" "sum_list (map estimate_record_size (sg_staged s)) \<le> n"
    unfolding s_def by (auto simp: stage_all_def telemetry_buffer_new_def l[unfolded telemetry_buffer_new_def])
qed

subsection \<open>The spool as a list of records\<close>

definition usable :: "'c delivery_env \<Rightarrow> string \<Rightarrow> 'c telemetry_record option" where
  "usable e line = (if is_blank line then None else parse_record_line e line)"

definition spool_records :: "'c delivery_env \<Rightarrow> string \<Rightarrow> 'c telemetry_record list" where
  "spool_records e bytes = List.map_filter (usable e) (split_lines bytes)"

definition backlog :: "'c delivery_env \<Rightarrow> 'c delivery_world \<Rightarrow> 'c telemetry_record list" where
  "backlog e w = (case dw_spool w of None \<Rightarrow> [] | Some bytes \<Rightarrow> spool_records e bytes)"

definition bad_line :: "'c delivery_env \<Rightarrow> string \<Rightarrow> bool" where
  "bad_line e line \<longleftrightarrow> \<not> is_blank line \<and> parse_record_line e line = None"

definition line_ended :: "string \<Rightarrow> bool" where
  "line_ended bytes \<longleftrightarrow> bytes = [] \<or> last bytes = newline"

definition spool_intact :: "'c delivery_world \<Rightarrow> bool" where
  "spool_intact w \<longleftrightarrow> line_ended (unwrap_or [] (dw_spool w))"

text \<open>What the codec promises of a record: one line of text that parses back.\<close>

definition codec_ok :: "'c delivery_env \<Rightarrow> 'c telemetry_record \<Rightarrow> bool" where
  "codec_ok e r \<longleftrightarrow> (case de_encode e r of
      None \<Rightarrow> False
    | Some line \<Rightarrow> newline \<notin> set line \<and> CHR 0x0D \<notin> set line \<and> \<not> is_blank (line @ [newline]) \<and> utf8_valid (line @ [newline])
        \<and> de_parse e line = Some r)"

lemma split_lines_Nil [simp]: "split_lines [] = []"
  by (subst split_lines.simps) simp

lemma position_append_here: "newline \<notin> set l \<Longrightarrow> position (\<lambda>c. c = newline) (l @ newline # rest) = Some (length l)"
  by (induction l) auto

lemma split_lines_line:
  assumes "newline \<notin> set l"
  shows "split_lines (l @ newline # rest) = (l @ [newline]) # split_lines rest"
  using position_append_here[OF assms] by (subst split_lines.simps) simp

lemma line_ended_split:
  assumes "line_ended bytes" "bytes \<noteq> []"
  obtains l rest where "bytes = l @ newline # rest" "newline \<notin> set l" "line_ended rest" "length rest < length bytes"
proof -
  from assms have "newline \<in> set bytes" unfolding line_ended_def by (metis last_in_set)
  then obtain l rest where s: "bytes = l @ newline # rest" "newline \<notin> set l" by (meson split_list_first)
  with assms have "line_ended rest" unfolding line_ended_def by (auto split: if_splits)
  with s that show thesis by simp
qed

lemma split_lines_append:
  "line_ended bytes \<Longrightarrow> split_lines (bytes @ later) = split_lines bytes @ split_lines later"
proof (induction "length bytes" arbitrary: bytes rule: less_induct)
  case less
  show ?case
  proof (cases "bytes = []")
    case False
    from line_ended_split[OF less.prems this] obtain l rest where
      s: "bytes = l @ newline # rest" "newline \<notin> set l" "line_ended rest" "length rest < length bytes" .
    have "split_lines (rest @ later) = split_lines rest @ split_lines later" using less.hyps[OF s(4) s(3)] .
    then show ?thesis unfolding s(1) using split_lines_line[OF s(2)] by simp
  qed simp
qed

lemma strip_eol_line: "newline \<notin> set l \<Longrightarrow> CHR 0x0D \<notin> set l \<Longrightarrow> strip_eol (l @ [newline]) = l"
proof -
  assume a: "newline \<notin> set l" "CHR 0x0D \<notin> set l"
  have "dropWhile (\<lambda>c. c = CHR 0x0D \<or> c = newline) (rev l) = rev l"
    using a by (cases "rev l") (auto simp: dropWhile_eq_self_iff dest: arg_cong[of _ _ set])
  then show ?thesis unfolding strip_eol_def by simp
qed

lemma encode_records_lines:
  assumes "list_all (codec_ok e) rs" "encode_records e rs = (bytes, ok)"
  shows "ok \<and> spool_records e bytes = rs \<and> line_ended bytes \<and> list_all utf8_valid (split_lines bytes) \<and> (rs \<noteq> [] \<longrightarrow> bytes \<noteq> [])"
  using assms
proof (induction rs arbitrary: bytes ok)
  case (Cons r rs)
  from Cons.prems(1) obtain line where line: "de_encode e r = Some line" "newline \<notin> set line" "CHR 0x0D \<notin> set line"
    "\<not> is_blank (line @ [newline])" "utf8_valid (line @ [newline])" "de_parse e line = Some r"
    unfolding codec_ok_def by (auto split: option.splits)
  obtain tail ok' where tl: "encode_records e rs = (tail, ok')" by fastforce
  with Cons have ih: "ok'" "spool_records e tail = rs" "line_ended tail" "list_all utf8_valid (split_lines tail)" by auto
  from Cons.prems(2) line(1) tl have b: "bytes = line @ newline # tail" "ok = ok'" by auto
  have u: "usable e (line @ [newline]) = Some r"
    using line(4,6) strip_eol_line[OF line(2,3)] unfolding usable_def parse_record_line_def by simp
  have sp: "split_lines bytes = (line @ [newline]) # split_lines tail" unfolding b(1) by (rule split_lines_line[OF line(2)])
  have "spool_records e bytes = r # rs" using u ih(2) unfolding spool_records_def sp by (simp add: map_filter_simps)
  moreover have "line_ended bytes" using ih(3) unfolding b(1) line_ended_def by (cases "tail = []") auto
  ultimately show ?case using ih(1,4) b line(5) sp by simp
qed (simp add: spool_records_def map_filter_simps line_ended_def)

lemma append_records_backlog:
  assumes "append_records_async e rs w = (Inr (), w')" "list_all (codec_ok e) rs" "spool_intact w"
  shows "backlog e w' = backlog e w @ rs \<and> spool_intact w' \<and> dw_sent w' = dw_sent w"
proof (cases "rs = []")
  case False
  obtain bytes ok where enc: "encode_records e rs = (bytes, ok)" by fastforce
  from encode_records_lines[OF assms(2) enc] have b: "ok" "spool_records e bytes = rs" "line_ended bytes" "bytes \<noteq> []"
    using False by auto
  from assms(1) False enc have w': "w' = w\<lparr>dw_appends := dw_appends w + 1, dw_spool := Some (unwrap_or [] (dw_spool w) @ bytes)\<rparr>"
    by (auto simp: append_records_async_def Let_def split: option.splits append_fault.splits)
  have "spool_records e (unwrap_or [] (dw_spool w) @ bytes) = backlog e w @ rs"
    using split_lines_append[of "unwrap_or [] (dw_spool w)" bytes] assms(3) b(2)
    unfolding spool_intact_def backlog_def spool_records_def
    by (cases "dw_spool w") (auto simp: map_filter_simps List.map_filter_def)
  then show ?thesis using b(3,4) unfolding w' spool_intact_def line_ended_def backlog_def by simp
qed (use assms in \<open>simp add: append_records_async_def\<close>)

lemma append_records_sent: "dw_sent (snd (append_records_async e rs w)) = dw_sent w"
  unfolding append_records_async_def by (auto simp: Let_def split: option.splits append_fault.splits prod.splits)

lemma append_records_ok:
  assumes "list_all (codec_ok e) rs" "de_append e (dw_appends w) = None"
  shows "fst (append_records_async e rs w) = Inr ()"
proof -
  obtain bytes ok where enc: "encode_records e rs = (bytes, ok)" by fastforce
  from encode_records_lines[OF assms(1) enc] have "ok" by simp
  with enc assms(2) show ?thesis by (simp add: append_records_async_def)
qed


subsection \<open>Replay\<close>

definition bad_entry :: "string \<Rightarrow> string" where
  "bad_entry line = line @ (if ends_with [newline] line then [] else [newline])"

definition replay_post ::
    "'c delivery_env \<Rightarrow> string list \<Rightarrow> 'c telemetry_record list \<Rightarrow> nat \<Rightarrow> 'c delivery_world \<Rightarrow> nat res \<Rightarrow> 'c delivery_world \<Rightarrow> bool" where
  "replay_post e lines batch n w r w' \<longleftrightarrow> (let all = batch @ List.map_filter (usable e) lines in
     (\<forall>m. r = Inr m \<longrightarrow> dw_sent w' = dw_sent w @ all \<and> dw_spool w' = None \<and> m = n + length all
        \<and> dw_bad w' = dw_bad w @ concat (map bad_entry (filter (bad_line e) lines)) \<and> list_all utf8_valid lines)
   \<and> (\<forall>err. r = Inl err \<longrightarrow> dw_spool w' = dw_spool w \<and> (\<exists>p. prefix p all \<and> dw_sent w' = dw_sent w @ p)))"

lemma sink_write_cases:
  obtains (ok) "sink_write e rs w = (Inr (), w\<lparr>dw_sent := dw_sent w @ rs, dw_sink_calls := dw_sink_calls w + 1\<rparr>)"
    | (err) n msg where "sink_write e rs w = (Inl (IoError OtherKind msg), w\<lparr>dw_sent := dw_sent w @ take n rs, dw_sink_calls := dw_sink_calls w + 1\<rparr>)"
  by (cases "de_sink e (dw_sink_calls w)") (auto simp: sink_write_def)

lemma clear_cases:
  obtains (ok) "clear_async e w = (Inr (), w\<lparr>dw_spool := None\<rparr>)" | (err) k where "clear_async e w = (Inl (IoError k ''remove''), w)"
  by (cases "dw_spool w"; cases "de_remove_err e") (auto simp: clear_async_def)

lemma replay_loop_end:
  assumes "replay_loop e cap [] batch n w = (r, w')"
  shows "replay_post e [] batch n w r w'"
proof (cases "batch = []")
  case True
  then show ?thesis using assms
    by (cases rule: clear_cases[of e w]) (auto simp: replay_post_def map_filter_simps bind_op_def return_op_def)
next
  case False
  let ?w = "w\<lparr>dw_sent := dw_sent w @ batch, dw_sink_calls := dw_sink_calls w + 1\<rparr>"
  show ?thesis
  proof (cases rule: sink_write_cases[of e batch w])
    case ok
    then show ?thesis using assms False
      by (cases rule: clear_cases[of e ?w]) (auto simp: replay_post_def map_filter_simps bind_op_def return_op_def)
  next
    case (err k msg)
    then show ?thesis using assms False
      by (auto simp: replay_post_def map_filter_simps bind_op_def return_op_def take_is_prefix)
  qed
qed

lemma replay_post_skip:
  assumes "replay_post e lines batch n w r w'" "utf8_valid line" "is_blank line"
  shows "replay_post e (line # lines) batch n w r w'"
  using assms by (simp add: replay_post_def Let_def map_filter_simps usable_def bad_line_def)

lemma replay_post_bad:
  assumes "replay_post e lines batch n (w\<lparr>dw_bad := dw_bad w @ bad_entry line\<rparr>) r w'" "utf8_valid line" "bad_line e line"
  shows "replay_post e (line # lines) batch n w r w'"
  using assms by (simp add: replay_post_def Let_def map_filter_simps usable_def bad_line_def)

lemma replay_post_good:
  assumes "replay_post e lines (batch @ [rec]) n w r w'" "utf8_valid line" "usable e line = Some rec"
  shows "replay_post e (line # lines) batch n w r w'"
proof -
  have "\<not> bad_line e line" using assms(3) by (auto simp: usable_def bad_line_def split: if_splits)
  with assms show ?thesis by (simp add: replay_post_def Let_def map_filter_simps)
qed

lemma replay_post_flush:
  assumes "replay_post e lines [] (n + length batch) (w\<lparr>dw_sent := dw_sent w @ batch, dw_sink_calls := c\<rparr>) r w'"
  shows "replay_post e lines batch n w r w'"
  using assms unfolding replay_post_def Let_def
  by (auto simp: add.assoc)

lemma replay_post_stop:
  assumes "prefix p batch" "dw_spool w' = dw_spool w" "dw_sent w' = dw_sent w @ p"
  shows "replay_post e lines batch n w (Inl err) w'"
  using assms unfolding replay_post_def Let_def by (auto intro: prefix_prefix)

lemma replay_loop_good:
  assumes "utf8_valid line" "\<not> is_blank line" "parse_record_line e line = Some rec"
  shows "replay_loop e cap (line # lines) batch n w =
    (if cap \<le> length (batch @ [rec]) then
       (case sink_write e (batch @ [rec]) w of
         (Inl err, w'') \<Rightarrow> (Inl err, w'')
       | (Inr _, w'') \<Rightarrow> replay_loop e cap lines [] (n + length (batch @ [rec])) w'')
     else replay_loop e cap lines (batch @ [rec]) n w)"
  by (simp only: replay_loop.simps assms option.case prod.case sum.case not_False_eq_True not_True_eq_False if_False)

lemma replay_loop_bad:
  assumes "utf8_valid line" "bad_line e line" "de_bad_err e = None"
  shows "replay_loop e cap (line # lines) batch n w =
    (let v = w\<lparr>dw_bad := dw_bad w @ bad_entry line\<rparr> in
     if cap \<le> length batch then
       (case sink_write e batch v of
         (Inl err, w'') \<Rightarrow> (Inl err, w'')
       | (Inr _, w'') \<Rightarrow> replay_loop e cap lines [] (n + length batch) w'')
     else replay_loop e cap lines batch n v)"
  using assms(2) unfolding bad_line_def
  by (simp only: replay_loop.simps assms quarantine_line_def option.case prod.case sum.case not_False_eq_True
      not_True_eq_False if_False bad_entry_def Let_def simp_thms)

lemma replay_batch_effect:
  assumes ih: "\<And>b k v. replay_loop e cap lines b k v = (r, w') \<Longrightarrow> replay_post e lines b k v r w'"
    and run: "(if cap \<le> length batch then
            (case sink_write e batch w of
              (Inl err, w'') \<Rightarrow> (Inl err, w'')
            | (Inr _, w'') \<Rightarrow> replay_loop e cap lines [] (n + length batch) w'')
          else replay_loop e cap lines batch n w) = (r, w')"
  shows "replay_post e lines batch n w r w'"
proof (cases "cap \<le> length batch")
  case True
  show ?thesis
  proof (cases rule: sink_write_cases[of e batch w])
    case ok
    then have "replay_loop e cap lines [] (n + length batch) (w\<lparr>dw_sent := dw_sent w @ batch, dw_sink_calls := dw_sink_calls w + 1\<rparr>) = (r, w')"
      using run True by simp
    from ih[OF this] show ?thesis by (rule replay_post_flush)
  next
    case (err k msg)
    then have "r = Inl (IoError OtherKind msg)"
      "w' = w\<lparr>dw_sent := dw_sent w @ take k batch, dw_sink_calls := dw_sink_calls w + 1\<rparr>" using run True by auto
    then show ?thesis using replay_post_stop[of "take k batch" batch w' w] by (simp add: take_is_prefix)
  qed
qed (use run ih in auto)

lemma replay_loop_effect:
  "replay_loop e cap lines batch n w = (r, w') \<Longrightarrow> replay_post e lines batch n w r w'"
proof (induction lines arbitrary: batch n w)
  case Nil then show ?case by (rule replay_loop_end)
next
  case (Cons line lines)
  consider "\<not> utf8_valid line" | "utf8_valid line" "is_blank line"
    | rec where "utf8_valid line" "\<not> is_blank line" "parse_record_line e line = Some rec"
    | "utf8_valid line" "\<not> is_blank line" "parse_record_line e line = None" by fastforce
  then show ?case
  proof cases
    case 1
    then show ?thesis using Cons.prems replay_post_stop[of "[]" batch w' w] by auto
  next
    case 2
    then have "replay_loop e cap lines batch n w = (r, w')" using Cons.prems by simp
    from replay_post_skip[OF Cons.IH[OF this] 2] show ?thesis .
  next
    case (3 rec)
    then have "usable e line = Some rec" by (simp add: usable_def)
    moreover have "replay_post e lines (batch @ [rec]) n w r w'" 
      using Cons.prems unfolding replay_loop_good[OF 3] by (rule replay_batch_effect[rotated]) (rule Cons.IH)
    ultimately show ?thesis using 3 by (intro replay_post_good)
  next
    case 4
    then have b: "bad_line e line" by (simp add: bad_line_def)
    show ?thesis
    proof (cases "de_bad_err e")
      case None
      have "replay_post e lines batch n (w\<lparr>dw_bad := dw_bad w @ bad_entry line\<rparr>) r w'"
        using Cons.prems unfolding replay_loop_bad[OF 4(1) b None] Let_def by (rule replay_batch_effect[rotated]) (rule Cons.IH)
      then show ?thesis using 4 b by (intro replay_post_bad)
    next
      case (Some k)
      then have "r = Inl (IoError k ''bad'')" "w' = w" using Cons.prems 4 by (auto simp: quarantine_line_def)
      then show ?thesis using replay_post_stop[of "[]" batch w w] by simp
    qed
  qed
qed

lemma replay_spool_effect:
  assumes "replay_spool_if_present e k w = (Inr m, w')"
  shows "dw_sent w' = dw_sent w @ backlog e w \<and> m = length (backlog e w) \<and> backlog e w' = []
    \<and> has_records_async e w' = Inr False
    \<and> dw_bad w' = dw_bad w @ concat (map bad_entry (filter (bad_line e) (split_lines (unwrap_or [] (dw_spool w)))))"
proof -
  from assms have st: "de_stat_err e = None" by (auto simp: replay_spool_if_present_def has_records_async_def split: option.splits)
  show ?thesis
  proof (cases "dw_spool w")
    case None
    then show ?thesis using assms st by (auto simp: replay_spool_if_present_def has_records_async_def backlog_def)
  next
    case (Some bytes)
    show ?thesis
    proof (cases "bytes = []")
      case True
      then show ?thesis using assms st Some
        by (auto simp: replay_spool_if_present_def has_records_async_def backlog_def spool_records_def map_filter_simps)
    next
      case False
      from assms st Some False have
        "replay_loop e (de_capacity e (max k 1)) (split_lines bytes) [] 0 w = (Inr m, w')"
        by (auto simp: replay_spool_if_present_def has_records_async_def replay_records_async_def split: option.splits)
      from replay_loop_effect[OF this] show ?thesis using Some st
        by (auto simp: replay_post_def Let_def backlog_def spool_records_def has_records_async_def)
    qed
  qed
qed

lemma replay_spool_failed:
  assumes "replay_spool_if_present e k w = (Inl err, w')"
  shows "dw_spool w' = dw_spool w \<and> (\<exists>p. prefix p (backlog e w) \<and> dw_sent w' = dw_sent w @ p)"
proof (cases "w' = w")
  case True then show ?thesis by auto
next
  case False
  with assms obtain bytes where sp: "dw_spool w = Some bytes"
    and run: "replay_loop e (de_capacity e (max k 1)) (split_lines bytes) [] 0 w = (Inl err, w')"
    by (auto simp: replay_spool_if_present_def replay_records_async_def split: option.splits sum.splits bool.splits)
  from replay_loop_effect[OF run] sp show ?thesis
    by (auto simp: replay_post_def Let_def backlog_def spool_records_def)
qed

lemma replay_loop_succeeds:
  assumes "\<And>n. de_sink e n = SinkOk" "de_remove_err e = None" "de_bad_err e = None" "list_all utf8_valid lines"
  shows "\<exists>m w'. replay_loop e cap lines batch n w = (Inr m, w')"
  using assms(4)
proof (induction lines arbitrary: batch n w)
  case Nil
  have "clear_async e v = (Inr (), v\<lparr>dw_spool := None\<rparr>)" for v
    using assms(2) by (cases rule: clear_cases[of e v]) (auto simp: clear_async_def split: option.splits)
  then show ?case using assms(1) by (cases "batch = []") (simp_all add: bind_op_def return_op_def sink_write_def)
next
  case (Cons line lines)
  then have v: "utf8_valid line" and ih: "\<And>b k v. \<exists>m w'. replay_loop e cap lines b k v = (Inr m, w')" by auto
  consider "is_blank line" | rec where "\<not> is_blank line" "parse_record_line e line = Some rec" | "bad_line e line"
    unfolding bad_line_def by fastforce
  then show ?case
  proof cases
    case 1 then show ?thesis using v ih by simp
  next
    case (2 rec) show ?thesis unfolding replay_loop_good[OF v 2] using ih assms(1) by (simp add: sink_write_def)
  next
    case 3 show ?thesis unfolding replay_loop_bad[OF v 3 assms(3)] using ih assms(1) by (simp add: sink_write_def Let_def)
  qed
qed

subsection \<open>Delivery\<close>

definition deliver_post ::
    "'c delivery_env \<Rightarrow> 'c telemetry_record list \<Rightarrow> 'c delivery_world \<Rightarrow> delivery_outcome \<Rightarrow> 'c delivery_world \<Rightarrow> bool" where
  "deliver_post e rs w out w' \<longleftrightarrow>
     do_records_processed out = length rs \<and> do_emitted_directly out + do_spooled out = length rs
   \<and> spool_intact w'
   \<and> (\<exists>sent kept. dw_sent w' = dw_sent w @ sent \<and> backlog e w' = backlog e w @ kept
        \<and> set rs = set sent \<union> set kept
        \<and> (do_sink_error out = None \<longrightarrow> mset sent + mset kept = mset rs \<and> length sent = do_emitted_directly out)
        \<and> length kept = do_spooled out)"


lemma spool_pending_effect:
  assumes "spool_pending e st ov w = (Inr n, w')" "list_all (codec_ok e) (st @ ov)" "spool_intact w"
  shows "backlog e w' = backlog e w @ st @ ov \<and> spool_intact w' \<and> dw_sent w' = dw_sent w \<and> n = length st + length ov"
proof -
  from assms(1) have "append_records_async e (st @ ov) w = (Inr (), w')" "n = length st + length ov"
    by (auto simp: spool_pending_def Let_def bind_op_def return_op_def split: prod.splits sum.splits)
  from append_records_backlog[OF this(1) assms(2,3)] this(2) show ?thesis by simp
qed

definition fresh_post where
  "fresh_post e st ov w out w' \<longleftrightarrow> (case out of (emitted, spooled, sink_error) \<Rightarrow>
     spool_intact w' \<and> emitted + spooled = length st + length ov
   \<and> (\<exists>sent kept. dw_sent w' = dw_sent w @ sent \<and> backlog e w' = backlog e w @ ov @ kept
        \<and> length ov + length kept = spooled
        \<and> (if sink_error = None then sent = st \<and> kept = [] \<and> emitted = length st else prefix sent st \<and> kept = st)))"

lemma deliver_fresh_effect:
  assumes run: "deliver_fresh e st ov w = (Inr out, w')" and c: "list_all (codec_ok e) (st @ ov)" and i: "spool_intact w"
  shows "fresh_post e st ov w out w'"
proof -
  from run obtain v where v: "append_records_async e ov w = (Inr (), v)" "deliver_staged e st (length ov) v = (Inr out, w')"
    by (cases "ov = []")
      (auto simp: deliver_fresh_def bind_op_def return_op_def append_records_async_def[of e "[]"] split: prod.splits sum.splits)
  note rest = v(2)[unfolded deliver_staged_def]
  from append_records_backlog[OF v(1) _ i] c have bv: "backlog e v = backlog e w @ ov" "spool_intact v" "dw_sent v = dw_sent w" by auto
  show ?thesis
  proof (cases "st = []")
    case True
    then show ?thesis using rest bv by (auto simp: fresh_post_def)
  next
    case False
    show ?thesis
    proof (cases rule: sink_write_cases[of e st v])
      case ok
      then show ?thesis using rest bv False by (auto simp: fresh_post_def backlog_def spool_intact_def)
    next
      case (err n msg)
      let ?v = "v\<lparr>dw_sent := dw_sent v @ take n st, dw_sink_calls := dw_sink_calls v + 1\<rparr>"
      from rest err False have a: "append_records_async e st ?v = (Inr (), w')" "out = (0, length ov + length st, Some msg)"
        by (auto split: prod.splits sum.splits)
      have "spool_intact ?v" "backlog e ?v = backlog e v" using bv(2) by (simp_all add: spool_intact_def backlog_def)
      with append_records_backlog[OF a(1)] c bv show ?thesis unfolding a(2)
        by (auto simp: fresh_post_def intro!: exI[of _ "take n st"] take_is_prefix)
    qed
  qed
qed

lemma deliver_records_effect:
  assumes run: "deliver_records e n rs w = (Inr out, w')" and c: "list_all (codec_ok e) rs" and i: "spool_intact w"
  shows "deliver_post e rs w out w'"
proof -
  define s where "s = fst (stage_all (telemetry_buffer_new n) rs)"
  note part = stage_all_partition(1)[of n rs, folded s_def]
  have "set (sg_staged s) \<union> set (sg_overflowed s) = set rs" using arg_cong[OF part, of set_mset] by simp
  then have c': "list_all (codec_ok e) (sg_staged s @ sg_overflowed s)" and sets: "set rs = set (sg_staged s) \<union> set (sg_overflowed s)"
    using c by (auto simp: list_all_iff)
  have len: "length (sg_staged s) + length (sg_overflowed s) = length rs" using arg_cong[OF part, of size] by simp
  show ?thesis
  proof (cases "has_records_async e w = Inr True")
    case True
    with run obtain k where "spool_pending e (sg_staged s) (sg_overflowed s) w = (Inr k, w')"
      "out = \<lparr>do_records_processed = length rs, do_emitted_directly = 0, do_spooled = k, do_sink_error = None\<rparr>"
      by (auto simp: deliver_records_def Let_def s_def[symmetric] bind_op_def return_op_def split: prod.splits sum.splits)
    with spool_pending_effect[OF this(1) c' i] show ?thesis using part len sets
      by (auto simp: deliver_post_def)
  next
    case False
    with run obtain f where f: "deliver_fresh e (sg_staged s) (sg_overflowed s) w = (Inr f, w')"
      "out = \<lparr>do_records_processed = length rs, do_emitted_directly = fst f, do_spooled = fst (snd f), do_sink_error = snd (snd f)\<rparr>"
      by (auto simp: deliver_records_def Let_def s_def[symmetric] bind_op_def return_op_def split: prod.splits sum.splits bool.splits)
    from deliver_fresh_effect[OF f(1) c' i] obtain sent kept where fp: "spool_intact w'"
      "fst f + fst (snd f) = length rs" "dw_sent w' = dw_sent w @ sent"
      "backlog e w' = backlog e w @ sg_overflowed s @ kept" "length (sg_overflowed s) + length kept = fst (snd f)"
      "if snd (snd f) = None then sent = sg_staged s \<and> kept = [] \<and> fst f = length (sg_staged s)
       else prefix sent (sg_staged s) \<and> kept = sg_staged s"
      unfolding fresh_post_def len[symmetric] by (auto split: prod.splits)
    then have "set rs = set sent \<union> set (sg_overflowed s @ kept)" using sets
      by (auto split: if_splits dest: set_mono_prefix)
    then show ?thesis unfolding deliver_post_def f(2) using fp part
      by (intro conjI exI[of _ sent] exI[of _ "sg_overflowed s @ kept"]) (auto split: if_splits)
  qed
qed

end
