(* ===== verification/ContainerRef.thy ===== *)
theory ContainerRef
  imports Prelude
begin

text \<open>
  \<open>src/telemetry/container_ref.rs\<close>: from the path of a container log to the container, by the \<open>config.v2.json\<close>
  in the container's directory, through a process-wide cache keyed by path and stamped with modification time and
  size.  The file system and the JSON parser are the environment; the cache is the state.  The lemmas show that a
  lookup through the cache answers what a lookup without it answers as long as equal stamps mean equal contents,
  that failures are never cached and that the cache stays bounded.
\<close>

subsection \<open>Model\<close>

record container_info =
  ci_name :: string
  ci_image :: string
  ci_id :: string

record config_v2 =
  v2_name :: string
  v2_image :: "string option"

type_synonym file_stamp = "nat option \<times> nat"

record cache_entry =
  ce_modified :: "nat option"
  ce_len :: nat
  ce_value :: "container_info option"

type_synonym container_cache = "(string \<times> cache_entry) list"

record container_env =
  cn_metadata :: "string \<Rightarrow> file_stamp option"
  cn_read :: "string \<Rightarrow> string option"
  cn_parse :: "string \<Rightarrow> config_v2 option"

definition path_parts :: "string \<Rightarrow> string list" where
  "path_parts path = filter (\<lambda>part. part \<noteq> []) (split_on (\<lambda>c. c = CHR ''/'') path)"

definition rposition :: "('a \<Rightarrow> bool) \<Rightarrow> 'a list \<Rightarrow> nat option" where
  "rposition P xs = map_option (\<lambda>i. length xs - 1 - i) (position P (rev xs))"

fun join_slash :: "string list \<Rightarrow> string" where
  "join_slash [] = []"
| "join_slash [part] = part"
| "join_slash (part # parts) = part @ ''/'' @ join_slash parts"

definition container_from_config :: "config_v2 \<Rightarrow> string \<Rightarrow> container_info option" where
  "container_from_config parsed cid =
    (let name = dropWhile (\<lambda>c. c = CHR ''/'') (v2_name parsed) in
     if name = [] then None
     else Some \<lparr>ci_name = name, ci_image = unwrap_or [] (v2_image parsed), ci_id = cid\<rparr>)"

definition read_container :: "container_env \<Rightarrow> string \<Rightarrow> string \<Rightarrow> container_info option" where
  "read_container e config cid = (case cn_read e config of
      None \<Rightarrow> None
    | Some bytes \<Rightarrow> (case cn_parse e bytes of None \<Rightarrow> None | Some parsed \<Rightarrow> container_from_config parsed cid))"

definition cache_hit :: "container_cache \<Rightarrow> string \<Rightarrow> file_stamp \<Rightarrow> cache_entry option" where
  "cache_hit cache config stamp = (case map_of cache config of
      Some entry \<Rightarrow> (if (ce_modified entry, ce_len entry) = stamp then Some entry else None)
    | None \<Rightarrow> None)"

definition cache_store :: "container_cache \<Rightarrow> string \<Rightarrow> file_stamp \<Rightarrow> container_info option \<Rightarrow> container_cache" where
  "cache_store cache config stamp value =
    (if value \<noteq> None
     then AList.update config \<lparr>ce_modified = fst stamp, ce_len = snd stamp, ce_value = value\<rparr>
            (if 1024 < length cache then [] else cache)
     else cache)"

definition resolve :: "container_env \<Rightarrow> string \<Rightarrow> string \<Rightarrow> container_cache \<Rightarrow> container_info option \<times> container_cache" where
  "resolve e config cid cache = (case cn_metadata e config of
      None \<Rightarrow> (None, cache)
    | Some stamp \<Rightarrow> (case cache_hit cache config stamp of
        Some entry \<Rightarrow> (ce_value entry, cache)
      | None \<Rightarrow> (let value = read_container e config cid in (value, cache_store cache config stamp value))))"

definition config_path :: "string list \<Rightarrow> nat \<Rightarrow> string" where
  "config_path parts index = ''/'' @ join_slash (take (index + 1) parts) @ ''/'' @ (parts ! (index + 1)) @ ''/config.v2.json''"

definition for_source_path :: "container_env \<Rightarrow> string \<Rightarrow> container_cache \<Rightarrow> container_info option \<times> container_cache" where
  "for_source_path e path cache =
    (if \<not> starts_with ''/'' path then (None, cache)
     else (let parts = path_parts path in
       case rposition (\<lambda>part. part = ''containers'') parts of
         None \<Rightarrow> (None, cache)
       | Some index \<Rightarrow>
           (if length parts \<le> index + 1 then (None, cache)
            else (let cid = parts ! (index + 1) in
              if length parts \<le> index + 2 \<or> cid = [] then (None, cache)
              else resolve e (config_path parts index) cid cache))))"

text \<open>The same lookup without the cache.\<close>

definition lookup_config :: "container_env \<Rightarrow> string \<Rightarrow> string \<Rightarrow> container_info option" where
  "lookup_config e config cid = (if cn_metadata e config = None then None else read_container e config cid)"

definition lookup_path :: "container_env \<Rightarrow> string \<Rightarrow> container_info option" where
  "lookup_path e path =
    (if \<not> starts_with ''/'' path then None
     else (let parts = path_parts path in
       case rposition (\<lambda>part. part = ''containers'') parts of
         None \<Rightarrow> None
       | Some index \<Rightarrow>
           (if length parts \<le> index + 2 then None
            else lookup_config e (config_path parts index) (parts ! (index + 1)))))"

text \<open>\<open>contents\<close> is what the file at a path holds at a stamp.  An entry is sound when it is what its stamp gives.\<close>

definition config_id :: "string \<Rightarrow> string" where
  "config_id config = last (butlast (path_parts config))"

definition stamped_value ::
    "(string \<Rightarrow> config_v2 option) \<Rightarrow> (string \<Rightarrow> file_stamp \<Rightarrow> string option) \<Rightarrow> string \<Rightarrow> file_stamp \<Rightarrow> container_info option" where
  "stamped_value parse contents config stamp = (case contents config stamp of
      None \<Rightarrow> None
    | Some bytes \<Rightarrow> (case parse bytes of None \<Rightarrow> None | Some parsed \<Rightarrow> container_from_config parsed (config_id config)))"

definition entry_sound ::
    "(string \<Rightarrow> config_v2 option) \<Rightarrow> (string \<Rightarrow> file_stamp \<Rightarrow> string option) \<Rightarrow> string \<Rightarrow> cache_entry \<Rightarrow> bool" where
  "entry_sound parse contents config entry \<longleftrightarrow>
     ce_value entry = stamped_value parse contents config (ce_modified entry, ce_len entry) \<and> ce_value entry \<noteq> None"

definition cache_sound ::
    "(string \<Rightarrow> config_v2 option) \<Rightarrow> (string \<Rightarrow> file_stamp \<Rightarrow> string option) \<Rightarrow> container_cache \<Rightarrow> bool" where
  "cache_sound parse contents cache \<longleftrightarrow>
     (\<forall>config entry. map_of cache config = Some entry \<longrightarrow> entry_sound parse contents config entry)"

definition stamps_faithful :: "(string \<Rightarrow> file_stamp \<Rightarrow> string option) \<Rightarrow> container_env \<Rightarrow> bool" where
  "stamps_faithful contents e \<longleftrightarrow> (\<forall>config stamp. cn_metadata e config = Some stamp \<longrightarrow> cn_read e config = contents config stamp)"

subsection \<open>Paths\<close>

lemma path_parts_append: "path_parts (p @ CHR ''/'' # q) = path_parts p @ path_parts q"
  by (simp add: path_parts_def split_on_append_sep)

lemma path_parts_single: "CHR ''/'' \<notin> set p \<Longrightarrow> p \<noteq> [] \<Longrightarrow> path_parts p = [p]"
  unfolding path_parts_def by (subst split_on_no_sep) auto

lemma path_parts_part: "p \<in> set (path_parts path) \<Longrightarrow> p \<noteq> [] \<and> CHR ''/'' \<notin> set p"
  using split_on_parts_no_sep[of "\<lambda>c. c = CHR ''/''" path] by (auto simp: path_parts_def)

lemma config_id_of:
  assumes "cid \<in> set (path_parts path)"
  shows "config_id (base @ ''/'' @ cid @ ''/config.v2.json'') = cid"
proof -
  have "path_parts (base @ CHR ''/'' # cid @ CHR ''/'' # ''config.v2.json'') = path_parts base @ [cid, ''config.v2.json'']"
    using path_parts_part[OF assms] path_parts_single[of cid] path_parts_single[of "''config.v2.json''"]
    by (simp only: path_parts_append) simp
  then show ?thesis unfolding config_id_def by (simp add: butlast_append)
qed

subsection \<open>The cache\<close>

lemma cache_hit_sound:
  assumes "cache_sound parse contents cache" "cache_hit cache config stamp = Some entry"
  shows "ce_value entry = stamped_value parse contents config stamp"
  using assms by (auto simp: cache_sound_def entry_sound_def cache_hit_def split: option.splits if_splits)

lemma cache_store_sound:
  assumes "cache_sound parse contents cache" "value = stamped_value parse contents config stamp"
  shows "cache_sound parse contents (cache_store cache config stamp value)"
proof (cases "value = None")
  case False
  let ?entry = "\<lparr>ce_modified = fst stamp, ce_len = snd stamp, ce_value = value\<rparr>"
  have "entry_sound parse contents config ?entry" using assms(2) False by (simp add: entry_sound_def)
  then show ?thesis using assms(1) False by (auto simp: cache_store_def cache_sound_def update_conv split: if_splits)
qed (use assms in \<open>simp add: cache_store_def\<close>)

lemma resolve_sound:
  assumes "cache_sound (cn_parse e) contents cache" "stamps_faithful contents e" "config_id config = cid"
  shows "fst (resolve e config cid cache) = lookup_config e config cid \<and>
    cache_sound (cn_parse e) contents (snd (resolve e config cid cache))"
proof (cases "cn_metadata e config")
  case (Some stamp)
  have rd: "read_container e config cid = stamped_value (cn_parse e) contents config stamp"
    using assms(2)[unfolded stamps_faithful_def, rule_format, OF Some] unfolding read_container_def stamped_value_def assms(3) by simp
  show ?thesis
    using Some rd assms(1) cache_hit_sound[OF assms(1), of config stamp] cache_store_sound[OF assms(1) rd]
    by (auto simp: resolve_def lookup_config_def Let_def split: option.splits)
qed (use assms(1) in \<open>simp add: resolve_def lookup_config_def\<close>)

lemma for_source_path_sound:
  assumes "cache_sound (cn_parse e) contents cache" "stamps_faithful contents e"
  shows "fst (for_source_path e path cache) = lookup_path e path \<and>
    cache_sound (cn_parse e) contents (snd (for_source_path e path cache))"
proof -
  let ?parts = "path_parts path"
  have step: "config_id (config_path ?parts i) = ?parts ! (i + 1) \<and> ?parts ! (i + 1) \<noteq> []" if "\<not> length ?parts \<le> i + 2" for i
  proof -
    have m: "?parts ! (i + 1) \<in> set ?parts" using that by simp
    show ?thesis using config_id_of[OF m, of "''/'' @ join_slash (take (i + 1) ?parts)"] path_parts_part[OF m]
      unfolding config_path_def by simp
  qed
  show ?thesis
  proof (cases "rposition (\<lambda>part. part = ''containers'') ?parts")
    case (Some i)
    then show ?thesis
      using step[of i] resolve_sound[OF assms, of "config_path ?parts i" "?parts ! (i + 1)"] assms(1)
      by (cases "length ?parts \<le> i + 2") (auto simp: for_source_path_def lookup_path_def Let_def)
  qed (use assms(1) in \<open>simp add: for_source_path_def lookup_path_def Let_def\<close>)
qed

lemma update_length: "length (AList.update k v al) \<le> Suc (length al)"
  by (induction al) auto

lemma resolve_bounded: "length cache \<le> 1025 \<Longrightarrow> length (snd (resolve e config cid cache)) \<le> 1025"
  by (auto simp: resolve_def cache_store_def Let_def update_length update_length[THEN le_trans] split: option.splits)

end
