(* ===== verification/GlobMatch.thy ===== *)
theory GlobMatch
  imports ContainerRef "HOL-Library.Multiset" "HOL-Library.Char_ord" "HOL-Library.List_Lexorder"
begin

text \<open>
  \<open>src/telemetry/logs/files/glob_match.rs\<close>: which files a file-family input reads.  A target is an explicit path,
  a directory or a glob over path components; excludes and container filters are evaluated while collecting, so
  that the scan limit counts only what is kept.

  The glob library (a pattern gives a matcher or is invalid), directory listings, file types and the emptiness
  test of the filters (all of other crates or of the system) are the environment.  The lemmas show that the walk
  selects exactly the reachable, kept files whenever it stays below the scan limit, that the selection is sorted
  without duplicates and bounded, and that no path is both selected and deselected.
\<close>

subsection \<open>Model\<close>

record container_filters =
  cf_namespace_in :: "string list"
  cf_pod_not_in :: "string list"
  cf_name_in :: "string list"
  cf_name_not_in :: "string list"

datatype file_type = RegularFile | Directory | OtherType

record glob_env =
  ge_matcher :: "string \<Rightarrow> (string \<Rightarrow> bool) option"
  ge_read_dir :: "string \<Rightarrow> string res list res"
  ge_metadata :: "string \<Rightarrow> file_type res"
  ge_is_empty :: "container_filters \<Rightarrow> bool"
  ge_containers :: container_env

record family_selection =
  fs_selected :: "string list"
  fs_deselected :: "string list"
  fs_filtered :: nat
  fs_identity_unknown :: nat

definition family_selection_none :: family_selection where
  "family_selection_none = \<lparr>fs_selected = [], fs_deselected = [], fs_filtered = 0, fs_identity_unknown = 0\<rparr>"

record container_log_name =
  cl_pod :: string
  cl_namespace :: string
  cl_container :: string

definition strip_suffix :: "string \<Rightarrow> string \<Rightarrow> string option" where
  "strip_suffix e s = (if ends_with e s then Some (take (length s - length e) s) else None)"

definition file_name :: "string \<Rightarrow> string option" where
  "file_name path = (case rev (path_parts path) of
      [] \<Rightarrow> None
    | name # _ \<Rightarrow> (if name = ''..'' then None else Some name))"

text \<open>\<open>splitn(3, '_')\<close>: the third part takes the rest, separators included.\<close>

definition split_once :: "char \<Rightarrow> string \<Rightarrow> (string \<times> string) option" where
  "split_once c s = (case dropWhile (\<lambda>x. x \<noteq> c) s of [] \<Rightarrow> None | _ # rest \<Rightarrow> Some (takeWhile (\<lambda>x. x \<noteq> c) s, rest))"

definition parse_container_log_name :: "string \<Rightarrow> container_log_name option" where
  "parse_container_log_name path = (case file_name path of
      None \<Rightarrow> None
    | Some name \<Rightarrow> (case strip_suffix ''.log'' name of
        None \<Rightarrow> None
      | Some stem \<Rightarrow> (case rsplit_once ''-'' stem of
          None \<Rightarrow> None
        | Some (hd_part, cid) \<Rightarrow>
            (if cid = [] then None
             else (case split_once (CHR ''_'') hd_part of
               None \<Rightarrow> None
             | Some (pod, rest) \<Rightarrow> (case split_once (CHR ''_'') rest of
                 None \<Rightarrow> None
               | Some (ns, container) \<Rightarrow>
                   (if pod = [] \<or> ns = [] \<or> container = [] then None
                    else Some \<lparr>cl_pod = pod, cl_namespace = ns, cl_container = container\<rparr>)))))))"

datatype filter_verdict = Keep | Drop | KeepIdentityUnknown | DropIdentityUnknown

definition verdict_keeps :: "filter_verdict \<Rightarrow> bool" where
  "verdict_keeps v \<longleftrightarrow> v = Keep \<or> v = KeepIdentityUnknown"

definition verdict_identity_unknown :: "filter_verdict \<Rightarrow> bool" where
  "verdict_identity_unknown v \<longleftrightarrow> v = KeepIdentityUnknown \<or> v = DropIdentityUnknown"

definition name_verdict :: "container_filters \<Rightarrow> string option \<Rightarrow> filter_verdict" where
  "name_verdict filters container = (case container of
      None \<Rightarrow> (if cf_name_in filters \<noteq> [] then DropIdentityUnknown else KeepIdentityUnknown)
    | Some name \<Rightarrow>
        (if cf_name_in filters \<noteq> [] \<and> name \<notin> set (cf_name_in filters) then Drop
         else if name \<in> set (cf_name_not_in filters) then Drop
         else Keep))"

text \<open>The lookup is the one without the cache: the cache does not change its answers (\<open>container_cache_transparent\<close>).\<close>

definition container_filters_verdict :: "glob_env \<Rightarrow> container_filters \<Rightarrow> string \<Rightarrow> filter_verdict" where
  "container_filters_verdict e filters path =
    (if ge_is_empty e filters then Keep
     else (let k8s = parse_container_log_name path in
       if (cf_namespace_in filters \<noteq> [] \<or> cf_pod_not_in filters \<noteq> []) \<and>
          (case k8s of
             None \<Rightarrow> True
           | Some name \<Rightarrow>
               (cf_namespace_in filters \<noteq> [] \<and> cl_namespace name \<notin> set (cf_namespace_in filters)) \<or>
               cl_pod name \<in> set (cf_pod_not_in filters))
       then Drop
       else if cf_name_in filters = [] \<and> cf_name_not_in filters = [] then (if k8s \<noteq> None then Keep else Drop)
       else name_verdict filters
         (or_else (map_option cl_container k8s) (map_option ci_name (lookup_path (ge_containers e) path)))))"

definition has_glob :: "string \<Rightarrow> bool" where
  "has_glob target = list_ex (\<lambda>c. c = CHR ''*'' \<or> c = CHR ''?'' \<or> c = CHR ''['') target"

text \<open>The selection layer: the closure \<open>keep\<close> with the set and the counters it updates.\<close>

record selection_acc =
  sa_deselected :: "string list"
  sa_filtered :: nat
  sa_identity_unknown :: nat

definition is_excluded :: "(string \<Rightarrow> bool) list \<Rightarrow> string \<Rightarrow> bool" where
  "is_excluded excludes path = list_ex (\<lambda>matches. matches path) excludes"

definition keep :: "glob_env \<Rightarrow> (string \<Rightarrow> bool) list \<Rightarrow> container_filters \<Rightarrow> string \<Rightarrow> selection_acc \<Rightarrow> bool \<times> selection_acc" where
  "keep e excludes filters path acc =
    (let excluded = is_excluded excludes path;
         verdict = (if excluded then Drop else container_filters_verdict e filters path);
         acc1 = (if verdict_identity_unknown verdict then acc\<lparr>sa_identity_unknown := sa_identity_unknown acc + 1\<rparr> else acc)
     in if verdict_keeps verdict then (True, acc1)
        else (let acc2 = (if \<not> excluded then acc1\<lparr>sa_filtered := sa_filtered acc1 + 1\<rparr> else acc1)
              in (False, acc2\<lparr>sa_deselected := List.insert path (sa_deselected acc2)\<rparr>)))"

text \<open>An ordered set of paths, compared by components.\<close>

definition path_insert :: "string \<Rightarrow> string list \<Rightarrow> string list" where
  "path_insert path out = (if path_parts path \<in> set (map path_parts out) then out else insort_key path_parts path out)"

definition join_path :: "string \<Rightarrow> string \<Rightarrow> string" where
  "join_path base name = (if ends_with ''/'' base then base @ name else base @ ''/'' @ name)"

fun list_dir_loop ::
    "glob_env \<Rightarrow> (string \<Rightarrow> bool) list \<Rightarrow> container_filters \<Rightarrow> nat \<Rightarrow> string \<Rightarrow> string res list \<Rightarrow> string list \<times> selection_acc
     \<Rightarrow> (string list \<times> selection_acc) res" where
  "list_dir_loop e excludes filters max_paths dir [] (out, acc) = Inr (out, acc)"
| "list_dir_loop e excludes filters max_paths dir (Inl err # entries) (out, acc) = Inl err"
| "list_dir_loop e excludes filters max_paths dir (Inr name # entries) (out, acc) =
    (if max_paths \<le> length out then Inr (out, acc)
     else (let path = join_path dir name in
       if ge_metadata e path = Inr RegularFile then
         (case keep e excludes filters path acc of (kept, acc') \<Rightarrow>
           list_dir_loop e excludes filters max_paths dir entries (if kept then path_insert path out else out, acc'))
       else list_dir_loop e excludes filters max_paths dir entries (out, acc)))"

definition list_dir_files ::
    "glob_env \<Rightarrow> (string \<Rightarrow> bool) list \<Rightarrow> container_filters \<Rightarrow> nat \<Rightarrow> string \<Rightarrow> selection_acc \<Rightarrow> (string list \<times> selection_acc) res" where
  "list_dir_files e excludes filters max_paths dir acc = (case ge_read_dir e dir of
      Inl err \<Rightarrow> Inl err
    | Inr entries \<Rightarrow> list_dir_loop e excludes filters max_paths dir entries ([], acc))"

definition resolve_explicit_or_dir ::
    "glob_env \<Rightarrow> (string \<Rightarrow> bool) list \<Rightarrow> container_filters \<Rightarrow> nat \<Rightarrow> string \<Rightarrow> selection_acc \<Rightarrow> (string list \<times> selection_acc) res" where
  "resolve_explicit_or_dir e excludes filters max_paths target acc = (case ge_metadata e target of
      Inr Directory \<Rightarrow> list_dir_files e excludes filters max_paths target acc
    | Inr _ \<Rightarrow> (case keep e excludes filters target acc of (kept, acc') \<Rightarrow> Inr (if kept then [target] else [], acc'))
    | Inl err \<Rightarrow> (if error_kind err = NotFound then Inr ([], acc) else Inl err))"

definition component_matcher :: "glob_env \<Rightarrow> string \<Rightarrow> (string \<Rightarrow> bool) res" where
  "component_matcher e component = (case ge_matcher e component of
      None \<Rightarrow> Inl (IoError InvalidInput ''invalid glob pattern'')
    | Some m \<Rightarrow> Inr m)"

function walk_components and walk_entries where
  "walk_components e excludes filters max_paths base remaining (out, acc) =
    (if max_paths \<le> length out \<or> remaining = [] then Inr (out, acc)
     else (case component_matcher e (hd remaining) of
       Inl err \<Rightarrow> Inl err
     | Inr matcher \<Rightarrow> (case ge_read_dir e base of
         Inl err \<Rightarrow> (if error_kind err = NotFound then Inr (out, acc) else Inl err)
       | Inr entries \<Rightarrow> walk_entries e excludes filters max_paths base matcher remaining entries (out, acc))))"
| "walk_entries e excludes filters max_paths base matcher remaining [] (out, acc) = Inr (out, acc)"
| "walk_entries e excludes filters max_paths base matcher remaining (Inl err # entries) (out, acc) = Inl err"
| "walk_entries e excludes filters max_paths base matcher remaining (Inr name # entries) (out, acc) =
    (if max_paths \<le> length out then Inr (out, acc)
     else if \<not> matcher name then walk_entries e excludes filters max_paths base matcher remaining entries (out, acc)
     else (let path = join_path base name in
       if length remaining = 1 then
         (if ge_metadata e path = Inr RegularFile then
            (case keep e excludes filters path acc of (kept, acc') \<Rightarrow>
              walk_entries e excludes filters max_paths base matcher remaining entries
                (if kept then path_insert path out else out, acc'))
          else walk_entries e excludes filters max_paths base matcher remaining entries (out, acc))
       else if ge_metadata e path = Inr Directory \<and> remaining \<noteq> [] then
         (case walk_components e excludes filters max_paths path (tl remaining) (out, acc) of
           Inl err \<Rightarrow> Inl err
         | Inr st \<Rightarrow> walk_entries e excludes filters max_paths base matcher remaining entries st)
       else walk_entries e excludes filters max_paths base matcher remaining entries (out, acc)))"
  by pat_completeness auto
termination
  by (relation "measures [\<lambda>x. case x of Inl (_, _, _, _, _, r, _) \<Rightarrow> length r | Inr (_, _, _, _, _, _, r, _, _) \<Rightarrow> length r,
      \<lambda>x. case x of Inl _ \<Rightarrow> 1 | Inr _ \<Rightarrow> 0,
      \<lambda>x. case x of Inl _ \<Rightarrow> 0 | Inr (_, _, _, _, _, _, _, es, _) \<Rightarrow> length es]") auto


declare walk_components.simps [simp del]

definition resolve_glob ::
    "glob_env \<Rightarrow> (string \<Rightarrow> bool) list \<Rightarrow> container_filters \<Rightarrow> nat \<Rightarrow> string \<Rightarrow> selection_acc \<Rightarrow> (string list \<times> selection_acc) res" where
  "resolve_glob e excludes filters max_paths pattern acc =
    (let components = path_parts pattern;
         first_glob = unwrap_or (length components) (position has_glob components);
         base = foldl join_path ''/'' (take first_glob components)
     in if first_glob = length components then resolve_explicit_or_dir e excludes filters max_paths base acc
        else walk_components e excludes filters max_paths base (drop first_glob components) ([], acc))"

fun compile_excludes :: "glob_env \<Rightarrow> string list \<Rightarrow> (string \<Rightarrow> bool) list res" where
  "compile_excludes e [] = Inr []"
| "compile_excludes e (pattern # patterns) = (case ge_matcher e pattern of
      None \<Rightarrow> Inl (IoError InvalidInput ''invalid glob pattern'')
    | Some m \<Rightarrow> (case compile_excludes e patterns of Inl err \<Rightarrow> Inl err | Inr ms \<Rightarrow> Inr (m # ms)))"

definition resolve_family_paths ::
    "glob_env \<Rightarrow> string \<Rightarrow> string list \<Rightarrow> container_filters \<Rightarrow> nat \<Rightarrow> family_selection res" where
  "resolve_family_paths e target exclude_globs filters max_paths =
    (if contains_str ''**'' target then Inl (IoError InvalidInput ''recursive glob `**` is not supported'')
     else (case compile_excludes e exclude_globs of
       Inl err \<Rightarrow> Inl err
     | Inr excludes \<Rightarrow>
         (let acc = \<lparr>sa_deselected = [], sa_filtered = 0, sa_identity_unknown = 0\<rparr> in
          case (if \<not> has_glob target then resolve_explicit_or_dir e excludes filters max_paths target acc
                else resolve_glob e excludes filters max_paths target acc) of
            Inl err \<Rightarrow> Inl err
          | Inr (selected, acc') \<Rightarrow>
              Inr \<lparr>fs_selected = selected, fs_deselected = sa_deselected acc', fs_filtered = sa_filtered acc',
                   fs_identity_unknown = sa_identity_unknown acc'\<rparr>)))"

subsection \<open>The selection layer\<close>

definition kept :: "glob_env \<Rightarrow> (string \<Rightarrow> bool) list \<Rightarrow> container_filters \<Rightarrow> string \<Rightarrow> bool" where
  "kept e excludes filters path \<longleftrightarrow>
     \<not> is_excluded excludes path \<and> verdict_keeps (container_filters_verdict e filters path)"

lemma keep_spec:
  assumes "keep e excludes filters path acc = (k, acc')"
  shows "k = kept e excludes filters path"
    "set (sa_deselected acc') = (if k then set (sa_deselected acc) else insert path (set (sa_deselected acc)))"
  using assms by (auto simp: keep_def kept_def Let_def verdict_keeps_def verdict_identity_unknown_def split: if_splits)

definition selection_inv ::
    "glob_env \<Rightarrow> (string \<Rightarrow> bool) list \<Rightarrow> container_filters \<Rightarrow> nat \<Rightarrow> string list \<times> selection_acc \<Rightarrow> bool" where
  "selection_inv e excludes filters limit st \<longleftrightarrow>
     sorted (map path_parts (fst st)) \<and> distinct (map path_parts (fst st)) \<and> length (fst st) \<le> limit \<and>
     (\<forall>p\<in>set (sa_deselected (snd st)). \<not> kept e excludes filters p)"

definition walk_post ::
    "glob_env \<Rightarrow> (string \<Rightarrow> bool) list \<Rightarrow> container_filters \<Rightarrow> nat \<Rightarrow> (string \<Rightarrow> bool) \<Rightarrow> string list \<times> selection_acc
     \<Rightarrow> string list \<times> selection_acc \<Rightarrow> bool" where
  "walk_post e excludes filters limit R st st' \<longleftrightarrow>
     set (fst st) \<subseteq> set (fst st') \<and> length (fst st) \<le> length (fst st') \<and>
     (\<forall>p\<in>set (fst st'). p \<in> set (fst st) \<or> R p \<and> kept e excludes filters p) \<and>
     (length (fst st') < limit \<longrightarrow> (\<forall>p. R p \<and> kept e excludes filters p \<longrightarrow> path_parts p \<in> path_parts ` set (fst st'))) \<and>
     (selection_inv e excludes filters limit st \<longrightarrow> selection_inv e excludes filters limit st')"

lemma walk_post_stop: "limit \<le> length (fst st) \<Longrightarrow> walk_post e excludes filters limit R st st"
  by (simp add: walk_post_def)

lemma walk_post_none: "(\<And>p. \<not> R p) \<Longrightarrow> walk_post e excludes filters limit R st st"
  by (simp add: walk_post_def)

lemma walk_post_seq:
  assumes "walk_post e excludes filters limit R1 st st1" "walk_post e excludes filters limit R2 st1 st2"
    "\<And>p. R p \<longleftrightarrow> R1 p \<or> R2 p"
  shows "walk_post e excludes filters limit R st st2"
proof -
  note a = assms(1)[unfolded walk_post_def] and b = assms(2)[unfolded walk_post_def]
  have "length (fst st2) < limit \<Longrightarrow> R p \<and> kept e excludes filters p \<Longrightarrow> path_parts p \<in> path_parts ` set (fst st2)" for p
  proof -
    assume l: "length (fst st2) < limit" and p: "R p \<and> kept e excludes filters p"
    have "length (fst st1) < limit" using l b by linarith
    then have "R1 p \<Longrightarrow> path_parts p \<in> path_parts ` set (fst st1)" using a p by blast
    then show ?thesis using b l p assms(3)[of p] by blast
  qed
  moreover have "\<forall>p\<in>set (fst st2). p \<in> set (fst st) \<or> R p \<and> kept e excludes filters p" using a b assms(3) by blast
  moreover have "set (fst st) \<subseteq> set (fst st2)" "length (fst st) \<le> length (fst st2)" using a b by (blast, linarith)
  ultimately show ?thesis unfolding walk_post_def using a b by blast
qed

lemma path_insert_props:
  "set (path_insert path out) \<subseteq> insert path (set out)" "set out \<subseteq> set (path_insert path out)"
  "path_parts path \<in> path_parts ` set (path_insert path out)"
  "length (path_insert path out) \<le> Suc (length out)" "length out \<le> length (path_insert path out)"
  "sorted (map path_parts out) \<Longrightarrow> sorted (map path_parts (path_insert path out))"
  by (auto simp: path_insert_def set_insort_key sorted_insort_key)

lemma path_insert_distinct:
  "distinct (map path_parts out) \<Longrightarrow> distinct (map path_parts (path_insert path out))"
proof (cases "path_parts path \<in> set (map path_parts out)")
  case False
  assume d: "distinct (map path_parts out)"
  have "mset (insort_key path_parts path out) = mset (path # out)" by simp
  then have "mset (map path_parts (insort_key path_parts path out)) = mset (map path_parts (path # out))" by simp
  then have "distinct (map path_parts (insort_key path_parts path out)) = distinct (map path_parts (path # out))"
    by (rule mset_eq_imp_distinct_iff)
  then show ?thesis using d False by (simp add: path_insert_def)
qed (simp add: path_insert_def)

lemma walk_post_keep:
  assumes "keep e excludes filters path acc = (k, acc')" "length out < limit" "\<And>p. R p \<longleftrightarrow> p = path"
  shows "walk_post e excludes filters limit R (out, acc) (if k then path_insert path out else out, acc')"
proof (cases k)
  case True
  note k = keep_spec[OF assms(1)]
  have inv: "selection_inv e excludes filters limit (path_insert path out, acc')" if "selection_inv e excludes filters limit (out, acc)"
    using that True k(2) assms(2) path_insert_props(4)[of path out] path_insert_props(6)[of out path] path_insert_distinct[of out path]
    unfolding selection_inv_def by auto
  show ?thesis using True k(1) assms(3) inv path_insert_props(1)[of path out] path_insert_props(2)[of out path] path_insert_props(3)[of path out] path_insert_props(5)[of out path] unfolding walk_post_def by auto
next
  case False
  note k = keep_spec[OF assms(1)]
  have inv: "selection_inv e excludes filters limit (out, acc')" if "selection_inv e excludes filters limit (out, acc)"
    using that False k unfolding selection_inv_def by simp
  show ?thesis using False k(1) assms(3) inv unfolding walk_post_def by simp
qed

subsection \<open>What the walk selects\<close>

inductive reaches :: "glob_env \<Rightarrow> string \<Rightarrow> string list \<Rightarrow> string \<Rightarrow> bool" for e where
  reach_file: "ge_matcher e c = Some m \<Longrightarrow> ge_read_dir e base = Inr entries \<Longrightarrow> Inr name \<in> set entries \<Longrightarrow> m name \<Longrightarrow>
    ge_metadata e (join_path base name) = Inr RegularFile \<Longrightarrow> reaches e base [c] (join_path base name)"
| reach_dir: "ge_matcher e c = Some m \<Longrightarrow> ge_read_dir e base = Inr entries \<Longrightarrow> Inr name \<in> set entries \<Longrightarrow> m name \<Longrightarrow>
    ge_metadata e (join_path base name) = Inr Directory \<Longrightarrow> rest \<noteq> [] \<Longrightarrow> reaches e (join_path base name) rest p \<Longrightarrow>
    reaches e base (c # rest) p"

inductive_simps reaches_Nil: "reaches e base [] p"
inductive_simps reaches_Cons: "reaches e base (c # rest) p"

definition via_entry :: "glob_env \<Rightarrow> string \<Rightarrow> (string \<Rightarrow> bool) \<Rightarrow> string list \<Rightarrow> string \<Rightarrow> string \<Rightarrow> bool" where
  "via_entry e base matcher remaining name p \<longleftrightarrow> matcher name \<and>
     (if length remaining = 1 then ge_metadata e (join_path base name) = Inr RegularFile \<and> p = join_path base name
      else ge_metadata e (join_path base name) = Inr Directory \<and> remaining \<noteq> [] \<and> reaches e (join_path base name) (tl remaining) p)"

lemma reaches_via:
  assumes "ge_matcher e c = Some m" "ge_read_dir e base = Inr entries"
  shows "reaches e base (c # rest) p \<longleftrightarrow> (\<exists>name. Inr name \<in> set entries \<and> via_entry e base m (c # rest) name p)"
  using assms by (cases rest) (auto simp: reaches_Cons via_entry_def reaches_Nil)

lemma walk_spec:
  "walk_components e excludes filters limit base remaining st = Inr st' \<Longrightarrow>
     walk_post e excludes filters limit (reaches e base remaining) st st'"
  "walk_entries e excludes filters limit base matcher remaining entries st = Inr st' \<Longrightarrow>
     walk_post e excludes filters limit (\<lambda>p. \<exists>name. Inr name \<in> set entries \<and> via_entry e base matcher remaining name p) st st'"
proof (induction e excludes filters limit base remaining st and e excludes filters limit base matcher remaining entries st
    arbitrary: st' and st' rule: walk_components_walk_entries.induct)
  case (1 e excludes filters limit base remaining out acc)
  show ?case
  proof (cases "limit \<le> length out \<or> remaining = []")
    case True
    then have "st' = (out, acc)" using "1.prems"[unfolded walk_components.simps] by simp
    then show ?thesis using True by (auto intro: walk_post_stop walk_post_none simp: reaches_Nil)
  next
    case False
    then obtain c rest where r: "remaining = c # rest" by (cases remaining) auto
    from "1.prems"[unfolded walk_components.simps] False r obtain m where m: "component_matcher e c = Inr m" by (auto split: sum.splits)
    then have m': "ge_matcher e c = Some m" by (auto simp: component_matcher_def split: option.splits)
    show ?thesis
    proof (cases "ge_read_dir e base")
      case (Inl err)
      then have "st' = (out, acc)" using "1.prems"[unfolded walk_components.simps] False m r by (auto split: if_splits)
      then show ?thesis using Inl r by (auto intro!: walk_post_none simp: reaches_Cons)
    next
      case (Inr entries)
      then have "walk_entries e excludes filters limit base m remaining entries (out, acc) = Inr st'"
        using "1.prems"[unfolded walk_components.simps] False m r by simp
      from "1.IH"[OF False _ Inr this] m r show ?thesis using reaches_via[OF m' Inr, of rest] by (simp add: r)
    qed
  qed
next
  case (2 e excludes filters limit base matcher remaining out acc)
  then show ?case by (auto intro: walk_post_none)
next
  case (3 e excludes filters limit base matcher remaining err entries out acc)
  then show ?case by simp
next
  case (4 e excludes filters limit base matcher remaining name entries out acc)
  let ?R = "\<lambda>p. \<exists>n. Inr n \<in> set entries \<and> via_entry e base matcher remaining n p"
  have R: "(\<exists>n. Inr n \<in> set ((Inr name :: string res) # entries) \<and> via_entry e base matcher remaining n p) \<longleftrightarrow>
    via_entry e base matcher remaining name p \<or> ?R p" for p by auto
  let ?path = "join_path base name"
  consider "limit \<le> length out" | "length out < limit" "\<not> matcher name"
    | "length out < limit" "matcher name" "length remaining = 1" "ge_metadata e ?path = Inr RegularFile"
    | "length out < limit" "matcher name" "length remaining = 1" "ge_metadata e ?path \<noteq> Inr RegularFile"
    | "length out < limit" "matcher name" "length remaining \<noteq> 1" "ge_metadata e ?path = Inr Directory \<and> remaining \<noteq> []"
    | "length out < limit" "matcher name" "length remaining \<noteq> 1" "\<not> (ge_metadata e ?path = Inr Directory \<and> remaining \<noteq> [])"
    by linarith
  then show ?case
  proof cases
    case 1
    then have "st' = (out, acc)" using "4.prems" by simp
    then show ?thesis using 1 by (auto intro: walk_post_stop)
  next
    case 2
    then have "walk_entries e excludes filters limit base matcher remaining entries (out, acc) = Inr st'" using "4.prems" by simp
    with "4.IH"(1) 2 have "walk_post e excludes filters limit ?R (out, acc) st'" by (meson not_le)
    moreover have "\<And>p. \<not> via_entry e base matcher remaining name p" using 2 by (simp add: via_entry_def)
    ultimately show ?thesis unfolding R by simp
  next
    case 3
    obtain k acc' where k: "keep e excludes filters ?path acc = (k, acc')" by fastforce
    let ?st = "(if k then path_insert ?path out else out, acc')"
    have w: "walk_entries e excludes filters limit base matcher remaining entries ?st = Inr st'" using "4.prems" 3 k by simp
    have nl: "\<not> limit \<le> length out" "\<not> \<not> matcher name" using 3 by auto
    have "walk_post e excludes filters limit ?R ?st st'" by (rule "4.IH"(2)[OF nl refl 3(3,4) k[symmetric] w])
    from walk_post_seq[OF walk_post_keep[OF k 3(1), of "via_entry e base matcher remaining name"] this]
    show ?thesis using 3 R by (simp add: via_entry_def)
  next
    case 4
    then have w: "walk_entries e excludes filters limit base matcher remaining entries (out, acc) = Inr st'" using "4.prems" by simp
    have nl: "\<not> limit \<le> length out" "\<not> \<not> matcher name" using 4 by auto
    have "walk_post e excludes filters limit ?R (out, acc) st'" by (rule "4.IH"(3)[OF nl refl 4(3,4) w])
    moreover have "\<And>p. \<not> via_entry e base matcher remaining name p" using 4 by (simp add: via_entry_def)
    ultimately show ?thesis unfolding R by simp
  next
    case 5
    have nl: "\<not> limit \<le> length out" "\<not> \<not> matcher name" using 5 by auto
    from "4.prems" 5 obtain st1 where w: "walk_components e excludes filters limit ?path (tl remaining) (out, acc) = Inr st1"
      "walk_entries e excludes filters limit base matcher remaining entries st1 = Inr st'" by (auto simp: Let_def split: sum.splits)
    have "walk_post e excludes filters limit (reaches e ?path (tl remaining)) (out, acc) st1"
      by (rule "4.IH"(4)[OF nl refl 5(3,4) w(1)])
    moreover have "walk_post e excludes filters limit ?R st1 st'" by (rule "4.IH"(5)[OF nl refl 5(3,4) w])
    moreover have "via_entry e base matcher remaining name p \<longleftrightarrow> reaches e ?path (tl remaining) p" for p
      using 5 by (simp add: via_entry_def)
    ultimately show ?thesis unfolding R by (rule_tac walk_post_seq) auto
  next
    case 6
    then have w: "walk_entries e excludes filters limit base matcher remaining entries (out, acc) = Inr st'" using "4.prems" by auto
    have nl: "\<not> limit \<le> length out" "\<not> \<not> matcher name" using 6 by auto
    have "walk_post e excludes filters limit ?R (out, acc) st'" by (rule "4.IH"(6)[OF nl refl 6(3,4) w])
    moreover have "\<And>p. \<not> via_entry e base matcher remaining name p" using 6 by (auto simp: via_entry_def)
    ultimately show ?thesis unfolding R by simp
  qed
qed


definition in_directory :: "glob_env \<Rightarrow> string \<Rightarrow> string res list \<Rightarrow> string \<Rightarrow> bool" where
  "in_directory e dir entries p \<longleftrightarrow>
     (\<exists>name. Inr name \<in> set entries \<and> p = join_path dir name \<and> ge_metadata e p = Inr RegularFile)"

lemma list_dir_loop_spec:
  "list_dir_loop e excludes filters limit dir entries st = Inr st' \<Longrightarrow>
     walk_post e excludes filters limit (in_directory e dir entries) st st'"
proof (induction e excludes filters limit dir entries st arbitrary: st' rule: list_dir_loop.induct)
  case (1 e excludes filters limit dir out acc)
  then show ?case by (auto intro: walk_post_none simp: in_directory_def)
next
  case (3 e excludes filters limit dir name entries out acc)
  let ?path = "join_path dir name"
  show ?case
  proof (cases "limit \<le> length out")
    case True
    then show ?thesis using "3.prems" by (auto intro: walk_post_stop)
  next
    case l: False
    show ?thesis
    proof (cases "ge_metadata e ?path = Inr RegularFile")
      case True
      obtain k acc' where k: "keep e excludes filters ?path acc = (k, acc')" by fastforce
      let ?st = "(if k then path_insert ?path out else out, acc')"
      have w: "list_dir_loop e excludes filters limit dir entries ?st = Inr st'" using "3.prems" l True k by simp
      have n: "walk_post e excludes filters limit (in_directory e dir entries) ?st st'"
        by (rule "3.IH"(1)[OF l refl True k[symmetric] w])
      have l': "length out < limit" using l by simp
      have "in_directory e dir (Inr name # entries) p \<longleftrightarrow> p = ?path \<or> in_directory e dir entries p" for p
        using True by (auto simp: in_directory_def)
      from walk_post_seq[OF walk_post_keep[OF k l' refl] n this] show ?thesis .
    next
      case False
      have w: "list_dir_loop e excludes filters limit dir entries (out, acc) = Inr st'" using "3.prems" l False by simp
      have "in_directory e dir (Inr name # entries) = in_directory e dir entries" using False by (auto simp: in_directory_def fun_eq_iff)
      then show ?thesis using "3.IH"(2)[OF l refl False w] by simp
    qed
  qed
qed simp

text \<open>The files a target stands for, before excludes and filters.\<close>

definition explicit_candidate :: "glob_env \<Rightarrow> string \<Rightarrow> string \<Rightarrow> bool" where
  "explicit_candidate e target p = (case ge_metadata e target of
      Inr Directory \<Rightarrow> (\<exists>entries. ge_read_dir e target = Inr entries \<and> in_directory e target entries p)
    | Inr _ \<Rightarrow> p = target
    | Inl _ \<Rightarrow> False)"

definition candidate :: "glob_env \<Rightarrow> string \<Rightarrow> string \<Rightarrow> bool" where
  "candidate e target p =
    (if \<not> has_glob target then explicit_candidate e target p
     else (let components = path_parts target;
               n = unwrap_or (length components) (position has_glob components);
               base = foldl join_path ''/'' (take n components)
           in if n = length components then explicit_candidate e base p else reaches e base (drop n components) p))"

lemma resolve_explicit_spec:
  assumes "resolve_explicit_or_dir e excludes filters limit target acc = Inr st'" "0 < limit"
  shows "walk_post e excludes filters limit (explicit_candidate e target) ([], acc) st'"
proof (cases "ge_metadata e target")
  case (Inl err)
  then have "st' = ([], acc)" using assms by (auto simp: resolve_explicit_or_dir_def split: if_splits)
  then show ?thesis using Inl by (simp add: walk_post_none explicit_candidate_def)
next
  case (Inr t)
  show ?thesis
  proof (cases "t = Directory")
    case True
    then obtain entries where "ge_read_dir e target = Inr entries"
      "list_dir_loop e excludes filters limit target entries ([], acc) = Inr st'"
      using assms Inr by (auto simp: resolve_explicit_or_dir_def list_dir_files_def split: sum.splits)
    moreover from this Inr True have "explicit_candidate e target = in_directory e target entries"
      by (auto simp: explicit_candidate_def fun_eq_iff)
    ultimately show ?thesis using list_dir_loop_spec by simp
  next
    case False
    obtain k acc' where k: "keep e excludes filters target acc = (k, acc')" by fastforce
    then have "st' = (if k then path_insert target [] else [], acc')" using assms Inr False
      by (cases t) (auto simp: resolve_explicit_or_dir_def path_insert_def)
    moreover have "explicit_candidate e target p \<longleftrightarrow> p = target" for p
      using Inr False by (cases t) (auto simp: explicit_candidate_def)
    ultimately show ?thesis using walk_post_keep[OF k, of "[]" limit "explicit_candidate e target"] assms(2) by simp
  qed
qed


lemma resolve_glob_spec:
  assumes "resolve_glob e excludes filters limit target acc = Inr st'" "0 < limit" "has_glob target"
  shows "walk_post e excludes filters limit (candidate e target) ([], acc) st'"
proof -
  let ?cs = "path_parts target"
  let ?n = "unwrap_or (length ?cs) (position has_glob ?cs)"
  let ?base = "foldl join_path ''/'' (take ?n ?cs)"
  show ?thesis
  proof (cases "?n = length ?cs")
    case True
    then have "candidate e target = explicit_candidate e ?base" using assms(3) by (simp add: candidate_def fun_eq_iff Let_def)
    moreover have "resolve_explicit_or_dir e excludes filters limit ?base acc = Inr st'"
      using assms(1) True by (simp add: resolve_glob_def Let_def)
    ultimately show ?thesis using resolve_explicit_spec assms(2) by simp
  next
    case False
    then have "candidate e target = reaches e ?base (drop ?n ?cs)" using assms(3) by (simp add: candidate_def fun_eq_iff Let_def)
    moreover have "walk_components e excludes filters limit ?base (drop ?n ?cs) ([], acc) = Inr st'"
      using assms(1) False by (simp add: resolve_glob_def Let_def)
    ultimately show ?thesis using walk_spec(1) by simp
  qed
qed

lemma resolve_family_spec:
  assumes "resolve_family_paths e target exclude_globs filters limit = Inr sel" "0 < limit"
  obtains excludes where "compile_excludes e exclude_globs = Inr excludes"
    "sorted (map path_parts (fs_selected sel))" "distinct (map path_parts (fs_selected sel))" "length (fs_selected sel) \<le> limit"
    "\<And>p. p \<in> set (fs_selected sel) \<Longrightarrow> candidate e target p \<and> kept e excludes filters p"
    "\<And>p. length (fs_selected sel) < limit \<Longrightarrow> candidate e target p \<Longrightarrow> kept e excludes filters p \<Longrightarrow>
       path_parts p \<in> path_parts ` set (fs_selected sel)"
    "\<And>p. p \<in> set (fs_deselected sel) \<Longrightarrow> \<not> kept e excludes filters p"
proof -
  let ?acc = "\<lparr>sa_deselected = [], sa_filtered = 0, sa_identity_unknown = 0\<rparr>"
  from assms(1) obtain excludes st where ex: "compile_excludes e exclude_globs = Inr excludes"
    and st: "(if \<not> has_glob target then resolve_explicit_or_dir e excludes filters limit target ?acc
              else resolve_glob e excludes filters limit target ?acc) = Inr st"
    and sel: "fs_selected sel = fst st" "fs_deselected sel = sa_deselected (snd st)"
    unfolding resolve_family_paths_def Let_def by (auto split: if_splits sum.splits)
  have "walk_post e excludes filters limit (candidate e target) ([], ?acc) st"
  proof (cases "has_glob target")
    case False
    then have "candidate e target = explicit_candidate e target" by (simp add: candidate_def fun_eq_iff)
    with False st show ?thesis using resolve_explicit_spec assms(2) by simp
  qed (use st resolve_glob_spec assms(2) in simp)
  moreover have "selection_inv e excludes filters limit ([], ?acc)" by (simp add: selection_inv_def)
  ultimately show thesis using that[OF ex] unfolding sel walk_post_def selection_inv_def by auto
qed

end
