(* ===== verification/LogClaims.thy ===== *)
theory LogClaims
  imports LogDelivery GlobMatch
begin

text \<open>Properties of the parts of log collection: reader, checkpoint table, folding, gate, buffer, spool, file
  selection and container lookup, with concrete inputs on which they apply.\<close>

subsection \<open>Sample inputs\<close>

definition two_lines :: log_file where
  "two_lines = \<lparr>lf_bytes = [CHR ''a'', newline, CHR ''b''], lf_device_id = Some 1, lf_inode = Some 2, lf_reads = [1],
     lf_read_err = None\<rparr>"

definition one_log :: log_files where
  "one_log p = (if p = ''/l'' then Some two_lines else None)"

definition small_limits :: read_limits where
  "small_limits = \<lparr>rl_max_line_bytes = 4, rl_max_bytes = 8, rl_max_lines = 2\<rparr>"

definition small_read :: read_from_offset where
  "small_read = \<lparr>rf_identity = identity_from_metadata two_lines,
     rf_lines = [\<lparr>rw_text = [CHR ''a'', newline], rw_start_offset = 0, rw_end_offset = 2\<rparr>],
     rf_committed_end_offset = 2, rf_truncated_lines = 0\<rparr>"

definition plain_record :: "nat \<Rightarrow> unit telemetry_record" where
  "plain_record n = \<lparr>tr_agent_id = [], tr_observed_at = [], tr_input_id = [], tr_source_path = [], tr_body = ''b'',
     tr_start_offset = 0, tr_end_offset = 1, tr_seq = n, tr_origin = \<lparr>io_family = [], io_unit = []\<rparr>, tr_container = None\<rparr>"

definition plain_delivery :: "unit delivery_env" where
  "plain_delivery = \<lparr>de_encode = (\<lambda>r. Some ''r''), de_parse = (\<lambda>s. if s = ''r'' then Some (plain_record 0) else None),
     de_sink = (\<lambda>_. SinkOk), de_append = (\<lambda>_. None), de_stat_err = None, de_open_err = None, de_remove_err = None,
     de_bad_err = None, de_capacity = (\<lambda>n. n)\<rparr>"

definition idle_world :: "unit delivery_world" where
  "idle_world = \<lparr>dw_spool = None, dw_bad = [], dw_sent = [], dw_sink_calls = 0, dw_appends = 0\<rparr>"

lemma small_read: "read_from_offset_async one_log ''/l'' 0 small_limits = Inr small_read"
  by code_simp

lemma plain_codec: "list_all (codec_ok plain_delivery) [plain_record 0]"
  by code_simp

subsection \<open>The reader\<close>

text \<open>
  C31. A read partitions the file: the bytes from the start offset on are the spans of the returned lines followed by
  a rest that stays unread; the committed offset is the end of the last span, every span but the last is one complete
  line, and the last one is a complete line or an overlong unfinished line at the end of the file.
\<close>

theorem read_partitions_file:
  assumes "read_from_offset_async fs path start lim = Inr r"
  shows "\<exists>f raws rest. fs path = Some f \<and>
    drop (min start (length (lf_bytes f))) (lf_bytes f) = concat raws @ rest \<and>
    rf_lines r = spans (rl_max_line_bytes lim) (min start (length (lf_bytes f))) raws \<and>
    rf_committed_end_offset r = min start (length (lf_bytes f)) + length (concat raws) \<and>
    rf_truncated_lines r = length (filter (\<lambda>raw. rl_max_line_bytes lim < length raw) raws) \<and>
    list_all complete_line (butlast raws) \<and>
    (raws = [] \<or> complete_line (last raws) \<or> overlong_tail (rl_max_line_bytes lim) (last raws) \<and> rest = [])"
  using assms by (rule read_from_offset_spec) (unfold list_all_iff, blast)

theorem read_partitions_file_witness:
  "\<exists>f raws rest. one_log ''/l'' = Some f \<and>
    drop (min 0 (length (lf_bytes f))) (lf_bytes f) = concat raws @ rest \<and>
    rf_lines small_read = spans (rl_max_line_bytes small_limits) (min 0 (length (lf_bytes f))) raws"
  using read_partitions_file[OF small_read] by blast

text \<open>
  A read makes progress: if the limits allow a line and the unread part of the file holds a line end, the read
  returns a line and commits past the start offset.
\<close>

theorem read_makes_progress:
  assumes "read_from_offset_async fs path start lim = Inr r" "fs path = Some f"
    "0 < rl_max_lines lim" "0 < rl_max_bytes lim" "newline \<in> set (drop start (lf_bytes f))"
  shows "rf_lines r \<noteq> [] \<and> start < rf_committed_end_offset r"
  using assms(1)
proof (rule read_from_offset_spec)
  fix f' raws rest
  assume f': "fs path = Some f'" "drop (min start (length (lf_bytes f'))) (lf_bytes f') = concat raws @ rest"
    "rf_lines r = spans (rl_max_line_bytes lim) (min start (length (lf_bytes f'))) raws"
    "rf_committed_end_offset r = min start (length (lf_bytes f')) + length (concat raws)"
    and compl: "\<forall>raw\<in>set (butlast raws). complete_line raw"
      "raws \<noteq> [] \<Longrightarrow> complete_line (last raws) \<or> overlong_tail (rl_max_line_bytes lim) (last raws) \<and> rest = []"
    and none: "raws = [] \<Longrightarrow> 0 < rl_max_lines lim \<Longrightarrow> 0 < rl_max_bytes lim \<Longrightarrow>
       newline \<notin> set rest \<and> length rest \<le> rl_max_line_bytes lim"
  have start: "start < length (lf_bytes f)" using assms(5) by (metis drop_all empty_iff linorder_not_le list.set(1))
  have ne: "raws \<noteq> []" using none assms(2-5) f'(1,2) start by auto
  then have "last raws \<noteq> []" using compl(2) by (auto simp: complete_line_def overlong_tail_def)
  then have "0 < length (concat raws)" using ne by (metis concat_eq_Nil_conv last_in_set length_greater_0_conv)
  then show ?thesis using f' ne start assms(2) by (cases raws) auto
qed

theorem read_makes_progress_witness: "rf_lines small_read \<noteq> [] \<and> 0 < rf_committed_end_offset small_read"
  by (rule read_makes_progress[OF small_read, of two_lines])
    (simp_all add: one_log_def small_limits_def two_lines_def)

text \<open>
  The commit is not confined to complete lines: an overlong unfinished line at the end of the file is committed, and
  the rest of that line, once it is written, is read as a line of its own.
\<close>

definition growing_log :: "string \<Rightarrow> log_files" where
  "growing_log s p = Some (two_lines\<lparr>lf_bytes := s, lf_reads := []\<rparr>)"

lemma overlong_half_line_is_split:
  "map_sum id rf_committed_end_offset (read_from_offset_async (growing_log ''aaaaa'') ''/l'' 0 small_limits) = Inr 5"
  "map_sum id (\<lambda>r. map rw_text (rf_lines r))
     (read_from_offset_async (growing_log (''aaaaabb'' @ [newline])) ''/l'' 5 small_limits) = Inr [''bb'' @ [newline]]"
  by code_simp+

subsection \<open>The checkpoint table\<close>

text \<open>
  What is stored is found again: after the checkpoint of a file has been updated, looking its path up gives the
  checkpoint of that observation and every other path is found as before, provided that every entry that matches
  the file's identity has its path.
\<close>

theorem checkpoint_lookup_after_upsert:
  assumes "list_all (\<lambda>t. \<not> names_file canonicalize source_path identity t \<or> tc_path t = source_path) (lc_files state)"
  shows "checkpoint_for_path (upsert_checkpoint_async fs canonicalize state source_path identity update) q =
    (if q = source_path then Some (observed_checkpoint fs canonicalize source_path identity update source_path)
     else checkpoint_for_path state q)"
  using assms by (intro lookup_after_upsert) (auto simp: list_all_iff)

definition first_update :: checkpoint_update where
  "first_update = \<lparr>cu_checkpoint_offset = 2, cu_observed_at = ''t'', cu_real_path = [], cu_pending_multiline = None,
     cu_rotated_from_path = None\<rparr>"

theorem checkpoint_lookup_after_upsert_witness:
  "checkpoint_for_path (upsert_checkpoint_async one_log Some (log_checkpoint_state_new ''i'' ''t'') ''/l''
      (identity_from_metadata two_lines) first_update) ''/l'' =
    Some (observed_checkpoint one_log Some ''/l'' (identity_from_metadata two_lines) first_update ''/l'')"
  using checkpoint_lookup_after_upsert[of Some "''/l''" "identity_from_metadata two_lines"
      "log_checkpoint_state_new ''i'' ''t''" one_log first_update "''/l''"]
  by (simp add: log_checkpoint_state_new_def)

text \<open>
  Invariant of the checkpoint table: no update of a checkpoint ever leaves two entries with the same path.
\<close>

theorem checkpoint_paths_distinct:
  assumes "paths_distinct state"
  shows "paths_distinct (upsert_checkpoint_async fs canonicalize state source_path identity update)"
  using assms by (rule upsert_distinct)

theorem checkpoint_paths_distinct_witness:
  "paths_distinct (upsert_checkpoint_async one_log Some (log_checkpoint_state_new ''i'' ''t'') ''/l''
      (identity_from_metadata two_lines) first_update)"
  by (rule checkpoint_paths_distinct) (simp add: paths_distinct_def log_checkpoint_state_new_def)

subsection \<open>Folding\<close>

text \<open>
  The CSV scanner, with its look-ahead for doubled quotes, computes plain quote parity: it reports a row end
  exactly when a line feed follows an even number of quotes, and the quote state at the end.
\<close>

theorem csv_scanner_is_parity: "scan_csv bytes in_quotes = csv_parity bytes in_quotes"
  by (rule scan_csv_parity)

text \<open>
  C32. Folding CSV rows does not depend on how the stream is cut into reads, as long as the first read cuts no record off
  as oversized: folding two batches of complete lines one after the other, through the persisted unfinished record,
  gives the same records and the same unfinished record as folding them at once.  After an oversized record the
  cut does matter, since the state that discards the rest of the row is not carried over to the next read; the
  comment at \<open>fold_csv\<close> says so.
\<close>

theorem csv_fold_independent_of_batches:
  assumes "list_all (\<lambda>line. complete_line (rw_text line)) (xs @ ys)"
    and "case same_source path pending of None \<Rightarrow> True | Some p \<Rightarrow> csv_open (lr_body (pm_record p))"
    and "fold_csv path xs pending t1 = (out1, p1)" "none_oversized out1" "fold_csv path ys p1 t2 = (out2, p2)"
  shows "fst (fold_csv path (xs @ ys) pending t3) = out1 @ out2 \<and>
    map_option pm_record (snd (fold_csv path (xs @ ys) pending t3)) = map_option pm_record p2"
  using assms by (intro fold_csv_batches csv_inv_init) (auto simp: list_all_iff)

definition csv_line1 :: raw_file_line where
  "csv_line1 = \<lparr>rw_text = [quote, newline], rw_start_offset = 0, rw_end_offset = 2\<rparr>"

definition csv_line2 :: raw_file_line where
  "csv_line2 = \<lparr>rw_text = [quote, newline], rw_start_offset = 2, rw_end_offset = 4\<rparr>"

lemma csv_lines_complete: "complete_line (rw_text csv_line1)" "complete_line (rw_text csv_line2)"
  by code_simp+

theorem csv_fold_independent_of_batches_witness:
  "fst (fold_csv ''/l'' ([csv_line1] @ [csv_line2]) None []) =
     fst (fold_csv ''/l'' [csv_line1] None []) @ fst (fold_csv ''/l'' [csv_line2] (snd (fold_csv ''/l'' [csv_line1] None [])) [])"
proof -
  have "none_oversized (fst (fold_csv ''/l'' [csv_line1] None []))"
    by (simp add: none_oversized_def fold_csv_def csv_step_def csv_init_def csv_line1_def csv_begin_def csv_extend_def
        scan_csv_parity ends_with_def suffix_Cons Let_def)
  then show ?thesis
    using csv_fold_independent_of_batches[of "[csv_line1]" "[csv_line2]" "''/l''" None "[]"
        "fst (fold_csv ''/l'' [csv_line1] None [])" "snd (fold_csv ''/l'' [csv_line1] None [])" "[]"
        "fst (fold_csv ''/l'' [csv_line2] (snd (fold_csv ''/l'' [csv_line1] None [])) [])"
        "snd (fold_csv ''/l'' [csv_line2] (snd (fold_csv ''/l'' [csv_line1] None [])) [])" "[]"]
    by (simp add: csv_lines_complete same_source_def)
qed


text \<open>
  C33. Folding loses and invents nothing: when no record is cut off as oversized, the text of the sealed records and
  of the unfinished one is the text that was unfinished before followed by the text of the lines, and every record
  sealed at a boundary is exactly one CSV row.
\<close>

theorem csv_fold_lossless:
  assumes "list_all (\<lambda>line. complete_line (rw_text line)) lines"
    and "case same_source path pending of None \<Rightarrow> True | Some p \<Rightarrow> csv_open (lr_body (pm_record p))"
    and "fold_csv path lines pending t = (out, p')" "none_oversized out"
  shows "concat (map lr_body out) @ (case p' of None \<Rightarrow> [] | Some p \<Rightarrow> lr_body (pm_record p)) =
      (case same_source path pending of None \<Rightarrow> [] | Some p \<Rightarrow> lr_body (pm_record p)) @ concat (map rw_text lines) \<and>
    list_all (\<lambda>r. lr_completion r = Boundary \<and> csv_row (lr_body r)) out"
proof -
  define st where "st = foldl csv_step (csv_init path pending) lines"
  have c: "\<forall>line\<in>set lines. complete_line (rw_text line)" using assms(1) by (simp add: list_all_iff)
  have out: "out = cv_sealed st" and p': "(case p' of None \<Rightarrow> [] | Some p \<Rightarrow> lr_body (pm_record p)) = in_hand st"
    using assms(3) by (auto simp: fold_csv_def Let_def st_def in_hand_def split: option.splits)
  have inv: "csv_inv st" unfolding st_def using assms(2) c by (intro csv_inv_run csv_inv_init) auto
  have "csv_bytes st = csv_bytes (csv_init path pending) @ concat (map rw_text lines)"
    unfolding st_def by (rule csv_lossless[OF c, THEN conjunct1])
      (use assms(4) out in \<open>simp_all add: csv_init_def st_def\<close>)
  moreover have "csv_bytes (csv_init path pending) = (case same_source path pending of None \<Rightarrow> [] | Some p \<Rightarrow> lr_body (pm_record p))"
    by (auto simp: csv_bytes_def csv_init_def in_hand_def csv_resume_def same_source_def split: option.splits)
  moreover have "list_all (\<lambda>r. lr_completion r = Boundary \<and> csv_row (lr_body r)) out"
    using inv assms(4) unfolding csv_inv_def out none_oversized_def list_all_iff by (metis completion.exhaust)
  ultimately show ?thesis using p' out by (simp add: csv_bytes_def)
qed

theorem csv_fold_lossless_witness:
  "concat (map lr_body (fst (fold_csv ''/l'' [csv_line1] None []))) @
    (case snd (fold_csv ''/l'' [csv_line1] None []) of None \<Rightarrow> [] | Some p \<Rightarrow> lr_body (pm_record p)) = [quote, newline]"
proof -
  have "none_oversized (fst (fold_csv ''/l'' [csv_line1] None []))"
    by (simp add: none_oversized_def fold_csv_def csv_step_def csv_init_def csv_line1_def csv_begin_def csv_extend_def
        scan_csv_parity ends_with_def suffix_Cons Let_def)
  then show ?thesis
    using csv_fold_lossless[of "[csv_line1]" "''/l''" None "[]" "fst (fold_csv ''/l'' [csv_line1] None [])"
        "snd (fold_csv ''/l'' [csv_line1] None [])"]
    by (simp add: csv_lines_complete same_source_def) (simp add: csv_line1_def)
qed

text \<open>
  The gate numbers what it lets through and counts the rest: the records that come out carry consecutive numbers
  from the counter on, their bodies are those of the records that are neither withheld as incomplete nor dropped as
  noise, in order, the counter moves by their number, and the noise count is the number of noise records.
\<close>

theorem gate_numbers_admitted:
  assumes "admit_with_noise_filter container g path folded needles n = (out, dropped, g', n')"
  shows "map tr_seq out = [n..<n'] \<and> n' = n + length out \<and>
    map tr_body out = map lr_body (filter (\<lambda>r. \<not> withholds r \<and> \<not> is_noise (lr_body r) needles) folded) \<and>
    dropped = length (filter (\<lambda>r. is_noise (lr_body r) needles) folded)"
  using assms by (rule noise_filter_spec)

definition plain_gate :: uplink_gate where
  "plain_gate = uplink_gate_new ''g'' ''t'' ''i'' \<lparr>io_family = [], io_unit = []\<rparr>"

definition some_folded :: "delimited_record list" where
  "some_folded = [\<lparr>lr_body = ''x'', lr_start_offset = 0, lr_end_offset = 1, lr_lines = 1, lr_completion = Boundary\<rparr>]"

theorem gate_numbers_admitted_witness:
  "map tr_seq (fst (admit_with_noise_filter (\<lambda>_. None :: unit option) plain_gate ''/l'' some_folded [''y''] 7)) = [7]"
proof -
  obtain out d g n where r: "admit_with_noise_filter (\<lambda>_. None :: unit option) plain_gate ''/l'' some_folded [''y''] 7 = (out, d, g, n)"
    by (metis prod_cases4)
  have "map tr_body out = [''x'']"
    using gate_numbers_admitted[OF r] by (simp add: some_folded_def withholds_def is_noise_def contains_str_def)
  then have "length out = 1" by (metis length_Cons length_map list.size(3) One_nat_def)
  then show ?thesis using gate_numbers_admitted[OF r] r by simp
qed

subsection \<open>Buffer, spool and delivery\<close>

text \<open>
  Staging partitions the records within the budget: what is staged and what overflows together are exactly the
  records given, each in their order, and the estimated size of what is staged stays within the budget.
\<close>

theorem staging_within_budget:
  "mset (sg_staged (fst (stage_all (telemetry_buffer_new n) rs))) + mset (sg_overflowed (fst (stage_all (telemetry_buffer_new n) rs))) = mset rs \<and>
   subseq (sg_staged (fst (stage_all (telemetry_buffer_new n) rs))) rs \<and>
   subseq (sg_overflowed (fst (stage_all (telemetry_buffer_new n) rs))) rs \<and>
   sum_list (map estimate_record_size (sg_staged (fst (stage_all (telemetry_buffer_new n) rs)))) \<le> n"
  using stage_all_partition[of n rs] by blast

text \<open>
  C34. Replay delivers the spool or keeps it: a successful replay has sent exactly the readable records of the spool in
  order, moved every unreadable line to the quarantine file and left no backlog; a failed one has left the spool as
  it was and sent at most a prefix of it.
\<close>

theorem replay_delivers_or_keeps:
  "case replay_spool_if_present e batch_size w of
     (Inr m, w') \<Rightarrow> dw_sent w' = dw_sent w @ backlog e w \<and> m = length (backlog e w) \<and> backlog e w' = [] \<and>
       dw_bad w' = dw_bad w @ concat (map bad_entry (filter (bad_line e) (split_lines (unwrap_or [] (dw_spool w)))))
   | (Inl err, w') \<Rightarrow> dw_spool w' = dw_spool w \<and> (\<exists>sent. prefix sent (backlog e w) \<and> dw_sent w' = dw_sent w @ sent)"
proof -
  obtain r w' where run: "replay_spool_if_present e batch_size w = (r, w')" by fastforce
  show ?thesis
  proof (cases r)
    case (Inl err) then show ?thesis using replay_spool_failed[of e batch_size w err w'] run by simp
  next
    case (Inr m) then show ?thesis using replay_spool_effect[of e batch_size w m w'] run by simp
  qed
qed

text \<open>
  C35. Spooled records come back: records appended to an empty spool, with a codec that reads back what it writes, are
  replayed to a working sink completely and in order, and the spool is gone afterwards.
\<close>

theorem spool_round_trip:
  assumes "list_all (codec_ok e) rs" "dw_spool w = None" "de_append e (dw_appends w) = None"
    and "de_sink e = (\<lambda>_. SinkOk)" "de_stat_err e = None" "de_open_err e = None" "de_remove_err e = None" "de_bad_err e = None"
  shows "fst (append_records_async e rs w) = Inr () \<and>
    fst (replay_spool_if_present e batch_size (snd (append_records_async e rs w))) = Inr (length rs) \<and>
    dw_sent (snd (replay_spool_if_present e batch_size (snd (append_records_async e rs w)))) = dw_sent w @ rs \<and>
    backlog e (snd (replay_spool_if_present e batch_size (snd (append_records_async e rs w)))) = []"
proof -
  let ?w = "snd (append_records_async e rs w)"
  have ok: "append_records_async e rs w = (Inr (), ?w)" using append_records_ok[OF assms(1,3)] by (metis prod.collapse)
  have "spool_intact w" using assms(2) by (simp add: spool_intact_def line_ended_def unwrap_or_def)
  from append_records_backlog[OF ok assms(1) this] have b: "backlog e ?w = rs" "dw_sent ?w = dw_sent w"
    using assms(2) by (simp_all add: backlog_def)
  obtain bytes good where enc: "encode_records e rs = (bytes, good)" by fastforce
  note lines = encode_records_lines[OF assms(1) enc]
  have "\<exists>m w'. replay_spool_if_present e batch_size ?w = (Inr m, w')"
  proof (cases "rs = []")
    case True
    then show ?thesis using assms(2,5)
      by (simp add: append_records_async_def replay_spool_if_present_def has_records_async_def)
  next
    case False
    then have "dw_spool ?w = Some bytes" using ok enc assms(2,3) lines
      by (auto simp: append_records_async_def unwrap_or_def)
    moreover have "\<exists>m w'. replay_loop e (de_capacity e (max batch_size 1)) (split_lines bytes) [] 0 ?w = (Inr m, w')"
      using lines assms(4,7,8) by (intro replay_loop_succeeds) auto
    ultimately show ?thesis using assms(5,6) lines False
      by (simp add: replay_spool_if_present_def has_records_async_def replay_records_async_def)
  qed
  then obtain m w' where run: "replay_spool_if_present e batch_size ?w = (Inr m, w')" by blast
  show ?thesis using replay_spool_effect[OF run] run ok b by (metis fst_conv snd_conv)
qed

theorem spool_round_trip_witness:
  "dw_sent (snd (replay_spool_if_present plain_delivery 1 (snd (append_records_async plain_delivery [plain_record 0] idle_world)))) =
    [plain_record 0]"
  using spool_round_trip[OF plain_codec, of idle_world 1] by (simp add: idle_world_def plain_delivery_def)

text \<open>
  C36. Delivery loses nothing it reports as handled: when it succeeds on a spool that ends in a complete line, the
  records it counts as processed are exactly those sent directly plus those spooled, every record given has been
  sent or added to the spool, the spool still ends in a complete line, and without a sink error nothing is both.
\<close>

theorem delivery_loses_nothing:
  assumes "deliver_records e n rs w = (Inr out, w')" "list_all (codec_ok e) rs" "spool_intact w"
  shows "do_records_processed out = length rs \<and> do_emitted_directly out + do_spooled out = length rs \<and> spool_intact w' \<and>
    (\<exists>sent kept. dw_sent w' = dw_sent w @ sent \<and> backlog e w' = backlog e w @ kept \<and> set rs = set sent \<union> set kept \<and>
       length kept = do_spooled out \<and>
       (do_sink_error out \<noteq> None \<or> mset sent + mset kept = mset rs \<and> length sent = do_emitted_directly out))"
  using deliver_records_effect[OF assms] unfolding deliver_post_def by blast

theorem delivery_loses_nothing_witness:
  "\<exists>sent kept. dw_sent (snd (deliver_records plain_delivery 100 [plain_record 0] idle_world)) = dw_sent idle_world @ sent \<and>
     backlog plain_delivery (snd (deliver_records plain_delivery 100 [plain_record 0] idle_world)) = backlog plain_delivery idle_world @ kept \<and>
     set [plain_record 0] = set sent \<union> set kept"
proof -
  have "is_ok (fst (deliver_records plain_delivery 100 [plain_record 0] idle_world))" by code_simp
  then obtain out where "deliver_records plain_delivery 100 [plain_record 0] idle_world =
      (Inr out, snd (deliver_records plain_delivery 100 [plain_record 0] idle_world))"
    by (metis is_ok.simps(1) old.sum.exhaust prod.collapse)
  from delivery_loses_nothing[OF this plain_codec] show ?thesis
    by (auto simp: spool_intact_def idle_world_def line_ended_def unwrap_or_def)
qed

subsection \<open>Which files are read\<close>

text \<open>
  C37. The selection is exact: the selected paths are sorted without duplicates, at most as many as the scan limit, all
  of them files the target stands for that pass excludes and filters; below the limit every such file is selected;
  and no selected path is also deselected.
\<close>

theorem selection_exact:
  assumes "resolve_family_paths e target exclude_globs filters limit = Inr sel" "0 < limit"
  shows "\<exists>excludes. compile_excludes e exclude_globs = Inr excludes \<and>
    sorted (map path_parts (fs_selected sel)) \<and> distinct (map path_parts (fs_selected sel)) \<and> length (fs_selected sel) \<le> limit \<and>
    list_all (\<lambda>p. candidate e target p \<and> kept e excludes filters p) (fs_selected sel) \<and>
    (limit \<le> length (fs_selected sel) \<or>
      path_parts ` {p. candidate e target p \<and> kept e excludes filters p} = set (map path_parts (fs_selected sel))) \<and>
    set (fs_selected sel) \<inter> set (fs_deselected sel) = {}"
proof (rule resolve_family_spec[OF assms])
  fix excludes
  assume s: "compile_excludes e exclude_globs = Inr excludes"
    "sorted (map path_parts (fs_selected sel))" "distinct (map path_parts (fs_selected sel))" "length (fs_selected sel) \<le> limit"
    "\<And>p. p \<in> set (fs_selected sel) \<Longrightarrow> candidate e target p \<and> kept e excludes filters p"
    "\<And>p. length (fs_selected sel) < limit \<Longrightarrow> candidate e target p \<Longrightarrow> kept e excludes filters p \<Longrightarrow>
       path_parts p \<in> path_parts ` set (fs_selected sel)"
    "\<And>p. p \<in> set (fs_deselected sel) \<Longrightarrow> \<not> kept e excludes filters p"
  have "path_parts ` {p. candidate e target p \<and> kept e excludes filters p} = set (map path_parts (fs_selected sel))"
    if "\<not> limit \<le> length (fs_selected sel)"
    using s(5,6) that by auto
  then show ?thesis using s by (intro exI[of _ excludes]) (auto simp: list_all_iff)
qed

definition flat_glob :: glob_env where
  "flat_glob = \<lparr>ge_matcher = (\<lambda>_. Some (\<lambda>n. n = ''l'')), ge_read_dir = (\<lambda>_. Inr [Inr ''l'', Inr ''m'']),
     ge_metadata = (\<lambda>_. Inr RegularFile), ge_is_empty = (\<lambda>_. True),
     ge_containers = \<lparr>cn_metadata = (\<lambda>_. None), cn_read = (\<lambda>_. None), cn_parse = (\<lambda>_. None)\<rparr>\<rparr>"

definition no_filters :: container_filters where
  "no_filters = \<lparr>cf_namespace_in = [], cf_pod_not_in = [], cf_name_in = [], cf_name_not_in = []\<rparr>"

lemma flat_selection: "resolve_family_paths flat_glob ''/*'' [] no_filters 8 =
    Inr \<lparr>fs_selected = [''/l''], fs_deselected = [], fs_filtered = 0, fs_identity_unknown = 0\<rparr>"
  by code_simp

theorem selection_exact_witness:
  "path_parts ` {p. candidate flat_glob ''/*'' p \<and> kept flat_glob [] no_filters p} = {path_parts ''/l''}"
  using selection_exact[OF flat_selection] by simp

text \<open>
  The container cache is transparent: as long as a modification stamp determines the contents of a configuration
  file, looking a log path up through the cache answers what reading the file would, and keeps the cache sound.
\<close>

theorem container_cache_transparent:
  assumes "cache_sound (cn_parse e) contents cache" "stamps_faithful contents e"
  shows "fst (for_source_path e path cache) = lookup_path e path \<and>
    cache_sound (cn_parse e) contents (snd (for_source_path e path cache))"
  using assms by (rule for_source_path_sound)

definition one_container :: container_env where
  "one_container = \<lparr>cn_metadata = (\<lambda>_. Some (Some 1, 2)), cn_read = (\<lambda>_. Some ''c''),
     cn_parse = (\<lambda>_. Some \<lparr>v2_name = ''/db'', v2_image = None\<rparr>)\<rparr>"

theorem container_cache_transparent_witness:
  "fst (for_source_path one_container ''/d/containers/x/x.log'' []) = lookup_path one_container ''/d/containers/x/x.log''"
proof -
  have "cache_sound (cn_parse one_container) (\<lambda>_ _. Some ''c'') []" "stamps_faithful (\<lambda>_ _. Some ''c'') one_container"
    by (simp_all add: cache_sound_def stamps_faithful_def one_container_def)
  from container_cache_transparent[OF this] show ?thesis by blast
qed

end
