(* ===== verification/FileInput.thy ===== *)
theory FileInput
  imports LogDelivery GlobMatch
begin

text \<open>
  One tick of a single-file input, \<open>FileInputProcessor\<close> of \<open>src/telemetry/logs/files/file.rs\<close> with the state
  of \<open>state_support.rs\<close>: replay the spool, read what is new, fold it into records, number them, deliver them,
  persist the sequence number, then commit the checkpoint.

  The world is the delivery world together with the checkpoint file, the file with the next sequence number
  (\<open>src/state_store/log_seq_state.rs\<close>) and the counter in memory.  \<open>collector\<close> holds what a collection updates
  through mutable references: the checkpoint state, the gate, the counter and the growing batch; the single-file
  and the family batch extend it.  The file system seen during a tick, the clock and the outcome of every write
  are the environment; the state directory and the spool path of the configuration are cells of the world.
  The lemmas show that a checkpoint only ever moves after its records have been sent or spooled, that numbers are
  handed out without gaps and persisted before the checkpoint, and that the next tick resumes where this one
  committed.
\<close>

subsection \<open>Model\<close>

definition SPOOL_REPLAY_BATCH_SIZE :: nat where "SPOOL_REPLAY_BATCH_SIZE = 128"

record file_input_config =
  fc_agent_id :: string
  fc_input_id :: string
  fc_origin :: input_origin
  fc_source_path :: string
  fc_exclude_globs :: "string list"
  fc_filters :: container_filters
  fc_drop_if_contains :: "string list"
  fc_max_files :: nat
  fc_max_new_files :: nat
  fc_rescan_interval_ms :: int
  fc_startup_position :: startup_position
  fc_multiline_mode :: multiline_mode
  fc_in_memory_budget_bytes :: nat
  fc_read_limits :: read_limits
  fc_spool_max_bytes :: nat

datatype process_outcome_kind = SourceBatch | SpoolReplayOnly | SpoolPaused

record family_capacity =
  fy_tracked :: nat
  fy_max_files :: nat
  fy_refused :: nat

record process_outcome =
  po_kind :: process_outcome_kind
  po_records_processed :: nat
  po_emitted_directly :: nat
  po_spooled :: nat
  po_sink_error :: "string option"
  po_checkpoint_offset :: nat
  po_replayed_spool :: nat
  po_truncated :: bool
  po_truncated_lines :: nat
  po_read_lines :: nat
  po_withheld :: withheld
  po_dropped_noise :: nat
  po_selection_filtered :: nat
  po_identity_unknown :: nat
  po_rotated :: bool
  po_paused :: bool
  po_spool_bytes :: nat
  po_capacity :: "family_capacity option"

definition spool_replay_only :: "nat \<Rightarrow> process_outcome" where
  "spool_replay_only replayed_spool =
    \<lparr>po_kind = SpoolReplayOnly, po_records_processed = 0, po_emitted_directly = 0, po_spooled = 0, po_sink_error = None,
     po_checkpoint_offset = 0, po_replayed_spool = replayed_spool, po_truncated = False, po_truncated_lines = 0,
     po_read_lines = 0, po_withheld = \<lparr>wh_records = 0, wh_bytes = 0\<rparr>, po_dropped_noise = 0, po_selection_filtered = 0,
     po_identity_unknown = 0, po_rotated = False, po_paused = False, po_spool_bytes = 0, po_capacity = None\<rparr>"

definition paused :: "nat \<Rightarrow> string option \<Rightarrow> process_outcome" where
  "paused spool_bytes sink_error =
    (spool_replay_only 0)\<lparr>po_kind := SpoolPaused, po_sink_error := sink_error, po_paused := True, po_spool_bytes := spool_bytes\<rparr>"

definition from_delivery ::
    "delivery_outcome \<Rightarrow> nat \<Rightarrow> nat \<Rightarrow> bool \<Rightarrow> nat \<Rightarrow> withheld \<Rightarrow> bool \<Rightarrow> nat \<Rightarrow> process_outcome" where
  "from_delivery delivery checkpoint_offset replayed_spool truncated truncated_lines held rotated read_lines =
    \<lparr>po_kind = SourceBatch, po_records_processed = do_records_processed delivery,
     po_emitted_directly = do_emitted_directly delivery, po_spooled = do_spooled delivery,
     po_sink_error = do_sink_error delivery, po_checkpoint_offset = checkpoint_offset, po_replayed_spool = replayed_spool,
     po_truncated = truncated, po_truncated_lines = truncated_lines, po_read_lines = read_lines, po_withheld = held,
     po_dropped_noise = 0, po_selection_filtered = 0, po_identity_unknown = 0, po_rotated = rotated, po_paused = False,
     po_spool_bytes = 0, po_capacity = None\<rparr>"

definition with_dropped_noise :: "process_outcome \<Rightarrow> nat \<Rightarrow> process_outcome" where
  "with_dropped_noise out dropped_noise = out\<lparr>po_dropped_noise := dropped_noise\<rparr>"

record ('c, 'd) input_env =
  ie_delivery :: "'c delivery_env"
  ie_files :: log_files
  ie_listing :: "string \<Rightarrow> dir_listing"
  ie_canonicalize :: "string \<Rightarrow> string option"
  ie_container :: "string \<Rightarrow> 'c option"
  ie_delimiter :: "'d delimiter"
  ie_parse_time :: "string \<Rightarrow> int option"
  ie_now :: string
  ie_now_ms :: int
  ie_glob :: glob_env
  ie_checkpoint_stat_err :: "io_kind option"
  ie_seq_stat_err :: "io_kind option"
  ie_seq_write :: write_outcome
  ie_checkpoint_write :: write_outcome
  ie_uplink_write_detail :: "io_error \<Rightarrow> string option"

record 'c input_world =
  iw_delivery :: "'c delivery_world"
  iw_checkpoint :: "log_checkpoint_state disk_file"
  iw_seq :: "nat disk_file"
  iw_next_seq :: nat

type_synonym ('c, 'a) input_op = "('c input_world, 'a) op"

definition on_delivery :: "('c, 'a) delivery_op \<Rightarrow> ('c, 'a) input_op" where
  "on_delivery m w = (case m (iw_delivery w) of (r, v) \<Rightarrow> (r, w\<lparr>iw_delivery := v\<rparr>))"

definition seq_load_or_default_async :: "('c, 'd) input_env \<Rightarrow> 'c input_world \<Rightarrow> nat res" where
  "seq_load_or_default_async e w = (case ie_seq_stat_err e of
      Some k \<Rightarrow> Inl (IoError k ''stat'')
    | None \<Rightarrow> (case iw_seq w of Missing \<Rightarrow> Inr 0 | _ \<Rightarrow> read_json_async (iw_seq w)))"

definition seq_store_async :: "('c, 'd) input_env \<Rightarrow> nat \<Rightarrow> ('c, unit) input_op" where
  "seq_store_async e next_seq = write_op (ie_seq_write e) (\<lambda>w. w\<lparr>iw_seq := Present next_seq\<rparr>)"

definition checkpoint_store_async :: "('c, 'd) input_env \<Rightarrow> log_checkpoint_state \<Rightarrow> ('c, unit) input_op" where
  "checkpoint_store_async e state = write_op (ie_checkpoint_write e) (\<lambda>w. w\<lparr>iw_checkpoint := Present state\<rparr>)"

record pending_checkpoint =
  pc_source_path :: string
  pc_identity :: observed_file_identity
  pc_checkpoint_offset :: nat
  pc_rotated_from_path :: "string option"

record runtime_state =
  rt_log_state :: log_checkpoint_state
  rt_observed_at :: string
  rt_replayed_spool :: nat

definition load_runtime_state_async :: "('c, 'd) input_env \<Rightarrow> file_input_config \<Rightarrow> 'c input_world \<Rightarrow> runtime_state" where
  "load_runtime_state_async e cfg w =
    \<lparr>rt_log_state =
       (case load_or_default_from_path_async (ie_now e) (ie_checkpoint_stat_err e) (iw_checkpoint w) (fc_input_id cfg) of
          Inr state \<Rightarrow> state
        | Inl _ \<Rightarrow> log_checkpoint_state_new (fc_input_id cfg) (ie_now e)),
     rt_observed_at = ie_now e, rt_replayed_spool = 0\<rparr>"

definition paused_outcome_async ::
    "('c, 'd) input_env \<Rightarrow> nat \<Rightarrow> io_error option \<Rightarrow> 'c input_world \<Rightarrow> process_outcome option res" where
  "paused_outcome_async e spool_max_bytes replay_error w = (case spool_size_async (ie_delivery e) (iw_delivery w) of
      Inl err \<Rightarrow> Inl err
    | Inr spool_bytes \<Rightarrow>
        (if spool_max_bytes \<le> spool_bytes
         then Inr (Some (paused spool_bytes (case replay_error of None \<Rightarrow> None | Some err \<Rightarrow> ie_uplink_write_detail e err)))
         else Inr None))"

subsection \<open>Collecting\<close>

record 'c collector =
  co_state :: log_checkpoint_state
  co_gate :: uplink_gate
  co_next_seq :: nat
  co_records :: "'c telemetry_record list"
  co_dropped_noise :: nat
  co_read_lines :: nat
  co_truncated_lines :: nat
  co_checkpoint_offset :: nat

record 'c collected_read_batch = "'c collector" +
  cb_pending_multiline :: "pending_multiline_state option"
  cb_checkpoints :: "pending_checkpoint list"
  cb_resume :: resume_decision

definition take_admitted ::
    "'c admitted \<times> uplink_gate \<times> nat \<Rightarrow> ('c, 'z) collector_scheme \<Rightarrow> ('c, 'z) collector_scheme" where
  "take_admitted a c = (case a of (admitted, gate, next_seq) \<Rightarrow>
     c\<lparr>co_records := co_records c @ ad_records admitted, co_dropped_noise := co_dropped_noise c + ad_dropped_noise admitted,
       co_gate := gate, co_next_seq := next_seq\<rparr>)"

definition seal_pending ::
    "('c, 'd) input_env \<Rightarrow> file_input_config \<Rightarrow> pending_multiline_state option \<Rightarrow> ('c, 'z) collector_scheme \<Rightarrow> ('c, 'z) collector_scheme" where
  "seal_pending e cfg pending c =
    take_admitted (records_from_pending (ie_container e) (fc_multiline_mode cfg) (co_gate c) (fc_drop_if_contains cfg)
      pending (co_next_seq c)) c"

definition fold_read ::
    "('c, 'd) input_env \<Rightarrow> file_input_config \<Rightarrow> string \<Rightarrow> read_from_offset \<Rightarrow> pending_multiline_state option
     \<Rightarrow> ('c, 'z) collector_scheme \<Rightarrow> pending_multiline_state option \<times> ('c, 'z) collector_scheme" where
  "fold_read e cfg path rd pending c =
    (case records_from_read (ie_delimiter e) (ie_container e) (co_gate c) (fc_multiline_mode cfg) (fc_drop_if_contains cfg)
            (ie_now e) path (rf_lines rd) pending (co_next_seq c) of
       (folded, gate, next_seq) \<Rightarrow>
         (fr_pending folded,
          c\<lparr>co_read_lines := co_read_lines c + length (rf_lines rd),
            co_truncated_lines := co_truncated_lines c + rf_truncated_lines rd,
            co_records := co_records c @ fr_records folded, co_dropped_noise := co_dropped_noise c + fr_dropped_noise folded,
            co_gate := gate, co_next_seq := next_seq\<rparr>))"

definition collect_rotated_tail ::
    "('c, 'd) input_env \<Rightarrow> file_input_config \<Rightarrow> tracked_file_checkpoint option \<Rightarrow> ('c collected_read_batch, bool) op" where
  "collect_rotated_tail e cfg tracked c =
    (if \<not> rd_rotated (cb_resume c) then (Inr False, c)
     else (case tracked of
       None \<Rightarrow> (Inr False, c)
     | Some previous \<Rightarrow>
         (case find_rotated_path_async (ie_files e) (ie_listing e (fc_source_path cfg)) (fc_source_path cfg) previous of
           Inl err \<Rightarrow> (Inl err, c)
         | Inr None \<Rightarrow> (Inr False, c)
         | Inr (Some rotated_path) \<Rightarrow>
             (let c1 = c\<lparr>co_state := relocate_checkpoint_path (co_state c) previous rotated_path,
                         cb_pending_multiline :=
                           rebind_pending_source_on_rotate (cb_pending_multiline c) (fc_source_path cfg) rotated_path\<rparr>
              in case read_from_offset_async (ie_files e) rotated_path (tc_checkpoint_offset previous) (fc_read_limits cfg) of
                   Inl err \<Rightarrow> (Inl err, c1)
                 | Inr rd \<Rightarrow>
                     (case fold_read e cfg rotated_path rd (cb_pending_multiline c1) c1 of (pending, c2) \<Rightarrow>
                        (Inr (rf_lines rd \<noteq> []),
                         c2\<lparr>cb_pending_multiline := pending,
                            cb_checkpoints := cb_checkpoints c2 @
                              [\<lparr>pc_source_path = rotated_path, pc_identity = rf_identity rd,
                                pc_checkpoint_offset = rf_committed_end_offset rd, pc_rotated_from_path = None\<rparr>]\<rparr>))))))"

definition settle_pending ::
    "('c, 'd) input_env \<Rightarrow> file_input_config \<Rightarrow> 'c collected_read_batch \<Rightarrow> 'c collected_read_batch" where
  "settle_pending e cfg c =
    (if rd_rotated (cb_resume c) \<or> rd_truncated (cb_resume c)
     then seal_pending e cfg (cb_pending_multiline c) (c\<lparr>cb_pending_multiline := None\<rparr>)
     else (case flush_pending_if_source_changes (ie_container e) (fc_multiline_mode cfg) (co_gate c)
                  (fc_drop_if_contains cfg) (cb_pending_multiline c) (fc_source_path cfg) (co_next_seq c) of
             (admitted, pending, gate, next_seq) \<Rightarrow>
               (take_admitted (admitted, gate, next_seq) c)\<lparr>cb_pending_multiline := pending\<rparr>))"

definition read_active ::
    "('c, 'd) input_env \<Rightarrow> file_input_config \<Rightarrow> read_from_offset \<Rightarrow> 'c collected_read_batch \<Rightarrow> 'c collected_read_batch" where
  "read_active e cfg rd c =
    (case fold_read e cfg (fc_source_path cfg) rd (cb_pending_multiline c) c of (pending, c1) \<Rightarrow>
      c1\<lparr>cb_pending_multiline := pending, co_checkpoint_offset := rf_committed_end_offset rd,
         cb_checkpoints := cb_checkpoints c1 @
           [\<lparr>pc_source_path = fc_source_path cfg, pc_identity = rf_identity rd,
             pc_checkpoint_offset = rf_committed_end_offset rd, pc_rotated_from_path = rd_rotated_from_path (cb_resume c1)\<rparr>]\<rparr>)"

definition seal_idle ::
    "('c, 'd) input_env \<Rightarrow> file_input_config \<Rightarrow> bool \<Rightarrow> 'c collected_read_batch \<Rightarrow> 'c collected_read_batch" where
  "seal_idle e cfg saw_new_lines c =
    (if \<not> saw_new_lines \<and> pending_should_flush (ie_parse_time e) (fc_multiline_mode cfg) (cb_pending_multiline c) (ie_now e)
     then seal_pending e cfg (cb_pending_multiline c) (c\<lparr>cb_pending_multiline := None\<rparr>)
     else c)"

definition collected_read_batch_new ::
    "('c, 'd) input_env \<Rightarrow> file_input_config \<Rightarrow> log_checkpoint_state \<Rightarrow> nat \<Rightarrow> resume_decision \<Rightarrow> 'c collected_read_batch" where
  "collected_read_batch_new e cfg state next_seq resume =
    \<lparr>co_state = state\<lparr>lc_pending_multiline := None\<rparr>,
     co_gate = uplink_gate_new (fc_agent_id cfg) (ie_now e) (fc_input_id cfg) (fc_origin cfg), co_next_seq = next_seq,
     co_records = [], co_dropped_noise = 0, co_read_lines = 0, co_truncated_lines = 0, co_checkpoint_offset = 0,
     cb_pending_multiline = lc_pending_multiline state, cb_checkpoints = [], cb_resume = resume\<rparr>"

text \<open>The counter is a mutable reference: it keeps what was handed out even when a later read fails.\<close>

definition collect_read_batch ::
    "('c, 'd) input_env \<Rightarrow> file_input_config \<Rightarrow> log_checkpoint_state \<Rightarrow> nat \<Rightarrow> 'c collected_read_batch res \<times> nat" where
  "collect_read_batch e cfg state next_seq =
    (case inspect_path_async (ie_files e) (fc_source_path cfg) of
      Inl err \<Rightarrow> (Inl err, next_seq)
    | Inr current \<Rightarrow>
        (let tracked = checkpoint_for_path state (fc_source_path cfg);
             resume = decide_resume_async (ie_files e) (fc_source_path cfg) current tracked (fc_startup_position cfg)
         in case collect_rotated_tail e cfg tracked (collected_read_batch_new e cfg state next_seq resume) of
              (Inl err, c) \<Rightarrow> (Inl err, co_next_seq c)
            | (Inr saw_tail, c) \<Rightarrow>
                (let c1 = settle_pending e cfg c in
                 case read_from_offset_async (ie_files e) (fc_source_path cfg) (rd_start_offset resume) (fc_read_limits cfg) of
                   Inl err \<Rightarrow> (Inl err, co_next_seq c1)
                 | Inr rd \<Rightarrow>
                     (let c2 = seal_idle e cfg (saw_tail \<or> rf_lines rd \<noteq> []) (read_active e cfg rd c1)
                      in (Inr c2, co_next_seq c2)))))"

fun apply_checkpoints ::
    "('c, 'd) input_env \<Rightarrow> string \<Rightarrow> pending_checkpoint list \<Rightarrow> log_checkpoint_state \<Rightarrow> log_checkpoint_state" where
  "apply_checkpoints e observed_at [] state = state"
| "apply_checkpoints e observed_at (c # cs) state =
    apply_checkpoints e observed_at cs
      (upsert_checkpoint_async (ie_files e) (ie_canonicalize e) state (pc_source_path c) (pc_identity c)
        \<lparr>cu_checkpoint_offset = pc_checkpoint_offset c, cu_observed_at = observed_at, cu_real_path = [],
         cu_pending_multiline = None, cu_rotated_from_path = pc_rotated_from_path c\<rparr>)"

definition committed_state ::
    "('c, 'd) input_env \<Rightarrow> string \<Rightarrow> log_checkpoint_state \<Rightarrow> pending_checkpoint list \<Rightarrow> pending_multiline_state option \<Rightarrow> log_checkpoint_state" where
  "committed_state e observed_at state checkpoints pending =
    (apply_checkpoints e observed_at checkpoints state)\<lparr>lc_pending_multiline := pending, lc_updated_at := observed_at\<rparr>"

definition commit_log_state ::
    "('c, 'd) input_env \<Rightarrow> string \<Rightarrow> log_checkpoint_state \<Rightarrow> pending_checkpoint list \<Rightarrow> pending_multiline_state option \<Rightarrow> ('c, unit) input_op" where
  "commit_log_state e observed_at state checkpoints pending =
    checkpoint_store_async e (committed_state e observed_at state checkpoints pending)"

text \<open>The spool is replayed first; a replay that fails pauses the input when the spool is full.\<close>

definition replay_first ::
    "('c, 'd) input_env \<Rightarrow> file_input_config \<Rightarrow> (nat \<Rightarrow> ('c, process_outcome) input_op) \<Rightarrow> ('c, process_outcome) input_op" where
  "replay_first e cfg continue w =
    (case on_delivery (replay_spool_if_present (ie_delivery e) SPOOL_REPLAY_BATCH_SIZE) w of
      (Inl err, w1) \<Rightarrow>
        (case paused_outcome_async e (fc_spool_max_bytes cfg) (Some err) w1 of
          Inl err' \<Rightarrow> (Inl err', w1)
        | Inr (Some out) \<Rightarrow> (Inr out, w1)
        | Inr None \<Rightarrow> (Inl err, w1))
    | (Inr replayed, w1) \<Rightarrow> continue replayed w1)"

definition deliver_and_number ::
    "('c, 'd) input_env \<Rightarrow> file_input_config \<Rightarrow> 'c telemetry_record list \<Rightarrow> nat \<Rightarrow> ('c, delivery_outcome) input_op" where
  "deliver_and_number e cfg records next_seq =
    bind_op (on_delivery (deliver_records (ie_delivery e) (fc_in_memory_budget_bytes cfg) records))
      (\<lambda>delivery. bind_op (if 0 < do_records_processed delivery then seq_store_async e next_seq else return_op ())
      (\<lambda>_. return_op delivery))"

definition process_once_async :: "('c, 'd) input_env \<Rightarrow> file_input_config \<Rightarrow> ('c, process_outcome) input_op" where
  "process_once_async e cfg w =
    (let runtime = load_runtime_state_async e cfg w in
     replay_first e cfg (\<lambda>replayed w1.
       case collect_read_batch e cfg (rt_log_state runtime) (iw_next_seq w1) of
         (Inl err, next_seq) \<Rightarrow> (Inl err, w1\<lparr>iw_next_seq := next_seq\<rparr>)
       | (Inr batch, next_seq) \<Rightarrow>
           bind_op (deliver_and_number e cfg (co_records batch) next_seq) (\<lambda>delivery.
           bind_op (commit_log_state e (rt_observed_at runtime) (co_state batch) (cb_checkpoints batch) (cb_pending_multiline batch)) (\<lambda>_.
           return_op (with_dropped_noise
             (from_delivery delivery (co_checkpoint_offset batch) replayed (rd_truncated (cb_resume batch))
               (co_truncated_lines batch) (ug_withheld (co_gate batch)) (rd_rotated (cb_resume batch)) (co_read_lines batch))
             (co_dropped_noise batch)))) (w1\<lparr>iw_next_seq := next_seq\<rparr>)) w)"


subsection \<open>Numbering\<close>

definition numbered :: "nat \<Rightarrow> ('c, 'z) collector_scheme \<Rightarrow> bool" where
  "numbered n c \<longleftrightarrow> n \<le> co_next_seq c \<and> map tr_seq (co_records c) = [n..<co_next_seq c]"

lemma upt_glue: "n \<le> m \<Longrightarrow> m \<le> k \<Longrightarrow> [n..<m] @ [m..<k] = [n..<k]"
  by (metis le_add_diff_inverse upt_add_eq_append)

lemma records_from_pending_seq:
  "records_from_pending container mode g needles pending n = (a, g', n') \<Longrightarrow>
   n \<le> n' \<and> map tr_seq (ad_records a) = [n..<n']"
  by (auto simp: records_from_pending_def Let_def split: option.splits prod.splits dest!: noise_filter_spec)

lemma flush_pending_seq:
  "flush_pending_if_source_changes container mode g needles pending path n = (a, p, g', n') \<Longrightarrow>
   n \<le> n' \<and> map tr_seq (ad_records a) = [n..<n']"
  by (auto simp: flush_pending_if_source_changes_def split: option.splits prod.splits if_splits dest: records_from_pending_seq)

lemma records_from_read_seq:
  assumes "records_from_read D container g mode needles observed_at path lines pending n = (f, g', n')"
  shows "n \<le> n' \<and> map tr_seq (fr_records f) = [n..<n']"
proof -
  from assms obtain folded pending' where
    "(case admit_with_noise_filter container g path folded needles n of (out, dropped, g', n) \<Rightarrow>
       (\<lparr>fr_records = out, fr_pending = pending', fr_dropped_noise = dropped\<rparr>, g', n)) = (f, g', n')"
    unfolding records_from_read_def Let_def
    by (auto split: if_splits option.splits prod.splits)
  then show ?thesis by (auto split: prod.splits dest!: noise_filter_spec)
qed

lemma numbered_take:
  "numbered n c \<Longrightarrow> co_next_seq c \<le> n' \<Longrightarrow> map tr_seq (ad_records a) = [co_next_seq c..<n'] \<Longrightarrow>
   numbered n (take_admitted (a, g, n') c)"
  by (simp add: numbered_def take_admitted_def upt_glue)

lemma numbered_seal: "numbered n c \<Longrightarrow> numbered n (seal_pending e cfg pending c)"
  unfolding seal_pending_def take_admitted_def
  by (auto simp: numbered_def upt_glue split: prod.splits dest!: records_from_pending_seq)

lemma numbered_fold: "numbered n c \<Longrightarrow> fold_read e cfg path rd pending c = (p, c') \<Longrightarrow> numbered n c'"
  unfolding fold_read_def
  by (auto simp: numbered_def upt_glue split: prod.splits dest!: records_from_read_seq)

lemma numbered_update [simp]:
  "numbered n (c\<lparr>cb_pending_multiline := p\<rparr>) = numbered n c" "numbered n (c\<lparr>cb_checkpoints := q\<rparr>) = numbered n c"
  "numbered n (d\<lparr>co_state := st\<rparr>) = numbered n d" "numbered n (d\<lparr>co_checkpoint_offset := k\<rparr>) = numbered n d"
  by (simp_all add: numbered_def)

lemma numbered_tail: "numbered n c \<Longrightarrow> numbered n (snd (collect_rotated_tail e cfg tracked c))"
  unfolding collect_rotated_tail_def
  by (auto simp: Let_def split: option.splits sum.splits prod.splits dest: numbered_fold[rotated])

lemma numbered_settle: "numbered n c \<Longrightarrow> numbered n (settle_pending e cfg c)"
  unfolding settle_pending_def
  by (auto simp: numbered_seal numbered_take split: prod.splits dest!: flush_pending_seq)

lemma numbered_active: "numbered n c \<Longrightarrow> numbered n (read_active e cfg rd c)"
  unfolding read_active_def by (auto split: prod.splits dest: numbered_fold[rotated])

lemma numbered_idle: "numbered n c \<Longrightarrow> numbered n (seal_idle e cfg saw c)"
  unfolding seal_idle_def by (simp add: numbered_seal)

lemma collect_read_batch_numbered:
  assumes "collect_read_batch e cfg state n = (Inr batch, n')"
  shows "co_next_seq batch = n' \<and> numbered n batch"
proof -
  have "numbered n (collected_read_batch_new e cfg state n resume)" for resume
    by (simp add: numbered_def collected_read_batch_new_def)
  note base = this[THEN numbered_tail]
  from assms show ?thesis
    unfolding collect_read_batch_def Let_def
    by (auto split: sum.splits prod.splits intro!: numbered_idle numbered_active numbered_settle) (metis base snd_conv)
qed


subsection \<open>Effect of a tick\<close>

definition same_files :: "'c input_world \<Rightarrow> 'c input_world \<Rightarrow> bool" where
  "same_files w w' \<longleftrightarrow> iw_checkpoint w' = iw_checkpoint w \<and> iw_seq w' = iw_seq w"

lemma empty_spool_intact: "has_records_async e w = Inr False \<Longrightarrow> spool_intact w"
  by (auto simp: has_records_async_def spool_intact_def line_ended_def unwrap_or_def split: option.splits)

lemma replay_first_cases:
  assumes "replay_first e cfg f w = (r, w')"
  obtains (stopped) "same_files w w'" "iw_next_seq w' = iw_next_seq w" "dw_spool (iw_delivery w') = dw_spool (iw_delivery w)"
      "\<forall>out. r = Inr out \<longrightarrow> po_kind out = SpoolPaused"
      "\<exists>p. prefix p (backlog (ie_delivery e) (iw_delivery w)) \<and> dw_sent (iw_delivery w') = dw_sent (iw_delivery w) @ p"
  | (replayed) m w1 where "f m w1 = (r, w')" "same_files w w1" "iw_next_seq w1 = iw_next_seq w"
      "spool_intact (iw_delivery w1)" "backlog (ie_delivery e) (iw_delivery w1) = []"
      "dw_sent (iw_delivery w1) = dw_sent (iw_delivery w) @ backlog (ie_delivery e) (iw_delivery w)"
      "m = length (backlog (ie_delivery e) (iw_delivery w))"
proof -
  obtain q v where q: "replay_spool_if_present (ie_delivery e) SPOOL_REPLAY_BATCH_SIZE (iw_delivery w) = (q, v)" by fastforce
  show thesis
  proof (cases q)
    case (Inr m)
    with q have q': "replay_spool_if_present (ie_delivery e) SPOOL_REPLAY_BATCH_SIZE (iw_delivery w) = (Inr m, v)" by simp
    from replay_spool_effect[OF q'] have "spool_intact v" "backlog (ie_delivery e) v = []"
      "dw_sent v = dw_sent (iw_delivery w) @ backlog (ie_delivery e) (iw_delivery w)"
      "m = length (backlog (ie_delivery e) (iw_delivery w))" by (auto dest: empty_spool_intact)
    moreover have "f m (w\<lparr>iw_delivery := v\<rparr>) = (r, w')" using assms q Inr by (simp add: replay_first_def on_delivery_def)
    ultimately show thesis using replayed[of m "w\<lparr>iw_delivery := v\<rparr>"] by (simp add: same_files_def)
  next
    case (Inl err)
    with q have "dw_spool v = dw_spool (iw_delivery w)"
      "\<exists>p. prefix p (backlog (ie_delivery e) (iw_delivery w)) \<and> dw_sent v = dw_sent (iw_delivery w) @ p"
      using replay_spool_failed[of "ie_delivery e" SPOOL_REPLAY_BATCH_SIZE "iw_delivery w" err v] by auto
    moreover have "w' = w\<lparr>iw_delivery := v\<rparr>" "\<forall>out. r = Inr out \<longrightarrow> po_kind out = SpoolPaused"
      using assms q Inl
      by (auto simp: replay_first_def on_delivery_def paused_outcome_async_def paused_def split: sum.splits option.splits if_splits)
    ultimately show thesis using stopped by (simp add: same_files_def)
  qed
qed

lemma deliver_and_number_effect:
  assumes run: "deliver_and_number e cfg rs n w = (r, w')" and c: "list_all (codec_ok (ie_delivery e)) rs"
    and i: "spool_intact (iw_delivery w)"
  shows "iw_checkpoint w' = iw_checkpoint w \<and> iw_next_seq w' = iw_next_seq w \<and>
    (\<forall>out. r = Inr out \<longrightarrow> deliver_post (ie_delivery e) rs (iw_delivery w) out (iw_delivery w') \<and>
       (if rs = [] then iw_seq w' = iw_seq w else iw_seq w' = Present n))"
proof -
  obtain q v where q: "deliver_records (ie_delivery e) (fc_in_memory_budget_bytes cfg) rs (iw_delivery w) = (q, v)" by fastforce
  show ?thesis
  proof (cases q)
    case (Inl err)
    then show ?thesis using run q by (auto simp: deliver_and_number_def on_delivery_def bind_op_def)
  next
    case (Inr out)
    from deliver_records_effect[OF q[unfolded Inr] c i] have post: "deliver_post (ie_delivery e) rs (iw_delivery w) out v" .
    then have "do_records_processed out = length rs" by (simp add: deliver_post_def)
    then show ?thesis using run q Inr post
      by (cases "ie_seq_write e")
        (auto simp: deliver_and_number_def on_delivery_def bind_op_def return_op_def seq_store_async_def split: if_splits)
  qed
qed

lemma deliver_post_kept:
  assumes "deliver_post e rs w out w'"
  shows "set rs \<subseteq> set (dw_sent w') \<union> set (backlog e w')" "set (dw_sent w) \<subseteq> set (dw_sent w')"
    "set (backlog e w) \<subseteq> set (backlog e w')"
  using assms by (auto simp: deliver_post_def)

text \<open>Every record this tick collects is one the codec can encode.\<close>

definition tick_encodable :: "('c, 'd) input_env \<Rightarrow> file_input_config \<Rightarrow> 'c input_world \<Rightarrow> bool" where
  "tick_encodable e cfg w =
    (case collect_read_batch e cfg (rt_log_state (load_runtime_state_async e cfg w)) (iw_next_seq w) of
      (Inl _, _) \<Rightarrow> True
    | (Inr batch, _) \<Rightarrow> list_all (codec_ok (ie_delivery e)) (co_records batch))"

text \<open>The state of the world after a tick that reached the commit.\<close>

definition committed_tick ::
    "('c, 'd) input_env \<Rightarrow> file_input_config \<Rightarrow> 'c input_world \<Rightarrow> 'c collected_read_batch \<Rightarrow> 'c input_world \<Rightarrow> bool" where
  "committed_tick e cfg w batch w' \<longleftrightarrow>
     (let state = rt_log_state (load_runtime_state_async e cfg w) in
      collect_read_batch e cfg state (iw_next_seq w) = (Inr batch, iw_next_seq w') \<and>
      (iw_checkpoint w' = iw_checkpoint w \<or>
       iw_checkpoint w' = Present (committed_state e (ie_now e) (co_state batch) (cb_checkpoints batch) (cb_pending_multiline batch))) \<and>
      set (co_records batch) \<union> set (backlog (ie_delivery e) (iw_delivery w)) \<subseteq>
        set (dw_sent (iw_delivery w')) \<union> set (backlog (ie_delivery e) (iw_delivery w')) \<and>
      (co_records batch \<noteq> [] \<longrightarrow> iw_seq w' = Present (iw_next_seq w')))"

text \<open>
  What the two kinds of tick share: replay, collect, deliver and number, commit, finish.  The contract asks of the
  commit that it touches the checkpoint file only.
\<close>

locale committing_tick =
  fixes e :: "('c, 'd) input_env" and cfg :: file_input_config
    and process :: "('c, process_outcome) input_op"
    and collect :: "'c input_world \<Rightarrow> nat \<Rightarrow> 'b res \<times> nat"
    and records :: "'b \<Rightarrow> 'c telemetry_record list"
    and commit :: "'c input_world \<Rightarrow> 'b \<Rightarrow> ('c, unit) input_op"
    and finish :: "'b \<Rightarrow> nat \<Rightarrow> delivery_outcome \<Rightarrow> process_outcome res"
  assumes process_steps: "process w = replay_first e cfg (\<lambda>m w1.
      case collect w (iw_next_seq w1) of
        (Inl err, n) \<Rightarrow> (Inl err, w1\<lparr>iw_next_seq := n\<rparr>)
      | (Inr b, n) \<Rightarrow>
          bind_op (deliver_and_number e cfg (records b) n) (\<lambda>d.
          bind_op (commit w b) (\<lambda>_. lift_res (finish b m d))) (w1\<lparr>iw_next_seq := n\<rparr>)) w"
    and commit_frame: "commit w b v = (q, v') \<Longrightarrow>
      iw_delivery v' = iw_delivery v \<and> iw_seq v' = iw_seq v \<and> iw_next_seq v' = iw_next_seq v"
begin

lemma commit_then_finish:
  "bind_op (commit w b) (\<lambda>_. lift_res (finish b m d)) v = (r, v') \<Longrightarrow>
   iw_delivery v' = iw_delivery v \<and> iw_seq v' = iw_seq v \<and> iw_next_seq v' = iw_next_seq v"
  by (cases "commit w b v") (auto simp: bind_op_def lift_res_def split: sum.splits dest: commit_frame)

lemma tick_cases:
  assumes run: "process w = (r, w')"
    and c: "\<forall>b n. collect w (iw_next_seq w) = (Inr b, n) \<longrightarrow> list_all (codec_ok (ie_delivery e)) (records b)"
  obtains (untouched) "iw_checkpoint w' = iw_checkpoint w" "\<forall>out. r = Inr out \<longrightarrow> po_kind out = SpoolPaused"
  | (committed) b m d v where "collect w (iw_next_seq w) = (Inr b, iw_next_seq w')"
      "set (records b) \<union> set (backlog (ie_delivery e) (iw_delivery w)) \<subseteq>
        set (dw_sent (iw_delivery w')) \<union> set (backlog (ie_delivery e) (iw_delivery w'))"
      "records b \<noteq> [] \<longrightarrow> iw_seq w' = Present (iw_next_seq w')" "iw_checkpoint v = iw_checkpoint w"
      "bind_op (commit w b) (\<lambda>_. lift_res (finish b m d)) v = (r, w')"
  using run unfolding process_steps
proof (cases rule: replay_first_cases)
  case stopped then show thesis using untouched by (simp add: same_files_def)
next
  case (replayed m w1)
  obtain q n where q: "collect w (iw_next_seq w) = (q, n)" by fastforce
  show thesis
  proof (cases q)
    case (Inl err)
    then have "r = Inl err" "iw_checkpoint w' = iw_checkpoint w" using replayed(1-3) q by (auto simp: same_files_def)
    then show thesis using untouched by simp
  next
    case b: (Inr b)
    obtain x w2 where x: "deliver_and_number e cfg (records b) n (w1\<lparr>iw_next_seq := n\<rparr>) = (x, w2)" by fastforce
    have eff: "iw_checkpoint w2 = iw_checkpoint w" "iw_next_seq w2 = n"
      "\<And>d. x = Inr d \<Longrightarrow> deliver_post (ie_delivery e) (records b) (iw_delivery w1) d (iw_delivery w2) \<and>
         (records b \<noteq> [] \<longrightarrow> iw_seq w2 = Present n)"
      using deliver_and_number_effect[OF x] c q b replayed(2,4) by (auto simp: same_files_def)
    show thesis
    proof (cases x)
      case (Inl err)
      then have "r = Inl err" "w' = w2" using replayed(1,3) q b x by (auto simp: bind_op_def)
      then show thesis using untouched eff(1) by simp
    next
      case (Inr d)
      note post = eff(3)[OF Inr]
      have fin: "bind_op (commit w b) (\<lambda>_. lift_res (finish b m d)) w2 = (r, w')"
        using replayed(1,3) q b x Inr by (simp add: bind_op_def)
      have "set (backlog (ie_delivery e) (iw_delivery w)) \<subseteq> set (dw_sent (iw_delivery w2))"
        using deliver_post_kept(2)[OF conjunct1[OF post]] replayed(6) by auto
      with committed[OF _ _ _ eff(1) fin] commit_then_finish[OF fin] deliver_post_kept(1)[OF conjunct1[OF post]]
        post eff(2) q b show thesis by auto
    qed
  qed
qed

end

interpretation file_tick: committing_tick e cfg "process_once_async e cfg"
    "\<lambda>w. collect_read_batch e cfg (rt_log_state (load_runtime_state_async e cfg w))" co_records
    "\<lambda>w b. commit_log_state e (rt_observed_at (load_runtime_state_async e cfg w)) (co_state b) (cb_checkpoints b) (cb_pending_multiline b)"
    "\<lambda>b m d. Inr (with_dropped_noise
       (from_delivery d (co_checkpoint_offset b) m (rd_truncated (cb_resume b)) (co_truncated_lines b)
         (ug_withheld (co_gate b)) (rd_rotated (cb_resume b)) (co_read_lines b)) (co_dropped_noise b))"
  for e cfg
proof
  show "process_once_async e cfg w = replay_first e cfg (\<lambda>m w1.
      case collect_read_batch e cfg (rt_log_state (load_runtime_state_async e cfg w)) (iw_next_seq w1) of
        (Inl err, n) \<Rightarrow> (Inl err, w1\<lparr>iw_next_seq := n\<rparr>)
      | (Inr b, n) \<Rightarrow>
          bind_op (deliver_and_number e cfg (co_records b) n) (\<lambda>d.
          bind_op (commit_log_state e (rt_observed_at (load_runtime_state_async e cfg w)) (co_state b) (cb_checkpoints b)
            (cb_pending_multiline b)) (\<lambda>_. lift_res (Inr (with_dropped_noise
       (from_delivery d (co_checkpoint_offset b) m (rd_truncated (cb_resume b)) (co_truncated_lines b)
         (ug_withheld (co_gate b)) (rd_rotated (cb_resume b)) (co_read_lines b)) (co_dropped_noise b)))))
           (w1\<lparr>iw_next_seq := n\<rparr>)) w" for w
    unfolding process_once_async_def Let_def return_op_def lift_res_def by (rule refl)
  show "iw_delivery v' = iw_delivery v \<and> iw_seq v' = iw_seq v \<and> iw_next_seq v' = iw_next_seq v"
    if "commit_log_state e now state ks p v = (q, v')" for now state ks p and q :: "unit res" and v v'
    using that by (cases "ie_checkpoint_write e") (auto simp: commit_log_state_def checkpoint_store_async_def)
qed

text \<open>The committed state of a batch, and the outcomes of a tick in these terms.\<close>

definition batch_state :: "('c, 'd) input_env \<Rightarrow> 'c collected_read_batch \<Rightarrow> log_checkpoint_state" where
  "batch_state e b = committed_state e (ie_now e) (co_state b) (cb_checkpoints b) (cb_pending_multiline b)"

lemma process_once_cases:
  assumes run: "process_once_async e cfg w = (r, w')" and c: "tick_encodable e cfg w"
  obtains (untouched) "iw_checkpoint w' = iw_checkpoint w" "\<forall>out. r = Inr out \<longrightarrow> po_kind out = SpoolPaused"
  | (committed) batch where "committed_tick e cfg w batch w'"
      "\<And>out. r = Inr out \<Longrightarrow> iw_checkpoint w' = Present (committed_state e (ie_now e) (co_state batch) (cb_checkpoints batch) (cb_pending_multiline batch))"
      "\<And>out. r = Inr out \<Longrightarrow> po_checkpoint_offset out = co_checkpoint_offset batch \<and> po_rotated out = rd_rotated (cb_resume batch)"
proof -
  have enc: "\<forall>b n. collect_read_batch e cfg (rt_log_state (load_runtime_state_async e cfg w)) (iw_next_seq w) = (Inr b, n) \<longrightarrow>
      list_all (codec_ok (ie_delivery e)) (co_records b)"
    using c by (auto simp: tick_encodable_def)
  from run enc show thesis
  proof (cases rule: file_tick.tick_cases)
    case untouched with that(1) show thesis by blast
  next
    case (committed b m d v)
    from committed(5) have "iw_checkpoint w' = iw_checkpoint v \<or> iw_checkpoint w' = Present (batch_state e b)"
      "\<And>out. r = Inr out \<Longrightarrow> iw_checkpoint w' = Present (batch_state e b) \<and> po_checkpoint_offset out = co_checkpoint_offset b \<and>
         po_rotated out = rd_rotated (cb_resume b)"
      by (cases "ie_checkpoint_write e"; auto simp: bind_op_def lift_res_def commit_log_state_def checkpoint_store_async_def
          load_runtime_state_async_def with_dropped_noise_def from_delivery_def batch_state_def)+
    then show thesis using that(2)[of b] committed(1-4) by (auto simp: committed_tick_def Let_def batch_state_def)
  qed
qed

subsection \<open>Lines and records\<close>

definition tells :: "string \<Rightarrow> raw_file_line \<Rightarrow> 'c telemetry_record \<Rightarrow> bool" where
  "tells path line r \<longleftrightarrow> tr_source_path r = path \<and> tr_body r = rw_text line \<and>
     tr_start_offset r = rw_start_offset line \<and> tr_end_offset r = rw_end_offset line"

lemma parse_delimited_member:
  "r \<in> set rs \<Longrightarrow> \<exists>t\<in>set (fst (parse_delimited_records container g path rs n)).
     tr_source_path t = path \<and> tr_body t = lr_body r \<and> tr_start_offset t = lr_start_offset r \<and> tr_end_offset t = lr_end_offset r"
  by (induction rs arbitrary: n) (auto simp: case_prod_beta)

lemma plain_fold:
  assumes "fold_read e cfg path rd pending c = (p, c')" "fc_multiline_mode cfg = ModeNone" "fc_drop_if_contains cfg = []"
  shows "\<forall>line\<in>set (rf_lines rd). \<exists>r\<in>set (co_records c'). tells path line r"
proof
  fix line assume l: "line \<in> set (rf_lines rd)"
  define folded where "folded = (case same_source path pending of Some p \<Rightarrow> [(pm_record p)\<lparr>lr_completion := Deadline\<rparr>] | None \<Rightarrow> [])
      @ map record_from_line (rf_lines rd)"
  have nw: "filter (\<lambda>r. \<not> withholds r) folded = folded"
    by (auto simp: folded_def withholds_def record_from_line_def filter_id_conv split: option.splits completion.splits)
  have m: "record_from_line line \<in> set folded" using l by (simp add: folded_def)
  have "\<exists>t\<in>set (co_records c'). tr_source_path t = path \<and> tr_body t = lr_body (record_from_line line) \<and>
      tr_start_offset t = lr_start_offset (record_from_line line) \<and> tr_end_offset t = lr_end_offset (record_from_line line)"
    using assms parse_delimited_member[OF m, of "ie_container e" "co_gate c" path "co_next_seq c"] nw
    by (auto simp: fold_read_def records_from_read_def delimiter_policy_def admit_with_noise_filter_def admit_def Let_def
        folded_def[symmetric] split: prod.splits)
  then show "\<exists>r\<in>set (co_records c'). tells path line r" by (auto simp: tells_def record_from_line_def)
qed

lemma seal_pending_grows: "set (co_records c) \<subseteq> set (co_records (seal_pending e cfg pending c))"
  by (auto simp: seal_pending_def take_admitted_def split: prod.splits)

lemma seal_pending_frame [simp]:
  "co_state (seal_pending e cfg pending c) = co_state c"
  "co_checkpoint_offset (seal_pending e cfg pending c) = co_checkpoint_offset c"
  "cb_checkpoints (seal_pending e cfg pending d) = cb_checkpoints d" "cb_resume (seal_pending e cfg pending d) = cb_resume d"
  by (auto simp: seal_pending_def take_admitted_def split: prod.splits)

lemma seal_idle_frame [simp]:
  "co_state (seal_idle e cfg saw c) = co_state c" "co_checkpoint_offset (seal_idle e cfg saw c) = co_checkpoint_offset c"
  "cb_checkpoints (seal_idle e cfg saw c) = cb_checkpoints c" "cb_resume (seal_idle e cfg saw c) = cb_resume c"
  by (auto simp: seal_idle_def)

lemma seal_idle_grows: "set (co_records c) \<subseteq> set (co_records (seal_idle e cfg saw c))"
  using seal_pending_grows[of "c\<lparr>cb_pending_multiline := None\<rparr>"] by (auto simp: seal_idle_def)

lemma settle_pending_frame [simp]:
  "co_state (settle_pending e cfg c) = co_state c" "cb_checkpoints (settle_pending e cfg c) = cb_checkpoints c"
  "cb_resume (settle_pending e cfg c) = cb_resume c"
  by (auto simp: settle_pending_def take_admitted_def split: prod.splits)

lemma fold_read_frame:
  "fold_read e cfg path rd pending c = (p, c') \<Longrightarrow> co_state c' = co_state c \<and> co_checkpoint_offset c' = co_checkpoint_offset c"
  "fold_read e cfg path rd pending d = (p, d') \<Longrightarrow> cb_checkpoints d' = cb_checkpoints d \<and> cb_resume d' = cb_resume d"
  by (auto simp: fold_read_def split: prod.splits)

lemma collect_rotated_tail_idle:
  "\<not> rd_rotated (cb_resume c) \<Longrightarrow> collect_rotated_tail e cfg tracked c = (Inr False, c)"
  by (simp add: collect_rotated_tail_def)

lemma collect_rotated_tail_resume: "cb_resume (snd (collect_rotated_tail e cfg tracked c)) = cb_resume c"
  by (auto simp: collect_rotated_tail_def Let_def split: option.splits sum.splits prod.splits dest: fold_read_frame(2))

lemma collect_read_batch_shape:
  assumes "collect_read_batch e cfg state n = (Inr batch, n')"
  obtains current c saw rd where "inspect_path_async (ie_files e) (fc_source_path cfg) = Inr current"
    "cb_resume batch = decide_resume_async (ie_files e) (fc_source_path cfg) current
       (checkpoint_for_path state (fc_source_path cfg)) (fc_startup_position cfg)"
    "collect_rotated_tail e cfg (checkpoint_for_path state (fc_source_path cfg))
       (collected_read_batch_new e cfg state n (cb_resume batch)) = (Inr saw, c)"
    "read_from_offset_async (ie_files e) (fc_source_path cfg) (rd_start_offset (cb_resume batch)) (fc_read_limits cfg) = Inr rd"
    "batch = seal_idle e cfg (saw \<or> rf_lines rd \<noteq> []) (read_active e cfg rd (settle_pending e cfg c))"
proof -
  from assms obtain current where cur: "inspect_path_async (ie_files e) (fc_source_path cfg) = Inr current"
    by (auto simp: collect_read_batch_def split: sum.splits)
  define resume where "resume = decide_resume_async (ie_files e) (fc_source_path cfg) current
       (checkpoint_for_path state (fc_source_path cfg)) (fc_startup_position cfg)"
  from assms cur obtain saw c where
    tail: "collect_rotated_tail e cfg (checkpoint_for_path state (fc_source_path cfg))
       (collected_read_batch_new e cfg state n resume) = (Inr saw, c)"
    by (auto simp: collect_read_batch_def resume_def Let_def split: sum.splits prod.splits)
  from assms cur tail obtain rd where
    rd: "read_from_offset_async (ie_files e) (fc_source_path cfg) (rd_start_offset resume) (fc_read_limits cfg) = Inr rd"
    and b: "batch = seal_idle e cfg (saw \<or> rf_lines rd \<noteq> []) (read_active e cfg rd (settle_pending e cfg c))"
    by (auto simp: collect_read_batch_def resume_def[symmetric] Let_def split: sum.splits)
  have "cb_resume c = resume" using collect_rotated_tail_resume tail
    by (metis (no_types, lifting) collected_read_batch.select_convs(3) collected_read_batch_new_def snd_conv)
  then have "cb_resume batch = resume" unfolding b read_active_def
    by (auto split: prod.splits dest: fold_read_frame(2))
  with cur resume_def tail rd b that show thesis by metis
qed

lemma plain_lines_recorded:
  assumes "collect_read_batch e cfg state n = (Inr batch, n')" "fc_multiline_mode cfg = ModeNone" "fc_drop_if_contains cfg = []"
  shows "\<exists>rd. read_from_offset_async (ie_files e) (fc_source_path cfg) (rd_start_offset (cb_resume batch)) (fc_read_limits cfg) = Inr rd \<and>
    co_checkpoint_offset batch = rf_committed_end_offset rd \<and>
    (\<forall>line\<in>set (rf_lines rd). \<exists>r\<in>set (co_records batch). tells (fc_source_path cfg) line r)"
proof -
  from assms(1) obtain current c saw rd where
    rd: "read_from_offset_async (ie_files e) (fc_source_path cfg) (rd_start_offset (cb_resume batch)) (fc_read_limits cfg) = Inr rd"
    and b: "batch = seal_idle e cfg (saw \<or> rf_lines rd \<noteq> []) (read_active e cfg rd (settle_pending e cfg c))"
    by (rule collect_read_batch_shape)
  let ?c = "settle_pending e cfg c"
  obtain p c1 where f: "fold_read e cfg (fc_source_path cfg) rd (cb_pending_multiline ?c) ?c = (p, c1)" by fastforce
  have "\<forall>line\<in>set (rf_lines rd). \<exists>r\<in>set (co_records c1). tells (fc_source_path cfg) line r"
    by (rule plain_fold[OF f assms(2,3)])
  moreover have "set (co_records c1) \<subseteq> set (co_records batch)"
    using seal_idle_grows[of "read_active e cfg rd ?c" e cfg] f unfolding b by (auto simp: read_active_def)
  moreover have "co_checkpoint_offset batch = rf_committed_end_offset rd" unfolding b using f by (simp add: read_active_def)
  ultimately show ?thesis using rd by blast
qed

subsection \<open>Resuming\<close>

lemma unrotated_commit:
  assumes "collect_read_batch e cfg state n = (Inr batch, n')" "\<not> rd_rotated (cb_resume batch)"
    and "fs = ie_files e" "fs (fc_source_path cfg) = Some f"
    and "\<forall>t\<in>set (lc_files state). names_file (ie_canonicalize e) (fc_source_path cfg) (identity_from_metadata f) t \<longrightarrow>
       tc_path t = fc_source_path cfg"
  shows "\<exists>cp. checkpoint_for_path (committed_state e now (co_state batch) (cb_checkpoints batch) (cb_pending_multiline batch))
      (fc_source_path cfg) = Some cp \<and>
    checkpoint_of (fc_source_path cfg) (lf_device_id f) (lf_inode f) (lf_bytes f) (co_checkpoint_offset batch) cp"
proof -
  let ?path = "fc_source_path cfg"
  from assms(1) obtain current c saw rd where
    tail: "collect_rotated_tail e cfg (checkpoint_for_path state ?path) (collected_read_batch_new e cfg state n (cb_resume batch)) = (Inr saw, c)"
    and rd: "read_from_offset_async (ie_files e) ?path (rd_start_offset (cb_resume batch)) (fc_read_limits cfg) = Inr rd"
    and b: "batch = seal_idle e cfg (saw \<or> rf_lines rd \<noteq> []) (read_active e cfg rd (settle_pending e cfg c))"
    by (rule collect_read_batch_shape)
  have c: "c = collected_read_batch_new e cfg state n (cb_resume batch)"
    using tail assms(2) by (simp add: collect_rotated_tail_idle collected_read_batch_new_def)
  from rd obtain f' raws rest where f': "ie_files e ?path = Some f'" "rf_identity rd = identity_from_metadata f'"
    "drop (min (rd_start_offset (cb_resume batch)) (length (lf_bytes f'))) (lf_bytes f') = concat raws @ rest"
    "rf_committed_end_offset rd = min (rd_start_offset (cb_resume batch)) (length (lf_bytes f')) + length (concat raws)"
    by (rule read_from_offset_spec)
  have ff: "f' = f" using f'(1) assms(3,4) by simp
  have len: "rf_committed_end_offset rd \<le> length (lf_bytes f)" using arg_cong[OF f'(3), of length] f'(4) ff by simp
  have err: "lf_read_err f = None" using rd f'(1) ff by (auto simp: read_from_offset_async_def open_log_def split: option.splits)
  obtain p c1 where fold: "fold_read e cfg ?path rd (cb_pending_multiline (settle_pending e cfg c)) (settle_pending e cfg c) = (p, c1)"
    by fastforce
  note fr = fold_read_frame(1)[OF fold] fold_read_frame(2)[OF fold]
  have st: "lc_files (co_state batch) = lc_files state" "co_checkpoint_offset batch = rf_committed_end_offset rd"
    and ck: "\<exists>rot. cb_checkpoints batch = [\<lparr>pc_source_path = ?path, pc_identity = identity_from_metadata f,
        pc_checkpoint_offset = rf_committed_end_offset rd, pc_rotated_from_path = rot\<rparr>]"
    unfolding b read_active_def using fold fr f'(2) ff c by (auto simp: collected_read_batch_new_def)
  from ck obtain rot where ck: "cb_checkpoints batch = [\<lparr>pc_source_path = ?path, pc_identity = identity_from_metadata f,
        pc_checkpoint_offset = rf_committed_end_offset rd, pc_rotated_from_path = rot\<rparr>]" by blast
  let ?upd = "\<lparr>cu_checkpoint_offset = rf_committed_end_offset rd, cu_observed_at = now, cu_real_path = [],
         cu_pending_multiline = None, cu_rotated_from_path = rot\<rparr>"
  have look: "checkpoint_for_path (upsert_checkpoint_async (ie_files e) (ie_canonicalize e) (co_state batch) ?path (identity_from_metadata f) ?upd) ?path =
    Some (observed_checkpoint (ie_files e) (ie_canonicalize e) ?path (identity_from_metadata f) ?upd ?path)"
    using lookup_after_upsert[of "co_state batch"] assms(5) st(1) by simp
  have "checkpoint_for_path (committed_state e now (co_state batch) (cb_checkpoints batch) (cb_pending_multiline batch)) ?path =
    Some (observed_checkpoint (ie_files e) (ie_canonicalize e) ?path (identity_from_metadata f) ?upd ?path)"
    using look unfolding ck committed_state_def by (simp add: checkpoint_for_path_def)
  moreover have "checkpoint_of ?path (lf_device_id f) (lf_inode f) (lf_bytes f) (rf_committed_end_offset rd)
      (observed_checkpoint (ie_files e) (ie_canonicalize e) ?path (identity_from_metadata f) ?upd ?path)"
    using observed_checkpoint_of[of "ie_files e" ?path f ?upd] f'(1) ff err len by simp
  ultimately show ?thesis using st(2) by simp
qed

end
