(* ===== verification/FileFamily.thy ===== *)
theory FileFamily
  imports FileInput
begin

text \<open>
  One tick of a file-family input (a glob or a directory), \<open>FileFamilyProcessor\<close> of
  \<open>src/telemetry/logs/files/file.rs\<close>: one input, many files, each with its own unfinished entry.  A tick decides
  whether to rescan, forms the working set of tracked and newly matched files, reads them within one shared budget,
  drains files that were rotated away, prunes what is no longer matched, delivers, and commits.

  The lemmas show the same safety of the checkpoint as for a single file, gap-free numbering across files, that no
  real file is taken into the working set twice, that the limits on tracked and new files hold, that the shared read
  budget only shrinks, and which checkpoints pruning keeps.
\<close>

subsection \<open>Model\<close>

record family_checkpoint =
  fk_display_path :: string
  fk_real_path :: string
  fk_identity :: observed_file_identity
  fk_checkpoint_offset :: nat
  fk_pending_multiline :: "pending_multiline_state option"

record 'c family_batch = "'c collector" +
  fm_checkpoints :: "family_checkpoint list"
  fm_selection_filtered :: nat
  fm_identity_unknown :: nat
  fm_rotated :: bool
  fm_truncated :: bool
  fm_failure :: "io_error option"
  fm_capacity :: "family_capacity option"
  fm_budget :: read_limits

definition migrate_input_pending_to_files ::
    "log_checkpoint_state \<Rightarrow> pending_multiline_state option \<times> log_checkpoint_state" where
  "migrate_input_pending_to_files state = (case lc_pending_multiline state of
      None \<Rightarrow> (None, state)
    | Some pending \<Rightarrow>
        (let state1 = state\<lparr>lc_pending_multiline := None\<rparr> in
         case position (\<lambda>entry. tc_path entry = pm_source_path pending) (lc_files state1) of
           None \<Rightarrow> (Some pending, state1)
         | Some i \<Rightarrow>
             (if tc_pending_multiline (lc_files state1 ! i) = None
              then (None, state1\<lparr>lc_files := (lc_files state1)[i := (lc_files state1 ! i)\<lparr>tc_pending_multiline := Some pending\<rparr>]\<rparr>)
              else (Some pending, state1))))"

definition checkpoint_is_stale :: "(string \<Rightarrow> int option) \<Rightarrow> tracked_file_checkpoint \<Rightarrow> string \<Rightarrow> bool" where
  "checkpoint_is_stale parse_time entry observed_at = (case tc_last_commit_point_at entry of
      None \<Rightarrow> True
    | Some last_at \<Rightarrow> (case parse_time last_at of
        None \<Rightarrow> False
      | Some before \<Rightarrow> (case parse_time observed_at of
          None \<Rightarrow> False
        | Some now \<Rightarrow> 7 * 86400 * 1000000000 \<le> now - before)))"

definition prune_keeps :: "(string \<Rightarrow> int option) \<Rightarrow> string list \<Rightarrow> string list \<Rightarrow> string \<Rightarrow> tracked_file_checkpoint \<Rightarrow> bool" where
  "prune_keeps parse_time matched deselected observed_at entry =
    (if tc_path entry \<in> set matched then True
     else if tc_path entry \<in> set deselected then False
     else if tc_pending_multiline entry \<noteq> None then True
     else if (case tc_last_size entry of None \<Rightarrow> False | Some known \<Rightarrow> known \<le> tc_checkpoint_offset entry) then False
     else \<not> checkpoint_is_stale parse_time entry observed_at)"

definition prune_family_state ::
    "(string \<Rightarrow> int option) \<Rightarrow> log_checkpoint_state \<Rightarrow> string list \<Rightarrow> string list \<Rightarrow> string \<Rightarrow> log_checkpoint_state" where
  "prune_family_state parse_time state matched deselected observed_at =
    state\<lparr>lc_files := filter (prune_keeps parse_time matched deselected observed_at) (lc_files state)\<rparr>"

definition canonical :: "('c, 'd) input_env \<Rightarrow> string \<Rightarrow> string" where
  "canonical e path = unwrap_or path (ie_canonicalize e path)"

definition spend :: "nat \<Rightarrow> nat \<Rightarrow> read_limits \<Rightarrow> read_limits" where
  "spend consumed_lines consumed_bytes budget =
    budget\<lparr>rl_max_lines := rl_max_lines budget - consumed_lines, rl_max_bytes := rl_max_bytes budget - consumed_bytes\<rparr>"

definition budget_spent :: "read_limits \<Rightarrow> bool" where
  "budget_spent budget \<longleftrightarrow> rl_max_lines budget = 0 \<or> rl_max_bytes budget = 0"

text \<open>Reading a file of the family from an offset: fold, seal an entry that stayed idle, account for the budget.\<close>

definition family_fold ::
    "('c, 'd) input_env \<Rightarrow> file_input_config \<Rightarrow> string \<Rightarrow> nat \<Rightarrow> read_from_offset \<Rightarrow> pending_multiline_state option
     \<Rightarrow> 'c family_batch \<Rightarrow> pending_multiline_state option \<times> 'c family_batch" where
  "family_fold e cfg path start rd pending c =
    (case fold_read e cfg path rd pending c of (pending1, c1) \<Rightarrow>
      (case (if rf_lines rd = [] \<and> pending_should_flush (ie_parse_time e) (fc_multiline_mode cfg) pending1 (ie_now e)
             then (None, seal_pending e cfg pending1 c1) else (pending1, c1)) of
        (pending2, c2) \<Rightarrow>
          (pending2,
           c2\<lparr>co_checkpoint_offset := max (co_checkpoint_offset c2) (rf_committed_end_offset rd),
              fm_budget := spend (length (rf_lines rd)) (rf_committed_end_offset rd - start) (fm_budget c2)\<rparr>)))"

definition push_checkpoint :: "family_checkpoint \<Rightarrow> 'c family_batch \<Rightarrow> 'c family_batch" where
  "push_checkpoint k c = c\<lparr>fm_checkpoints := fm_checkpoints c @ [k]\<rparr>"

definition drain_rotated ::
    "('c, 'd) input_env \<Rightarrow> file_input_config \<Rightarrow> tracked_file_checkpoint \<Rightarrow> ('c family_batch, bool) op" where
  "drain_rotated e cfg previous c =
    (let base = checkpoint_real_path previous in
     case find_rotated_path_async (ie_files e) (ie_listing e base) base previous of
       Inl err \<Rightarrow> (Inl err, c)
     | Inr None \<Rightarrow> (Inr False, c)
     | Inr (Some rotated_path) \<Rightarrow>
         (let pending = rebind_pending_source_on_rotate (tc_pending_multiline previous) (tc_path previous) rotated_path;
              c1 = c\<lparr>co_state := relocate_checkpoint_path (co_state c) previous rotated_path\<rparr>
          in case read_from_offset_async (ie_files e) rotated_path (tc_checkpoint_offset previous) (fm_budget c1) of
               Inl err \<Rightarrow> (Inl err, c1)
             | Inr rd \<Rightarrow>
                 (case family_fold e cfg rotated_path (tc_checkpoint_offset previous) rd pending c1 of (pending', c2) \<Rightarrow>
                   (Inr True, push_checkpoint
                     \<lparr>fk_display_path = rotated_path, fk_real_path = canonical e rotated_path, fk_identity = rf_identity rd,
                      fk_checkpoint_offset = rf_committed_end_offset rd, fk_pending_multiline = pending'\<rparr> c2))))"

text \<open>A file that vanished: its tail is drained, or the entry it left unfinished is sealed.\<close>

definition seal_vanished :: "('c, 'd) input_env \<Rightarrow> file_input_config \<Rightarrow> string \<Rightarrow> 'c family_batch \<Rightarrow> 'c family_batch" where
  "seal_vanished e cfg display c =
    (case position (\<lambda>entry. tc_path entry = display) (lc_files (co_state c)) of
      None \<Rightarrow> c
    | Some i \<Rightarrow>
        (let entry = lc_files (co_state c) ! i in
         seal_pending e cfg (tc_pending_multiline entry)
           (c\<lparr>co_state := (co_state c)\<lparr>lc_files := (lc_files (co_state c))[i := entry\<lparr>tc_pending_multiline := None\<rparr>]\<rparr>\<rparr>)))"

definition read_vanished ::
    "('c, 'd) input_env \<Rightarrow> file_input_config \<Rightarrow> string \<Rightarrow> tracked_file_checkpoint option \<Rightarrow> ('c family_batch, unit) op" where
  "read_vanished e cfg display tracked c = (case tracked of
      None \<Rightarrow> (Inr (), c)
    | Some previous \<Rightarrow> (case drain_rotated e cfg previous c of
        (Inl err, c1) \<Rightarrow> (Inl err, c1)
      | (Inr drained, c1) \<Rightarrow> (Inr (), if drained then c1 else seal_vanished e cfg display c1)))"

definition family_resume ::
    "('c, 'd) input_env \<Rightarrow> file_input_config \<Rightarrow> string \<Rightarrow> bool \<Rightarrow> observed_file_identity \<Rightarrow> tracked_file_checkpoint option \<Rightarrow> resume_decision" where
  "family_resume e cfg display first_scan current tracked =
    (let startup = (if tracked = None \<and> \<not> first_scan then Head else fc_startup_position cfg);
         resume_base = (case tracked of Some previous \<Rightarrow> checkpoint_real_path previous | None \<Rightarrow> canonical e display);
         previous_for_resume = map_option (\<lambda>previous. previous\<lparr>tc_path := checkpoint_real_path previous\<rparr>) tracked
     in decide_resume_async (ie_files e) resume_base current previous_for_resume startup)"

definition settle_truncated ::
    "('c, 'd) input_env \<Rightarrow> file_input_config \<Rightarrow> resume_decision \<Rightarrow> pending_multiline_state option \<Rightarrow> 'c family_batch
     \<Rightarrow> pending_multiline_state option \<times> 'c family_batch" where
  "settle_truncated e cfg resume pending c =
    (if rd_truncated resume then (None, (seal_pending e cfg pending c)\<lparr>fm_truncated := True\<rparr>) else (pending, c))"

definition settle_rotated ::
    "('c, 'd) input_env \<Rightarrow> file_input_config \<Rightarrow> string \<Rightarrow> tracked_file_checkpoint option \<Rightarrow> resume_decision
     \<Rightarrow> pending_multiline_state option \<Rightarrow> ('c family_batch, pending_multiline_state option) op" where
  "settle_rotated e cfg display tracked resume pending c =
    (if \<not> rd_rotated resume then (Inr pending, c)
     else (case (case tracked of None \<Rightarrow> (Inr False, c) | Some previous \<Rightarrow> drain_rotated e cfg previous c) of
       (Inl err, c1) \<Rightarrow> (Inl err, c1)
     | (Inr drained, c1) \<Rightarrow>
         (Inr None,
          (if drained then c1
           else seal_pending e cfg pending
             (c1\<lparr>co_state := (co_state c1)\<lparr>lc_files := filter (\<lambda>entry. tc_path entry \<noteq> display) (lc_files (co_state c1))\<rparr>\<rparr>))
          \<lparr>fm_rotated := True\<rparr>)))"

definition read_current ::
    "('c, 'd) input_env \<Rightarrow> file_input_config \<Rightarrow> string \<Rightarrow> tracked_file_checkpoint option \<Rightarrow> observed_file_identity \<Rightarrow> resume_decision
     \<Rightarrow> pending_multiline_state option \<Rightarrow> ('c family_batch, unit) op" where
  "read_current e cfg display tracked current resume pending c =
    (let real_path = canonical e display in
     if budget_spent (fm_budget c) then
       (Inr (), if rd_rotated resume \<or> rd_truncated resume
          then push_checkpoint \<lparr>fk_display_path = display, fk_real_path = real_path, fk_identity = current,
                 fk_checkpoint_offset = 0, fk_pending_multiline = None\<rparr> c
          else c)
     else (case read_from_offset_async (ie_files e) real_path (rd_start_offset resume) (fm_budget c) of
       Inl err \<Rightarrow> (Inl err, c)
     | Inr rd \<Rightarrow>
         (case family_fold e cfg display (rd_start_offset resume) rd pending c of (pending', c1) \<Rightarrow>
           (let unchanged = (case tracked of
                  None \<Rightarrow> False
                | Some previous \<Rightarrow> tc_checkpoint_offset previous = rf_committed_end_offset rd \<and>
                    tc_pending_multiline previous = pending' \<and> checkpoint_real_path previous = real_path)
            in (Inr (), if unchanged then c1
                 else push_checkpoint \<lparr>fk_display_path = display, fk_real_path = real_path, fk_identity = rf_identity rd,
                        fk_checkpoint_offset = rf_committed_end_offset rd, fk_pending_multiline = pending'\<rparr> c1)))))"

definition read_one_file :: "('c, 'd) input_env \<Rightarrow> file_input_config \<Rightarrow> bool \<Rightarrow> string \<Rightarrow> ('c family_batch, unit) op" where
  "read_one_file e cfg first_scan display c =
    (let tracked = checkpoint_for_path (co_state c) display in
     case inspect_path_async (ie_files e) display of
       Inl err \<Rightarrow> (if error_kind err = NotFound then read_vanished e cfg display tracked c else (Inl err, c))
     | Inr current \<Rightarrow>
         (let resume = family_resume e cfg display first_scan current tracked;
              pending = (case tracked of None \<Rightarrow> None | Some entry \<Rightarrow> tc_pending_multiline entry)
          in case settle_truncated e cfg resume pending c of (pending1, c1) \<Rightarrow>
               bind_op (settle_rotated e cfg display tracked resume pending1)
                 (\<lambda>pending2. read_current e cfg display tracked current resume pending2) c1))"

fun read_working :: "('c, 'd) input_env \<Rightarrow> file_input_config \<Rightarrow> bool \<Rightarrow> string list \<Rightarrow> 'c family_batch \<Rightarrow> 'c family_batch" where
  "read_working e cfg first_scan [] c = c"
| "read_working e cfg first_scan (display # displays) c =
    (if budget_spent (fm_budget c) then c
     else (case read_one_file e cfg first_scan display c of
       (Inr _, c1) \<Rightarrow> read_working e cfg first_scan displays c1
     | (Inl err, c1) \<Rightarrow>
         read_working e cfg first_scan displays (c1\<lparr>fm_failure := Some (unwrap_or err (fm_failure c1))\<rparr>)))"

text \<open>The working set: a map keyed and ordered by display path.\<close>

definition key_insert :: "string \<Rightarrow> string list \<Rightarrow> string list" where
  "key_insert k ks = (if k \<in> set ks then ks else insort k ks)"

fun select_new ::
    "('c, 'd) input_env \<Rightarrow> file_input_config \<Rightarrow> string list \<Rightarrow> string list \<Rightarrow> string list \<Rightarrow> nat \<Rightarrow> string list \<times> nat" where
  "select_new e cfg [] working taken_real new_count = (working, 0)"
| "select_new e cfg (path # paths) working taken_real new_count =
    (if path \<in> set working then select_new e cfg paths working taken_real new_count
     else if fc_max_files cfg \<le> length working then (working, length (filter (\<lambda>p. p \<notin> set working) (path # paths)))
     else if fc_max_new_files cfg \<le> new_count then (working, 0)
     else if canonical e path \<in> set taken_real then select_new e cfg paths working taken_real new_count
     else select_new e cfg paths (key_insert path working) (List.insert (canonical e path) taken_real) (new_count + 1))"

definition tracked_working :: "log_checkpoint_state \<Rightarrow> string list \<Rightarrow> string list" where
  "tracked_working state deselected =
    fold (\<lambda>entry ks. key_insert (tc_path entry) ks) (filter (\<lambda>entry. tc_path entry \<notin> set deselected) (lc_files state)) []"

definition tracked_real :: "log_checkpoint_state \<Rightarrow> string list" where
  "tracked_real state = remdups (map checkpoint_real_path (lc_files state))"

definition should_scan :: "('c, 'd) input_env \<Rightarrow> file_input_config \<Rightarrow> log_checkpoint_state \<Rightarrow> bool" where
  "should_scan e cfg state \<longleftrightarrow>
     \<not> (has_glob (fc_source_path cfg) \<or> ge_metadata (ie_glob e) (fc_source_path cfg) = Inr Directory) \<or>
     (case lc_last_scan_ms state of
        None \<Rightarrow> True
      | Some before \<Rightarrow> fc_rescan_interval_ms cfg \<le> saturating_sub_i64 (ie_now_ms e) before)"

definition family_batch_new :: "('c, 'd) input_env \<Rightarrow> file_input_config \<Rightarrow> log_checkpoint_state \<Rightarrow> nat \<Rightarrow> 'c family_batch" where
  "family_batch_new e cfg state next_seq =
    \<lparr>co_state = state, co_gate = uplink_gate_new (fc_agent_id cfg) (ie_now e) (fc_input_id cfg) (fc_origin cfg),
     co_next_seq = next_seq, co_records = [], co_dropped_noise = 0, co_read_lines = 0, co_truncated_lines = 0,
     co_checkpoint_offset = 0, fm_checkpoints = [], fm_selection_filtered = 0, fm_identity_unknown = 0,
     fm_rotated = False, fm_truncated = False, fm_failure = None, fm_capacity = None, fm_budget = fc_read_limits cfg\<rparr>"

definition usize_saturating_mul :: "nat \<Rightarrow> nat \<Rightarrow> nat" where
  "usize_saturating_mul a b = min (a * b) (2 ^ 64 - 1)"

definition scan_selection ::
    "('c, 'd) input_env \<Rightarrow> file_input_config \<Rightarrow> log_checkpoint_state \<Rightarrow> (family_selection \<times> log_checkpoint_state) res" where
  "scan_selection e cfg state =
    (if should_scan e cfg state then
       (case resolve_family_paths (ie_glob e) (fc_source_path cfg) (fc_exclude_globs cfg) (fc_filters cfg)
               (max (usize_saturating_mul (fc_max_files cfg) 4) 1024) of
          Inl err \<Rightarrow> Inl err
        | Inr selection \<Rightarrow> Inr (selection, state\<lparr>lc_last_scan_ms := Some (ie_now_ms e)\<rparr>))
     else Inr (family_selection_none, state))"

definition with_selection ::
    "file_input_config \<Rightarrow> family_selection \<Rightarrow> log_checkpoint_state \<Rightarrow> string list \<Rightarrow> nat \<Rightarrow> 'c family_batch \<Rightarrow> 'c family_batch" where
  "with_selection cfg selection state working refused c =
    c\<lparr>co_state := state, fm_selection_filtered := fs_filtered selection, fm_identity_unknown := fs_identity_unknown selection,
      fm_capacity := (if 0 < refused
        then Some \<lparr>fy_tracked = length working, fy_max_files = fc_max_files cfg, fy_refused = refused\<rparr>
        else None)\<rparr>"

definition collect_family_batch ::
    "('c, 'd) input_env \<Rightarrow> file_input_config \<Rightarrow> log_checkpoint_state \<Rightarrow> nat \<Rightarrow> pending_multiline_state option
     \<Rightarrow> 'c family_batch res \<times> nat" where
  "collect_family_batch e cfg state next_seq orphan_pending =
    (let c = seal_pending e cfg orphan_pending (family_batch_new e cfg state next_seq);
         first_scan = (lc_files state = [] \<and> lc_last_scan_ms state = None)
     in case scan_selection e cfg state of
          Inl err \<Rightarrow> (Inl err, co_next_seq c)
        | Inr (selection, state1) \<Rightarrow>
            (case select_new e cfg (fs_selected selection) (tracked_working state1 (fs_deselected selection))
                    (tracked_real state1) 0 of
              (working, refused) \<Rightarrow>
                (let c1 = with_selection cfg selection state1 working refused c;
                     c2 = read_working e cfg first_scan working c1;
                     c3 = (if should_scan e cfg state
                           then c2\<lparr>co_state := prune_family_state (ie_parse_time e) (co_state c2) (fs_selected selection)
                                     (fs_deselected selection) (ie_now e)\<rparr>
                           else c2)
                 in (Inr c3, co_next_seq c3))))"

fun apply_family_checkpoints ::
    "('c, 'd) input_env \<Rightarrow> string \<Rightarrow> family_checkpoint list \<Rightarrow> log_checkpoint_state \<Rightarrow> log_checkpoint_state" where
  "apply_family_checkpoints e observed_at [] state = state"
| "apply_family_checkpoints e observed_at (k # ks) state =
    apply_family_checkpoints e observed_at ks
      (upsert_checkpoint_async (ie_files e) (ie_canonicalize e) state (fk_display_path k) (fk_identity k)
        \<lparr>cu_checkpoint_offset = fk_checkpoint_offset k, cu_observed_at = observed_at, cu_real_path = fk_real_path k,
         cu_pending_multiline = fk_pending_multiline k, cu_rotated_from_path = None\<rparr>)"

definition commit_family_state ::
    "('c, 'd) input_env \<Rightarrow> string \<Rightarrow> log_checkpoint_state \<Rightarrow> family_checkpoint list \<Rightarrow> log_checkpoint_state \<Rightarrow> ('c, unit) input_op" where
  "commit_family_state e observed_at state checkpoints before =
    (let state1 = (apply_family_checkpoints e observed_at checkpoints state)\<lparr>lc_pending_multiline := None\<rparr> in
     if state1 = before then return_op ()
     else checkpoint_store_async e (state1\<lparr>lc_updated_at := observed_at\<rparr>))"

definition family_process_once_async :: "('c, 'd) input_env \<Rightarrow> file_input_config \<Rightarrow> ('c, process_outcome) input_op" where
  "family_process_once_async e cfg w =
    (let runtime = load_runtime_state_async e cfg w; before = rt_log_state runtime in
     case migrate_input_pending_to_files before of (orphan_pending, state) \<Rightarrow>
     replay_first e cfg (\<lambda>replayed w1.
       case collect_family_batch e cfg state (iw_next_seq w1) orphan_pending of
         (Inl err, next_seq) \<Rightarrow> (Inl err, w1\<lparr>iw_next_seq := next_seq\<rparr>)
       | (Inr batch, next_seq) \<Rightarrow>
           bind_op (deliver_and_number e cfg (co_records batch) next_seq) (\<lambda>delivery.
           bind_op (commit_family_state e (rt_observed_at runtime) (co_state batch) (fm_checkpoints batch) before) (\<lambda>_.
           case fm_failure batch of
             Some err \<Rightarrow> fail_op err
           | None \<Rightarrow> return_op
               ((from_delivery delivery (co_checkpoint_offset batch) replayed (fm_truncated batch) (co_truncated_lines batch)
                  (ug_withheld (co_gate batch)) (fm_rotated batch) (co_read_lines batch))
                \<lparr>po_capacity := fm_capacity batch, po_dropped_noise := co_dropped_noise batch,
                  po_selection_filtered := fm_selection_filtered batch, po_identity_unknown := fm_identity_unknown batch\<rparr>)))
             (w1\<lparr>iw_next_seq := next_seq\<rparr>)) w)"


subsection \<open>Numbering and budget\<close>

lemma read_loop_lines: "length (ra_lines acc) \<le> rl_max_lines lim \<Longrightarrow> length (ra_lines (read_loop lim acc rd)) \<le> rl_max_lines lim"
proof (induction lim acc rd rule: read_loop.induct)
  case (1 lim acc rd)
  have commit: "length (ra_lines (commit_line acc buf t a b)) \<le> rl_max_lines lim" if "\<not> rl_max_lines lim \<le> length (ra_lines acc)" for buf t a b
    using that by (simp add: commit_line_def Let_def)
  show ?case
    apply (subst read_loop.simps)
    using 1 commit by (auto split: option.splits prod.splits)
qed

lemma read_from_offset_lines: "read_from_offset_async fs path start lim = Inr rd \<Longrightarrow> length (rf_lines rd) \<le> rl_max_lines lim"
  by (auto simp: read_from_offset_async_def Let_def read_loop_lines split: sum.splits)

text \<open>What every part of a family tick keeps: numbers without gaps, and lines read plus budget left do not grow.\<close>

definition on_budget :: "nat \<Rightarrow> nat \<Rightarrow> 'c family_batch \<Rightarrow> bool" where
  "on_budget n limit c \<longleftrightarrow> numbered n c \<and> co_read_lines c + rl_max_lines (fm_budget c) \<le> limit"

lemma on_budget_update [simp]:
  "on_budget n t (c\<lparr>co_state := st\<rparr>) = on_budget n t c" "on_budget n t (c\<lparr>fm_truncated := b\<rparr>) = on_budget n t c"
  "on_budget n t (c\<lparr>fm_rotated := b\<rparr>) = on_budget n t c" "on_budget n t (c\<lparr>fm_failure := f\<rparr>) = on_budget n t c"
  "on_budget n t (push_checkpoint k c) = on_budget n t c"
  by (simp_all add: on_budget_def numbered_def push_checkpoint_def)

lemma on_budget_seal [simp]: "on_budget n t c \<Longrightarrow> on_budget n t (seal_pending e cfg p c)"
proof -
  have "co_read_lines (seal_pending e cfg p c) = co_read_lines c" "fm_budget (seal_pending e cfg p c) = fm_budget c"
    by (auto simp: seal_pending_def take_admitted_def split: prod.splits)
  then show "on_budget n t c \<Longrightarrow> on_budget n t (seal_pending e cfg p c)" by (simp add: on_budget_def numbered_seal)
qed

lemma on_budget_fold:
  assumes "on_budget n t c" "length (rf_lines rd) \<le> rl_max_lines (fm_budget c)"
    "family_fold e cfg path start rd p c = (p', c')"
  shows "on_budget n t c'"
proof -
  obtain p1 c1 where f: "fold_read e cfg path rd p c = (p1, c1)" by fastforce
  have fr: "numbered n c1" "co_read_lines c1 = co_read_lines c + length (rf_lines rd)" "fm_budget c1 = fm_budget c"
    using numbered_fold[OF _ f] assms(1) f by (auto simp: on_budget_def fold_read_def split: prod.splits)
  have sl: "numbered n (seal_pending e cfg p1 c1)" "co_read_lines (seal_pending e cfg p1 c1) = co_read_lines c1"
    "fm_budget (seal_pending e cfg p1 c1) = fm_budget c1"
    using fr(1) by (auto simp: numbered_seal) (auto simp: seal_pending_def take_admitted_def split: prod.splits)
  show ?thesis using assms f fr sl
    by (auto simp: family_fold_def on_budget_def spend_def numbered_def split: if_splits)
qed

lemma on_budget_drain: "on_budget n t c \<Longrightarrow> on_budget n t (snd (drain_rotated e cfg previous c))"
  unfolding drain_rotated_def Let_def
  by (auto split: sum.splits option.splits prod.splits dest!: read_from_offset_lines dest: on_budget_fold[rotated 2])

lemma on_budget_vanished: "on_budget n t c \<Longrightarrow> on_budget n t (snd (read_vanished e cfg display tracked c))"
proof (cases tracked)
  case (Some previous)
  assume c: "on_budget n t c"
  obtain r c1 where d: "drain_rotated e cfg previous c = (r, c1)" by fastforce
  have "on_budget n t c1" using on_budget_drain[OF c, of e cfg previous] d by simp
  then show ?thesis using Some d by (cases r) (auto simp: read_vanished_def seal_vanished_def Let_def split: option.splits)
qed (simp add: read_vanished_def)

lemma on_budget_rotated: "on_budget n t c \<Longrightarrow> on_budget n t (snd (settle_rotated e cfg display tracked resume p c))"
proof -
  assume c: "on_budget n t c"
  obtain r c1 where d: "(case tracked of None \<Rightarrow> (Inr False, c) | Some previous \<Rightarrow> drain_rotated e cfg previous c) = (r, c1)" by fastforce
  have "on_budget n t c1" using c on_budget_drain[OF c, of e cfg] d by (cases tracked) (auto, metis snd_conv)
  then show ?thesis using c d by (cases r) (auto simp: settle_rotated_def)
qed

lemma on_budget_current: "on_budget n t c \<Longrightarrow> on_budget n t (snd (read_current e cfg display tracked current resume p c))"
  unfolding read_current_def Let_def
  by (auto split: sum.splits option.splits prod.splits dest!: read_from_offset_lines dest: on_budget_fold[rotated 2])

lemma on_budget_one: "on_budget n t c \<Longrightarrow> on_budget n t (snd (read_one_file e cfg first_scan display c))"
proof -
  assume c: "on_budget n t c"
  let ?tracked = "checkpoint_for_path (co_state c) display"
  show ?thesis
  proof (cases "inspect_path_async (ie_files e) display")
    case (Inl err)
    then show ?thesis using c by (simp add: read_one_file_def on_budget_vanished)
  next
    case (Inr current)
    let ?resume = "family_resume e cfg display first_scan current ?tracked"
    let ?pending = "case ?tracked of None \<Rightarrow> None | Some entry \<Rightarrow> tc_pending_multiline entry"
    obtain p1 c1 where s: "settle_truncated e cfg ?resume ?pending c = (p1, c1)" by fastforce
    then have c1: "on_budget n t c1" using c by (auto simp: settle_truncated_def split: if_splits)
    obtain r c2 where r: "settle_rotated e cfg display ?tracked ?resume p1 c1 = (r, c2)" by fastforce
    have c2: "on_budget n t c2" using on_budget_rotated[OF c1, of e cfg display ?tracked ?resume p1] r by simp
    show ?thesis using Inr s r c2 on_budget_current
      by (cases r) (auto simp: read_one_file_def bind_op_def Let_def)
  qed
qed

lemma on_budget_working: "on_budget n t c \<Longrightarrow> on_budget n t (read_working e cfg first_scan ds c)"
proof (induction ds arbitrary: c)
  case (Cons d ds)
  then show ?case using on_budget_one[OF Cons.prems, of e cfg first_scan d] by (auto split: prod.splits sum.splits)
qed simp

lemma collect_family_batch_numbered:
  assumes "collect_family_batch e cfg state n orphan = (Inr batch, n')"
  shows "co_next_seq batch = n' \<and> numbered n batch \<and> co_read_lines batch \<le> rl_max_lines (fc_read_limits cfg)"
proof -
  have "on_budget n (rl_max_lines (fc_read_limits cfg)) (seal_pending e cfg orphan (family_batch_new e cfg state n))"
    by (intro on_budget_seal) (simp add: on_budget_def numbered_def family_batch_new_def)
  note start = this
  from assms obtain selection state1 working refused where
    "scan_selection e cfg state = Inr (selection, state1)"
    "select_new e cfg (fs_selected selection) (tracked_working state1 (fs_deselected selection)) (tracked_real state1) 0 = (working, refused)"
    by (auto simp: collect_family_batch_def Let_def split: sum.splits prod.splits)
  note w = this
  define c1 where "c1 = with_selection cfg selection state1 working refused (seal_pending e cfg orphan (family_batch_new e cfg state n))"
  have "on_budget n (rl_max_lines (fc_read_limits cfg)) c1" using start
    by (simp add: c1_def with_selection_def on_budget_def numbered_def)
  from on_budget_working[OF this] have
    "on_budget n (rl_max_lines (fc_read_limits cfg)) (read_working e cfg (lc_files state = [] \<and> lc_last_scan_ms state = None) working c1)" .
  then have "on_budget n (rl_max_lines (fc_read_limits cfg)) batch \<and> n' = co_next_seq batch"
    using assms w unfolding c1_def by (auto simp: collect_family_batch_def Let_def split: if_splits)
  then show ?thesis by (simp add: on_budget_def)
qed


subsection \<open>The working set\<close>

lemma key_insert_props [simp]:
  "set (key_insert k ks) = insert k (set ks)" "sorted ks \<Longrightarrow> sorted (key_insert k ks)" "distinct ks \<Longrightarrow> distinct (key_insert k ks)"
  by (auto simp: key_insert_def set_insort_key sorted_insort distinct_insort)

lemma length_key_insert: "k \<notin> set ks \<Longrightarrow> length (key_insert k ks) = Suc (length ks)"
  by (simp add: key_insert_def)

definition adds_new ::
    "('c, 'd) input_env \<Rightarrow> file_input_config \<Rightarrow> string list \<Rightarrow> string list \<Rightarrow> string list \<Rightarrow> nat \<Rightarrow> string list \<Rightarrow> string list \<Rightarrow> bool" where
  "adds_new e cfg matched working taken k new working' \<longleftrightarrow>
     set working' = set working \<union> set new \<and> set new \<subseteq> set matched \<and> set new \<inter> set working = {} \<and>
     sorted working' \<and> distinct working' \<and> distinct (map (canonical e) new) \<and> set (map (canonical e) new) \<inter> set taken = {} \<and>
     k + length new \<le> max k (fc_max_new_files cfg) \<and> (new \<noteq> [] \<longrightarrow> length working' \<le> fc_max_files cfg)"

lemma adds_new_more: "adds_new e cfg paths working taken k new working' \<Longrightarrow> adds_new e cfg (path # paths) working taken k new working'"
  by (auto simp: adds_new_def)

lemma adds_new_cons:
  assumes "adds_new e cfg paths (key_insert path working) (List.insert (canonical e path) taken) (Suc k) new working'"
    "path \<notin> set working" "length working < fc_max_files cfg" "k < fc_max_new_files cfg" "canonical e path \<notin> set taken"
    "distinct working"
  shows "adds_new e cfg (path # paths) working taken k (path # new) working'"
proof -
  have "new = [] \<Longrightarrow> length working' = Suc (length working)"
    using assms(1,2,6) distinct_card[of working'] distinct_card[of working] by (simp add: adds_new_def)
  then show ?thesis using assms by (cases "new = []") (auto simp: adds_new_def)
qed

lemma select_new_spec:
  assumes "select_new e cfg matched working taken k = (working', refused)" "sorted working" "distinct working"
  shows "\<exists>new. adds_new e cfg matched working taken k new working'"
  using assms
proof (induction e cfg matched working taken k rule: select_new.induct)
  case (1 e cfg working taken k)
  then show ?case by (intro exI[of _ "[]"]) (simp add: adds_new_def)
next
  case (2 e cfg path paths working taken k)
  consider "path \<in> set working" | "path \<notin> set working" "fc_max_files cfg \<le> length working \<or> fc_max_new_files cfg \<le> k"
    | "path \<notin> set working" "\<not> fc_max_files cfg \<le> length working" "\<not> fc_max_new_files cfg \<le> k" "canonical e path \<in> set taken"
    | "path \<notin> set working" "\<not> fc_max_files cfg \<le> length working" "\<not> fc_max_new_files cfg \<le> k" "canonical e path \<notin> set taken"
    by blast
  then show ?case
  proof cases
    case 1
    then show ?thesis using "2.IH"(1)[OF 1] "2.prems" adds_new_more by fastforce
  next
    case 2
    then have "working' = working" using "2.prems"(1) by (auto split: if_splits)
    then show ?thesis using "2.prems" by (intro exI[of _ "[]"]) (simp add: adds_new_def)
  next
    case 3
    then show ?thesis using "2.IH"(2)[OF 3] "2.prems" adds_new_more by fastforce
  next
    case 4
    let ?w = "key_insert path working"
    have "select_new e cfg paths ?w (List.insert (canonical e path) taken) (k + 1) = (working', refused)" using "2.prems"(1) 4 by simp
    from "2.IH"(3)[OF 4 this] "2.prems"(2,3) obtain new where
      "adds_new e cfg paths ?w (List.insert (canonical e path) taken) (k + 1) new working'" by auto
    then show ?thesis using adds_new_cons[of e cfg paths path working taken k new working'] 4 "2.prems"(3)
      by (intro exI[of _ "path # new"]) auto
  qed
qed

lemma tracked_working_props: "sorted (tracked_working state ds) \<and> distinct (tracked_working state ds) \<and>
    set (tracked_working state ds) = {p \<in> tc_path ` set (lc_files state). p \<notin> set ds}"
proof -
  have "sorted ks \<Longrightarrow> distinct ks \<Longrightarrow> sorted (fold (\<lambda>entry ks. key_insert (tc_path entry) ks) es ks) \<and>
    distinct (fold (\<lambda>entry ks. key_insert (tc_path entry) ks) es ks) \<and>
    set (fold (\<lambda>entry ks. key_insert (tc_path entry) ks) es ks) = set ks \<union> tc_path ` set es" for es ks
    by (induction es arbitrary: ks) auto
  from this[of "[]"] show ?thesis unfolding tracked_working_def by auto
qed

subsection \<open>Effect of a tick\<close>

definition family_collect_from ::
    "('c, 'd) input_env \<Rightarrow> file_input_config \<Rightarrow> 'c input_world \<Rightarrow> nat \<Rightarrow> 'c family_batch res \<times> nat" where
  "family_collect_from e cfg w n =
    (case migrate_input_pending_to_files (rt_log_state (load_runtime_state_async e cfg w)) of (orphan, state) \<Rightarrow>
       collect_family_batch e cfg state n orphan)"

definition family_collect :: "('c, 'd) input_env \<Rightarrow> file_input_config \<Rightarrow> 'c input_world \<Rightarrow> 'c family_batch res \<times> nat" where
  "family_collect e cfg w = family_collect_from e cfg w (iw_next_seq w)"

definition family_outcome :: "'c family_batch \<Rightarrow> nat \<Rightarrow> delivery_outcome \<Rightarrow> process_outcome res" where
  "family_outcome batch replayed delivery = (case fm_failure batch of
      Some err \<Rightarrow> Inl err
    | None \<Rightarrow> Inr ((from_delivery delivery (co_checkpoint_offset batch) replayed (fm_truncated batch) (co_truncated_lines batch)
                  (ug_withheld (co_gate batch)) (fm_rotated batch) (co_read_lines batch))
                \<lparr>po_capacity := fm_capacity batch, po_dropped_noise := co_dropped_noise batch,
                  po_selection_filtered := fm_selection_filtered batch, po_identity_unknown := fm_identity_unknown batch\<rparr>))"

definition family_encodable :: "('c, 'd) input_env \<Rightarrow> file_input_config \<Rightarrow> 'c input_world \<Rightarrow> bool" where
  "family_encodable e cfg w = (case family_collect e cfg w of
      (Inl _, _) \<Rightarrow> True
    | (Inr batch, _) \<Rightarrow> list_all (codec_ok (ie_delivery e)) (co_records batch))"

definition family_committed ::
    "('c, 'd) input_env \<Rightarrow> file_input_config \<Rightarrow> 'c input_world \<Rightarrow> 'c family_batch \<Rightarrow> 'c input_world \<Rightarrow> bool" where
  "family_committed e cfg w batch w' \<longleftrightarrow>
     family_collect e cfg w = (Inr batch, iw_next_seq w') \<and>
     set (co_records batch) \<union> set (backlog (ie_delivery e) (iw_delivery w)) \<subseteq>
       set (dw_sent (iw_delivery w')) \<union> set (backlog (ie_delivery e) (iw_delivery w')) \<and>
     (co_records batch \<noteq> [] \<longrightarrow> iw_seq w' = Present (iw_next_seq w'))"

lemma commit_family_frame:
  "commit_family_state e now state ks before w = (r, w') \<Longrightarrow>
   iw_delivery w' = iw_delivery w \<and> iw_seq w' = iw_seq w \<and> iw_next_seq w' = iw_next_seq w"
  by (cases "ie_checkpoint_write e")
    (auto simp: commit_family_state_def checkpoint_store_async_def return_op_def Let_def split: if_splits)

lemma lift_family_outcome:
  "lift_res (family_outcome batch k d) = (case fm_failure batch of
      Some err \<Rightarrow> fail_op err
    | None \<Rightarrow> return_op
        ((from_delivery d (co_checkpoint_offset batch) k (fm_truncated batch) (co_truncated_lines batch)
           (ug_withheld (co_gate batch)) (fm_rotated batch) (co_read_lines batch))
         \<lparr>po_capacity := fm_capacity batch, po_dropped_noise := co_dropped_noise batch,
           po_selection_filtered := fm_selection_filtered batch, po_identity_unknown := fm_identity_unknown batch\<rparr>))"
  by (auto simp: family_outcome_def lift_res_def return_op_def fail_op_def split: option.splits)

interpretation family_tick: committing_tick e cfg "family_process_once_async e cfg" "family_collect_from e cfg" co_records
    "\<lambda>w b. commit_family_state e (rt_observed_at (load_runtime_state_async e cfg w)) (co_state b) (fm_checkpoints b)
       (rt_log_state (load_runtime_state_async e cfg w))" family_outcome
  for e cfg
  by unfold_locales
    ((unfold family_process_once_async_def family_collect_from_def Let_def lift_family_outcome, simp split: prod.split),
      rule commit_family_frame)

lemma family_process_cases:
  assumes run: "family_process_once_async e cfg w = (r, w')" and c: "family_encodable e cfg w"
  obtains (untouched) "iw_checkpoint w' = iw_checkpoint w" "\<forall>out. r = Inr out \<longrightarrow> po_kind out = SpoolPaused"
  | (committed) batch where "family_committed e cfg w batch w'" "fm_failure batch \<noteq> None \<Longrightarrow> \<not> is_ok r"
proof -
  have enc: "\<forall>b n. family_collect_from e cfg w (iw_next_seq w) = (Inr b, n) \<longrightarrow> list_all (codec_ok (ie_delivery e)) (co_records b)"
    using c by (auto simp: family_encodable_def family_collect_def)
  from run enc show thesis
  proof (cases rule: family_tick.tick_cases)
    case untouched with that(1) show thesis by blast
  next
    case (committed b m d v)
    have "fm_failure b \<noteq> None \<Longrightarrow> \<not> is_ok r"
      using committed(5) by (auto simp: bind_op_def lift_res_def family_outcome_def split: prod.splits sum.splits)
    then show thesis using that(2)[of b] committed(1-3) by (auto simp: family_committed_def family_collect_def)
  qed
qed

end
