(* ===== verification/TelemetryClaims.thy ===== *)
theory TelemetryClaims
  imports FileFamily
begin

text \<open>Properties of log collection and delivery, with concrete inputs on which they apply.\<close>

subsection \<open>Sample inputs\<close>

definition sample_log :: log_file where
  "sample_log = \<lparr>lf_bytes = [CHR ''a'', newline], lf_device_id = Some 1, lf_inode = Some 2, lf_reads = [], lf_read_err = None\<rparr>"

definition sample_logs :: log_files where
  "sample_logs p = (if p = ''/l'' then Some sample_log else None)"

definition sample_record :: "unit telemetry_record" where
  "sample_record = \<lparr>tr_agent_id = ''g'', tr_observed_at = ''t'', tr_input_id = ''i'', tr_source_path = ''/l'',
     tr_body = [CHR ''a'', newline], tr_start_offset = 0, tr_end_offset = 2, tr_seq = 0,
     tr_origin = \<lparr>io_family = [], io_unit = []\<rparr>, tr_container = None\<rparr>"

definition sample_delivery :: "unit delivery_env" where
  "sample_delivery = \<lparr>de_encode = (\<lambda>r. Some ''r''), de_parse = (\<lambda>s. if s = ''r'' then Some sample_record else None),
     de_sink = (\<lambda>_. SinkOk), de_append = (\<lambda>_. None), de_stat_err = None, de_open_err = None, de_remove_err = None,
     de_bad_err = None, de_capacity = (\<lambda>n. n)\<rparr>"

definition sample_delimiter :: "unit delimiter" where
  "sample_delimiter = \<lparr>dl_new = (\<lambda>_. ()), dl_resume = (\<lambda>_ _. ()), dl_push = (\<lambda>_ _ _. ([], ())),
     dl_into_pending = (\<lambda>_. None), dl_indented = (\<lambda>_. Neither)\<rparr>"

definition sample_glob :: glob_env where
  "sample_glob = \<lparr>ge_matcher = (\<lambda>_. Some (\<lambda>_. True)), ge_read_dir = (\<lambda>_. Inr [Inr ''l'']),
     ge_metadata = (\<lambda>p. if p = ''/l'' then Inr RegularFile else if p = ''/'' then Inr Directory else Inl (IoError NotFound [])),
     ge_is_empty = (\<lambda>f. cf_namespace_in f = [] \<and> cf_pod_not_in f = [] \<and> cf_name_in f = [] \<and> cf_name_not_in f = []),
     ge_containers = \<lparr>cn_metadata = (\<lambda>_. None), cn_read = (\<lambda>_. None), cn_parse = (\<lambda>_. None)\<rparr>\<rparr>"

definition sample_input :: "(unit, unit) input_env" where
  "sample_input = \<lparr>ie_delivery = sample_delivery, ie_files = sample_logs, ie_listing = (\<lambda>_. Inr []),
     ie_canonicalize = (\<lambda>p. Some p), ie_container = (\<lambda>_. None), ie_delimiter = sample_delimiter,
     ie_parse_time = (\<lambda>_. None), ie_now = ''t'', ie_now_ms = 0, ie_glob = sample_glob, ie_checkpoint_stat_err = None,
     ie_seq_stat_err = None, ie_seq_write = Done, ie_checkpoint_write = Done, ie_uplink_write_detail = (\<lambda>_. None)\<rparr>"

definition sample_config :: file_input_config where
  "sample_config = \<lparr>fc_agent_id = ''g'', fc_input_id = ''i'', fc_origin = \<lparr>io_family = [], io_unit = []\<rparr>,
     fc_source_path = ''/l'', fc_exclude_globs = [],
     fc_filters = \<lparr>cf_namespace_in = [], cf_pod_not_in = [], cf_name_in = [], cf_name_not_in = []\<rparr>,
     fc_drop_if_contains = [], fc_max_files = 2, fc_max_new_files = 1, fc_rescan_interval_ms = 0,
     fc_startup_position = Head, fc_multiline_mode = ModeNone, fc_in_memory_budget_bytes = 100,
     fc_read_limits = \<lparr>rl_max_line_bytes = 4, rl_max_bytes = 8, rl_max_lines = 2\<rparr>, fc_spool_max_bytes = 10\<rparr>"

definition sample_dworld :: "unit delivery_world" where
  "sample_dworld = \<lparr>dw_spool = None, dw_bad = [], dw_sent = [], dw_sink_calls = 0, dw_appends = 0\<rparr>"

definition sample_world :: "unit input_world" where
  "sample_world = \<lparr>iw_delivery = sample_dworld, iw_checkpoint = Missing, iw_seq = Missing, iw_next_seq = 0\<rparr>"

lemma sample_read:
  "read_from_offset_async sample_logs ''/l'' 0 \<lparr>rl_max_line_bytes = 4, rl_max_bytes = 8, rl_max_lines = 2\<rparr> =
   Inr \<lparr>rf_identity = identity_from_metadata sample_log,
     rf_lines = [\<lparr>rw_text = [CHR ''a'', newline], rw_start_offset = 0, rw_end_offset = 2\<rparr>],
     rf_committed_end_offset = 2, rf_truncated_lines = 0\<rparr>"
  by code_simp


lemma sample_encodable: "tick_encodable sample_input sample_config sample_world"
  by code_simp

lemma sample_tick_run:
  "process_once_async sample_input sample_config sample_world =
    (fst (process_once_async sample_input sample_config sample_world), snd (process_once_async sample_input sample_config sample_world))"
  by simp

subsection \<open>A tick of a single-file input\<close>

text \<open>
  C2. A checkpoint moves only when its records are safe: if a tick changes the checkpoint file, whatever the tick
  returned and whichever writes failed, then every record it collected and every record spooled before has been
  handed to the sink or is in the spool, and the file holds the committed state of that collection.
\<close>

theorem tick_checkpoint_safe:
  assumes "process_once_async e cfg w = (r, w')" "tick_encodable e cfg w" "iw_checkpoint w' \<noteq> iw_checkpoint w"
  shows "\<exists>batch. collect_read_batch e cfg (rt_log_state (load_runtime_state_async e cfg w)) (iw_next_seq w) =
      (Inr batch, iw_next_seq w') \<and>
    set (co_records batch) \<union> set (backlog (ie_delivery e) (iw_delivery w)) \<subseteq>
      set (dw_sent (iw_delivery w')) \<union> set (backlog (ie_delivery e) (iw_delivery w')) \<and>
    iw_checkpoint w' = Present (committed_state e (ie_now e) (co_state batch) (cb_checkpoints batch) (cb_pending_multiline batch))"
  using assms(1,2)
proof (cases rule: process_once_cases)
  case untouched
  then show ?thesis using assms(3) by simp
next
  case (committed batch)
  then show ?thesis using assms(3) by (auto simp: committed_tick_def Let_def)
qed

lemma sample_moves: "iw_checkpoint (snd (process_once_async sample_input sample_config sample_world)) \<noteq> iw_checkpoint sample_world"
  by code_simp

theorem tick_checkpoint_safe_witness:
  "\<exists>batch. collect_read_batch sample_input sample_config
      (rt_log_state (load_runtime_state_async sample_input sample_config sample_world)) (iw_next_seq sample_world) =
      (Inr batch, iw_next_seq (snd (process_once_async sample_input sample_config sample_world))) \<and>
    set (co_records batch) \<subseteq> set (dw_sent (iw_delivery (snd (process_once_async sample_input sample_config sample_world)))) \<union>
      set (backlog (ie_delivery sample_input) (iw_delivery (snd (process_once_async sample_input sample_config sample_world))))"
  using tick_checkpoint_safe[OF sample_tick_run sample_encodable sample_moves] by blast

text \<open>
  C10. No line is skipped: in the line-per-record mode without noise filter, when a tick moves the checkpoint, every
  line that the read from the resume offset returned is told by a record (same path, text and offsets) that was
  sent or is in the spool.
\<close>

theorem tick_skips_no_line:
  assumes "process_once_async e cfg w = (r, w')" "tick_encodable e cfg w" "iw_checkpoint w' \<noteq> iw_checkpoint w"
    "fc_multiline_mode cfg = ModeNone" "fc_drop_if_contains cfg = []"
  shows "\<exists>current rd. inspect_path_async (ie_files e) (fc_source_path cfg) = Inr current \<and>
    read_from_offset_async (ie_files e) (fc_source_path cfg)
      (rd_start_offset (decide_resume_async (ie_files e) (fc_source_path cfg) current
        (checkpoint_for_path (rt_log_state (load_runtime_state_async e cfg w)) (fc_source_path cfg)) (fc_startup_position cfg)))
      (fc_read_limits cfg) = Inr rd \<and>
    list_all (\<lambda>line. list_ex (tells (fc_source_path cfg) line)
      (dw_sent (iw_delivery w') @ backlog (ie_delivery e) (iw_delivery w'))) (rf_lines rd)"
  using assms(1,2)
proof (cases rule: process_once_cases)
  case untouched
  then show ?thesis using assms(3) by simp
next
  case (committed batch)
  let ?state = "rt_log_state (load_runtime_state_async e cfg w)"
  from committed(1) have c: "collect_read_batch e cfg ?state (iw_next_seq w) = (Inr batch, iw_next_seq w')"
    and s: "set (co_records batch) \<subseteq> set (dw_sent (iw_delivery w') @ backlog (ie_delivery e) (iw_delivery w'))"
    by (auto simp: committed_tick_def Let_def)
  from c obtain current where cur: "inspect_path_async (ie_files e) (fc_source_path cfg) = Inr current"
    and res: "cb_resume batch = decide_resume_async (ie_files e) (fc_source_path cfg) current
       (checkpoint_for_path ?state (fc_source_path cfg)) (fc_startup_position cfg)" by (rule collect_read_batch_shape)
  from plain_lines_recorded[OF c assms(4,5)] s show ?thesis unfolding res list_all_iff list_ex_iff using cur by blast
qed

theorem tick_skips_no_line_witness:
  "\<exists>current rd. inspect_path_async (ie_files sample_input) (fc_source_path sample_config) = Inr current \<and>
    read_from_offset_async (ie_files sample_input) (fc_source_path sample_config)
      (rd_start_offset (decide_resume_async (ie_files sample_input) (fc_source_path sample_config) current
        (checkpoint_for_path (rt_log_state (load_runtime_state_async sample_input sample_config sample_world))
          (fc_source_path sample_config)) (fc_startup_position sample_config)))
      (fc_read_limits sample_config) = Inr rd \<and>
    list_all (\<lambda>line. list_ex (tells (fc_source_path sample_config) line)
      (dw_sent (iw_delivery (snd (process_once_async sample_input sample_config sample_world))) @
       backlog (ie_delivery sample_input) (iw_delivery (snd (process_once_async sample_input sample_config sample_world))))) (rf_lines rd)"
  by (rule tick_skips_no_line[OF sample_tick_run sample_encodable sample_moves]) (simp_all add: sample_config_def)

text \<open>
  C11. The next tick continues exactly where this one stopped: after a successful tick without rotation on a file
  whose checkpoint entries all carry its path, if the file has only grown, the next tick resumes at the offset the
  first one committed, without taking the file for truncated or rotated.
\<close>

theorem tick_resumes:
  assumes "process_once_async e cfg w = (Inr out, w')" "tick_encodable e cfg w" "po_kind out = SourceBatch" "\<not> po_rotated out"
    and "ie_files e (fc_source_path cfg) = Some f"
    and "list_all (\<lambda>t. \<not> names_file (ie_canonicalize e) (fc_source_path cfg) (identity_from_metadata f) t \<or> tc_path t = fc_source_path cfg)
           (lc_files (rt_log_state (load_runtime_state_async e cfg w)))"
    and "ie_files e2 (fc_source_path cfg) = Some f2" "lf_read_err f2 = None" "lf_device_id f2 = lf_device_id f"
        "lf_inode f2 = lf_inode f" "lf_bytes f2 = lf_bytes f @ grown" "ie_checkpoint_stat_err e2 = None"
  shows "decide_resume_async (ie_files e2) (fc_source_path cfg) (identity_from_metadata f2)
      (checkpoint_for_path (rt_log_state (load_runtime_state_async e2 cfg w')) (fc_source_path cfg)) (fc_startup_position cfg) =
    \<lparr>rd_start_offset = po_checkpoint_offset out, rd_rotated_from_path = None, rd_truncated = False, rd_rotated = False\<rparr>"
  using assms(1,2)
proof (cases rule: process_once_cases)
  case untouched
  then show ?thesis using assms(3) by simp
next
  case (committed batch)
  let ?committed = "committed_state e (ie_now e) (co_state batch) (cb_checkpoints batch) (cb_pending_multiline batch)"
  from committed(1) have c: "collect_read_batch e cfg (rt_log_state (load_runtime_state_async e cfg w)) (iw_next_seq w) =
      (Inr batch, iw_next_seq w')" by (simp add: committed_tick_def Let_def)
  have rot: "\<not> rd_rotated (cb_resume batch)" using committed(3) assms(4) by simp
  from unrotated_commit[OF c rot refl assms(5)] assms(6) obtain cp where
    cp: "checkpoint_for_path ?committed (fc_source_path cfg) = Some cp"
      "checkpoint_of (fc_source_path cfg) (lf_device_id f2) (lf_inode f2) (lf_bytes f) (po_checkpoint_offset out) cp"
    using committed(3) assms(9,10) by (auto simp: list_all_iff)
  have "rt_log_state (load_runtime_state_async e2 cfg w') = ?committed"
    using committed(2) assms(12) by (simp add: load_runtime_state_async_def load_or_default_from_path_async_def)
  then show ?thesis using resume_appended[where fs = "ie_files e2", OF cp(2) assms(7,8,11)] cp(1) by simp
qed

definition sample_grown :: log_file where
  "sample_grown = sample_log\<lparr>lf_bytes := [CHR ''a'', newline] @ [CHR ''b'']\<rparr>"

definition sample_input2 :: "(unit, unit) input_env" where
  "sample_input2 = sample_input\<lparr>ie_files := sample_logs(''/l'' \<mapsto> sample_grown)\<rparr>"

definition sample_outcome :: process_outcome where
  "sample_outcome = (case fst (process_once_async sample_input sample_config sample_world) of
     Inr out \<Rightarrow> out | Inl _ \<Rightarrow> spool_replay_only 0)"

lemma sample_outcome_run:
  "process_once_async sample_input sample_config sample_world =
    (Inr sample_outcome, snd (process_once_async sample_input sample_config sample_world))"
proof -
  have "is_ok (fst (process_once_async sample_input sample_config sample_world))" by code_simp
  then show ?thesis unfolding sample_outcome_def
    by (cases "process_once_async sample_input sample_config sample_world") (auto split: sum.splits)
qed

lemma sample_outcome_simps: "po_kind sample_outcome = SourceBatch" "\<not> po_rotated sample_outcome" "po_checkpoint_offset sample_outcome = 2"
  by code_simp+

theorem tick_resumes_witness:
  "decide_resume_async (ie_files sample_input2) (fc_source_path sample_config) (identity_from_metadata sample_grown)
      (checkpoint_for_path (rt_log_state (load_runtime_state_async sample_input2 sample_config
        (snd (process_once_async sample_input sample_config sample_world)))) (fc_source_path sample_config)) (fc_startup_position sample_config) =
    \<lparr>rd_start_offset = 2, rd_rotated_from_path = None, rd_truncated = False, rd_rotated = False\<rparr>"
  using tick_resumes[OF sample_outcome_run sample_encodable sample_outcome_simps(1,2), of sample_log sample_input2 sample_grown "[CHR ''b'']"]
  by (simp add: sample_outcome_simps(3) sample_input_def sample_input2_def sample_logs_def sample_config_def sample_log_def
      sample_grown_def sample_world_def load_runtime_state_async_def load_or_default_from_path_async_def log_checkpoint_state_new_def)

text \<open>
  C12. Sequence numbers have no gaps and survive a restart: a tick that moves the checkpoint numbers its records
  consecutively from the counter it started with, leaves the counter behind the last of them, and, when it had
  records, has stored that counter, so that a restart continues after them.
\<close>

theorem tick_numbers_records:
  assumes "process_once_async e cfg w = (r, w')" "tick_encodable e cfg w" "iw_checkpoint w' \<noteq> iw_checkpoint w"
  shows "\<exists>batch. collect_read_batch e cfg (rt_log_state (load_runtime_state_async e cfg w)) (iw_next_seq w) =
      (Inr batch, iw_next_seq w') \<and>
    map tr_seq (co_records batch) = [iw_next_seq w..<iw_next_seq w'] \<and> iw_next_seq w \<le> iw_next_seq w' \<and>
    (co_records batch = [] \<or> seq_load_or_default_async (e\<lparr>ie_seq_stat_err := None\<rparr>) w' = Inr (iw_next_seq w'))"
  using assms(1,2)
proof (cases rule: process_once_cases)
  case untouched
  then show ?thesis using assms(3) by simp
next
  case (committed batch)
  then have c: "collect_read_batch e cfg (rt_log_state (load_runtime_state_async e cfg w)) (iw_next_seq w) = (Inr batch, iw_next_seq w')"
    and s: "co_records batch \<noteq> [] \<longrightarrow> iw_seq w' = Present (iw_next_seq w')" by (auto simp: committed_tick_def Let_def)
  from collect_read_batch_numbered[OF c] c s show ?thesis
    by (auto simp: numbered_def seq_load_or_default_async_def)
qed

theorem tick_numbers_records_witness:
  "\<exists>batch. collect_read_batch sample_input sample_config
      (rt_log_state (load_runtime_state_async sample_input sample_config sample_world)) (iw_next_seq sample_world) =
      (Inr batch, iw_next_seq (snd (process_once_async sample_input sample_config sample_world))) \<and>
    map tr_seq (co_records batch) = [iw_next_seq sample_world..<iw_next_seq (snd (process_once_async sample_input sample_config sample_world))]"
  using tick_numbers_records[OF sample_tick_run sample_encodable sample_moves] by blast


subsection \<open>A tick of a file family\<close>

definition sample_tracked :: log_checkpoint_state where
  "sample_tracked = \<lparr>lc_input_id = ''i'', lc_updated_at = ''t'', lc_last_scan_ms = Some 0, lc_pending_multiline = None,
     lc_files = [\<lparr>tc_file_id = ''f'', tc_path = ''/l'', tc_device_id = Some 1, tc_inode = Some 2, tc_fingerprint = None,
       tc_checkpoint_offset = 0, tc_checkpoint_probe = None, tc_last_size = None, tc_last_read_at = None,
       tc_last_commit_point_at = None, tc_rotated_from_path = None, tc_real_path = ''/l'', tc_pending_multiline = None\<rparr>]\<rparr>"

definition sample_family :: file_input_config where
  "sample_family = sample_config\<lparr>fc_source_path := ''/'', fc_rescan_interval_ms := 1\<rparr>"

definition sample_fworld :: "unit input_world" where
  "sample_fworld = sample_world\<lparr>iw_checkpoint := Present sample_tracked\<rparr>"

lemma sample_family_encodable: "family_encodable sample_input sample_family sample_fworld"
  by code_simp

lemma sample_family_moves:
  "iw_checkpoint (snd (family_process_once_async sample_input sample_family sample_fworld)) \<noteq> iw_checkpoint sample_fworld"
  by code_simp

lemma sample_family_sent:
  "dw_sent (iw_delivery (snd (family_process_once_async sample_input sample_family sample_fworld))) = [sample_record]"
  by code_simp

lemma sample_family_run:
  "family_process_once_async sample_input sample_family sample_fworld =
    (fst (family_process_once_async sample_input sample_family sample_fworld),
     snd (family_process_once_async sample_input sample_family sample_fworld))"
  by simp

text \<open>
  C16. The same safety for a file family: if a tick changes the checkpoint file, every record it collected from any
  file and every record spooled before has been handed to the sink or is in the spool, the records are numbered
  consecutively across files, and the counter behind them is stored.
\<close>

theorem family_checkpoint_safe:
  assumes "family_process_once_async e cfg w = (r, w')" "family_encodable e cfg w" "iw_checkpoint w' \<noteq> iw_checkpoint w"
  shows "\<exists>batch. family_collect e cfg w = (Inr batch, iw_next_seq w') \<and>
    set (co_records batch) \<union> set (backlog (ie_delivery e) (iw_delivery w)) \<subseteq>
      set (dw_sent (iw_delivery w')) \<union> set (backlog (ie_delivery e) (iw_delivery w')) \<and>
    map tr_seq (co_records batch) = [iw_next_seq w..<iw_next_seq w'] \<and>
    (co_records batch = [] \<or> iw_seq w' = Present (iw_next_seq w'))"
  using assms(1,2)
proof (cases rule: family_process_cases)
  case untouched
  then show ?thesis using assms(3) by simp
next
  case (committed batch)
  then have "family_collect e cfg w = (Inr batch, iw_next_seq w')" by (simp add: family_committed_def)
  then have "numbered (iw_next_seq w) batch" "co_next_seq batch = iw_next_seq w'"
    by (auto simp: family_collect_def family_collect_from_def split: prod.splits dest!: collect_family_batch_numbered)
  then show ?thesis using committed(1) by (auto simp: family_committed_def numbered_def)
qed

theorem family_checkpoint_safe_witness:
  "\<exists>batch. family_collect sample_input sample_family sample_fworld =
      (Inr batch, iw_next_seq (snd (family_process_once_async sample_input sample_family sample_fworld))) \<and>
    map tr_seq (co_records batch) =
      [iw_next_seq sample_fworld..<iw_next_seq (snd (family_process_once_async sample_input sample_family sample_fworld))]"
  using family_checkpoint_safe[OF sample_family_run sample_family_encodable sample_family_moves] by blast

text \<open>
  One tick of a family reads at most as many lines over all its files as the configuration allows for one read.
\<close>

theorem family_read_budget:
  assumes "collect_family_batch e cfg state n orphan = (Inr batch, n')"
  shows "co_read_lines batch \<le> rl_max_lines (fc_read_limits cfg)"
  using collect_family_batch_numbered[OF assms] by simp

lemma sample_family_ok: "is_ok (fst (collect_family_batch sample_input sample_family sample_tracked 0 None))"
  by code_simp

theorem family_read_budget_witness:
  "\<exists>batch. fst (collect_family_batch sample_input sample_family sample_tracked 0 None) = Inr batch \<and> co_read_lines batch \<le> 2"
proof -
  obtain batch where b: "collect_family_batch sample_input sample_family sample_tracked 0 None =
      (Inr batch, snd (collect_family_batch sample_input sample_family sample_tracked 0 None))"
    using sample_family_ok by (metis is_ok.simps(1) old.sum.exhaust prod.collapse)
  from family_read_budget[OF b] have "co_read_lines batch \<le> 2" by (simp add: sample_family_def sample_config_def)
  then show ?thesis using b by (metis fst_conv)
qed

text \<open>
  C30. The working set is the tracked files plus new ones: sorted without duplicates, it adds only matched paths, at
  most as many new ones as a tick may take, never beyond the limit on tracked files, and no two new paths (nor a new
  and a tracked one) are the same file behind links.
\<close>

theorem working_set_grows_within_limits:
  assumes "select_new e cfg matched (tracked_working state deselected) (tracked_real state) 0 = (working, refused)"
  shows "\<exists>new. set working = set (tracked_working state deselected) \<union> set new \<and> set new \<subseteq> set matched \<and>
    sorted working \<and> distinct working \<and> length new \<le> fc_max_new_files cfg \<and>
    (new = [] \<or> length working \<le> fc_max_files cfg) \<and>
    distinct (map (canonical e) new) \<and> set (map (canonical e) new) \<inter> set (tracked_real state) = {}"
proof -
  from select_new_spec[OF assms] tracked_working_props[of state deselected]
  obtain new where "adds_new e cfg matched (tracked_working state deselected) (tracked_real state) 0 new working" by blast
  then show ?thesis by (intro exI[of _ new]) (auto simp: adds_new_def)
qed

lemma sample_select:
  "select_new sample_input sample_family [''/l'', ''/m''] (tracked_working sample_tracked []) (tracked_real sample_tracked) 0 =
    ([''/l'', ''/m''], 0)"
  by code_simp

theorem working_set_grows_within_limits_witness:
  "\<exists>new. set [''/l'', ''/m''] = set (tracked_working sample_tracked []) \<union> set new \<and> length new \<le> 1"
  using working_set_grows_within_limits[OF sample_select] by (auto simp: sample_family_def sample_config_def)

subsection \<open>Observed behaviour\<close>

text \<open>
  The number counter is persisted after delivery.  When its write fails, the record has been sent with number 0 and
  a restart hands out number 0 again.
\<close>

definition seq_fails :: "(unit, unit) input_env" where
  "seq_fails = sample_input\<lparr>ie_seq_write := FailedBefore OtherKind\<rparr>"

lemma number_sent_before_it_is_stored:
  "map tr_seq (dw_sent (iw_delivery (snd (process_once_async seq_fails sample_config sample_world)))) = [0] \<and>
   seq_load_or_default_async seq_fails (snd (process_once_async seq_fails sample_config sample_world)) = Inr 0"
  by code_simp

text \<open>
  The tail of a rotated file is read only in the tick that sees the rotation, within the limits of one read.  Here
  the old file, moved to \<open>/r\<close>, has two unread lines and one read takes one line: the first tick reads the first of
  them and the new file, the second tick no longer looks at the old file, and its last line is never read.
\<close>

definition rotated_log :: log_file where
  "rotated_log = \<lparr>lf_bytes = [CHR ''a'', newline, CHR ''b'', newline], lf_device_id = Some 1, lf_inode = Some 2, lf_reads = [],
     lf_read_err = None\<rparr>"

definition fresh_log :: log_file where
  "fresh_log = \<lparr>lf_bytes = [CHR ''c'', newline], lf_device_id = Some 1, lf_inode = Some 3, lf_reads = [], lf_read_err = None\<rparr>"

definition rotated_input :: "(unit, unit) input_env" where
  "rotated_input = sample_input\<lparr>ie_files := (\<lambda>p. if p = ''/l'' then Some fresh_log else if p = ''/r'' then Some rotated_log else None),
     ie_listing := (\<lambda>_. Inr [(''/l'', Inr (Some 1, Some 3)), (''/r'', Inr (Some 1, Some 2))])\<rparr>"

definition one_line_config :: file_input_config where
  "one_line_config = sample_config\<lparr>fc_read_limits := \<lparr>rl_max_line_bytes = 4, rl_max_bytes = 8, rl_max_lines = 1\<rparr>, fc_in_memory_budget_bytes := 200\<rparr>"

definition tick :: "unit input_world \<Rightarrow> unit input_world" where
  "tick w = snd (process_once_async rotated_input one_line_config w)"

lemma rotated_tail_is_dropped:
  "map tr_body (dw_sent (iw_delivery (tick sample_fworld))) = [[CHR ''a'', newline], [CHR ''c'', newline]] \<and>
   dw_sent (iw_delivery (tick (tick sample_fworld))) = dw_sent (iw_delivery (tick sample_fworld)) \<and>
   map (\<lambda>t. (tc_path t, tc_checkpoint_offset t)) (lc_files (rt_log_state (load_runtime_state_async rotated_input one_line_config
     (tick (tick sample_fworld))))) = [(''/r'', 2), (''/l'', 2)]"
  by code_simp

text \<open>
  A checkpoint entry is matched by device and inode alone.  When the inode of a vanished file is reused, the entry of
  the old path is updated in place, the new path has no entry, and the file is read from the start at every tick.
\<close>

definition reused_input :: "(unit, unit) input_env" where
  "reused_input = sample_input\<lparr>ie_files := (\<lambda>p. if p = ''/n'' then Some sample_log else None)\<rparr>"

definition reused_config :: file_input_config where
  "reused_config = sample_config\<lparr>fc_source_path := ''/n''\<rparr>"

definition retick :: "unit input_world \<Rightarrow> unit input_world" where
  "retick w = snd (process_once_async reused_input reused_config w)"

lemma reused_inode_is_read_again:
  "map tr_body (dw_sent (iw_delivery (retick (retick sample_fworld)))) = [[CHR ''a'', newline], [CHR ''a'', newline]] \<and>
   checkpoint_for_path (rt_log_state (load_runtime_state_async reused_input reused_config (retick sample_fworld))) ''/n'' = None"
  by code_simp

text \<open>
  A spool line that is not valid UTF-8 fails every replay before the quarantine of unreadable lines can see it.
\<close>

definition broken_spool :: "unit delivery_world" where
  "broken_spool = sample_dworld\<lparr>dw_spool := Some [CHR 0xFF, newline]\<rparr>"

lemma broken_spool_is_never_replayed:
  "\<not> is_ok (fst (replay_spool_if_present sample_delivery 1 broken_spool)) \<and>
   snd (replay_spool_if_present sample_delivery 1 broken_spool) = broken_spool"
  by code_simp

text \<open>
  Staging skips a record that does not fit and takes a later, smaller one, so the backlog is not in reading order.
\<close>

lemma staging_reorders:
  "spool_pending sample_delivery (sg_staged (fst (stage_all (telemetry_buffer_new 70) [sample_record\<lparr>tr_body := replicate 9 CHR ''x''\<rparr>, sample_record\<lparr>tr_body := []\<rparr>])))
     (sg_overflowed (fst (stage_all (telemetry_buffer_new 70) [sample_record\<lparr>tr_body := replicate 9 CHR ''x''\<rparr>, sample_record\<lparr>tr_body := []\<rparr>]))) =
   spool_pending sample_delivery [sample_record\<lparr>tr_body := []\<rparr>] [sample_record\<lparr>tr_body := replicate 9 CHR ''x''\<rparr>]"
  by (simp add: stage_all_def telemetry_buffer_new_def estimate_record_size_def sample_record_def)

end
