(* ===== verification/BTree.thy ===== *)
theory BTree
  imports Prelude "HOL-Library.Char_ord" "HOL-Library.List_Lexorder"
begin

text \<open>
  Maps keyed by strings and iterated in key order, the \<open>BTreeMap<String, V>\<close> of the control plane: association lists with
  strictly ascending keys.  The locale \<open>ordered_map\<close> is what the clients rely on; its lemmas on folds of insertions are
  the facts they use.
\<close>

subsection \<open>Operations\<close>

type_synonym 'v btree = "(string \<times> 'v) list"

fun bt_insert :: "string \<Rightarrow> 'v \<Rightarrow> 'v btree \<Rightarrow> 'v btree" where
  "bt_insert k v [] = [(k, v)]"
| "bt_insert k v ((j, u) # t) =
    (if k < j then (k, v) # (j, u) # t else if k = j then (k, v) # t else (j, u) # bt_insert k v t)"

definition bt_get :: "'v btree \<Rightarrow> string \<Rightarrow> 'v option" where
  "bt_get t k = map_of t k"

definition bt_contains :: "'v btree \<Rightarrow> string \<Rightarrow> bool" where
  "bt_contains t k \<longleftrightarrow> bt_get t k \<noteq> None"

definition bt_modify :: "string \<Rightarrow> ('v \<Rightarrow> 'v) \<Rightarrow> 'v btree \<Rightarrow> 'v btree" where
  "bt_modify k f t = map (\<lambda>(j, u). (j, if j = k then f u else u)) t"

definition bt_insert_all :: "(string \<times> 'v) list \<Rightarrow> 'v btree \<Rightarrow> 'v btree" where
  "bt_insert_all es t = fold (\<lambda>(k, v). bt_insert k v) es t"

definition bt_keys :: "'v btree \<Rightarrow> string list" where
  "bt_keys t = map fst t"

definition bt_wf :: "'v btree \<Rightarrow> bool" where
  "bt_wf t \<longleftrightarrow> sorted_wrt (<) (map fst t)"

subsection \<open>The contract\<close>

lemma find_snoc: "find P (xs @ [x]) = (case find P xs of Some y \<Rightarrow> Some y | None \<Rightarrow> if P x then Some x else None)"
  by (induction xs) auto

lemma find_SomeD: "find P xs = Some x \<Longrightarrow> x \<in> set xs \<and> P x"
  by (induction xs) (auto split: if_splits)

locale ordered_map =
  fixes get :: "'m \<Rightarrow> string \<Rightarrow> 'v option"
    and insert :: "string \<Rightarrow> 'v \<Rightarrow> 'm \<Rightarrow> 'm"
    and entries :: "'m \<Rightarrow> (string \<times> 'v) list"
    and wf :: "'m \<Rightarrow> bool"
  assumes get_insert: "get (insert k v m) j = (if j = k then Some v else get m j)"
    and wf_insert: "wf m \<Longrightarrow> wf (insert k v m)"
    and entries_sorted: "wf m \<Longrightarrow> sorted_wrt (<) (map fst (entries m))"
    and entries_get: "wf m \<Longrightarrow> (k, v) \<in> set (entries m) \<longleftrightarrow> get m k = Some v"
begin

lemma wf_fold: "wf m \<Longrightarrow> wf (fold (\<lambda>(k, v). insert k v) es m)"
  by (induction es arbitrary: m) (auto simp: wf_insert)

text \<open>Inserting a list of entries: the last entry of a key wins.\<close>

lemma get_fold:
  "get (fold (\<lambda>(k, v). insert k v) es m) j =
    (case map_of (rev es) j of Some v \<Rightarrow> Some v | None \<Rightarrow> get m j)"
  by (induction es arbitrary: m) (auto simp: get_insert map_add_def split: option.splits)

lemma get_fold_function:
  "get (fold (\<lambda>x. insert (key x) (val (key x))) xs m) j =
    (if j \<in> key ` set xs then Some (val j) else get m j)"
  by (induction xs arbitrary: m) (auto simp: get_insert)

lemma get_fold_find:
  "get (fold (\<lambda>x. insert (key x) (val x)) xs m) j =
    (case find (\<lambda>x. key x = j) (rev xs) of Some x \<Rightarrow> Some (val x) | None \<Rightarrow> get m j)"
  by (induction xs arbitrary: m) (auto simp: get_insert find_snoc split: option.splits)

lemma wf_fold_step: "wf m \<Longrightarrow> (\<And>x m. wf m \<Longrightarrow> wf (f x m)) \<Longrightarrow> wf (fold f xs m)"
  by (induction xs arbitrary: m) auto

lemma entries_unique: "wf m \<Longrightarrow> wf n \<Longrightarrow> (\<And>k. get m k = get n k) \<Longrightarrow> entries m = entries n"
proof -
  assume m: "wf m" and n: "wf n" and eq: "\<And>k. get m k = get n k"
  have "set (entries m) = set (entries n)" using entries_get[OF m] entries_get[OF n] eq by auto
  moreover have d: "distinct (map fst (entries m))" "distinct (map fst (entries n))"
    using entries_sorted[OF m] entries_sorted[OF n] by (simp_all add: strict_sorted_iff)
  ultimately show ?thesis
    using map_sorted_distinct_set_unique[of fst "entries m" "entries n"] entries_sorted[OF m] entries_sorted[OF n]
    by (auto simp: strict_sorted_iff distinct_map)
qed

end

subsection \<open>The model satisfies it\<close>

lemma bt_insert_fst: "fst ` set (bt_insert k v t) = insert k (fst ` set t)"
  by (induction k v t rule: bt_insert.induct) auto

lemma bt_wf_insert: "bt_wf t \<Longrightarrow> bt_wf (bt_insert k v t)"
proof (induction k v t rule: bt_insert.induct)
  case (2 k v j u t)
  have "\<forall>x \<in> fst ` set (bt_insert k v t). j < x" if "\<not> k < j" "k \<noteq> j"
    using 2 that by (auto simp: bt_wf_def bt_insert_fst)
  with 2 show ?case by (auto simp: bt_wf_def)
qed (simp add: bt_wf_def)

lemma bt_get_insert: "bt_get (bt_insert k v t) j = (if j = k then Some v else bt_get t j)"
  by (induction k v t rule: bt_insert.induct) (auto simp: bt_get_def)

interpretation btree: ordered_map bt_get bt_insert "\<lambda>t. t" bt_wf
proof
  show "(k, v) \<in> set t \<longleftrightarrow> bt_get t k = Some v" if "bt_wf t" for t :: "'a btree" and k v
    using that by (simp add: bt_wf_def bt_get_def strict_sorted_iff)
qed (simp_all add: bt_get_insert bt_wf_insert bt_wf_def[symmetric])

lemmas bt_laws = btree.get_insert btree.wf_insert

lemma bt_eqI: "bt_wf s \<Longrightarrow> bt_wf t \<Longrightarrow> (\<And>k. bt_get s k = bt_get t k) \<Longrightarrow> s = t"
  by (rule btree.entries_unique)

lemma bt_wf_Nil [simp]: "bt_wf []"
  by (simp add: bt_wf_def)

lemma bt_get_Nil [simp]: "bt_get [] k = None"
  by (simp add: bt_get_def)

lemma bt_entry: "bt_wf t \<Longrightarrow> (k, v) \<in> set t \<longleftrightarrow> bt_get t k = Some v"
  by (rule btree.entries_get)

lemma bt_get_mem: "bt_get t k = Some v \<Longrightarrow> (k, v) \<in> set t"
  by (simp add: bt_get_def map_of_SomeD)

lemma bt_get_fst: "bt_get t k \<noteq> None \<longleftrightarrow> k \<in> fst ` set t"
  unfolding bt_get_def by (metis map_of_eq_None_iff)

lemma bt_wf_distinct: "bt_wf t \<Longrightarrow> distinct (map fst t)"
  by (simp add: bt_wf_def strict_sorted_iff)

lemma bt_wf_modify [simp]: "bt_wf (bt_modify k f t) \<longleftrightarrow> bt_wf t"
  by (simp add: bt_wf_def bt_modify_def comp_def case_prod_unfold)

lemma bt_get_modify: "bt_get (bt_modify k f t) j = (if j = k then map_option f (bt_get t j) else bt_get t j)"
  by (induction t) (auto simp: bt_modify_def bt_get_def)

lemma bt_wf_insert_all: "bt_wf t \<Longrightarrow> bt_wf (bt_insert_all es t)"
  unfolding bt_insert_all_def by (rule btree.wf_fold)

lemma bt_get_insert_all:
  "bt_get (bt_insert_all es t) j = (case map_of (rev es) j of Some v \<Rightarrow> Some v | None \<Rightarrow> bt_get t j)"
  unfolding bt_insert_all_def by (rule btree.get_fold)

lemma bt_get_map: "bt_get (map (\<lambda>(k, v). (k, f k v)) t) j = map_option (f j) (bt_get t j)"
  by (induction t) (auto simp: bt_get_def)

lemma bt_wf_map: "bt_wf t \<Longrightarrow> bt_wf (map (\<lambda>(k, v). (k, f k v)) t)"
  by (simp add: bt_wf_def comp_def split_beta)

lemma bt_keys_map [simp]: "bt_keys (map (\<lambda>(k, v). (k, f k v)) t) = bt_keys t"
  by (simp add: bt_keys_def comp_def split_beta)

lemma bt_insert_entries: "set (bt_insert k v t) \<subseteq> insert (k, v) (set t)"
  by (induction k v t rule: bt_insert.induct) auto

lemma bt_insert_all_entries: "set (bt_insert_all es t) \<subseteq> set es \<union> set t"
proof (induction es arbitrary: t)
  case (Cons e es)
  then show ?case using bt_insert_entries[of "fst e" "snd e" t] unfolding bt_insert_all_def by (fastforce simp: split_beta)
qed (simp add: bt_insert_all_def)

text \<open>A map is rebuilt by inserting its own entries.\<close>

lemma map_of_rev_distinct: "distinct (map fst t) \<Longrightarrow> map_of (rev t) = map_of t"
  by (rule map_of_inject_set[THEN iffD2]) (simp_all flip: rev_map)

lemma bt_insert_all_self: "bt_wf t \<Longrightarrow> bt_insert_all t [] = t"
  by (rule bt_eqI, simp add: bt_wf_insert_all, assumption,
      unfold bt_get_insert_all, simp add: bt_get_def bt_wf_distinct map_of_rev_distinct split: option.split)

lemma sort_keys [simp]: "bt_wf t \<Longrightarrow> sort (map fst (filter P t)) = map fst (filter P t)"
  by (rule sorted_sort_id) (simp add: bt_wf_def strict_sorted_iff sorted_filter)

end
