(* ===== verification/WorkGrant.thy ===== *)
theory WorkGrant
  imports BTree GlobMatch
begin

text \<open>
  The work granted by the gateway, \<open>src/control/work.rs\<close> with the view of \<open>src/state_store/work.rs\<close>: a snapshot of the
  standing and one-shot works is applied to what the agent holds, collection tasks are derived from it, and the held work
  is written to and restored from \<open>state/work.json\<close>.

  Of the types of the contract crate, the records have the fields the agent reads; its functions (the codec of work
  specifications, the tests on sources and exporters) are the fields of \<open>work_contract\<close>.  The reason of an unsupported
  source is the text it selects with its argument, not the printed text.
\<close>

subsection \<open>Contract types\<close>

record work_spec_source =
  ws_kind :: string
  ws_target :: string
  ws_multiline :: string
  ws_exclude_globs :: "string list"
  ws_filters :: container_filters
  ws_drop_if_contains :: "string list"

record work_spec_unit =
  wu_unit_id :: string
  wu_capability :: string
  wu_sources :: "work_spec_source list"

record work_spec =
  wp_units :: "work_spec_unit list"

record standing_work =
  sw_work_id :: string
  sw_family :: string
  sw_spec :: string
  sw_plan_version :: int
  sw_effective_from :: string
  sw_status :: string

text \<open>The fields of a work that nothing reads after it has been granted (who issued it, whether it can be paused, its
  completed steps) are left out.\<close>

record one_shot_work =
  sh_work_id :: string
  sh_action :: string
  sh_spec :: string
  sh_scheduled_at :: string
  sh_deadline_at :: string
  sh_timeout_seconds :: int
  sh_status :: string

record work_grant =
  wg_standing :: "standing_work list"
  wg_one_shot :: "one_shot_work list"
  wg_sequence :: int

record work_contract =
  wc_parse :: "string \<Rightarrow> string + work_spec"
  wc_encode :: "work_spec \<Rightarrow> string option"
  wc_file_sources :: "work_spec_unit \<Rightarrow> work_spec_source list"
  wc_unsupported_sources :: "work_spec_unit \<Rightarrow> work_spec_source list"
  wc_is_executable_source :: "string \<Rightarrow> string \<Rightarrow> bool"
  wc_is_known_exporter :: "string \<Rightarrow> bool"
  wc_parse_exporter_target :: "string \<Rightarrow> (string \<times> string option) option"
  wc_metric_interval_seconds :: "work_spec \<Rightarrow> int option"
  wc_is_outstanding :: "one_shot_work \<Rightarrow> bool"

subsection \<open>The applied grant\<close>

record log_file_input_section =
  li_input_id :: string
  li_path :: string
  li_startup_position :: string
  li_multiline_mode :: string
  li_exclude_globs :: "string list"
  li_filters :: container_filters
  li_drop_if_contains :: "string list"

record work_log_input =
  wl_work_id :: string
  wl_family :: string
  wl_unit_id :: string
  wl_input :: log_file_input_section

record work_exporter_run =
  wx_work_id :: string
  wx_family :: string
  wx_unit_id :: string
  wx_exporter_id :: string
  wx_arg :: "string option"
  wx_target :: string
  wx_input_id :: string

datatype unsupported_reason = NotCollectablePath string | UnknownExporter string | UnsupportedKind string

record unsupported_unit =
  uu_work_id :: string
  uu_unit_id :: string
  uu_detail :: unsupported_reason

record applied_work =
  wa_family :: string
  wa_plan_version :: int
  wa_status :: string
  wa_effective_from :: string
  wa_spec :: "work_spec option"
  wa_spec_detail :: "string option"
  wa_acked_plan_version :: "int option"

definition is_working :: "applied_work \<Rightarrow> bool" where
  "is_working work \<longleftrightarrow> wa_status work = ''active'' \<and> wa_spec work \<noteq> None"

record apply_outcome =
  ao_changed :: bool
  ao_to_ack :: "(string \<times> int) list"
  ao_started :: "string list"
  ao_stopped :: "string list"
  ao_unsupported :: "unsupported_unit list"
  ao_broken :: "(string \<times> string) list"
  ao_unexecutable_one_shot :: "string list"
  ao_one_shot_to_dispatch :: "one_shot_work list"

definition ONE_SHOT_UNEXECUTED :: string where "ONE_SHOT_UNEXECUTED = ''unexecuted''"

definition is_one_shot_execution_in_flight :: "string \<Rightarrow> bool" where
  "is_one_shot_execution_in_flight execution \<longleftrightarrow> execution \<in> {''dispatched'', ''running''}"

definition EXECUTABLE_ONE_SHOT_ACTIONS :: "string list" where
  "EXECUTABLE_ONE_SHOT_ACTIONS = [''upgrade'']"

definition is_executable_one_shot_action :: "string \<Rightarrow> bool" where
  "is_executable_one_shot_action action \<longleftrightarrow> trim action \<in> set EXECUTABLE_ONE_SHOT_ACTIONS"

record applied_work_grant =
  gs_sequence :: int
  gs_works :: "applied_work btree"
  gs_one_shot_works :: "one_shot_work btree"
  gs_unexecutable_one_shot :: "string list"
  gs_one_shot_execution :: "string btree"

definition grant_default :: applied_work_grant where
  "grant_default = \<lparr>gs_sequence = 0, gs_works = [], gs_one_shot_works = [], gs_unexecutable_one_shot = [],
     gs_one_shot_execution = []\<rparr>"

subsection \<open>Applying a snapshot\<close>

definition previous_ack :: "applied_work_grant \<Rightarrow> standing_work \<Rightarrow> int option" where
  "previous_ack s work = (case bt_get (gs_works s) (sw_work_id work) of
      Some previous \<Rightarrow>
        (if wa_plan_version previous = sw_plan_version work then wa_acked_plan_version previous else None)
    | None \<Rightarrow> None)"

definition apply_standing :: "work_contract \<Rightarrow> applied_work_grant \<Rightarrow> standing_work \<Rightarrow> applied_work" where
  "apply_standing c s work =
    (case (case wc_parse c (sw_spec work) of
        Inr spec \<Rightarrow> (Some spec, None)
      | Inl err \<Rightarrow> (None, Some (''unparsable work spec: '' @ err))) of (spec, spec_detail) \<Rightarrow>
     \<lparr>wa_family = sw_family work, wa_plan_version = sw_plan_version work, wa_status = sw_status work,
      wa_effective_from = sw_effective_from work, wa_spec = spec, wa_spec_detail = spec_detail,
      wa_acked_plan_version = previous_ack s work\<rparr>)"

definition next_works :: "work_contract \<Rightarrow> applied_work_grant \<Rightarrow> work_grant \<Rightarrow> applied_work btree" where
  "next_works c s g = fold (\<lambda>work. bt_insert (sw_work_id work) (apply_standing c s work)) (wg_standing g) []"

definition broken_works :: "work_contract \<Rightarrow> applied_work_grant \<Rightarrow> work_grant \<Rightarrow> (string \<times> string) list" where
  "broken_works c s g = List.map_filter (\<lambda>work. map_option (Pair (sw_work_id work)) (wa_spec_detail (apply_standing c s work)))
     (wg_standing g)"

definition working_in :: "applied_work btree \<Rightarrow> string \<Rightarrow> bool" where
  "working_in works work_id = (case bt_get works work_id of None \<Rightarrow> False | Some work \<Rightarrow> is_working work)"

definition newly_working :: "applied_work btree \<Rightarrow> applied_work btree \<Rightarrow> string list" where
  "newly_working before after =
    sort (map fst (filter (\<lambda>(work_id, work). is_working work \<and> \<not> working_in before work_id) after))"

definition works_to_ack :: "applied_work btree \<Rightarrow> (string \<times> int) list" where
  "works_to_ack works = map (\<lambda>(work_id, work). (work_id, wa_plan_version work))
     (filter (\<lambda>(work_id, work). wa_spec work \<noteq> None \<and> wa_acked_plan_version work \<noteq> Some (wa_plan_version work)) works)"

definition execution_of :: "applied_work_grant \<Rightarrow> string \<Rightarrow> string" where
  "execution_of s work_id = unwrap_or ONE_SHOT_UNEXECUTED (bt_get (gs_one_shot_execution s) work_id)"

text \<open>The loop over the outstanding one-shot works: what to dispatch, the unexecutable works, those of them that are new,
  and the execution states.\<close>

type_synonym one_shot_acc = "one_shot_work list \<times> string list \<times> string list \<times> string btree"

definition one_shot_step :: "applied_work_grant \<Rightarrow> one_shot_work \<Rightarrow> one_shot_acc \<Rightarrow> one_shot_acc" where
  "one_shot_step s work acc = (case acc of (to_dispatch, unexecutable_now, reported, next_execution) \<Rightarrow>
     let work_id = sh_work_id work; execution = execution_of s work_id;
         next_execution' = bt_insert work_id execution next_execution
     in if is_executable_one_shot_action (sh_action work)
        then (if execution = ONE_SHOT_UNEXECUTED then to_dispatch @ [work] else to_dispatch, unexecutable_now, reported, next_execution')
        else (to_dispatch, unexecutable_now @ [work_id],
              if work_id \<notin> set (gs_unexecutable_one_shot s) then reported @ [work_id] else reported, next_execution'))"

definition keep_in_flight :: "string btree \<Rightarrow> string btree \<Rightarrow> string btree" where
  "keep_in_flight before next_execution = fold (\<lambda>(work_id, execution) t.
     if bt_contains t work_id \<or> \<not> is_one_shot_execution_in_flight execution then t else bt_insert work_id execution t)
     before next_execution"

definition next_one_shot_works ::
    "one_shot_work btree \<Rightarrow> one_shot_work list \<Rightarrow> string btree \<Rightarrow> one_shot_work btree" where
  "next_one_shot_works before one_shot_now next_execution = fold (\<lambda>work_id t.
     if bt_contains t work_id then t
     else (case bt_get before work_id of Some previous \<Rightarrow> bt_insert work_id previous t | None \<Rightarrow> t))
     (bt_keys next_execution) (fold (\<lambda>work. bt_insert (sh_work_id work) work) one_shot_now [])"

definition grant_apply ::
    "work_contract \<Rightarrow> work_grant \<Rightarrow> applied_work_grant \<Rightarrow> apply_outcome \<times> applied_work_grant" where
  "grant_apply c g s =
    (let works = next_works c s g;
         one_shot_now = filter (wc_is_outstanding c) (wg_one_shot g)
     in case fold (one_shot_step s) one_shot_now ([], [], [], []) of
          (to_dispatch, unexecutable_now, reported, executions) \<Rightarrow>
        let next_execution = keep_in_flight (gs_one_shot_execution s) executions
        in (\<lparr>ao_changed = (wg_sequence g \<noteq> gs_sequence s), ao_to_ack = works_to_ack works,
             ao_started = newly_working (gs_works s) works, ao_stopped = newly_working works (gs_works s),
             ao_unsupported = [], ao_broken = broken_works c s g, ao_unexecutable_one_shot = reported,
             ao_one_shot_to_dispatch = to_dispatch\<rparr>,
            \<lparr>gs_sequence = wg_sequence g, gs_works = works,
             gs_one_shot_works = next_one_shot_works (gs_one_shot_works s) one_shot_now next_execution,
             gs_unexecutable_one_shot = unexecutable_now, gs_one_shot_execution = next_execution\<rparr>))"

definition mark_one_shot_execution :: "string \<Rightarrow> string \<Rightarrow> applied_work_grant \<Rightarrow> applied_work_grant" where
  "mark_one_shot_execution work_id execution s =
    s\<lparr>gs_one_shot_execution := bt_insert work_id execution (gs_one_shot_execution s)\<rparr>"

definition one_shot_execution :: "applied_work_grant \<Rightarrow> string \<Rightarrow> string option" where
  "one_shot_execution s work_id = bt_get (gs_one_shot_execution s) work_id"

definition has_upgrade_in_flight :: "applied_work_grant \<Rightarrow> bool" where
  "has_upgrade_in_flight s = list_ex (\<lambda>(_, state). is_one_shot_execution_in_flight state) (gs_one_shot_execution s)"

definition mark_acked :: "string \<Rightarrow> int \<Rightarrow> applied_work_grant \<Rightarrow> applied_work_grant" where
  "mark_acked work_id plan_version s =
    s\<lparr>gs_works := bt_modify work_id (\<lambda>work. work\<lparr>wa_acked_plan_version := Some plan_version\<rparr>) (gs_works s)\<rparr>"

subsection \<open>Collection tasks\<close>

text \<open>One \<open>-\<close> for each character that is not an ASCII letter, digit, \<open>-\<close> or \<open>_\<close>; the continuation bytes of a character
  give nothing.\<close>

definition is_token_char :: "char \<Rightarrow> bool" where
  "is_token_char ch \<longleftrightarrow> (let n = of_char ch :: nat in
     48 \<le> n \<and> n \<le> 57 \<or> 65 \<le> n \<and> n \<le> 90 \<or> 97 \<le> n \<and> n \<le> 122 \<or> ch = CHR ''-'' \<or> ch = CHR ''_'')"

definition safe_token :: "string \<Rightarrow> string" where
  "safe_token raw = concat (map (\<lambda>ch. if is_token_char ch then [ch]
     else if 128 \<le> (of_char ch :: nat) \<and> (of_char ch :: nat) < 192 then [] else ''-'') raw)"

definition index_suffix :: "nat \<Rightarrow> nat \<Rightarrow> string" where
  "index_suffix n index = (if 1 < n then ''-'' @ show_nat (index + 1) else [])"

definition unit_log_inputs :: "work_contract \<Rightarrow> string \<Rightarrow> string \<Rightarrow> work_spec_unit \<Rightarrow> work_log_input list" where
  "unit_log_inputs c work_id family u =
    (if wu_capability u \<noteq> ''collect_logs'' then []
     else let globs = filter (\<lambda>source. wc_is_executable_source c (ws_kind source) (ws_target source)) (wc_file_sources c u) in
       map (\<lambda>(index, source).
         \<lparr>wl_work_id = work_id, wl_family = family, wl_unit_id = wu_unit_id u,
          wl_input = \<lparr>li_input_id = ''work-'' @ safe_token family @ ''-'' @ safe_token (wu_unit_id u) @ index_suffix (length globs) index,
            li_path = ws_target source, li_startup_position = ''tail'', li_multiline_mode = ws_multiline source,
            li_exclude_globs = ws_exclude_globs source, li_filters = ws_filters source,
            li_drop_if_contains = ws_drop_if_contains source\<rparr>\<rparr>) (enumerate 0 globs))"

definition working_specs :: "applied_work_grant \<Rightarrow> (string \<times> string \<times> work_spec) list" where
  "working_specs s = List.map_filter (\<lambda>(work_id, work).
     if is_working work then map_option (\<lambda>spec. (work_id, wa_family work, spec)) (wa_spec work) else None) (gs_works s)"

definition log_inputs :: "work_contract \<Rightarrow> applied_work_grant \<Rightarrow> work_log_input list" where
  "log_inputs c s =
    concat (map (\<lambda>(work_id, family, spec). concat (map (unit_log_inputs c work_id family) (wp_units spec))) (working_specs s))"

definition unit_exporter_runs :: "work_contract \<Rightarrow> string \<Rightarrow> string \<Rightarrow> work_spec_unit \<Rightarrow> work_exporter_run list" where
  "unit_exporter_runs c work_id family u =
    (if wu_capability u \<noteq> ''collect_logs'' then []
     else let exporters = filter (\<lambda>source. ws_kind source = ''Exporter'' \<and> wc_is_known_exporter c (ws_target source)) (wu_sources u) in
       List.map_filter (\<lambda>(index, source). case wc_parse_exporter_target c (ws_target source) of
           None \<Rightarrow> None
         | Some (exporter_id, arg) \<Rightarrow> Some
             \<lparr>wx_work_id = work_id, wx_family = family, wx_unit_id = wu_unit_id u, wx_exporter_id = exporter_id, wx_arg = arg,
              wx_target = ws_target source,
              wx_input_id = ''work-'' @ safe_token family @ ''-'' @ safe_token (wu_unit_id u) @ ''-exporter'' @
                index_suffix (length exporters) index\<rparr>) (enumerate 0 exporters))"

definition exporter_runs :: "work_contract \<Rightarrow> applied_work_grant \<Rightarrow> work_exporter_run list" where
  "exporter_runs c s =
    concat (map (\<lambda>(work_id, family, spec). concat (map (unit_exporter_runs c work_id family) (wp_units spec))) (working_specs s))"

definition DEFAULT_METRICS_UPLINK_SECONDS :: int where "DEFAULT_METRICS_UPLINK_SECONDS = 15"

definition metrics_interval :: "work_contract \<Rightarrow> applied_work_grant \<Rightarrow> int option" where
  "metrics_interval c s = map_option (\<lambda>seconds. max seconds 1) (fold (\<lambda>(_, _, spec) seconds.
     if \<not> list_ex (\<lambda>u. wu_capability u = ''collect_metrics'') (wp_units spec) then seconds
     else let interval = unwrap_or DEFAULT_METRICS_UPLINK_SECONDS (wc_metric_interval_seconds c spec) in
       Some (case seconds of Some current \<Rightarrow> min current interval | None \<Rightarrow> interval)) (working_specs s) None)"

definition unsupported_reason_of :: "work_spec_source \<Rightarrow> unsupported_reason" where
  "unsupported_reason_of source =
    (if ws_kind source = ''FileGlob'' then NotCollectablePath (ws_target source)
     else if ws_kind source = ''Exporter'' then UnknownExporter (ws_target source)
     else UnsupportedKind (ws_kind source))"

definition unsupported_units :: "work_contract \<Rightarrow> applied_work_grant \<Rightarrow> unsupported_unit list" where
  "unsupported_units c s = concat (map (\<lambda>(work_id, family, spec). concat (map (\<lambda>u. map (\<lambda>source.
     \<lparr>uu_work_id = work_id, uu_unit_id = wu_unit_id u, uu_detail = unsupported_reason_of source\<rparr>)
     (wc_unsupported_sources c u)) (wp_units spec))) (working_specs s))"

subsection \<open>The stored view\<close>

record work_task_record =
  wt_input_id :: string
  wt_path :: string
  wt_startup_position :: string

record standing_work_record =
  sd_work_id :: string
  sd_family :: string
  sd_status :: string
  sd_plan_version :: int
  sd_acknowledged_version :: "int option"
  sd_effective_from :: string
  sd_units :: "work_spec_unit list"
  sd_tasks :: "work_task_record list"

record one_shot_work_record =
  od_work_id :: string
  od_action :: string
  od_spec :: string
  od_status :: string
  od_execution :: string
  od_scheduled_at :: string
  od_deadline_at :: string
  od_timeout_seconds :: int

record work_record =
  wr_schema_version :: string
  wr_recorded_at :: string
  wr_gateway_sequence :: int
  wr_standing :: "standing_work_record list"
  wr_one_shot :: "one_shot_work_record list"
  wr_metrics_interval_seconds :: "int option"

definition SCHEMA_VERSION_V1 :: string where "SCHEMA_VERSION_V1 = ''v1''"

definition standing_view :: "work_contract \<Rightarrow> applied_work_grant \<Rightarrow> string \<times> applied_work \<Rightarrow> standing_work_record" where
  "standing_view c s = (\<lambda>(work_id, work).
    \<lparr>sd_work_id = work_id, sd_family = wa_family work, sd_status = wa_status work, sd_plan_version = wa_plan_version work,
     sd_acknowledged_version = wa_acked_plan_version work, sd_effective_from = wa_effective_from work,
     sd_units = (case wa_spec work of Some spec \<Rightarrow> wp_units spec | None \<Rightarrow> []),
     sd_tasks = map (\<lambda>entry. \<lparr>wt_input_id = li_input_id (wl_input entry), wt_path = li_path (wl_input entry),
         wt_startup_position = li_startup_position (wl_input entry)\<rparr>)
       (filter (\<lambda>entry. wl_work_id entry = work_id) (log_inputs c s))\<rparr>)"

definition one_shot_view :: "applied_work_grant \<Rightarrow> one_shot_work \<Rightarrow> one_shot_work_record" where
  "one_shot_view s work =
    \<lparr>od_work_id = sh_work_id work, od_action = sh_action work, od_spec = sh_spec work, od_status = sh_status work,
     od_execution = execution_of s (sh_work_id work), od_scheduled_at = sh_scheduled_at work,
     od_deadline_at = sh_deadline_at work, od_timeout_seconds = sh_timeout_seconds work\<rparr>"

definition device_view :: "work_contract \<Rightarrow> string \<Rightarrow> applied_work_grant \<Rightarrow> work_record option" where
  "device_view c recorded_at s =
    (if gs_sequence s = 0 then None
     else Some \<lparr>wr_schema_version = SCHEMA_VERSION_V1, wr_recorded_at = recorded_at, wr_gateway_sequence = gs_sequence s,
       wr_standing = map (standing_view c s) (gs_works s),
       wr_one_shot = map (one_shot_view s) (map snd (gs_one_shot_works s)),
       wr_metrics_interval_seconds = metrics_interval c s\<rparr>)"

definition standing_from_record :: "work_contract \<Rightarrow> standing_work_record \<Rightarrow> standing_work" where
  "standing_from_record c entry =
    \<lparr>sw_work_id = sd_work_id entry, sw_family = sd_family entry,
     sw_spec = unwrap_or ''unparsable'' (wc_encode c \<lparr>wp_units = sd_units entry\<rparr>),
     sw_plan_version = sd_plan_version entry, sw_effective_from = sd_effective_from entry, sw_status = sd_status entry\<rparr>"

definition restore_ack :: "standing_work_record \<Rightarrow> applied_work_grant \<Rightarrow> applied_work_grant" where
  "restore_ack entry s = (case sd_acknowledged_version entry of
      Some version \<Rightarrow> mark_acked (sd_work_id entry) version s
    | None \<Rightarrow> s)"

definition one_shot_from_record :: "one_shot_work_record \<Rightarrow> one_shot_work" where
  "one_shot_from_record entry =
    \<lparr>sh_work_id = od_work_id entry, sh_action = od_action entry, sh_spec = od_spec entry,
     sh_scheduled_at = od_scheduled_at entry, sh_deadline_at = od_deadline_at entry,
     sh_timeout_seconds = od_timeout_seconds entry, sh_status = od_status entry\<rparr>"

definition restore_one_shot :: "one_shot_work_record \<Rightarrow> applied_work_grant \<Rightarrow> applied_work_grant" where
  "restore_one_shot entry s =
    s\<lparr>gs_one_shot_works := bt_insert (od_work_id entry) (one_shot_from_record entry) (gs_one_shot_works s),
      gs_one_shot_execution := bt_insert (od_work_id entry) (od_execution entry) (gs_one_shot_execution s),
      gs_unexecutable_one_shot :=
        (if \<not> is_executable_one_shot_action (od_action entry) \<and> od_work_id entry \<notin> set (gs_unexecutable_one_shot s)
         then gs_unexecutable_one_shot s @ [od_work_id entry] else gs_unexecutable_one_shot s)\<rparr>"

definition restore :: "work_contract \<Rightarrow> work_record \<Rightarrow> applied_work_grant" where
  "restore c record =
    (let s0 = grant_default\<lparr>gs_sequence := wr_gateway_sequence record\<rparr>;
         s1 = snd (grant_apply c \<lparr>wg_standing = map (standing_from_record c) (wr_standing record), wg_one_shot = [],
                wg_sequence = wr_gateway_sequence record\<rparr> s0);
         s2 = fold restore_ack (wr_standing record) s1;
         s3 = fold restore_one_shot (wr_one_shot record) s2
     in s3\<lparr>gs_unexecutable_one_shot := sort (gs_unexecutable_one_shot s3)\<rparr>)"

subsection \<open>What applying a snapshot does\<close>

text \<open>The work of a key that a snapshot mentions last.\<close>

definition granted :: "work_grant \<Rightarrow> string \<Rightarrow> standing_work option" where
  "granted g k = find (\<lambda>w. sw_work_id w = k) (rev (wg_standing g))"

definition outstanding :: "work_contract \<Rightarrow> work_grant \<Rightarrow> string \<Rightarrow> one_shot_work option" where
  "outstanding c g k = find (\<lambda>w. sh_work_id w = k) (rev (filter (wc_is_outstanding c) (wg_one_shot g)))"

definition in_flight :: "applied_work_grant \<Rightarrow> string \<Rightarrow> bool" where
  "in_flight s k = (case bt_get (gs_one_shot_execution s) k of
     Some e \<Rightarrow> is_one_shot_execution_in_flight e | None \<Rightarrow> False)"

definition wf_grant :: "applied_work_grant \<Rightarrow> bool" where
  "wf_grant s \<longleftrightarrow> bt_wf (gs_works s) \<and> bt_wf (gs_one_shot_works s) \<and> bt_wf (gs_one_shot_execution s) \<and>
     list_all (\<lambda>(k, w). sh_work_id w = k) (gs_one_shot_works s) \<and>
     bt_keys (gs_one_shot_execution s) = bt_keys (gs_one_shot_works s)"

lemma granted_id: "granted g k = Some w \<Longrightarrow> sw_work_id w = k \<and> w \<in> set (wg_standing g)"
  unfolding granted_def by (drule find_SomeD) simp

lemma outstanding_id: "outstanding c g k = Some w \<Longrightarrow> sh_work_id w = k \<and> w \<in> set (wg_one_shot g) \<and> wc_is_outstanding c w"
  unfolding outstanding_def by (drule find_SomeD) simp

lemma outstanding_None: "outstanding c g k = None \<longleftrightarrow> (\<forall>w\<in>set (wg_one_shot g). wc_is_outstanding c w \<longrightarrow> sh_work_id w \<noteq> k)"
  unfolding outstanding_def by (auto simp: find_None_iff)

lemma one_shot_fold:
  "fold (one_shot_step s) ws (d, u, r, t) =
    (d @ filter (\<lambda>w. is_executable_one_shot_action (sh_action w) \<and> execution_of s (sh_work_id w) = ONE_SHOT_UNEXECUTED) ws,
     u @ map sh_work_id (filter (\<lambda>w. \<not> is_executable_one_shot_action (sh_action w)) ws),
     r @ filter (\<lambda>k. k \<notin> set (gs_unexecutable_one_shot s))
       (map sh_work_id (filter (\<lambda>w. \<not> is_executable_one_shot_action (sh_action w)) ws)),
     fold (\<lambda>w. bt_insert (sh_work_id w) (execution_of s (sh_work_id w))) ws t)"
  by (induction ws arbitrary: d u r t) (auto simp: one_shot_step_def Let_def)

lemma keep_in_flight_get:
  "distinct (map fst before) \<Longrightarrow> bt_get (keep_in_flight before t) k =
    (case bt_get t k of Some e \<Rightarrow> Some e
     | None \<Rightarrow> (case bt_get before k of Some e \<Rightarrow> if is_one_shot_execution_in_flight e then Some e else None | None \<Rightarrow> None))"
proof (induction before arbitrary: t)
  case (Cons kv before)
  obtain j e where kv: "kv = (j, e)" by force
  have "bt_get before j = None" using Cons.prems kv by (simp add: bt_get_def map_of_eq_None_iff)
  then show ?case using Cons.IH[of "if bt_contains t j \<or> \<not> is_one_shot_execution_in_flight e then t else bt_insert j e t"] Cons.prems kv
    by (auto simp: keep_in_flight_def bt_contains_def bt_laws bt_get_def[of "(j, e) # before"] bt_get_def[of before, symmetric]
        split: option.splits)
qed (simp add: keep_in_flight_def split: option.split)

lemma keep_in_flight_wf: "bt_wf t \<Longrightarrow> bt_wf (keep_in_flight before t)"
  unfolding keep_in_flight_def by (rule btree.wf_fold_step) (auto simp: bt_laws)

lemma carry_works_get:
  "bt_get (fold (\<lambda>k t. if bt_contains t k then t
       else (case bt_get before k of Some p \<Rightarrow> bt_insert k p t | None \<Rightarrow> t)) ks t) j =
    (case bt_get t j of Some w \<Rightarrow> Some w | None \<Rightarrow> if j \<in> set ks then bt_get before j else None)"
  by (induction ks arbitrary: t) (auto simp: bt_contains_def bt_laws split: option.splits)

lemma next_works_get: "bt_get (next_works c s g) k = map_option (apply_standing c s) (granted g k)"
  unfolding next_works_def granted_def
  using btree.get_fold_find[where key = sw_work_id and val = "apply_standing c s" and xs = "wg_standing g" and m = "[]" and j = k]
  by (simp split: option.splits)

lemma next_works_wf: "bt_wf (next_works c s g)"
  unfolding next_works_def by (rule btree.wf_fold_step) (simp_all add: bt_laws)

lemma apply_fields [simp]:
  "gs_sequence (snd (grant_apply c g s)) = wg_sequence g"
  "gs_works (snd (grant_apply c g s)) = next_works c s g"
  "gs_unexecutable_one_shot (snd (grant_apply c g s)) =
     map sh_work_id (filter (\<lambda>w. \<not> is_executable_one_shot_action (sh_action w)) (filter (wc_is_outstanding c) (wg_one_shot g)))"
  "ao_changed (fst (grant_apply c g s)) \<longleftrightarrow> wg_sequence g \<noteq> gs_sequence s"
  "ao_to_ack (fst (grant_apply c g s)) = works_to_ack (next_works c s g)"
  "ao_started (fst (grant_apply c g s)) = newly_working (gs_works s) (next_works c s g)"
  "ao_stopped (fst (grant_apply c g s)) = newly_working (next_works c s g) (gs_works s)"
  "ao_broken (fst (grant_apply c g s)) = broken_works c s g"
  "ao_unexecutable_one_shot (fst (grant_apply c g s)) = filter (\<lambda>k. k \<notin> set (gs_unexecutable_one_shot s))
     (gs_unexecutable_one_shot (snd (grant_apply c g s)))"
  "ao_one_shot_to_dispatch (fst (grant_apply c g s)) = filter (\<lambda>w. is_executable_one_shot_action (sh_action w) \<and>
     execution_of s (sh_work_id w) = ONE_SHOT_UNEXECUTED) (filter (wc_is_outstanding c) (wg_one_shot g))"
  by (simp_all add: grant_apply_def Let_def one_shot_fold)

lemma apply_execution_eq:
  "gs_one_shot_execution (snd (grant_apply c g s)) = keep_in_flight (gs_one_shot_execution s)
    (fold (\<lambda>w. bt_insert (sh_work_id w) (execution_of s (sh_work_id w))) (filter (wc_is_outstanding c) (wg_one_shot g)) [])"
  by (simp add: grant_apply_def Let_def one_shot_fold)

lemma apply_execution:
  assumes "bt_wf (gs_one_shot_execution s)"
  shows "bt_get (gs_one_shot_execution (snd (grant_apply c g s))) k =
    (if outstanding c g k \<noteq> None then Some (execution_of s k)
     else if in_flight s k then bt_get (gs_one_shot_execution s) k else None)"
proof -
  have "bt_get (fold (\<lambda>w. bt_insert (sh_work_id w) (execution_of s (sh_work_id w))) (filter (wc_is_outstanding c) (wg_one_shot g)) []) k =
      (if outstanding c g k \<noteq> None then Some (execution_of s k) else None)"
    using btree.get_fold_find[where key = sh_work_id and val = "\<lambda>w. execution_of s (sh_work_id w)"
        and xs = "filter (wc_is_outstanding c) (wg_one_shot g)" and m = "[]" and j = k]
    by (auto simp: outstanding_def dest: find_SomeD split: option.splits)
  then show ?thesis
    using assms by (simp add: apply_execution_eq keep_in_flight_get bt_wf_distinct in_flight_def split: option.split)
qed

lemma apply_execution_wf: "bt_wf (gs_one_shot_execution (snd (grant_apply c g s)))"
  unfolding apply_execution_eq by (intro keep_in_flight_wf btree.wf_fold_step) (simp_all add: bt_laws)

lemma apply_one_shot_works_eq:
  "gs_one_shot_works (snd (grant_apply c g s)) = next_one_shot_works (gs_one_shot_works s)
    (filter (wc_is_outstanding c) (wg_one_shot g)) (gs_one_shot_execution (snd (grant_apply c g s)))"
  by (simp add: grant_apply_def Let_def one_shot_fold)

lemma apply_one_shot_works:
  assumes "bt_wf (gs_one_shot_execution s)"
  shows "bt_get (gs_one_shot_works (snd (grant_apply c g s))) k =
    (case outstanding c g k of Some w \<Rightarrow> Some w
     | None \<Rightarrow> if in_flight s k then bt_get (gs_one_shot_works s) k else None)"
proof -
  have ks: "k \<in> set (bt_keys (gs_one_shot_execution (snd (grant_apply c g s)))) \<longleftrightarrow> outstanding c g k \<noteq> None \<or> in_flight s k"
    using bt_get_fst[of "gs_one_shot_execution (snd (grant_apply c g s))" k] apply_execution[OF assms, of c g k]
    by (auto simp: bt_keys_def in_flight_def split: option.splits if_splits)
  have "bt_get (fold (\<lambda>w. bt_insert (sh_work_id w) w) (filter (wc_is_outstanding c) (wg_one_shot g)) []) k = outstanding c g k"
    using btree.get_fold_find[where key = sh_work_id and val = "\<lambda>w. w" and xs = "filter (wc_is_outstanding c) (wg_one_shot g)"
        and m = "[]" and j = k]
    by (simp add: outstanding_def split: option.splits)
  then show ?thesis
    using ks unfolding apply_one_shot_works_eq next_one_shot_works_def carry_works_get by (simp split: option.split)
qed

lemma apply_one_shot_works_wf: "bt_wf (gs_one_shot_works (snd (grant_apply c g s)))"
proof -
  have "bt_wf (fold (\<lambda>w. bt_insert (sh_work_id w) w) ws [])" for ws
    by (rule btree.wf_fold_step) (simp_all add: bt_laws)
  then show ?thesis
    unfolding apply_one_shot_works_eq next_one_shot_works_def
    by (rule btree.wf_fold_step) (simp add: bt_laws split: option.split)
qed

lemma bt_keys_eqI:
  assumes "bt_wf s" "bt_wf t" "\<And>k. bt_get s k = None \<longleftrightarrow> bt_get t k = None"
  shows "bt_keys s = bt_keys t"
proof -
  have "fst ` set s = fst ` set t" using assms(3) by (metis bt_get_fst subset_antisym subsetI)
  then show ?thesis
    using assms(1,2) unfolding bt_keys_def bt_wf_def strict_sorted_iff
    by (metis list.set_map sorted_distinct_set_unique)
qed

lemma wf_grant_keys: "wf_grant s \<Longrightarrow> bt_get (gs_one_shot_execution s) k = None \<longleftrightarrow> bt_get (gs_one_shot_works s) k = None"
  unfolding wf_grant_def bt_keys_def by (metis bt_get_fst list.set_map)

lemma wf_grant_id: "wf_grant s \<Longrightarrow> bt_get (gs_one_shot_works s) k = Some w \<Longrightarrow> sh_work_id w = k"
  unfolding wf_grant_def by (auto simp: list_all_iff dest!: bt_get_mem)

lemma wf_default: "wf_grant grant_default"
  by (simp add: wf_grant_def grant_default_def bt_keys_def)

lemma wf_apply:
  assumes "wf_grant s"
  shows "wf_grant (snd (grant_apply c g s))"
proof -
  have e: "bt_wf (gs_one_shot_execution s)" using assms by (simp add: wf_grant_def)
  let ?t = "snd (grant_apply c g s)"
  have "bt_keys (gs_one_shot_execution ?t) = bt_keys (gs_one_shot_works ?t)"
    using wf_grant_keys[OF assms]
    by (intro bt_keys_eqI)
      (auto simp: apply_execution_wf apply_one_shot_works_wf apply_execution[OF e] apply_one_shot_works[OF e] in_flight_def
        split: option.splits)
  moreover have "sh_work_id w = k" if "(k, w) \<in> set (gs_one_shot_works ?t)" for k w
    using that wf_grant_id[OF assms] outstanding_id
    by (simp add: bt_entry[OF apply_one_shot_works_wf] apply_one_shot_works[OF e] split: option.splits if_splits)
  ultimately show ?thesis
    by (simp add: wf_grant_def next_works_wf apply_execution_wf apply_one_shot_works_wf list_all_iff split_beta)
qed

subsection \<open>Applying a snapshot again\<close>

lemma standing_again:
  assumes "granted g k = Some w"
  shows "apply_standing c (snd (grant_apply c g s)) w = apply_standing c s w"
proof -
  have "bt_get (next_works c s g) (sw_work_id w) = Some (apply_standing c s w)"
    using assms granted_id[OF assms] by (simp add: next_works_get)
  moreover have "wa_plan_version (apply_standing c s w) = sw_plan_version w"
    "wa_acked_plan_version (apply_standing c s w) = previous_ack s w"
    by (simp_all add: apply_standing_def split: prod.split)
  ultimately have "previous_ack (snd (grant_apply c g s)) w = previous_ack s w" by (simp add: previous_ack_def)
  then show ?thesis by (simp add: apply_standing_def)
qed

lemma next_works_again: "next_works c (snd (grant_apply c g s)) g = next_works c s g"
  by (rule bt_eqI)
    (auto simp: next_works_wf next_works_get standing_again split: option.splits intro!: map_option_cong)

lemma newly_working_self: "bt_wf t \<Longrightarrow> newly_working t t = []"
proof -
  assume "bt_wf t"
  then have "filter (\<lambda>(k, w). is_working w \<and> \<not> working_in t k) t = []"
    by (auto simp: filter_empty_conv working_in_def bt_entry)
  then show ?thesis by (simp only: newly_working_def list.map(1) sort_key_simps)
qed

lemma execution_again:
  assumes "bt_wf (gs_one_shot_execution s)" "outstanding c g k \<noteq> None"
  shows "execution_of (snd (grant_apply c g s)) k = execution_of s k"
  using assms by (simp add: execution_of_def[of "snd _"] apply_execution)

lemma in_flight_again:
  assumes "bt_wf (gs_one_shot_execution s)"
  shows "in_flight (snd (grant_apply c g s)) k \<longleftrightarrow> in_flight s k"
  using assms
  by (auto simp: in_flight_def apply_execution execution_of_def ONE_SHOT_UNEXECUTED_def is_one_shot_execution_in_flight_def
      unwrap_or_def split: option.splits)

lemma apply_again_execution:
  assumes "bt_wf (gs_one_shot_execution s)"
  shows "gs_one_shot_execution (snd (grant_apply c g (snd (grant_apply c g s)))) = gs_one_shot_execution (snd (grant_apply c g s))"
proof (rule bt_eqI)
  note wf = apply_execution_wf[of c g s]
  show "bt_get (gs_one_shot_execution (snd (grant_apply c g (snd (grant_apply c g s))))) k =
      bt_get (gs_one_shot_execution (snd (grant_apply c g s))) k" for k
    using execution_again[OF assms, of c g k] in_flight_again[OF assms, of c g k]
    by (simp add: apply_execution[OF wf] apply_execution[OF assms])
qed (simp_all add: apply_execution_wf)

lemma apply_again_works:
  assumes "bt_wf (gs_one_shot_execution s)"
  shows "gs_one_shot_works (snd (grant_apply c g (snd (grant_apply c g s)))) = gs_one_shot_works (snd (grant_apply c g s))"
proof (rule bt_eqI)
  note wf = apply_execution_wf[of c g s]
  show "bt_get (gs_one_shot_works (snd (grant_apply c g (snd (grant_apply c g s))))) k =
      bt_get (gs_one_shot_works (snd (grant_apply c g s))) k" for k
    using in_flight_again[OF assms, of c g k]
    by (simp add: apply_one_shot_works[OF wf] apply_one_shot_works[OF assms] split: option.split)
qed (simp_all add: apply_one_shot_works_wf)

lemma apply_twice:
  assumes "bt_wf (gs_one_shot_execution s)"
  shows "snd (grant_apply c g (snd (grant_apply c g s))) = snd (grant_apply c g s)"
  using apply_again_execution[OF assms] apply_again_works[OF assms] next_works_again[of c g s]
  by (intro applied_work_grant.equality) simp_all

subsection \<open>Acknowledgements\<close>

lemma mark_acked_fields [simp]:
  "gs_sequence (mark_acked k v s) = gs_sequence s" "gs_one_shot_works (mark_acked k v s) = gs_one_shot_works s"
  "gs_unexecutable_one_shot (mark_acked k v s) = gs_unexecutable_one_shot s"
  "gs_one_shot_execution (mark_acked k v s) = gs_one_shot_execution s"
  by (simp_all add: mark_acked_def)

lemma mark_acked_get:
  "bt_get (gs_works (mark_acked k v s)) j =
    (if j = k then map_option (\<lambda>w. w\<lparr>wa_acked_plan_version := Some v\<rparr>) (bt_get (gs_works s) j) else bt_get (gs_works s) j)"
  by (simp add: mark_acked_def bt_get_modify)

lemma mark_acked_wf [simp]: "bt_wf (gs_works (mark_acked k v s)) \<longleftrightarrow> bt_wf (gs_works s)"
  by (simp add: mark_acked_def)

lemma to_ack_iff:
  "bt_wf t \<Longrightarrow> (k, v) \<in> set (works_to_ack t) \<longleftrightarrow>
    (\<exists>w. bt_get t k = Some w \<and> wa_spec w \<noteq> None \<and> wa_plan_version w = v \<and> wa_acked_plan_version w \<noteq> Some v)"
  by (auto simp: works_to_ack_def bt_entry image_iff)

lemma standing_fields [simp]:
  "wa_plan_version (apply_standing c s w) = sw_plan_version w"
  "wa_status (apply_standing c s w) = sw_status w"
  "wa_family (apply_standing c s w) = sw_family w"
  "wa_effective_from (apply_standing c s w) = sw_effective_from w"
  "wa_acked_plan_version (apply_standing c s w) = previous_ack s w"
  "wa_spec (apply_standing c s w) = (case wc_parse c (sw_spec w) of Inr spec \<Rightarrow> Some spec | Inl _ \<Rightarrow> None)"
  by (simp_all add: apply_standing_def split: sum.split)

subsection \<open>What is collected\<close>

text \<open>The tasks depend on status, family and specification of the works only.\<close>

definition task_part :: "applied_work \<Rightarrow> string \<times> string \<times> work_spec option" where
  "task_part w = (wa_status w, wa_family w, wa_spec w)"

lemma working_specs_cong:
  assumes "map (\<lambda>(k, w). (k, task_part w)) (gs_works s) = map (\<lambda>(k, w). (k, task_part w)) (gs_works t)"
  shows "working_specs s = working_specs t"
proof -
  define pick where "pick = (\<lambda>(k :: string, status, family, spec :: work_spec option).
     if status = ''active'' \<and> spec \<noteq> None then map_option (\<lambda>sp. (k, family :: string, sp)) spec else None)"
  have "List.map_filter (\<lambda>(work_id, work). if is_working work then map_option (\<lambda>spec. (work_id, wa_family work, spec)) (wa_spec work)
      else None) xs = List.map_filter pick (map (\<lambda>(k, w). (k, task_part w)) xs)" for xs
    by (induction xs) (auto simp: List.map_filter_simps is_working_def task_part_def pick_def split: option.split)
  then have "working_specs u = List.map_filter pick (map (\<lambda>(k, w). (k, task_part w)) (gs_works u))" for u
    by (simp add: working_specs_def)
  with assms show ?thesis by simp
qed

lemma bt_map_eqI:
  assumes "bt_wf s" "bt_wf t" "\<And>k. map_option f (bt_get s k) = map_option f (bt_get t k)"
  shows "map (\<lambda>(k, v). (k, f v)) s = map (\<lambda>(k, v). (k, f v)) t"
proof (rule bt_eqI)
  show "bt_wf (map (\<lambda>(k, v). (k, f v)) s)" "bt_wf (map (\<lambda>(k, v). (k, f v)) t)"
    using assms(1,2) by (simp_all add: bt_wf_def comp_def split_beta)
  show "bt_get (map (\<lambda>(k, v). (k, f v)) s) k = bt_get (map (\<lambda>(k, v). (k, f v)) t) k" for k
    using assms(3)[of k] by (simp add: bt_get_def map_of_map)
qed

lemma working_specs_of_grant:
  "working_specs (snd (grant_apply c g s)) = working_specs (snd (grant_apply c g t))"
  by (rule working_specs_cong, unfold apply_fields, rule bt_map_eqI)
    (simp_all add: next_works_wf next_works_get option.map_comp comp_def task_part_def)

lemma working_specs_mem:
  "(k, family, spec) \<in> set (working_specs s) \<Longrightarrow> bt_wf (gs_works s) \<Longrightarrow>
   \<exists>w. bt_get (gs_works s) k = Some w \<and> is_working w \<and> wa_family w = family \<and> wa_spec w = Some spec"
  by (auto simp: working_specs_def map_filter_def bt_entry split: if_splits)

subsection \<open>Storing and restoring\<close>

text \<open>The specifications of the held works are readable and survive the codec.\<close>

definition spec_storable :: "work_contract \<Rightarrow> applied_work \<Rightarrow> bool" where
  "spec_storable c w \<longleftrightarrow> wa_spec_detail w = None \<and> (case wa_spec w of
     None \<Rightarrow> False
   | Some spec \<Rightarrow> (case wc_encode c spec of None \<Rightarrow> False | Some enc \<Rightarrow> wc_parse c enc = Inr spec))"

definition specs_storable :: "work_contract \<Rightarrow> applied_work_grant \<Rightarrow> bool" where
  "specs_storable c s \<longleftrightarrow> list_all (\<lambda>(k, w). spec_storable c w) (gs_works s)"

lemma spec_storableE:
  assumes "spec_storable c w"
  obtains spec enc where "wa_spec_detail w = None" "wa_spec w = Some spec" "wc_encode c spec = Some enc" "wc_parse c enc = Inr spec"
  using assms by (auto simp: spec_storable_def split: option.splits)

lemma restored_standing:
  assumes "wa_spec_detail w = None" "wa_spec w = Some spec" "wc_encode c spec = Some enc" "wc_parse c enc = Inr spec" "gs_works u = []"
  shows "apply_standing c u (standing_from_record c (standing_view c s (k, w))) = w\<lparr>wa_acked_plan_version := None\<rparr>"
  using assms
  by (cases spec; cases w) (simp add: apply_standing_def standing_from_record_def standing_view_def previous_ack_def)

lemma fold_insert_map:
  "fold (\<lambda>x. bt_insert (key x) (val x)) (map f xs) t = bt_insert_all (map (\<lambda>x. (key (f x), val (f x))) xs) t"
  by (simp add: bt_insert_all_def fold_map comp_def)

lemma restored_works:
  assumes "bt_wf (gs_works s)" "specs_storable c s" "gs_works u = []"
    and "wg_standing g = map (standing_from_record c) (map (standing_view c s) (gs_works s))"
  shows "next_works c u g = map (\<lambda>(k, w). (k, w\<lparr>wa_acked_plan_version := None\<rparr>)) (gs_works s)"
proof -
  have one: "(sw_work_id (standing_from_record c (standing_view c s x)), apply_standing c u (standing_from_record c (standing_view c s x))) =
      (\<lambda>(k, w). (k, w\<lparr>wa_acked_plan_version := None\<rparr>)) x" if x: "x \<in> set (gs_works s)" for x
  proof -
    obtain k w where kw: "x = (k, w)" by force
    with x assms(2) have "spec_storable c w" by (auto simp: specs_storable_def list_all_iff)
    then obtain spec enc where "wa_spec_detail w = None" "wa_spec w = Some spec" "wc_encode c spec = Some enc"
        "wc_parse c enc = Inr spec" by (rule spec_storableE)
    from restored_standing[OF this assms(3)] show ?thesis
      by (simp add: kw) (simp add: standing_from_record_def standing_view_def)
  qed
  have "map (\<lambda>x. (sw_work_id (standing_from_record c (standing_view c s x)),
        apply_standing c u (standing_from_record c (standing_view c s x)))) (gs_works s) =
      map (\<lambda>(k, w). (k, w\<lparr>wa_acked_plan_version := None\<rparr>)) (gs_works s)"
    by (rule map_cong[OF refl one])
  then show ?thesis
    using bt_insert_all_self[OF bt_wf_map[OF assms(1), of "\<lambda>_ w. w\<lparr>wa_acked_plan_version := None\<rparr>"]]
    unfolding next_works_def assms(4) list.map_comp comp_def fold_insert_map by (simp only:)
qed

lemma restore_ack_fields [simp]:
  "gs_sequence (restore_ack e s) = gs_sequence s" "gs_one_shot_works (restore_ack e s) = gs_one_shot_works s"
  "gs_one_shot_execution (restore_ack e s) = gs_one_shot_execution s"
  "bt_wf (gs_works (restore_ack e s)) \<longleftrightarrow> bt_wf (gs_works s)"
  by (simp_all add: restore_ack_def split: option.split)

lemma fold_restore_ack_fields [simp]:
  "gs_sequence (fold restore_ack es s) = gs_sequence s" "gs_one_shot_works (fold restore_ack es s) = gs_one_shot_works s"
  "gs_one_shot_execution (fold restore_ack es s) = gs_one_shot_execution s"
  "bt_wf (gs_works (fold restore_ack es s)) \<longleftrightarrow> bt_wf (gs_works s)"
  by (induction es arbitrary: s) simp_all

definition with_ack :: "standing_work_record \<Rightarrow> applied_work \<Rightarrow> applied_work" where
  "with_ack e w = (case sd_acknowledged_version e of Some v \<Rightarrow> w\<lparr>wa_acked_plan_version := Some v\<rparr> | None \<Rightarrow> w)"

lemma restore_ack_get:
  "bt_get (gs_works (restore_ack e s)) k = (if k = sd_work_id e then map_option (with_ack e) (bt_get (gs_works s) k) else bt_get (gs_works s) k)"
  by (cases "sd_acknowledged_version e"; cases "bt_get (gs_works s) k")
    (auto simp: restore_ack_def with_ack_def mark_acked_get)

lemma fold_restore_ack_other:
  "k \<notin> sd_work_id ` set es \<Longrightarrow> bt_get (gs_works (fold restore_ack es s)) k = bt_get (gs_works s) k"
  by (induction es arbitrary: s) (simp_all add: restore_ack_get)

lemma fold_restore_ack_get:
  "distinct (map sd_work_id es) \<Longrightarrow> e \<in> set es \<Longrightarrow>
   bt_get (gs_works (fold restore_ack es s)) (sd_work_id e) = map_option (with_ack e) (bt_get (gs_works s) (sd_work_id e))"
proof (induction es arbitrary: s)
  case (Cons a es)
  show ?case
  proof (cases "e = a")
    case True then show ?thesis using Cons.prems by (simp add: fold_restore_ack_other restore_ack_get)
  next
    case False
    then have "sd_work_id e \<noteq> sd_work_id a" using Cons.prems by (auto simp: image_iff)
    then show ?thesis using Cons False by (simp add: restore_ack_get)
  qed
qed simp

lemma restored_acks:
  assumes "bt_wf t" "gs_works u = map (\<lambda>(k, w). (k, w\<lparr>wa_acked_plan_version := None\<rparr>)) t"
  shows "gs_works (fold restore_ack (map (standing_view c s) t) u) = t"
proof (rule bt_eqI)
  have wf: "bt_wf (gs_works u)" using bt_wf_map[OF assms(1)] assms(2) by simp
  then show "bt_wf (gs_works (fold restore_ack (map (standing_view c s) t) u))" by simp
  have ids: "map sd_work_id (map (standing_view c s) t) = map fst t"
    by (simp add: standing_view_def split_beta)
  fix k
  show "bt_get (gs_works (fold restore_ack (map (standing_view c s) t) u)) k = bt_get t k"
  proof (cases "bt_get t k")
    case None
    then have "k \<notin> sd_work_id ` set (map (standing_view c s) t)"
      using ids by (metis bt_get_fst list.set_map)
    then show ?thesis using None by (simp add: fold_restore_ack_other assms(2) bt_get_map)
  next
    case (Some w)
    let ?e = "standing_view c s (k, w)"
    have "?e \<in> set (map (standing_view c s) t)" using Some by (auto dest: bt_get_mem)
    moreover have "distinct (map sd_work_id (map (standing_view c s) t))" by (simp only: ids bt_wf_distinct[OF assms(1)])
    ultimately have "bt_get (gs_works (fold restore_ack (map (standing_view c s) t) u)) (sd_work_id ?e) =
        map_option (with_ack ?e) (bt_get (gs_works u) (sd_work_id ?e))"
      using fold_restore_ack_get by blast
    moreover have "sd_work_id ?e = k" "with_ack ?e (w\<lparr>wa_acked_plan_version := None\<rparr>) = w"
      by (simp_all add: standing_view_def with_ack_def split: option.split)
    ultimately show ?thesis using Some by (simp add: assms(2) bt_get_map)
  qed
qed (rule assms(1))

lemma fold_restore_one_shot:
  "gs_sequence (fold restore_one_shot es s) = gs_sequence s" "gs_works (fold restore_one_shot es s) = gs_works s"
  "gs_one_shot_works (fold restore_one_shot es s) =
     bt_insert_all (map (\<lambda>e. (od_work_id e, one_shot_from_record e)) es) (gs_one_shot_works s)"
  "gs_one_shot_execution (fold restore_one_shot es s) =
     bt_insert_all (map (\<lambda>e. (od_work_id e, od_execution e)) es) (gs_one_shot_execution s)"
  by (induction es arbitrary: s) (simp_all add: restore_one_shot_def bt_insert_all_def)

lemma restored_one_shot:
  assumes "wf_grant s"
  shows "bt_insert_all (map (\<lambda>e. (od_work_id e, one_shot_from_record e)) (map (one_shot_view s) (map snd (gs_one_shot_works s)))) [] =
      gs_one_shot_works s"
    and "bt_insert_all (map (\<lambda>e. (od_work_id e, od_execution e)) (map (one_shot_view s) (map snd (gs_one_shot_works s)))) [] =
      gs_one_shot_execution s"
proof -
  let ?t = "gs_one_shot_works s"
  have wf: "bt_wf ?t" "bt_wf (gs_one_shot_execution s)" using assms by (simp_all add: wf_grant_def)
  have ids: "sh_work_id (snd x) = fst x" if "x \<in> set ?t" for x
    using assms that by (auto simp: wf_grant_def list_all_iff)
  have "map (\<lambda>e. (od_work_id e, one_shot_from_record e)) (map (one_shot_view s) (map snd ?t)) = ?t"
    using ids by (auto simp: one_shot_view_def one_shot_from_record_def intro!: map_idI)
  then show "bt_insert_all (map (\<lambda>e. (od_work_id e, one_shot_from_record e)) (map (one_shot_view s) (map snd ?t))) [] = ?t"
    using bt_insert_all_self[OF wf(1)] by simp
  have "map (\<lambda>e. (od_work_id e, od_execution e)) (map (one_shot_view s) (map snd ?t)) = map (\<lambda>(k, w). (k, execution_of s k)) ?t"
    using ids by (auto simp: one_shot_view_def)
  also have "\<dots> = gs_one_shot_execution s"
  proof (rule bt_eqI)
    show "bt_get (map (\<lambda>(k, w). (k, execution_of s k)) ?t) k = bt_get (gs_one_shot_execution s) k" for k
      using wf_grant_keys[OF assms, of k]
      by (cases "bt_get (gs_one_shot_execution s) k"; cases "bt_get ?t k")
        (simp_all add: bt_get_map execution_of_def)
  qed (simp_all add: wf bt_wf_map)
  finally show "bt_insert_all (map (\<lambda>e. (od_work_id e, od_execution e)) (map (one_shot_view s) (map snd ?t))) [] =
      gs_one_shot_execution s"
    using bt_insert_all_self[OF wf(2)] by simp
qed

lemma restore_device_view:
  assumes "wf_grant s" "specs_storable c s" "device_view c now s = Some r"
  shows "gs_sequence (restore c r) = gs_sequence s \<and> gs_works (restore c r) = gs_works s \<and>
    gs_one_shot_works (restore c r) = gs_one_shot_works s \<and> gs_one_shot_execution (restore c r) = gs_one_shot_execution s"
proof -
  have wf: "bt_wf (gs_works s)" using assms(1) by (simp add: wf_grant_def)
  have r: "wr_standing r = map (standing_view c s) (gs_works s)" "wr_one_shot r = map (one_shot_view s) (map snd (gs_one_shot_works s))"
    "wr_gateway_sequence r = gs_sequence s"
    using assms(3) by (auto simp: device_view_def split: if_splits)
  let ?g = "\<lparr>wg_standing = map (standing_from_record c) (wr_standing r), wg_one_shot = [], wg_sequence = wr_gateway_sequence r\<rparr>"
  let ?s0 = "grant_default\<lparr>gs_sequence := wr_gateway_sequence r\<rparr>"
  have empty: "gs_one_shot_works (snd (grant_apply c ?g ?s0)) = []" "gs_one_shot_execution (snd (grant_apply c ?g ?s0)) = []"
    by (simp_all add: apply_one_shot_works_eq apply_execution_eq next_one_shot_works_def keep_in_flight_def grant_default_def bt_keys_def)
  have "next_works c ?s0 ?g = map (\<lambda>(k, w). (k, w\<lparr>wa_acked_plan_version := None\<rparr>)) (gs_works s)"
    by (rule restored_works[OF wf assms(2)]) (simp_all add: r grant_default_def)
  then have "gs_works (fold restore_ack (wr_standing r) (snd (grant_apply c ?g ?s0))) = gs_works s"
    unfolding r by (intro restored_acks[OF wf]) (simp add: r)
  then show ?thesis
    using restored_one_shot[OF assms(1)] r empty
    by (simp add: restore_def Let_def fold_restore_one_shot)
qed

end
