(* ===== verification/Upgrade.thy ===== *)
theory Upgrade
  imports BTree
begin

text \<open>
  The upgrade of the agent's own binaries, \<open>src/upgrade.rs\<close> with the command line of \<open>src/bin/wist-upgrader.rs\<close>: check
  the request, fetch and verify the package, unpack it, ask the new agent for its version, exchange the binaries, restart,
  wait for the new version and go back if it does not come.

  The directory of the binaries is a map from file names to contents.  Fetching, the digest, version comparison, the
  unpacked archive, the commands \<open>install\<close>, \<open>mv\<close> and the restart command are answers of the environment; a command
  that fails may leave anything in the file it writes, but a failed rename leaves both names alone.  A staged binary is
  its name and its content.  Texts of errors are shortened.
\<close>

subsection \<open>Requests\<close>

datatype upgrade_error = UpgradeError string string

fun ug_reason :: "upgrade_error \<Rightarrow> string" where "ug_reason (UpgradeError reason _) = reason"
fun ug_detail :: "upgrade_error \<Rightarrow> string" where "ug_detail (UpgradeError _ detail) = detail"

type_synonym 'a upgrade_res = "upgrade_error + 'a"

definition AGENTD_BIN_NAME :: string where "AGENTD_BIN_NAME = ''wist-agentd''"
definition EXEC_BIN_NAME :: string where "EXEC_BIN_NAME = ''wist-exec''"
definition UPGRADER_BIN_NAME :: string where "UPGRADER_BIN_NAME = ''wist-upgrader''"
definition MAX_ARTIFACT_DEPTH :: nat where "MAX_ARTIFACT_DEPTH = 3"
definition UPGRADER_DEAD_AFTER :: int where "UPGRADER_DEAD_AFTER = 60"

record upgrade_spec =
  us_target_version :: "string option"
  us_package_url :: string
  us_package_sha256 :: string
  us_allow_downgrade :: bool

record upgrade_request =
  uq_work_id :: string
  uq_target_version :: "string option"
  uq_current_version :: string
  uq_agentd_bin :: string
  uq_package_url :: string
  uq_package_sha256 :: string
  uq_allow_downgrade :: bool

datatype restart_plan = NoRestart | RestartCommand string "string list"

record upgrade_options =
  uo_dry_run :: bool
  uo_ready_wait :: nat
  uo_restart :: restart_plan

record upgrade_record =
  ur_work_id :: string
  ur_from_version :: string
  ur_to_version :: string
  ur_step :: string
  ur_status :: string
  ur_detail :: string
  ur_agentd_bin :: string
  ur_updated_at :: string

subsection \<open>The environment\<close>

datatype artifact_error = TooLarge string | OtherArtifact string

datatype art_entry = ArtFile string string | ArtLink string | ArtBroken | ArtDir string "art_entry list option"

datatype cmd_outcome = CmdOk | CmdFail "string option"

record upgrade_env =
  ue_now :: string
  ue_parse_json :: "string \<Rightarrow> upgrade_spec option"
  ue_parse_version :: "string \<Rightarrow> nat list option"
  ue_version_is_newer :: "string \<Rightarrow> string \<Rightarrow> bool option"
  ue_parse_digest :: "string \<Rightarrow> string option"
  ue_sha256 :: "string \<Rightarrow> string"
  ue_read_local :: "string \<Rightarrow> artifact_error + string"
  ue_client_err :: "string option"
  ue_read_remote :: "string \<Rightarrow> artifact_error + string"
  ue_staging_exists :: bool
  ue_stage_fault :: "string \<Rightarrow> string option"
  ue_untar :: "string \<Rightarrow> art_entry list option"
  ue_run_version :: "string \<Rightarrow> string option"
  ue_copy :: "string \<Rightarrow> cmd_outcome"
  ue_install :: "string \<Rightarrow> cmd_outcome"
  ue_mv :: "string \<Rightarrow> bool"
  ue_remove :: "string \<Rightarrow> bool"
  ue_restart :: "nat \<Rightarrow> bool"
  ue_running_version :: "nat \<Rightarrow> string option"
  ue_oversleep :: "nat \<Rightarrow> nat"
  ue_store :: "nat \<Rightarrow> write_outcome"

type_synonym bin_dir = "string \<Rightarrow> string option"

subsection \<open>Checking the request\<close>

definition parse_spec :: "upgrade_env \<Rightarrow> string \<Rightarrow> upgrade_spec upgrade_res" where
  "parse_spec e text = (case ue_parse_json e text of
      None \<Rightarrow> Inl (UpgradeError ''spec_invalid'' ''expected JSON'')
    | Some spec \<Rightarrow>
        if trim (us_package_url spec) = [] then Inl (UpgradeError ''spec_invalid'' ''package_url is empty'')
        else if trim (unwrap_or [] (us_target_version spec)) = [] then Inr (spec\<lparr>us_target_version := None\<rparr>)
        else Inr spec)"

definition version_parts :: "upgrade_env \<Rightarrow> string \<Rightarrow> nat list option" where
  "version_parts e value = ue_parse_version e value"

definition digest_hex :: "upgrade_env \<Rightarrow> string \<Rightarrow> string upgrade_res" where
  "digest_hex e value = (case ue_parse_digest e value of
      Some d \<Rightarrow> Inr d
    | None \<Rightarrow> Inl (UpgradeError ''digest_invalid'' ''package_sha256 must be 64 hex chars''))"

definition provided_target :: "upgrade_request \<Rightarrow> string option" where
  "provided_target rq = (case uq_target_version rq of
      None \<Rightarrow> None
    | Some v \<Rightarrow> if trim v = [] then None else Some (trim v))"

definition ensure_newer :: "upgrade_env \<Rightarrow> string \<Rightarrow> string \<Rightarrow> unit upgrade_res" where
  "ensure_newer e target current = (case ue_version_is_newer e target current of
      Some True \<Rightarrow> Inr ()
    | Some False \<Rightarrow> Inl (UpgradeError ''not_newer'' ''downgrade and reinstall are refused'')
    | None \<Rightarrow> Inl (UpgradeError ''version_uncomparable'' ''cannot compare''))"

definition try_res :: "'a upgrade_res \<Rightarrow> ('a \<Rightarrow> 'b upgrade_res) \<Rightarrow> 'b upgrade_res" where
  "try_res r f = (case r of Inl err \<Rightarrow> Inl err | Inr a \<Rightarrow> f a)"

definition validate_request :: "upgrade_env \<Rightarrow> upgrade_request \<Rightarrow> unit upgrade_res" where
  "validate_request e rq =
    (if trim (uq_work_id rq) = [] then Inl (UpgradeError ''spec_invalid'' ''work_id is empty'')
     else if trim (uq_package_url rq) = [] then Inl (UpgradeError ''spec_invalid'' ''package_url is empty'')
     else try_res (case provided_target rq of
         Some target \<Rightarrow> if \<not> uq_allow_downgrade rq then ensure_newer e target (uq_current_version rq) else Inr ()
       | None \<Rightarrow> Inr ()) (\<lambda>_.
       try_res (digest_hex e (uq_package_sha256 rq)) (\<lambda>_. Inr ())))"

definition resolve_target_version :: "upgrade_env \<Rightarrow> upgrade_request \<Rightarrow> string \<Rightarrow> string upgrade_res" where
  "resolve_target_version e rq reported =
    try_res (case provided_target rq of
        Some target \<Rightarrow> if target \<noteq> reported then Inl (UpgradeError ''version_mismatch'' reported) else Inr target
      | None \<Rightarrow> Inr reported) (\<lambda>target.
      if \<not> uq_allow_downgrade rq then try_res (ensure_newer e target (uq_current_version rq)) (\<lambda>_. Inr target)
      else Inr target)"

subsection \<open>Package\<close>

definition verify_digest :: "upgrade_env \<Rightarrow> string \<Rightarrow> string \<Rightarrow> unit upgrade_res" where
  "verify_digest e bytes expected = try_res (digest_hex e expected) (\<lambda>d.
     if ue_sha256 e bytes \<noteq> d then Inl (UpgradeError ''digest_mismatch'' d) else Inr ())"

fun map_fetch_error :: "artifact_error \<Rightarrow> upgrade_error" where
  "map_fetch_error (TooLarge detail) = UpgradeError ''package_too_large'' detail"
| "map_fetch_error (OtherArtifact detail) = UpgradeError ''package_unavailable'' detail"

definition fetch_package :: "upgrade_env \<Rightarrow> string \<Rightarrow> string upgrade_res" where
  "fetch_package e source =
    (let source = trim source in
     if starts_with ''/'' source then map_sum map_fetch_error id (ue_read_local e source)
     else (case ue_client_err e of
         Some err \<Rightarrow> Inl (UpgradeError ''package_unavailable'' err)
       | None \<Rightarrow> map_sum map_fetch_error id (ue_read_remote e source)))"

record staged_binary =
  sb_name :: string
  sb_content :: string

definition looks_gzipped :: "string \<Rightarrow> bool" where
  "looks_gzipped bytes \<longleftrightarrow> 2 \<le> length bytes \<and> bytes ! 0 = CHR 0x1F \<and> bytes ! 1 = CHR 0x8B"

definition is_known_binary :: "string \<Rightarrow> bool" where
  "is_known_binary name \<longleftrightarrow> name \<in> {AGENTD_BIN_NAME, EXEC_BIN_NAME, UPGRADER_BIN_NAME}"

type_synonym art_queue = "(art_entry list option \<times> nat) list"

fun scan_entries ::
    "nat \<Rightarrow> art_entry list \<Rightarrow> art_queue \<Rightarrow> staged_binary list \<Rightarrow> (art_queue \<times> staged_binary list) upgrade_res" where
  "scan_entries depth [] queue found = Inr (queue, found)"
| "scan_entries depth (ArtBroken # es) queue found = Inl (UpgradeError ''artifact_invalid'' ''read'')"
| "scan_entries depth (ArtLink name # es) queue found =
    (if is_known_binary name then Inl (UpgradeError ''artifact_invalid'' ''symlink'') else scan_entries depth es queue found)"
| "scan_entries depth (ArtDir name sub # es) queue found =
    scan_entries depth es (if depth < MAX_ARTIFACT_DEPTH then queue @ [(sub, depth + 1)] else queue) found"
| "scan_entries depth (ArtFile name content # es) queue found =
    (if is_known_binary name
     then (if list_ex (\<lambda>item. sb_name item = name) found then Inl (UpgradeError ''artifact_invalid'' ''more than one'')
           else scan_entries depth es queue (found @ [\<lparr>sb_name = name, sb_content = content\<rparr>]))
     else scan_entries depth es queue found)"

definition queue_weight :: "art_queue \<Rightarrow> nat" where
  "queue_weight queue = sum_list (map (\<lambda>(sub, _). Suc (size_option (size_list size) sub)) queue)"

lemma scan_weight:
  "scan_entries depth es queue found = Inr (queue', found') \<Longrightarrow> queue_weight queue' \<le> queue_weight queue + size_list size es"
  by (induction depth es queue found arbitrary: queue' found' rule: scan_entries.induct)
    (fastforce simp: queue_weight_def split: if_splits)+

function find_loop :: "art_queue \<Rightarrow> staged_binary list \<Rightarrow> staged_binary list upgrade_res" where
  "find_loop queue found =
    (if queue = [] then Inr found
     else (case last queue of
         (None, _) \<Rightarrow> Inl (UpgradeError ''artifact_invalid'' ''read'')
       | (Some es, depth) \<Rightarrow> (case scan_entries depth es (butlast queue) found of
           Inl err \<Rightarrow> Inl err
         | Inr (queue', found') \<Rightarrow> find_loop queue' found')))"
  by pat_completeness auto
termination
proof (relation "measure (\<lambda>(queue, _). queue_weight queue)")
  fix queue :: art_queue and found x n es b q' f'
  assume *: "queue \<noteq> []" "(x, n) = last queue" "x = Some es" "scan_entries n es (butlast queue) found = Inr b" "(q', f') = b"
  have "queue_weight queue = queue_weight (butlast queue @ [(Some es, n)])" using * by (metis append_butlast_last_id)
  also have "\<dots> = queue_weight (butlast queue) + Suc (Suc (size_list size es))" by (simp add: queue_weight_def)
  finally show "((q', f'), queue, found) \<in> measure (\<lambda>(queue, _). queue_weight queue)"
    using * scan_weight[of n es "butlast queue" found q' f'] by auto
qed simp

declare find_loop.simps [simp del]

definition find_binaries :: "art_entry list option \<Rightarrow> staged_binary list upgrade_res" where
  "find_binaries root = try_res (find_loop [(root, 0)] []) (\<lambda>found.
     if \<not> list_ex (\<lambda>item. sb_name item = AGENTD_BIN_NAME) found
     then Inl (UpgradeError ''artifact_invalid'' ''wist-agentd not found'')
     else Inr (sort_key sb_name found))"

definition check_upgrade_keeps_bin_directory_consistent :: "staged_binary list \<Rightarrow> bin_dir \<Rightarrow> unit upgrade_res" where
  "check_upgrade_keeps_bin_directory_consistent staged bins =
    (let brings = (\<lambda>name. list_ex (\<lambda>item. sb_name item = name) staged);
         exec = brings EXEC_BIN_NAME; upgrader = brings UPGRADER_BIN_NAME
     in if exec \<noteq> upgrader then Inl (UpgradeError ''artifact_invalid'' ''all three binaries, or only wist-agentd'')
        else if exec then Inr ()
        else if bins EXEC_BIN_NAME \<noteq> None then Inl (UpgradeError ''artifact_invalid'' ''wist-exec already exists'')
        else if bins UPGRADER_BIN_NAME \<noteq> None then Inl (UpgradeError ''artifact_invalid'' ''wist-upgrader already exists'')
        else Inr ())"

definition stage_step :: "upgrade_env \<Rightarrow> string \<Rightarrow> unit upgrade_res" where
  "stage_step e name = (case ue_stage_fault e name of
      Some detail \<Rightarrow> Inl (UpgradeError ''staging_failed'' detail)
    | None \<Rightarrow> Inr ())"

definition stage_package :: "upgrade_env \<Rightarrow> string \<Rightarrow> staged_binary list upgrade_res" where
  "stage_package e bytes =
    try_res (if ue_staging_exists e then stage_step e ''clear'' else Inr ()) (\<lambda>_.
    try_res (stage_step e ''create'') (\<lambda>_.
    if \<not> looks_gzipped bytes
    then try_res (stage_step e ''write'') (\<lambda>_.
         try_res (stage_step e ''chmod'') (\<lambda>_.
         Inr [\<lparr>sb_name = AGENTD_BIN_NAME, sb_content = bytes\<rparr>]))
    else try_res (stage_step e ''archive'') (\<lambda>_.
         try_res (stage_step e ''unpacked'') (\<lambda>_.
         try_res (stage_step e ''tar'') (\<lambda>_.
         find_binaries (ue_untar e bytes))))))"

definition parse_version_output :: "upgrade_env \<Rightarrow> string \<Rightarrow> string option" where
  "parse_version_output e stdout = map_option trim (find (\<lambda>token. case version_parts e token of
      Some parts \<Rightarrow> 2 \<le> length parts
    | None \<Rightarrow> False) (rev (split_whitespace stdout)))"

definition verify_staged_agentd :: "upgrade_env \<Rightarrow> staged_binary list \<Rightarrow> string upgrade_res" where
  "verify_staged_agentd e staged = (case find (\<lambda>item. sb_name item = AGENTD_BIN_NAME) staged of
      None \<Rightarrow> Inl (UpgradeError ''artifact_invalid'' ''staged artifact has no wist-agentd'')
    | Some agentd \<Rightarrow> (case ue_run_version e (sb_content agentd) of
        None \<Rightarrow> Inl (UpgradeError ''artifact_invalid'' ''run version'')
      | Some stdout \<Rightarrow>
          (let reported = unwrap_or [] (parse_version_output e stdout) in
           if trim reported = [] then Inl (UpgradeError ''artifact_invalid'' ''did not report a version'')
           else Inr reported)))"

subsection \<open>Exchanging the binaries\<close>

definition bak :: "string \<Rightarrow> string \<Rightarrow> string" where "bak name version = name @ ''.bak-'' @ version"
definition new_file :: "string \<Rightarrow> string" where "new_file name = name @ ''.new''"
definition rollback_file :: "string \<Rightarrow> string" where "rollback_file name = name @ ''.rollback''"

record backup =
  bk_installed :: string
  bk_backup :: string
  bk_existed :: bool

fun write_file :: "cmd_outcome \<Rightarrow> string \<Rightarrow> string option \<Rightarrow> string \<Rightarrow> bin_dir \<Rightarrow> unit upgrade_res \<times> bin_dir" where
  "write_file CmdOk reason content dst bins = (Inr (), bins(dst := content))"
| "write_file (CmdFail left) reason content dst bins = (Inl (UpgradeError reason dst), bins(dst := left))"

definition move_file :: "bool \<Rightarrow> string \<Rightarrow> string \<Rightarrow> bin_dir \<Rightarrow> unit upgrade_res \<times> bin_dir" where
  "move_file ok src dst bins =
    (if ok then (Inr (), (bins(dst := bins src))(src := None)) else (Inl (UpgradeError ''command_failed'' ''mv''), bins))"

definition install_attempt ::
    "upgrade_env \<Rightarrow> staged_binary \<Rightarrow> string \<Rightarrow> string \<Rightarrow> string \<Rightarrow> bin_dir \<Rightarrow> unit upgrade_res \<times> bin_dir" where
  "install_attempt e item installed backup new_path bins =
    (case (if bins installed \<noteq> None \<and> bins backup = None
           then write_file (ue_copy e backup) ''install_failed'' (bins installed) backup bins else (Inr (), bins)) of
      (Inl err, bins1) \<Rightarrow> (Inl err, bins1)
    | (Inr _, bins1) \<Rightarrow> (case write_file (ue_install e new_path) ''command_failed'' (Some (sb_content item)) new_path bins1 of
        (Inl err, bins2) \<Rightarrow> (Inl err, bins2)
      | (Inr _, bins2) \<Rightarrow> move_file (ue_mv e new_path) new_path installed bins2))"

definition restore_one :: "upgrade_env \<Rightarrow> backup \<Rightarrow> bin_dir \<Rightarrow> unit upgrade_res \<times> bin_dir" where
  "restore_one e b bins =
    (let installed = bk_installed b; new_path = rollback_file installed in
     if \<not> bk_existed b
     then (if bins installed \<noteq> None
           then (if ue_remove e installed then (Inr (), bins(installed := None))
                 else (Inl (UpgradeError ''rollback_failed'' installed), bins))
           else (Inr (), bins))
     else if bins (bk_backup b) = None then (Inl (UpgradeError ''rollback_failed'' (bk_backup b)), bins)
     else (case write_file (ue_install e new_path) ''command_failed'' (bins (bk_backup b)) new_path bins of
         (Inl err, bins1) \<Rightarrow> (Inl err, bins1)
       | (Inr _, bins1) \<Rightarrow> move_file (ue_mv e new_path) new_path installed bins1))"

fun restore_backups :: "upgrade_env \<Rightarrow> backup list \<Rightarrow> bin_dir \<Rightarrow> unit upgrade_res \<times> bin_dir" where
  "restore_backups e [] bins = (Inr (), bins)"
| "restore_backups e (b # bs) bins = (case restore_one e b bins of
      (Inl err, bins1) \<Rightarrow> (Inl err, bins1)
    | (Inr _, bins1) \<Rightarrow> restore_backups e bs bins1)"

fun install_binaries ::
    "upgrade_env \<Rightarrow> string \<Rightarrow> bool \<Rightarrow> staged_binary list \<Rightarrow> backup list \<Rightarrow> bin_dir \<Rightarrow> backup list upgrade_res \<times> bin_dir" where
  "install_binaries e current_version dry_run [] backups bins = (Inr backups, bins)"
| "install_binaries e current_version dry_run (item # rest) backups bins =
    (let installed = sb_name item; backup = bak installed current_version; new_path = new_file installed;
         entry = \<lparr>bk_installed = installed, bk_backup = backup, bk_existed = (bins installed \<noteq> None)\<rparr>
     in if dry_run then install_binaries e current_version dry_run rest (backups @ [entry]) bins
        else (case install_attempt e item installed backup new_path bins of
            (Inr _, bins1) \<Rightarrow> install_binaries e current_version dry_run rest (backups @ [entry]) bins1
          | (Inl err, bins1) \<Rightarrow> (case restore_backups e backups bins1 of
              (Inr _, bins2) \<Rightarrow> (Inl (UpgradeError (ug_reason err) (ug_detail err @ ''; rolled back'')), bins2)
            | (Inl rollback_err, bins2) \<Rightarrow> (Inl (UpgradeError (ug_reason err) (ug_detail err @ ''; rollback failed'')), bins2))))"

subsection \<open>The run\<close>

function wait_for_version :: "upgrade_env \<Rightarrow> string \<Rightarrow> nat \<Rightarrow> nat \<Rightarrow> nat \<Rightarrow> bool" where
  "wait_for_version e target_version limit t elapsed =
    (if ue_running_version e t = Some target_version then True
     else if limit \<le> elapsed then False
     else wait_for_version e target_version limit (Suc t) (elapsed + 1 + ue_oversleep e t))"
  by pat_completeness auto
termination
  by (relation "measure (\<lambda>(e, v, limit, t, elapsed). limit - elapsed)") auto

declare wait_for_version.simps [simp del]

record upgrade_run =
  un_record :: upgrade_record
  un_file :: "upgrade_record disk_file"
  un_stores :: nat
  un_restarts :: nat
  un_bins :: bin_dir

definition record_new :: "upgrade_env \<Rightarrow> upgrade_request \<Rightarrow> upgrade_record" where
  "record_new e rq =
    \<lparr>ur_work_id = uq_work_id rq, ur_from_version = uq_current_version rq, ur_to_version = unwrap_or [] (uq_target_version rq),
     ur_step = ''validate'', ur_status = ''running'', ur_detail = [], ur_agentd_bin = uq_agentd_bin rq, ur_updated_at = ue_now e\<rparr>"

definition record_step :: "upgrade_env \<Rightarrow> string \<Rightarrow> upgrade_record \<Rightarrow> upgrade_record" where
  "record_step e step r = r\<lparr>ur_step := step, ur_updated_at := ue_now e\<rparr>"

definition record_finish :: "upgrade_env \<Rightarrow> string \<Rightarrow> string \<Rightarrow> upgrade_record \<Rightarrow> upgrade_record" where
  "record_finish e status detail r = r\<lparr>ur_status := status, ur_detail := detail, ur_updated_at := ue_now e\<rparr>"

definition store_record :: "upgrade_env \<Rightarrow> upgrade_run \<Rightarrow> unit res \<times> upgrade_run" where
  "store_record e r = (case write_op (ue_store e (un_stores r)) (\<lambda>r. r\<lparr>un_file := Present (un_record r)\<rparr>) r of
     (res, r') \<Rightarrow> (res, r'\<lparr>un_stores := un_stores r + 1\<rparr>))"

definition at_step :: "upgrade_env \<Rightarrow> string \<Rightarrow> upgrade_run \<Rightarrow> upgrade_run" where
  "at_step e step r = snd (store_record e (r\<lparr>un_record := record_step e step (un_record r)\<rparr>))"

definition run_restart :: "upgrade_env \<Rightarrow> restart_plan \<Rightarrow> upgrade_run \<Rightarrow> unit upgrade_res \<times> upgrade_run" where
  "run_restart e plan r = (case plan of
      NoRestart \<Rightarrow> (Inr (), r)
    | RestartCommand program args \<Rightarrow>
        (if ue_restart e (un_restarts r) then Inr () else Inl (UpgradeError ''command_failed'' program),
         r\<lparr>un_restarts := un_restarts r + 1\<rparr>))"

definition roll_back :: "upgrade_env \<Rightarrow> upgrade_options \<Rightarrow> backup list \<Rightarrow> upgrade_error \<Rightarrow> upgrade_run \<Rightarrow> unit upgrade_res \<times> upgrade_run" where
  "roll_back e opt backups err r = (case restore_backups e backups (un_bins r) of
     (rollback, bins) \<Rightarrow> (case run_restart e (uo_restart opt) (r\<lparr>un_bins := bins\<rparr>) of
       (retry, r1) \<Rightarrow>
        (Inl err, case rollback of
           Inr _ \<Rightarrow> r1\<lparr>un_record := (un_record r1)\<lparr>ur_status := ''rolled_back''\<rparr>\<rparr>
         | Inl _ \<Rightarrow> r1)))"

definition finish_install ::
    "upgrade_env \<Rightarrow> upgrade_options \<Rightarrow> string \<Rightarrow> backup list \<Rightarrow> upgrade_run \<Rightarrow> unit upgrade_res \<times> upgrade_run" where
  "finish_install e opt target_version backups r =
    (case run_restart e (uo_restart opt) (at_step e ''restart'' r) of
      (Inl err, r1) \<Rightarrow> roll_back e opt backups (UpgradeError ''restart_failed'' (ug_detail err)) r1
    | (Inr _, r1) \<Rightarrow>
        (let r2 = at_step e ''wait_ready'' r1 in
         if wait_for_version e target_version (uo_ready_wait opt) 0 0 then (Inr (), r2)
         else roll_back e opt backups (UpgradeError ''not_ready'' target_version) r2))"

definition has_parent :: "string \<Rightarrow> bool" where
  "has_parent path = list_ex (\<lambda>c. c \<noteq> CHR ''/'') path"

definition try_run :: "'a upgrade_res \<Rightarrow> upgrade_run \<Rightarrow> ('a \<Rightarrow> 'b upgrade_res \<times> upgrade_run) \<Rightarrow> 'b upgrade_res \<times> upgrade_run" where
  "try_run x r f = (case x of Inl err \<Rightarrow> (Inl err, r) | Inr a \<Rightarrow> f a)"

text \<open>The steps of \<open>apply_inner\<close> up to the last check, and those that change the installation.\<close>

definition prepare_upgrade ::
    "upgrade_env \<Rightarrow> upgrade_request \<Rightarrow> upgrade_run \<Rightarrow> (staged_binary list \<times> string) upgrade_res \<times> upgrade_run" where
  "prepare_upgrade e rq r =
    (let r0 = r\<lparr>un_record := record_step e ''validate'' (un_record r)\<rparr> in
     try_run (validate_request e rq) r0 (\<lambda>_.
     let r1 = at_step e ''fetch'' r0 in
     try_run (fetch_package e (uq_package_url rq)) r1 (\<lambda>bytes.
     let r2 = at_step e ''verify_digest'' r1 in
     try_run (verify_digest e bytes (uq_package_sha256 rq)) r2 (\<lambda>_.
     let r3 = at_step e ''stage'' r2 in
     try_run (stage_package e bytes) r3 (\<lambda>staged.
     let r4 = at_step e ''verify_artifact'' r3 in
     try_run (verify_staged_agentd e staged) r4 (\<lambda>reported.
     try_run (resolve_target_version e rq reported) r4 (\<lambda>target_version.
     let r5 = snd (store_record e (r4\<lparr>un_record := (un_record r4)\<lparr>ur_to_version := target_version\<rparr>\<rparr>)) in
     try_run (if has_parent (uq_agentd_bin rq) then Inr () else Inl (UpgradeError ''install_failed'' ''no parent directory'')) r5 (\<lambda>_.
     try_run (check_upgrade_keeps_bin_directory_consistent staged (un_bins r5)) r5 (\<lambda>_.
     (Inr (staged, target_version), r5))))))))))"

definition apply_inner ::
    "upgrade_env \<Rightarrow> upgrade_request \<Rightarrow> upgrade_options \<Rightarrow> upgrade_run \<Rightarrow> unit upgrade_res \<times> upgrade_run" where
  "apply_inner e rq opt r = (case prepare_upgrade e rq r of
      (Inl err, r5) \<Rightarrow> (Inl err, r5)
    | (Inr (staged, target_version), r5) \<Rightarrow>
        (let r6 = at_step e ''install'' r5 in
         case install_binaries e (uq_current_version rq) (uo_dry_run opt) staged [] (un_bins r6) of
           (Inl err, bins) \<Rightarrow> (Inl err, r6\<lparr>un_bins := bins\<rparr>)
         | (Inr backups, bins) \<Rightarrow>
             (if uo_dry_run opt then (Inr (), r6\<lparr>un_bins := bins\<rparr>)
              else finish_install e opt target_version backups (r6\<lparr>un_bins := bins\<rparr>))))"

definition upgrade_apply :: "upgrade_env \<Rightarrow> upgrade_request \<Rightarrow> upgrade_options \<Rightarrow> upgrade_run \<Rightarrow> upgrade_record \<times> upgrade_run" where
  "upgrade_apply e rq opt r =
    (case apply_inner e rq opt (r\<lparr>un_record := record_new e rq\<rparr>) of (res, r1) \<Rightarrow>
     let r2 = r1\<lparr>un_record := (case res of
           Inr _ \<Rightarrow> record_finish e ''succeeded'' [] (un_record r1)
         | Inl err \<Rightarrow> record_finish e (if ur_status (un_record r1) = ''rolled_back'' then ''rolled_back'' else ''failed'')
             (ug_reason err @ '': '' @ ug_detail err) (un_record r1))\<rparr>
     in case store_record e r2 of
          (Inr _, r3) \<Rightarrow> (un_record r3, r3)
        | (Inl _, r3) \<Rightarrow>
            (let r4 = r3\<lparr>un_record := (un_record r3)\<lparr>ur_detail := ur_detail (un_record r3) @ ''; record store failed''\<rparr>\<rparr>
             in (un_record r4, r4)))"

definition heartbeat_is_fresh :: "int option \<Rightarrow> int \<Rightarrow> bool" where
  "heartbeat_is_fresh modified now = (case modified of
      None \<Rightarrow> False
    | Some m \<Rightarrow> if m \<le> now then now - m < UPGRADER_DEAD_AFTER else True)"

subsection \<open>Starting the upgrader\<close>

record upgrade_launch =
  ul_program :: string
  ul_args :: "string list"

definition build_launch :: "string \<Rightarrow> string \<Rightarrow> upgrade_request \<Rightarrow> upgrade_launch" where
  "build_launch program config_dir rq = \<lparr>ul_program = program, ul_args =
     [''apply'', ''--config-dir'', config_dir, ''--bin'', uq_agentd_bin rq, ''--work-id'', uq_work_id rq] @
     (case provided_target rq of Some target \<Rightarrow> [''--target-version'', target] | None \<Rightarrow> []) @
     (if uq_allow_downgrade rq then [''--allow-downgrade''] else []) @
     [''--current-version'', uq_current_version rq, ''--package-url'', uq_package_url rq,
      ''--package-sha256'', uq_package_sha256 rq, ''--apply'']\<rparr>"

definition is_unit_char :: "char \<Rightarrow> bool" where
  "is_unit_char ch \<longleftrightarrow> (let n = of_char ch :: nat in
     48 \<le> n \<and> n \<le> 57 \<or> 65 \<le> n \<and> n \<le> 90 \<or> 97 \<le> n \<and> n \<le> 122 \<or> ch \<in> {CHR '':'', CHR ''_'', CHR ''.'', CHR ''-''})"

definition upgrader_unit_name :: "string \<Rightarrow> string" where
  "upgrader_unit_name work_id = ''wist-upgrader-'' @ concat (map (\<lambda>ch. if is_unit_char ch then [ch]
     else if 128 \<le> (of_char ch :: nat) \<and> (of_char ch :: nat) < 192 then [] else ''_'') work_id)"

definition replace_char :: "char \<Rightarrow> string \<Rightarrow> string \<Rightarrow> string" where
  "replace_char c by s = concat (map (\<lambda>x. if x = c then by else [x]) s)"

definition systemd_exec_escape :: "string \<Rightarrow> string" where
  "systemd_exec_escape arg = replace_char CHR 0x25 [CHR 0x25, CHR 0x25] (replace_char CHR 0x24 [CHR 0x24, CHR 0x24] arg)"

definition systemd_property_path_escape :: "string \<Rightarrow> string" where
  "systemd_property_path_escape value = replace_char CHR 0x25 [CHR 0x25, CHR 0x25] value"

definition build_systemd_run_launch :: "upgrade_launch \<Rightarrow> string \<Rightarrow> string \<Rightarrow> string \<Rightarrow> upgrade_launch" where
  "build_systemd_run_launch inner unit_name log_path env_file =
    (let log = systemd_property_path_escape log_path; env = systemd_property_path_escape env_file in
     \<lparr>ul_program = ''systemd-run'', ul_args =
       [''--unit='' @ unit_name, ''--collect'', ''--service-type=exec'', ''--property=StandardOutput=append:'' @ log,
        ''--property=StandardError=append:'' @ log, ''--property=EnvironmentFile=-'' @ env,
        ''--property=SyslogIdentifier='' @ unit_name, ''--'', systemd_exec_escape (ul_program inner)] @
       map systemd_exec_escape (ul_args inner)\<rparr>)"

text \<open>How the system answers: the log directory, \<open>systemd-run\<close> (missing, started, refused, not runnable) and the detached
  process.\<close>

datatype systemd_answer = SystemdStarted | SystemdRefused string | SystemdMissing | SystemdError string

record spawn_env =
  sp_log_dir :: "string option"
  sp_systemd :: "upgrade_launch \<Rightarrow> systemd_answer"
  sp_detached :: "upgrade_launch \<Rightarrow> string + nat"

definition spawn_upgrader :: "spawn_env \<Rightarrow> upgrade_launch \<Rightarrow> string \<Rightarrow> string \<Rightarrow> string \<Rightarrow> string + string" where
  "spawn_upgrader p launch log_path work_id env_file = (case sp_log_dir p of
      Some err \<Rightarrow> Inl (''create log dir: '' @ err)
    | None \<Rightarrow>
        (let u = upgrader_unit_name work_id in
         case sp_systemd p (build_systemd_run_launch launch u log_path env_file) of
           SystemdStarted \<Rightarrow> Inr u
         | SystemdRefused detail \<Rightarrow> Inl (''systemd-run '' @ u @ '': '' @ detail)
         | SystemdError err \<Rightarrow> Inl (''run systemd-run: '' @ err)
         | SystemdMissing \<Rightarrow> map_sum (\<lambda>err. ''launch: '' @ err) show_nat (sp_detached p launch)))"

subsection \<open>Command line of the upgrader\<close>

record upgrader_args =
  ua_config_dir :: "string option"
  ua_bin :: "string option"
  ua_work_id :: "string option"
  ua_target_version :: "string option"
  ua_current_version :: "string option"
  ua_package_url :: "string option"
  ua_package_sha256 :: "string option"
  ua_dry_run :: bool
  ua_allow_downgrade :: bool
  ua_ready_wait :: nat

definition DEFAULT_READY_WAIT :: nat where "DEFAULT_READY_WAIT = 60"

definition args_default :: upgrader_args where
  "args_default = \<lparr>ua_config_dir = None, ua_bin = None, ua_work_id = None, ua_target_version = None, ua_current_version = None,
     ua_package_url = None, ua_package_sha256 = None, ua_dry_run = True, ua_allow_downgrade = False,
     ua_ready_wait = DEFAULT_READY_WAIT\<rparr>"

fun read_digits :: "nat \<Rightarrow> string \<Rightarrow> nat option" where
  "read_digits acc [] = Some acc"
| "read_digits acc (c # cs) = (let n = of_char c :: nat in
     if 48 \<le> n \<and> n \<le> 57 \<and> acc * 10 + (n - 48) < 2 ^ 64 then read_digits (acc * 10 + (n - 48)) cs else None)"

definition parse_u64 :: "string \<Rightarrow> nat option" where
  "parse_u64 s = (let digits = (if starts_with ''+'' s then tl s else s) in if digits = [] then None else read_digits 0 digits)"

definition set_flag :: "string \<Rightarrow> string \<Rightarrow> upgrader_args \<Rightarrow> string + upgrader_args" where
  "set_flag flag value a =
    (if flag = ''--config-dir'' then Inr (a\<lparr>ua_config_dir := Some value\<rparr>)
     else if flag = ''--bin'' then Inr (a\<lparr>ua_bin := Some value\<rparr>)
     else if flag = ''--work-id'' then Inr (a\<lparr>ua_work_id := Some value\<rparr>)
     else if flag = ''--target-version'' then Inr (a\<lparr>ua_target_version := Some value\<rparr>)
     else if flag = ''--current-version'' then Inr (a\<lparr>ua_current_version := Some value\<rparr>)
     else if flag = ''--package-url'' then Inr (a\<lparr>ua_package_url := Some value\<rparr>)
     else if flag = ''--package-sha256'' then Inr (a\<lparr>ua_package_sha256 := Some value\<rparr>)
     else (case parse_u64 value of Some secs \<Rightarrow> Inr (a\<lparr>ua_ready_wait := secs\<rparr>)
       | None \<Rightarrow> Inl ''--ready-wait-secs must be a number''))"

definition value_flags :: "string list" where
  "value_flags = [''--config-dir'', ''--bin'', ''--work-id'', ''--target-version'', ''--current-version'', ''--package-url'',
     ''--package-sha256'', ''--ready-wait-secs'']"

fun parse_flags :: "string list \<Rightarrow> upgrader_args \<Rightarrow> string + upgrader_args" where
  "parse_flags [] a = Inr a"
| "parse_flags (flag # rest) a =
    (if flag = ''--apply'' then parse_flags rest (a\<lparr>ua_dry_run := False\<rparr>)
     else if flag = ''--allow-downgrade'' then parse_flags rest (a\<lparr>ua_allow_downgrade := True\<rparr>)
     else if flag \<in> set value_flags
     then (case rest of
         [] \<Rightarrow> Inl (''missing value for '' @ flag)
       | value # rest' \<Rightarrow> (case set_flag flag value a of Inl err \<Rightarrow> Inl err | Inr a' \<Rightarrow> parse_flags rest' a'))
     else Inl (''unsupported flag: '' @ flag))"

definition default_restart_plan :: restart_plan where
  "default_restart_plan = RestartCommand ''systemctl'' [''restart'', ''wist-agentd'']"

text \<open>The subcommand, the required flags and the request of \<open>execute\<close>; \<open>default_bin\<close> is the agent beside the upgrader.\<close>

definition upgrader_main :: "string \<Rightarrow> string list \<Rightarrow> string + (string \<times> upgrade_request \<times> upgrade_options)" where
  "upgrader_main default_bin argv = (case argv of
      [] \<Rightarrow> Inl ''usage''
    | cmd # args \<Rightarrow>
        (if cmd \<noteq> ''apply'' then Inl cmd
         else (case parse_flags args args_default of
           Inl err \<Rightarrow> Inl err
         | Inr a \<Rightarrow> (case (ua_config_dir a, ua_work_id a, ua_current_version a, ua_package_url a, ua_package_sha256 a) of
             (Some config_dir, Some work_id, Some current, Some url, Some sha) \<Rightarrow> Inr (config_dir,
               \<lparr>uq_work_id = work_id, uq_target_version = ua_target_version a, uq_current_version = current,
                uq_agentd_bin = unwrap_or default_bin (ua_bin a), uq_package_url = url, uq_package_sha256 = sha,
                uq_allow_downgrade = ua_allow_downgrade a\<rparr>,
               \<lparr>uo_dry_run = ua_dry_run a, uo_ready_wait = ua_ready_wait a,
                uo_restart = (if ua_dry_run a then NoRestart else default_restart_plan)\<rparr>)
           | _ \<Rightarrow> Inl ''missing flag''))))"

subsection \<open>File names\<close>

definition known_names :: "string list" where
  "known_names = [AGENTD_BIN_NAME, EXEC_BIN_NAME, UPGRADER_BIN_NAME]"

lemma known_iff: "is_known_binary n \<longleftrightarrow> n \<in> set known_names"
  by (auto simp: is_known_binary_def known_names_def)

lemma known_no_dot: "is_known_binary n \<Longrightarrow> CHR ''.'' \<notin> set n"
  by (auto simp: is_known_binary_def AGENTD_BIN_NAME_def EXEC_BIN_NAME_def UPGRADER_BIN_NAME_def)

lemma dotted_prefix:
  assumes "is_known_binary n" "is_known_binary m" "n @ CHR ''.'' # x = m @ CHR ''.'' # y"
  shows "n = m \<and> x = y"
proof -
  have *: "takeWhile (\<lambda>c. c \<noteq> CHR ''.'') (k @ CHR ''.'' # z) = k" if "is_known_binary k" for k z
    using known_no_dot[OF that] by (subst takeWhile_append2) auto
  from *[OF assms(1), of x] *[OF assms(2), of y] assms(3) show ?thesis by simp
qed

lemma names_distinct [simp]:
  assumes n: "is_known_binary n" and m: "is_known_binary m"
  shows "m \<noteq> bak n v" "bak n v \<noteq> m" "m \<noteq> new_file n" "new_file n \<noteq> m" "m \<noteq> rollback_file n" "rollback_file n \<noteq> m"
    "bak m v \<noteq> new_file n" "new_file n \<noteq> bak m v" "bak m v \<noteq> rollback_file n" "rollback_file n \<noteq> bak m v"
    "bak n v = bak m v \<longleftrightarrow> n = m"
proof -
  have dot: "CHR ''.'' \<in> set (bak n v)" "CHR ''.'' \<in> set (new_file n)" "CHR ''.'' \<in> set (rollback_file n)"
    by (simp_all add: bak_def new_file_def rollback_file_def)
  with known_no_dot[OF m] show "m \<noteq> bak n v" "bak n v \<noteq> m" "m \<noteq> new_file n" "new_file n \<noteq> m" "m \<noteq> rollback_file n" "rollback_file n \<noteq> m"
    by metis+
  show "bak m v \<noteq> new_file n" "new_file n \<noteq> bak m v" "bak m v \<noteq> rollback_file n" "rollback_file n \<noteq> bak m v"
    using dotted_prefix[OF m n, of "''bak-'' @ v" "''new''"] dotted_prefix[OF m n, of "''bak-'' @ v" "''rollback''"]
    by (auto simp: bak_def new_file_def rollback_file_def)
  show "bak n v = bak m v \<longleftrightarrow> n = m"
    using dotted_prefix[OF n m, of "''bak-'' @ v" "''bak-'' @ v"] by (auto simp: bak_def)
qed

subsection \<open>Exchange and return\<close>

text \<open>A directory in the middle of an exchange: the binaries in \<open>bs\<close> have been replaced and can be brought back, all
  others are still the original ones.\<close>

definition backup_ok :: "string \<Rightarrow> bin_dir \<Rightarrow> bin_dir \<Rightarrow> backup \<Rightarrow> bool" where
  "backup_ok v orig bins b \<longleftrightarrow> is_known_binary (bk_installed b) \<and> bk_backup b = bak (bk_installed b) v \<and>
     (bk_existed b \<longleftrightarrow> orig (bk_installed b) \<noteq> None) \<and> (bk_existed b \<longrightarrow> bins (bk_backup b) = orig (bk_installed b))"

definition backups_sound :: "string \<Rightarrow> bin_dir \<Rightarrow> bool" where
  "backups_sound v bins \<longleftrightarrow> list_all (\<lambda>n. bins n = None \<or> bins (bak n v) = None \<or> bins (bak n v) = bins n) known_names"

definition mid_exchange :: "string \<Rightarrow> bin_dir \<Rightarrow> backup list \<Rightarrow> bin_dir \<Rightarrow> bool" where
  "mid_exchange v orig bs bins \<longleftrightarrow> list_all (backup_ok v orig bins) bs \<and>
     (\<forall>n. is_known_binary n \<longrightarrow> n \<notin> bk_installed ` set bs \<longrightarrow> bins n = orig n)"

definition all_original :: "bin_dir \<Rightarrow> bin_dir \<Rightarrow> bool" where
  "all_original orig bins \<longleftrightarrow> list_all (\<lambda>n. bins n = orig n) known_names"

lemma all_original_iff: "all_original orig bins \<longleftrightarrow> (\<forall>n. is_known_binary n \<longrightarrow> bins n = orig n)"
  by (auto simp: all_original_def list_all_iff known_iff)

lemma restore_one_effect:
  assumes "backup_ok v orig bins b" "restore_one e b bins = (r, bins')"
  shows "\<And>m. is_known_binary m \<Longrightarrow> bins' (bak m v) = bins (bak m v)"
    and "\<And>m. is_known_binary m \<Longrightarrow> m \<noteq> bk_installed b \<Longrightarrow> bins' m = bins m"
    and "r = Inr u \<Longrightarrow> bins' (bk_installed b) = orig (bk_installed b)"
  using assms
  by (cases "ue_install e (rollback_file (bk_installed b))";
      auto simp: restore_one_def Let_def move_file_def backup_ok_def split: if_splits)+

lemma backup_ok_cong:
  "backup_ok v orig bins b \<Longrightarrow> (\<And>m. is_known_binary m \<Longrightarrow> bins' (bak m v) = bins (bak m v)) \<Longrightarrow> backup_ok v orig bins' b"
  by (auto simp: backup_ok_def)

lemma restore_effect:
  assumes "list_all (backup_ok v orig bins) bs" "restore_backups e bs bins = (Inr u, bins')" "is_known_binary m"
  shows "bins' m = (if m \<in> bk_installed ` set bs then orig m else bins m)"
  using assms
proof (induction bs arbitrary: bins)
  case (Cons b bs)
  obtain r bins1 where one: "restore_one e b bins = (r, bins1)" by fastforce
  with Cons.prems(2) have rest: "r = Inr ()" "restore_backups e bs bins1 = (Inr u, bins')" by (auto split: sum.splits)
  have b: "backup_ok v orig bins b" using Cons.prems(1) by simp
  note eff = restore_one_effect[OF b one]
  have "list_all (backup_ok v orig bins1) bs"
    using Cons.prems(1) eff(1) by (auto simp: list_all_iff intro: backup_ok_cong)
  from Cons.IH[OF this rest(2) Cons.prems(3)] show ?case
    using eff(2)[OF Cons.prems(3)] eff(3)[OF rest(1)] by auto
qed simp

lemma mid_exchange_restored:
  assumes "mid_exchange v orig bs bins" "restore_backups e bs bins = (Inr u, bins')"
  shows "all_original orig bins'"
  unfolding all_original_iff
proof (intro allI impI)
  fix m assume m: "is_known_binary m"
  have "list_all (backup_ok v orig bins) bs" using assms(1) by (simp add: mid_exchange_def)
  from restore_effect[OF this assms(2) m] show "bins' m = orig m"
    using assms(1) m by (auto simp: mid_exchange_def)
qed

lemma restore_succeeds:
  assumes "list_all (backup_ok v orig bins) bs"
    and "\<And>n. is_known_binary n \<Longrightarrow> ue_install e (rollback_file n) = CmdOk \<and> ue_mv e (rollback_file n) \<and> ue_remove e n"
  shows "\<exists>bins'. restore_backups e bs bins = (Inr (), bins')"
  using assms(1)
proof (induction bs arbitrary: bins)
  case (Cons b bs)
  have b: "backup_ok v orig bins b" using Cons.prems by simp
  obtain r bins1 where one: "restore_one e b bins = (r, bins1)" by fastforce
  have "r = Inr ()"
    using one b assms(2)[of "bk_installed b"] by (auto simp: restore_one_def Let_def move_file_def backup_ok_def split: if_splits)
  moreover have "list_all (backup_ok v orig bins1) bs"
    using Cons.prems restore_one_effect(1)[OF b one] by (auto simp: list_all_iff intro: backup_ok_cong)
  ultimately show ?case using Cons.IH one by auto
qed simp

lemma install_attempt_effect:
  assumes n: "is_known_binary n" and run: "install_attempt e item n (bak n v) (new_file n) bins = (r, bins')"
  shows "\<And>m. is_known_binary m \<Longrightarrow> m \<noteq> n \<Longrightarrow> bins' m = bins m \<and> bins' (bak m v) = bins (bak m v)"
    and "r = Inr u \<Longrightarrow> bins' n = Some (sb_content item) \<and>
      bins' (bak n v) = (if bins n \<noteq> None \<and> bins (bak n v) = None then bins n else bins (bak n v))"
    and "r = Inl err \<Longrightarrow> bins' n = bins n"
  using assms
  by (cases "ue_copy e (bak n v)"; cases "ue_install e (new_file n)";
      auto simp: install_attempt_def move_file_def split: if_splits)+

definition unreplaced_ok :: "string \<Rightarrow> bin_dir \<Rightarrow> backup list \<Rightarrow> bin_dir \<Rightarrow> bool" where
  "unreplaced_ok v orig bs bins \<longleftrightarrow> (\<forall>n. is_known_binary n \<longrightarrow> n \<notin> bk_installed ` set bs \<longrightarrow>
     orig n = None \<or> bins (bak n v) = None \<or> bins (bak n v) = orig n)"

lemma start_exchange: "backups_sound v bins \<Longrightarrow> mid_exchange v bins [] bins \<and> unreplaced_ok v bins [] bins"
  by (auto simp: mid_exchange_def unreplaced_ok_def backups_sound_def list_all_iff known_iff)

lemma backups_ok_other:
  assumes "list_all (backup_ok v orig bins) bs" "n \<notin> bk_installed ` set bs"
    and "\<And>m. is_known_binary m \<Longrightarrow> m \<noteq> n \<Longrightarrow> bins' m = bins m \<and> bins' (bak m v) = bins (bak m v)"
  shows "list_all (backup_ok v orig bins') bs"
  unfolding list_all_iff
proof
  fix b assume "b \<in> set bs"
  with assms(1,2) have "backup_ok v orig bins b" "bk_installed b \<noteq> n" by (auto simp: list_all_iff)
  then show "backup_ok v orig bins' b" using assms(3) by (auto simp: backup_ok_def)
qed

lemma exchange_step:
  assumes mid: "mid_exchange v orig bs bins" "unreplaced_ok v orig bs bins"
    and n: "is_known_binary n" "n \<notin> bk_installed ` set bs"
    and run: "install_attempt e item n (bak n v) (new_file n) bins = (Inr u, bins')"
  shows "mid_exchange v orig (bs @ [\<lparr>bk_installed = n, bk_backup = bak n v, bk_existed = (bins n \<noteq> None)\<rparr>]) bins'"
    and "unreplaced_ok v orig (bs @ [\<lparr>bk_installed = n, bk_backup = bak n v, bk_existed = (bins n \<noteq> None)\<rparr>]) bins'"
proof -
  note eff = install_attempt_effect(1,2)[OF n(1) run]
  have same: "bins n = orig n" using mid(1) n by (simp add: mid_exchange_def)
  have old: "list_all (backup_ok v orig bins') bs"
    using mid(1) n(2) eff(1) by (intro backups_ok_other[of v orig bins bs n bins']) (auto simp: mid_exchange_def)
  have new: "backup_ok v orig bins' \<lparr>bk_installed = n, bk_backup = bak n v, bk_existed = (bins n \<noteq> None)\<rparr>"
    using eff(2)[OF refl] mid(2) n same by (auto simp: backup_ok_def unreplaced_ok_def)
  show "mid_exchange v orig (bs @ [\<lparr>bk_installed = n, bk_backup = bak n v, bk_existed = (bins n \<noteq> None)\<rparr>]) bins'"
    using old new eff(1) mid(1) by (auto simp: mid_exchange_def)
  show "unreplaced_ok v orig (bs @ [\<lparr>bk_installed = n, bk_backup = bak n v, bk_existed = (bins n \<noteq> None)\<rparr>]) bins'"
    using eff(1) mid(2) by (auto simp: unreplaced_ok_def)
qed

lemma exchange_failed:
  assumes mid: "mid_exchange v orig bs bins" and n: "is_known_binary n" "n \<notin> bk_installed ` set bs"
    and run: "install_attempt e item n (bak n v) (new_file n) bins = (Inl err, bins')"
  shows "mid_exchange v orig bs bins'"
proof -
  note eff = install_attempt_effect(1,3)[OF n(1) run]
  have "list_all (backup_ok v orig bins') bs"
    using mid n(2) eff(1) by (intro backups_ok_other[of v orig bins bs n bins']) (auto simp: mid_exchange_def)
  moreover have "bins' m = bins m" if "is_known_binary m" for m
    using eff that by (cases "m = n") auto
  ultimately show ?thesis using mid by (auto simp: mid_exchange_def)
qed

lemma install_binaries_effect:
  assumes "mid_exchange v orig bs bins" "unreplaced_ok v orig bs bins" "list_all (\<lambda>i. is_known_binary (sb_name i)) staged"
    "distinct (map bk_installed bs @ map sb_name staged)" "install_binaries e v False staged bs bins = (r, bins')"
  shows "(\<forall>bs'. r = Inr bs' \<longrightarrow> mid_exchange v orig bs' bins' \<and>
        (\<forall>i\<in>set staged. bins' (sb_name i) = Some (sb_content i)) \<and>
        (\<forall>m. is_known_binary m \<longrightarrow> m \<notin> sb_name ` set staged \<longrightarrow> bins' m = bins m)) \<and>
     (\<forall>err. r = Inl err \<longrightarrow> (\<exists>bs' bins''. mid_exchange v orig bs' bins'' \<and> bins' = snd (restore_backups e bs' bins'')))"
  using assms
proof (induction staged arbitrary: bs bins)
  case (Cons i staged)
  let ?n = "sb_name i"
  let ?b = "\<lparr>bk_installed = ?n, bk_backup = bak ?n v, bk_existed = (bins ?n \<noteq> None)\<rparr>"
  have n: "is_known_binary ?n" "?n \<notin> bk_installed ` set bs" using Cons.prems(3,4) by auto
  obtain x bins1 where x: "install_attempt e i ?n (bak ?n v) (new_file ?n) bins = (x, bins1)" by fastforce
  show ?case
  proof (cases x)
    case (Inl err)
    have mid: "mid_exchange v orig bs bins1" using exchange_failed[OF Cons.prems(1) n] x Inl by simp
    have "r \<noteq> Inr bs'" "bins' = snd (restore_backups e bs bins1)" for bs'
      using Cons.prems(5) x Inl by (auto simp: Let_def split: prod.splits sum.splits)
    then show ?thesis using mid by blast
  next
    case (Inr u)
    note step = exchange_step[OF Cons.prems(1,2) n x[unfolded Inr]]
    note eff = install_attempt_effect(1,2)[OF n(1) x]
    have rest: "install_binaries e v False staged (bs @ [?b]) bins1 = (r, bins')"
      using Cons.prems(5) x Inr by (simp add: Let_def)
    have d: "distinct (map bk_installed (bs @ [?b]) @ map sb_name staged)" "list_all (\<lambda>i. is_known_binary (sb_name i)) staged"
      using Cons.prems(3,4) by auto
    have out: "?n \<notin> sb_name ` set staged" using Cons.prems(4) by auto
    from Cons.IH[OF step d(2,1) rest] show ?thesis
      using eff(1) eff(2)[OF Inr] n(1) out by (auto 0 3)
  qed
qed auto

lemma install_dry: "install_binaries e v True staged bs bins = (r, bins') \<Longrightarrow> bins' = bins \<and> (\<exists>bs'. r = Inr bs')"
  by (induction staged arbitrary: bs) (auto simp: Let_def)

subsection \<open>Staged binaries\<close>

lemma scan_found:
  "scan_entries depth es queue found = Inr (queue', found') \<Longrightarrow>
   list_all (\<lambda>i. is_known_binary (sb_name i)) found \<and> distinct (map sb_name found) \<Longrightarrow>
   list_all (\<lambda>i. is_known_binary (sb_name i)) found' \<and> distinct (map sb_name found')"
  by (induction depth es queue found arbitrary: queue' found' rule: scan_entries.induct)
    (auto simp: list_ex_iff split: if_splits)

lemma find_loop_found:
  "find_loop queue found = Inr found' \<Longrightarrow> list_all (\<lambda>i. is_known_binary (sb_name i)) found \<and> distinct (map sb_name found) \<Longrightarrow>
   list_all (\<lambda>i. is_known_binary (sb_name i)) found' \<and> distinct (map sb_name found')"
proof (induction queue found arbitrary: found' rule: find_loop.induct)
  case (1 queue found)
  show ?case
  proof (cases "queue = []")
    case True then show ?thesis using "1.prems" by (simp add: find_loop.simps)
  next
    case False
    from "1.prems"(1) False obtain es depth q f where *: "last queue = (Some es, depth)"
        "scan_entries depth es (butlast queue) found = Inr (q, f)" "find_loop q f = Inr found'"
      by (subst (asm) find_loop.simps) (auto split: prod.splits option.splits sum.splits)
    from "1.IH"[OF False *(1)[symmetric] refl *(2) refl *(3)] scan_found[OF *(2)] "1.prems"(2) show ?thesis by simp
  qed
qed

lemma stage_found:
  assumes "stage_package e bytes = Inr staged"
  shows "list_all (\<lambda>i. is_known_binary (sb_name i)) staged \<and> distinct (map sb_name staged)"
proof (cases "looks_gzipped bytes")
  case True
  then obtain found where "find_loop [(ue_untar e bytes, 0)] [] = Inr found" "staged = sort_key sb_name found"
    using assms by (auto simp: stage_package_def find_binaries_def try_res_def split: sum.splits if_splits)
  then show ?thesis using find_loop_found[of _ "[]" found] by (auto simp: list_all_iff distinct_map)
next
  case False
  then show ?thesis using assms
    by (auto simp: stage_package_def try_res_def is_known_binary_def split: sum.splits if_splits)
qed

subsection \<open>Outcome of a run\<close>

text \<open>Everything that is verified before a binary is touched.\<close>

definition package_checked :: "upgrade_env \<Rightarrow> upgrade_request \<Rightarrow> bin_dir \<Rightarrow> staged_binary list \<Rightarrow> string \<Rightarrow> bool" where
  "package_checked e rq bins staged target \<longleftrightarrow> (\<exists>bytes. validate_request e rq = Inr () \<and>
     fetch_package e (uq_package_url rq) = Inr bytes \<and> verify_digest e bytes (uq_package_sha256 rq) = Inr () \<and>
     stage_package e bytes = Inr staged \<and> verify_staged_agentd e staged = Inr target \<and>
     resolve_target_version e rq target = Inr target \<and> check_upgrade_keeps_bin_directory_consistent staged bins = Inr ())"

lemma store_record_frame [simp]:
  "un_bins (snd (store_record e r)) = un_bins r" "un_record (snd (store_record e r)) = un_record r"
  "un_restarts (snd (store_record e r)) = un_restarts r"
  by (cases "ue_store e (un_stores r)"; simp add: store_record_def)+

lemma at_step_frame [simp]:
  "un_bins (at_step e x r) = un_bins r" "ur_status (un_record (at_step e x r)) = ur_status (un_record r)"
  by (simp_all add: at_step_def record_step_def)

lemma run_restart_frame:
  "run_restart e plan r = (x, r') \<Longrightarrow> un_bins r' = un_bins r \<and> un_record r' = un_record r"
  by (auto simp: run_restart_def split: restart_plan.splits)

lemma resolve_reported: "resolve_target_version e rq reported = Inr target \<Longrightarrow> target = reported"
  by (auto simp: resolve_target_version_def try_res_def split: option.splits if_splits sum.splits)

lemma prepare_frame:
  "prepare_upgrade e rq r = (x, r') \<Longrightarrow> un_bins r' = un_bins r \<and> ur_status (un_record r') = ur_status (un_record r)"
  by (auto simp: prepare_upgrade_def Let_def try_run_def record_step_def split: sum.splits if_splits)

lemma prepare_checked:
  assumes "prepare_upgrade e rq r = (Inr (staged, target), r')"
  shows "package_checked e rq (un_bins r) staged target"
proof -
  from assms obtain bytes reported where "validate_request e rq = Inr ()" "fetch_package e (uq_package_url rq) = Inr bytes"
      "verify_digest e bytes (uq_package_sha256 rq) = Inr ()" "stage_package e bytes = Inr staged"
      "verify_staged_agentd e staged = Inr reported" "resolve_target_version e rq reported = Inr target"
      "check_upgrade_keeps_bin_directory_consistent staged (un_bins r) = Inr ()"
    by (auto simp: prepare_upgrade_def Let_def try_run_def split: sum.splits if_splits)
  with resolve_reported[of e rq reported target] show ?thesis by (auto simp: package_checked_def)
qed

lemma roll_back_effect:
  assumes "roll_back e opt backups err r = (res, r')" "ur_status (un_record r) \<noteq> ''rolled_back''"
  shows "res = Inl err" "un_bins r' = snd (restore_backups e backups (un_bins r))"
    "ur_status (un_record r') = ''rolled_back'' \<longleftrightarrow> (\<exists>bins. restore_backups e backups (un_bins r) = (Inr (), bins))"
proof -
  obtain x bins where x: "restore_backups e backups (un_bins r) = (x, bins)" by fastforce
  obtain y r1 where y: "run_restart e (uo_restart opt) (r\<lparr>un_bins := bins\<rparr>) = (y, r1)" by fastforce
  note f = run_restart_frame[OF y]
  show "res = Inl err" "un_bins r' = snd (restore_backups e backups (un_bins r))"
    "ur_status (un_record r') = ''rolled_back'' \<longleftrightarrow> (\<exists>bins. restore_backups e backups (un_bins r) = (Inr (), bins))"
    using assms x y f by (auto simp: roll_back_def split: sum.splits)
qed

lemma wait_for_version_seen: "wait_for_version e v limit t elapsed \<Longrightarrow> \<exists>u. ue_running_version e u = Some v"
proof (induction e v limit t elapsed rule: wait_for_version.induct)
  case (1 e v limit t elapsed)
  then show ?case by (cases "ue_running_version e t = Some v"; subst (asm) (4) wait_for_version.simps) (auto split: if_splits)
qed

lemma finish_install_cases:
  assumes "finish_install e opt target backups r = (res, r')" "ur_status (un_record r) \<noteq> ''rolled_back''"
  obtains (ready) t where "res = Inr ()" "un_bins r' = un_bins r" "ue_running_version e t = Some target"
      "ur_status (un_record r') = ur_status (un_record r)"
  | (reverted) err where "res = Inl err" "un_bins r' = snd (restore_backups e backups (un_bins r))"
      "ur_status (un_record r') = ''rolled_back'' \<longleftrightarrow> (\<exists>bins. restore_backups e backups (un_bins r) = (Inr (), bins))"
proof -
  obtain x r1 where x: "run_restart e (uo_restart opt) (at_step e ''restart'' r) = (x, r1)" by fastforce
  have f: "un_bins r1 = un_bins r" "ur_status (un_record r1) = ur_status (un_record r)"
    using run_restart_frame[OF x] by simp_all
  show thesis
  proof (cases x)
    case (Inl err)
    then have "roll_back e opt backups (UpgradeError ''restart_failed'' (ug_detail err)) r1 = (res, r')"
      using assms(1) x by (simp add: finish_install_def)
    from roll_back_effect[OF this] show thesis using reverted assms(2) f by auto
  next
    case (Inr u)
    show thesis
    proof (cases "wait_for_version e target (uo_ready_wait opt) 0 0")
      case True
      with assms(1) x Inr f ready wait_for_version_seen[OF True] show thesis by (auto simp: finish_install_def Let_def)
    next
      case False
      then have "roll_back e opt backups (UpgradeError ''not_ready'' target) (at_step e ''wait_ready'' r1) = (res, r')"
        using assms(1) x Inr by (simp add: finish_install_def)
      from roll_back_effect[OF this] show thesis using reverted assms(2) f by auto
    qed
  qed
qed

lemma apply_inner_cases:
  assumes "apply_inner e rq opt r = (res, r')"
  obtains (early) err where "res = Inl err" "un_bins r' = un_bins r" "ur_status (un_record r') = ur_status (un_record r)"
  | (install_failed) staged target err where "package_checked e rq (un_bins r) staged target" "\<not> uo_dry_run opt" "res = Inl err"
      "install_binaries e (uq_current_version rq) False staged [] (un_bins r) = (Inl err, un_bins r')"
      "ur_status (un_record r') = ur_status (un_record r)"
  | (dry) staged target where "package_checked e rq (un_bins r) staged target" "uo_dry_run opt" "res = Inr ()" "un_bins r' = un_bins r"
  | (installed) staged target backups r1 where "package_checked e rq (un_bins r) staged target" "\<not> uo_dry_run opt"
      "install_binaries e (uq_current_version rq) False staged [] (un_bins r) = (Inr backups, un_bins r1)"
      "ur_status (un_record r1) = ur_status (un_record r)" "finish_install e opt target backups r1 = (res, r')"
proof -
  obtain x r5 where x: "prepare_upgrade e rq r = (x, r5)" by fastforce
  note f = prepare_frame[OF x]
  show thesis
  proof (cases x)
    case (Inl err)
    then show thesis using assms x f early by (auto simp: apply_inner_def)
  next
    case (Inr st)
    obtain staged target where st: "st = (staged, target)" by force
    note ok = prepare_checked[OF x[unfolded Inr st]]
    obtain y bins where y: "install_binaries e (uq_current_version rq) (uo_dry_run opt) staged [] (un_bins r) = (y, bins)" by fastforce
    note run = assms[unfolded apply_inner_def x Inr st Let_def]
    show thesis
    proof (cases "uo_dry_run opt")
      case True
      then show thesis using install_dry[of e _ staged "[]"] y run f dry[OF ok True] by (auto split: sum.splits)
    next
      case no_dry: False
      show thesis
      proof (cases y)
        case (Inl err) then show thesis using y run f install_failed[OF ok no_dry] no_dry by auto
      next
        case (Inr backups)
        then show thesis
          using y run f no_dry installed[OF ok no_dry, of backups "at_step e ''install'' r5\<lparr>un_bins := bins\<rparr>"] by auto
      qed
    qed
  qed
qed


lemma apply_status:
  assumes "upgrade_apply e rq opt r = (rec, r')" "apply_inner e rq opt (r\<lparr>un_record := record_new e rq\<rparr>) = (res, r1)"
  shows "un_bins r' = un_bins r1"
    "ur_status rec = (case res of Inr _ \<Rightarrow> ''succeeded''
       | Inl _ \<Rightarrow> if ur_status (un_record r1) = ''rolled_back'' then ''rolled_back'' else ''failed'')"
proof -
  define r2 where "r2 = r1\<lparr>un_record := (case res of
           Inr _ \<Rightarrow> record_finish e ''succeeded'' [] (un_record r1)
         | Inl err \<Rightarrow> record_finish e (if ur_status (un_record r1) = ''rolled_back'' then ''rolled_back'' else ''failed'')
             (ug_reason err @ '': '' @ ug_detail err) (un_record r1))\<rparr>"
  obtain x r3 where x: "store_record e r2 = (x, r3)" by fastforce
  have "un_bins r2 = un_bins r1" by (simp add: r2_def)
  then have f: "un_bins r3 = un_bins r1" "un_record r3 = un_record r2"
    using store_record_frame[of e r2] x by simp_all
  have "un_bins r' = un_bins r1 \<and> ur_status rec = ur_status (un_record r2)"
    using assms x f by (cases x) (auto simp: upgrade_apply_def r2_def[symmetric] Let_def)
  then show "un_bins r' = un_bins r1" "ur_status rec = (case res of Inr _ \<Rightarrow> ''succeeded''
       | Inl _ \<Rightarrow> if ur_status (un_record r1) = ''rolled_back'' then ''rolled_back'' else ''failed'')"
    by (auto simp: r2_def record_finish_def split: sum.splits)
qed

lemma checked_staged:
  assumes "package_checked e rq bins staged target"
  shows "list_all (\<lambda>i. is_known_binary (sb_name i)) staged" "distinct (map sb_name staged)"
    "is_known_binary m \<Longrightarrow> m \<notin> sb_name ` set staged \<Longrightarrow> bins m = None"
proof -
  from assms obtain bytes where st: "stage_package e bytes = Inr staged" "verify_staged_agentd e staged = Inr target"
      "check_upgrade_keeps_bin_directory_consistent staged bins = Inr ()"
    by (auto simp: package_checked_def)
  from stage_found[OF st(1)] show "list_all (\<lambda>i. is_known_binary (sb_name i)) staged" "distinct (map sb_name staged)" by simp_all
  from st(2) obtain agentd where "find (\<lambda>item. sb_name item = AGENTD_BIN_NAME) staged = Some agentd"
    by (auto simp: verify_staged_agentd_def split: option.splits)
  from find_SomeD[OF this] have "AGENTD_BIN_NAME \<in> sb_name ` set staged" by (metis imageI)
  then show "bins m = None" if "is_known_binary m" "m \<notin> sb_name ` set staged"
    using st(3) that
    by (auto simp: check_upgrade_keeps_bin_directory_consistent_def Let_def list_ex_iff is_known_binary_def image_iff split: if_splits)
qed

text \<open>The commands a return needs.\<close>

definition rollback_works :: "upgrade_env \<Rightarrow> bool" where
  "rollback_works e \<longleftrightarrow> list_all (\<lambda>n. ue_install e (rollback_file n) = CmdOk \<and> ue_mv e (rollback_file n) \<and> ue_remove e n) known_names"

lemma rolled_back_original:
  assumes mid: "mid_exchange v orig bs bins" and works: "rollback_works e"
  shows "all_original orig (snd (restore_backups e bs bins))"
proof -
  have "list_all (backup_ok v orig bins) bs" using mid by (simp add: mid_exchange_def)
  then obtain bins' where "restore_backups e bs bins = (Inr (), bins')"
    using restore_succeeds[of v orig bins bs e] works by (auto simp: rollback_works_def list_all_iff known_iff)
  with mid_exchange_restored[OF mid] show ?thesis by simp
qed

lemma upgrade_outcome:
  assumes sound: "backups_sound (uq_current_version rq) (un_bins r)" and run: "upgrade_apply e rq opt r = (rec, r')"
  shows "ur_status rec = ''succeeded'' \<Longrightarrow> \<not> uo_dry_run opt \<Longrightarrow> \<exists>staged target t. package_checked e rq (un_bins r) staged target \<and>
      ue_running_version e t = Some target \<and> (\<forall>i\<in>set staged. un_bins r' (sb_name i) = Some (sb_content i)) \<and>
      (\<forall>m. is_known_binary m \<longrightarrow> m \<notin> sb_name ` set staged \<longrightarrow> un_bins r' m = None)"
    and "ur_status rec = ''rolled_back'' \<Longrightarrow> all_original (un_bins r) (un_bins r')"
    and "ur_status rec \<noteq> ''succeeded'' \<Longrightarrow> rollback_works e \<Longrightarrow> all_original (un_bins r) (un_bins r')"
    and "uo_dry_run opt \<Longrightarrow> un_bins r' = un_bins r"
proof -
  let ?r0 = "r\<lparr>un_record := record_new e rq\<rparr>" and ?v = "uq_current_version rq"
  obtain res r1 where inner: "apply_inner e rq opt ?r0 = (res, r1)" by fastforce
  note st = apply_status[OF run inner]
  have new: "ur_status (un_record ?r0) \<noteq> ''rolled_back''" "un_bins ?r0 = un_bins r" by (simp_all add: record_new_def)
  note start = start_exchange[OF sound]
  have goal: "(ur_status rec = ''succeeded'' \<and> \<not> uo_dry_run opt \<longrightarrow> (\<exists>staged target t. package_checked e rq (un_bins r) staged target \<and>
      ue_running_version e t = Some target \<and> (\<forall>i\<in>set staged. un_bins r' (sb_name i) = Some (sb_content i)) \<and>
      (\<forall>m. is_known_binary m \<longrightarrow> m \<notin> sb_name ` set staged \<longrightarrow> un_bins r' m = None))) \<and>
    (ur_status rec = ''rolled_back'' \<longrightarrow> all_original (un_bins r) (un_bins r')) \<and>
    (ur_status rec \<noteq> ''succeeded'' \<and> rollback_works e \<longrightarrow> all_original (un_bins r) (un_bins r')) \<and>
    (uo_dry_run opt \<longrightarrow> un_bins r' = un_bins r)"
    using inner
  proof (cases rule: apply_inner_cases)
    case (early err) then show ?thesis using st new by (auto simp: all_original_iff)
  next
    case (dry staged target) then show ?thesis using st new by (auto simp: all_original_iff)
  next
    case (install_failed staged target err)
    note names = checked_staged[OF install_failed(1)]
    from install_binaries_effect[OF conjunct1[OF start] conjunct2[OF start] names(1) _ install_failed(4)[unfolded new(2)]] names(2)
    obtain bs bins where "mid_exchange ?v (un_bins r) bs bins" "un_bins r1 = snd (restore_backups e bs bins)" by auto
    with rolled_back_original[of ?v "un_bins r" bs bins e] show ?thesis using install_failed(2,3,5) st new by auto
  next
    case (installed staged target backups r2)
    note names = checked_staged[OF installed(1)]
    from install_binaries_effect[OF conjunct1[OF start] conjunct2[OF start] names(1) _ installed(3)[unfolded new(2)]] names(2)
    have eff: "mid_exchange ?v (un_bins r) backups (un_bins r2)" "\<forall>i\<in>set staged. un_bins r2 (sb_name i) = Some (sb_content i)"
      "\<forall>m. is_known_binary m \<longrightarrow> m \<notin> sb_name ` set staged \<longrightarrow> un_bins r2 m = un_bins r m" by auto
    have new2: "ur_status (un_record r2) \<noteq> ''rolled_back''" using installed(4) new(1) by simp
    from installed(5) new2 show ?thesis
    proof (cases rule: finish_install_cases)
      case (ready t)
      have "\<exists>staged target t. package_checked e rq (un_bins r) staged target \<and>
          ue_running_version e t = Some target \<and> (\<forall>i\<in>set staged. un_bins r' (sb_name i) = Some (sb_content i)) \<and>
          (\<forall>m. is_known_binary m \<longrightarrow> m \<notin> sb_name ` set staged \<longrightarrow> un_bins r' m = None)"
        using ready(2,3) eff(2,3) names(3) installed(1) st(1) new(2)
        by (intro exI[of _ staged] exI[of _ target] exI[of _ t]) auto
      then show ?thesis using ready(1) st(2) installed(2) by simp
    next
      case (reverted err)
      then show ?thesis
        using rolled_back_original[OF eff(1)] mid_exchange_restored[OF eff(1)] st installed(2) by auto
    qed
  qed
  then show "ur_status rec = ''succeeded'' \<Longrightarrow> \<not> uo_dry_run opt \<Longrightarrow> \<exists>staged target t. package_checked e rq (un_bins r) staged target \<and>
      ue_running_version e t = Some target \<and> (\<forall>i\<in>set staged. un_bins r' (sb_name i) = Some (sb_content i)) \<and>
      (\<forall>m. is_known_binary m \<longrightarrow> m \<notin> sb_name ` set staged \<longrightarrow> un_bins r' m = None)"
    "ur_status rec = ''rolled_back'' \<Longrightarrow> all_original (un_bins r) (un_bins r')"
    "ur_status rec \<noteq> ''succeeded'' \<Longrightarrow> rollback_works e \<Longrightarrow> all_original (un_bins r) (un_bins r')"
    "uo_dry_run opt \<Longrightarrow> un_bins r' = un_bins r" by auto
qed

subsection \<open>What the record file says\<close>

text \<open>During a run the file holds what it held before, or a record of this request that still says \<open>running\<close>.\<close>

definition own_record :: "upgrade_request \<Rightarrow> upgrade_record disk_file \<Rightarrow> upgrade_run \<Rightarrow> bool" where
  "own_record rq before r \<longleftrightarrow> ur_work_id (un_record r) = uq_work_id rq \<and>
     (un_file r = before \<or> (\<exists>x. un_file r = Present x \<and> ur_work_id x = uq_work_id rq \<and> ur_status x = ''running''))"

lemma store_record_file:
  "un_file (snd (store_record e r)) = un_file r \<or> un_file (snd (store_record e r)) = Present (un_record r)"
  by (cases "ue_store e (un_stores r)") (simp_all add: store_record_def)

lemma own_record_store:
  "own_record rq f r \<Longrightarrow> ur_status (un_record r) = ''running'' \<Longrightarrow> own_record rq f (snd (store_record e r))"
  using store_record_file[of e r] by (auto simp: own_record_def)

lemma own_record_at_step:
  "own_record rq f r \<Longrightarrow> ur_status (un_record r) = ''running'' \<Longrightarrow> own_record rq f (at_step e x r)"
  unfolding at_step_def by (rule own_record_store) (simp_all add: own_record_def record_step_def)

lemma own_record_prepare:
  assumes "own_record rq f r" "ur_status (un_record r) = ''running''" "prepare_upgrade e rq r = (x, r')"
  shows "own_record rq f r'"
proof -
  have "own_record rq f (r\<lparr>un_record := record_step e ''validate'' (un_record r)\<rparr>)"
    using assms(1) by (simp add: own_record_def record_step_def)
  moreover have "own_record rq f (snd (store_record e (q\<lparr>un_record := (un_record q)\<lparr>ur_to_version := t\<rparr>\<rparr>)))"
    if "own_record rq f q" "ur_status (un_record q) = ''running''" for q t
    by (rule own_record_store) (use that in \<open>simp_all add: own_record_def\<close>)
  ultimately show ?thesis
    using assms(2,3) unfolding prepare_upgrade_def Let_def try_run_def
    by (auto simp: own_record_at_step record_step_def split: sum.splits if_splits)
qed

lemma own_record_restart: "run_restart e plan r = (x, r') \<Longrightarrow> own_record rq f r \<Longrightarrow> own_record rq f r'"
  by (auto simp: run_restart_def own_record_def split: restart_plan.splits)

lemma own_record_roll_back: "own_record rq f r \<Longrightarrow> own_record rq f (snd (roll_back e opt bs err r))"
proof -
  assume *: "own_record rq f r"
  obtain x bins where 1: "restore_backups e bs (un_bins r) = (x, bins)" by fastforce
  obtain y r1 where 2: "run_restart e (uo_restart opt) (r\<lparr>un_bins := bins\<rparr>) = (y, r1)" by fastforce
  have "own_record rq f (r\<lparr>un_bins := bins\<rparr>)" using * by (simp add: own_record_def)
  from own_record_restart[OF 2 this] show ?thesis
    by (auto simp: roll_back_def 1 2 own_record_def split: sum.split)
qed

lemma own_record_finish:
  assumes "own_record rq f r" "ur_status (un_record r) = ''running''"
  shows "own_record rq f (snd (finish_install e opt v bs r))"
proof -
  let ?r = "at_step e ''restart'' r"
  obtain y r1 where 2: "run_restart e (uo_restart opt) ?r = (y, r1)" by fastforce
  have "own_record rq f ?r" by (rule own_record_at_step[OF assms])
  from own_record_restart[OF 2 this] have own: "own_record rq f r1" .
  have "ur_status (un_record r1) = ''running''" using run_restart_frame[OF 2] assms(2) by simp
  with own own_record_roll_back own_record_at_step show ?thesis
    by (auto simp: finish_install_def 2 Let_def split: sum.split)
qed

lemma own_record_inner:
  assumes "own_record rq f r" "ur_status (un_record r) = ''running''"
  shows "own_record rq f (snd (apply_inner e rq opt r))"
proof -
  obtain x r5 where 1: "prepare_upgrade e rq r = (x, r5)" by fastforce
  have own: "own_record rq f r5" by (rule own_record_prepare[OF assms 1])
  have run: "ur_status (un_record r5) = ''running''" using prepare_frame[OF 1] assms(2) by simp
  let ?r6 = "at_step e ''install'' r5"
  have r6: "own_record rq f (?r6\<lparr>un_bins := bins\<rparr>)" "ur_status (un_record (?r6\<lparr>un_bins := bins\<rparr>)) = ''running''" for bins
    using own_record_at_step[OF own run, of e "''install''"] run by (simp_all add: own_record_def)
  show ?thesis
    using own r6 own_record_finish[OF r6] by (auto simp: apply_inner_def 1 Let_def split: sum.split prod.split)
qed

text \<open>After a run the file holds what it held before, a record of this request that still says \<open>running\<close>, or its result.\<close>

lemma upgrade_file:
  assumes "upgrade_apply e rq opt r = (rec, r')" "un_file r' = Present x"
  shows "un_file r = Present x \<or> ur_work_id x = uq_work_id rq \<and> (ur_status x = ''running'' \<or> ur_status x = ur_status rec)"
proof -
  obtain res r1 where inner: "apply_inner e rq opt (r\<lparr>un_record := record_new e rq\<rparr>) = (res, r1)" by fastforce
  have "own_record rq (un_file r) r1"
    using own_record_inner[of rq "un_file r" "r\<lparr>un_record := record_new e rq\<rparr>" e opt] inner by (simp add: own_record_def record_new_def)
  moreover define r2 where "r2 = r1\<lparr>un_record := (case res of
           Inr _ \<Rightarrow> record_finish e ''succeeded'' [] (un_record r1)
         | Inl err \<Rightarrow> record_finish e (if ur_status (un_record r1) = ''rolled_back'' then ''rolled_back'' else ''failed'')
             (ug_reason err @ '': '' @ ug_detail err) (un_record r1))\<rparr>"
  ultimately have own: "own_record rq (un_file r) r2" by (auto simp: own_record_def record_finish_def split: sum.split)
  obtain y r3 where st: "store_record e r2 = (y, r3)" by fastforce
  have "un_file r' = un_file r3 \<and> ur_status rec = ur_status (un_record r3)"
    using assms(1) inner st by (cases y) (auto simp: upgrade_apply_def r2_def[symmetric] Let_def)
  with own assms(2) store_record_file[of e r2] store_record_frame(2)[of e r2] st show ?thesis by (auto simp: own_record_def)
qed

subsection \<open>The command line carries the request\<close>

lemma launch_parsed:
  "upgrader_main default_bin (ul_args (build_launch program config_dir rq)) = Inr (config_dir,
     rq\<lparr>uq_target_version := provided_target rq\<rparr>,
     \<lparr>uo_dry_run = False, uo_ready_wait = DEFAULT_READY_WAIT, uo_restart = default_restart_plan\<rparr>)"
  by (cases "provided_target rq"; cases "uq_allow_downgrade rq"; cases rq)
    (simp_all add: upgrader_main_def build_launch_def set_flag_def value_flags_def args_default_def)

end
