(* ===== verification/WorkDispatch.thy ===== *)
theory WorkDispatch
  imports WorkGrant Upgrade
begin

text \<open>
  How the daemon drives the granted work, from \<open>src/runtime/daemon.rs\<close>: \<open>refresh_work_grant\<close> fetches and applies a
  snapshot, starts the upgrader for a one-shot upgrade, follows the record the upgrader leaves
  (\<open>reconcile_upgrade_record\<close>), acknowledges what was applied and stores the view of the work.

  The answers of the gateway, the upgrader's files and the clock are the environment of one refresh; a run is a
  sequence of refreshes, each under its own environment.  The world logs the upgraders started, the acknowledgements and the
  reported results.
\<close>

subsection \<open>Model\<close>

record dispatch_env =
  xe_contract :: work_contract
  xe_upgrade :: upgrade_env
  xe_instant_ms :: int
  xe_now :: string
  xe_grant :: "work_grant option"
  xe_current_exe :: "string + string"
  xe_pkg_version :: string
  xe_upgrader_bin :: string
  xe_config_dir :: string
  xe_log_path :: string
  xe_env_file :: string
  xe_spawn :: spawn_env
  xe_ack :: "string \<Rightarrow> int \<Rightarrow> bool"
  xe_report :: "string \<Rightarrow> string \<Rightarrow> bool"
  xe_upgrade_file :: "upgrade_record disk_file"
  xe_heartbeat :: "int option"
  xe_clock :: int
  xe_store :: write_outcome

text \<open>What a report says besides the status; the texts are those of the format strings.\<close>

datatype result_detail = AtStep string | FromTo string string | FailureOf string | RolledBackTo string string
  | NoHeartbeat int string | NotStarted string

record work_world =
  ww_runtime :: applied_work_grant
  ww_last_fetch :: "int option"
  ww_view :: "work_record disk_file"
  ww_launched :: "(string \<times> upgrade_launch) list"
  ww_acked :: "(string \<times> int) list"
  ww_reported :: "(string \<times> string \<times> result_detail) list"

definition upgrade_request_for :: "dispatch_env \<Rightarrow> string \<Rightarrow> one_shot_work \<Rightarrow> string + upgrade_request" where
  "upgrade_request_for e agentd_bin entry = (case parse_spec (xe_upgrade e) (sh_spec entry) of
      Inl err \<Rightarrow> Inl (ug_reason err @ '': '' @ ug_detail err)
    | Inr spec \<Rightarrow> Inr \<lparr>uq_work_id = sh_work_id entry, uq_target_version = us_target_version spec,
        uq_current_version = xe_pkg_version e, uq_agentd_bin = agentd_bin, uq_package_url = us_package_url spec,
        uq_package_sha256 = us_package_sha256 spec, uq_allow_downgrade = us_allow_downgrade spec\<rparr>)"

definition dispatch_upgrade :: "dispatch_env \<Rightarrow> one_shot_work \<Rightarrow> string + (string \<times> upgrade_launch)" where
  "dispatch_upgrade e entry = (case xe_current_exe e of
      Inl err \<Rightarrow> Inl (''resolve current exe: '' @ err)
    | Inr agentd_bin \<Rightarrow> (case upgrade_request_for e agentd_bin entry of
        Inl err \<Rightarrow> Inl err
      | Inr rq \<Rightarrow>
          (let launch = build_launch (xe_upgrader_bin e) (xe_config_dir e) rq in
           map_sum id (\<lambda>handle. (handle, launch))
             (spawn_upgrader (xe_spawn e) launch (xe_log_path e) (sh_work_id entry) (xe_env_file e)))))"

text \<open>The body of the loop over the works to dispatch, with the flag \<open>dispatched_anything\<close>.\<close>

definition dispatch_one :: "dispatch_env \<Rightarrow> one_shot_work \<Rightarrow> bool \<times> work_world \<Rightarrow> bool \<times> work_world" where
  "dispatch_one e work acc = (case acc of (dispatched_anything, w) \<Rightarrow>
     let work_id = sh_work_id work in
     if has_upgrade_in_flight (ww_runtime w) then (dispatched_anything, w)
     else (case dispatch_upgrade e work of
         Inr (handle, launch) \<Rightarrow>
           (let w1 = w\<lparr>ww_runtime := mark_one_shot_execution work_id ''dispatched'' (ww_runtime w),
                  ww_launched := ww_launched w @ [(work_id, launch)]\<rparr>
            in if xe_ack e work_id 0 then (True, w1\<lparr>ww_acked := ww_acked w1 @ [(work_id, 0)]\<rparr>) else (dispatched_anything, w1))
       | Inl err \<Rightarrow>
           (let w1 = w\<lparr>ww_runtime := mark_one_shot_execution work_id ''rejected'' (ww_runtime w)\<rparr>
            in (dispatched_anything, if xe_report e work_id ''failed''
                  then w1\<lparr>ww_reported := ww_reported w1 @ [(work_id, ''failed'', NotStarted err)]\<rparr> else w1))))"

definition work_result_of :: "upgrade_record \<Rightarrow> (string \<times> result_detail) option" where
  "work_result_of record =
    (if ur_status record = ''running'' then Some (''running'', AtStep (ur_step record))
     else if ur_status record = ''succeeded'' then Some (''succeeded'', FromTo (ur_from_version record) (ur_to_version record))
     else if ur_status record = ''failed'' then Some (''failed'', FailureOf (ur_detail record))
     else if ur_status record = ''rolled_back'' then Some (''failed'', RolledBackTo (ur_from_version record) (ur_detail record))
     else None)"

definition upgrader_dead :: "dispatch_env \<Rightarrow> upgrade_record \<Rightarrow> bool" where
  "upgrader_dead e record \<longleftrightarrow> ur_status record = ''running'' \<and> \<not> heartbeat_is_fresh (xe_heartbeat e) (xe_clock e)"

definition reconcile_upgrade_record :: "dispatch_env \<Rightarrow> work_world \<Rightarrow> bool \<times> work_world" where
  "reconcile_upgrade_record e w = (case xe_upgrade_file e of
      Present record \<Rightarrow> (case one_shot_execution (ww_runtime w) (ur_work_id record) of
        None \<Rightarrow> (False, w)
      | Some current \<Rightarrow>
          (let dead = upgrader_dead e record; local_status = (if dead then ''failed'' else ur_status record) in
           if current = local_status then (False, w)
           else (case (if dead then Some (''failed'', NoHeartbeat UPGRADER_DEAD_AFTER (ur_step record)) else work_result_of record) of
               None \<Rightarrow> (False, w)
             | Some (status, detail) \<Rightarrow>
                 if \<not> xe_report e (ur_work_id record) status then (False, w)
                 else (True, w\<lparr>ww_runtime := mark_one_shot_execution (ur_work_id record) local_status (ww_runtime w),
                   ww_reported := ww_reported w @ [(ur_work_id record, status, detail)]\<rparr>))))
    | _ \<Rightarrow> (False, w))"

definition ack_one :: "dispatch_env \<Rightarrow> string \<times> int \<Rightarrow> bool \<times> work_world \<Rightarrow> bool \<times> work_world" where
  "ack_one e entry acc = (case entry of (work_id, plan_version) \<Rightarrow> case acc of (acked_anything, w) \<Rightarrow>
     if xe_ack e work_id plan_version
     then (True, w\<lparr>ww_runtime := mark_acked work_id plan_version (ww_runtime w), ww_acked := ww_acked w @ [(work_id, plan_version)]\<rparr>)
     else (acked_anything, w))"

definition store_view :: "dispatch_env \<Rightarrow> bool \<Rightarrow> work_world \<Rightarrow> work_world" where
  "store_view e due w =
    (if due then (case device_view (xe_contract e) (xe_now e) (ww_runtime w) of
        None \<Rightarrow> w
      | Some record \<Rightarrow> snd (write_op (xe_store e) (\<lambda>w. w\<lparr>ww_view := Present record\<rparr>) w))
     else w)"

definition apply_and_dispatch :: "dispatch_env \<Rightarrow> work_grant \<Rightarrow> work_world \<Rightarrow> work_world" where
  "apply_and_dispatch e g w = (case grant_apply (xe_contract e) g (ww_runtime w) of (outcome, runtime) \<Rightarrow>
     case fold (dispatch_one e) (ao_one_shot_to_dispatch outcome) (False, w\<lparr>ww_runtime := runtime\<rparr>) of (dispatched_anything, w1) \<Rightarrow>
     case reconcile_upgrade_record e w1 of (progressed, w2) \<Rightarrow>
     case fold (ack_one e) (ao_to_ack outcome) (False, w2) of (acked_anything, w3) \<Rightarrow>
     store_view e (ao_changed outcome \<or> acked_anything \<or> dispatched_anything \<or> progressed) w3)"

definition refresh_work_grant :: "dispatch_env \<Rightarrow> work_world \<Rightarrow> work_world" where
  "refresh_work_grant e w =
    (case ww_last_fetch w of
      Some at \<Rightarrow>
        (if xe_instant_ms e - at < WORK_FETCH_MIN_INTERVAL_MS then w
         else (let w' = w\<lparr>ww_last_fetch := Some (xe_instant_ms e)\<rparr> in
           case xe_grant e of None \<Rightarrow> w' | Some g \<Rightarrow> apply_and_dispatch e g w'))
    | None \<Rightarrow>
        (let w' = w\<lparr>ww_last_fetch := Some (xe_instant_ms e)\<rparr> in
         case xe_grant e of None \<Rightarrow> w' | Some g \<Rightarrow> apply_and_dispatch e g w'))"

text \<open>A restart keeps the stored view only; the agent begins with that view, or with nothing.  The logs go on.\<close>

definition restart_agent :: "work_contract \<Rightarrow> work_world \<Rightarrow> work_world" where
  "restart_agent c w = w\<lparr>ww_runtime := (case ww_view w of Present record \<Rightarrow> restore c record | _ \<Rightarrow> grant_default), ww_last_fetch := None\<rparr>"

datatype daemon_event = Refreshed dispatch_env | Restarted work_contract

fun daemon_event_step :: "daemon_event \<Rightarrow> work_world \<Rightarrow> work_world" where
  "daemon_event_step (Refreshed e) w = refresh_work_grant e w"
| "daemon_event_step (Restarted c) w = restart_agent c w"

subsection \<open>One refresh\<close>

lemma mark_execution_fields [simp]:
  "gs_works (mark_one_shot_execution k x s) = gs_works s" "gs_sequence (mark_one_shot_execution k x s) = gs_sequence s"
  "gs_one_shot_works (mark_one_shot_execution k x s) = gs_one_shot_works s"
  by (simp_all add: mark_one_shot_execution_def)

lemma mark_execution_get [simp]:
  "bt_get (gs_one_shot_execution (mark_one_shot_execution k x s)) j =
    (if j = k then Some x else bt_get (gs_one_shot_execution s) j)"
  by (simp add: mark_one_shot_execution_def bt_laws)

lemma wf_mark_execution:
  "wf_grant s \<Longrightarrow> bt_get (gs_one_shot_execution s) k \<noteq> None \<Longrightarrow> wf_grant (mark_one_shot_execution k x s)"
proof -
  assume wf: "wf_grant s" and k: "bt_get (gs_one_shot_execution s) k \<noteq> None"
  have e: "bt_wf (gs_one_shot_execution s)" "bt_keys (gs_one_shot_execution s) = bt_keys (gs_one_shot_works s)"
    using wf by (simp_all add: wf_grant_def)
  have "bt_keys (bt_insert k x (gs_one_shot_execution s)) = bt_keys (gs_one_shot_execution s)"
    using k by (intro bt_keys_eqI) (auto simp: bt_laws e)
  then show ?thesis using wf e by (simp add: wf_grant_def mark_one_shot_execution_def bt_laws)
qed

lemma wf_mark_acked: "wf_grant s \<Longrightarrow> wf_grant (mark_acked k v s)"
  by (simp add: wf_grant_def)

lemma has_upgrade_in_flight_iff: "bt_wf (gs_one_shot_execution s) \<Longrightarrow> has_upgrade_in_flight s \<longleftrightarrow> (\<exists>k. in_flight s k)"
proof -
  assume wf: "bt_wf (gs_one_shot_execution s)"
  have "has_upgrade_in_flight s \<longleftrightarrow> (\<exists>k x. (k, x) \<in> set (gs_one_shot_execution s) \<and> is_one_shot_execution_in_flight x)"
    unfolding has_upgrade_in_flight_def list_ex_iff by force
  also have "\<dots> \<longleftrightarrow> (\<exists>k. in_flight s k)"
    unfolding bt_entry[OF wf] in_flight_def by (auto split: option.splits)
  finally show ?thesis .
qed

lemma marked_in_flight: "is_one_shot_execution_in_flight x \<Longrightarrow> has_upgrade_in_flight (mark_one_shot_execution k x s)"
proof -
  assume "is_one_shot_execution_in_flight x"
  moreover have "(k, x) \<in> set (bt_insert k x (gs_one_shot_execution s))"
    using bt_get_mem[of "bt_insert k x (gs_one_shot_execution s)" k x] by (simp add: bt_laws)
  ultimately show ?thesis unfolding has_upgrade_in_flight_def list_ex_iff mark_one_shot_execution_def by auto
qed

lemma execution_of_mark [simp]:
  "execution_of (mark_one_shot_execution k x s) j = (if j = k then x else execution_of s j)"
  by (simp add: execution_of_def)

lemma execution_of_mark_acked [simp]: "execution_of (mark_acked k v s) j = execution_of s j"
  by (simp add: execution_of_def)

text \<open>A work is begun once its execution state is no longer \<open>unexecuted\<close>.\<close>

definition begun :: "applied_work_grant \<Rightarrow> string \<Rightarrow> bool" where
  "begun s k \<longleftrightarrow> execution_of s k \<noteq> ONE_SHOT_UNEXECUTED"

lemma dispatch_one_cases:
  assumes "dispatch_one e work (d, w) = (d', w')"
  obtains (busy) "has_upgrade_in_flight (ww_runtime w)" "d' = d" "w' = w"
  | (started) handle launch where "\<not> has_upgrade_in_flight (ww_runtime w)" "dispatch_upgrade e work = Inr (handle, launch)"
      "d' \<longleftrightarrow> d \<or> xe_ack e (sh_work_id work) 0"
      "ww_runtime w' = mark_one_shot_execution (sh_work_id work) ''dispatched'' (ww_runtime w)"
      "ww_launched w' = ww_launched w @ [(sh_work_id work, launch)]" "ww_reported w' = ww_reported w" "ww_view w' = ww_view w"
  | (refused) err where "\<not> has_upgrade_in_flight (ww_runtime w)" "dispatch_upgrade e work = Inl err" "d' = d"
      "ww_runtime w' = mark_one_shot_execution (sh_work_id work) ''rejected'' (ww_runtime w)"
      "ww_launched w' = ww_launched w" "ww_view w' = ww_view w"
      "ww_reported w' = ww_reported w \<or> ww_reported w' = ww_reported w @ [(sh_work_id work, ''failed'', NotStarted err)]"
  using assms
  by (auto simp: dispatch_one_def Let_def split: if_splits sum.splits)

lemma dispatch_busy:
  "has_upgrade_in_flight (ww_runtime w) \<Longrightarrow> fold (dispatch_one e) works (d, w) = (d, w)"
  by (induction works) (simp_all add: dispatch_one_def Let_def)

text \<open>The loop over the works to dispatch: the logs, the begun works and the shape of the state.\<close>

lemma dispatch_all:
  assumes "fold (dispatch_one e) works (d, w) = (d', w')"
  shows "ww_view w' = ww_view w \<and> gs_works (ww_runtime w') = gs_works (ww_runtime w) \<and>
    gs_sequence (ww_runtime w') = gs_sequence (ww_runtime w) \<and>
    (begun (ww_runtime w) k \<longrightarrow> begun (ww_runtime w') k) \<and> (d \<longrightarrow> d') \<and>
    (ww_launched w' = ww_launched w \<or>
     (\<exists>work launch. work \<in> set works \<and> \<not> has_upgrade_in_flight (ww_runtime w) \<and>
        ww_launched w' = ww_launched w @ [(sh_work_id work, launch)] \<and>
        execution_of (ww_runtime w') (sh_work_id work) = ''dispatched'' \<and> (xe_ack e (sh_work_id work) 0 \<longrightarrow> d')))"
  using assms
proof (induction works arbitrary: d w)
  case (Cons work works)
  obtain d1 w1 where one: "dispatch_one e work (d, w) = (d1, w1)" by fastforce
  with Cons.prems have rest: "fold (dispatch_one e) works (d1, w1) = (d', w')" by simp
  note IH = Cons.IH[OF rest]
  from one show ?case
  proof (cases rule: dispatch_one_cases)
    case busy
    have "d' = d" "w' = w" using rest busy dispatch_busy[OF busy(1)] by simp_all
    then show ?thesis by simp
  next
    case (started handle launch)
    have "has_upgrade_in_flight (ww_runtime w1)"
      unfolding started(4) by (rule marked_in_flight) (simp add: is_one_shot_execution_in_flight_def)
    from dispatch_busy[OF this] rest have "d' = d1" "w' = w1" by simp_all
    then show ?thesis using started by (auto simp: begun_def ONE_SHOT_UNEXECUTED_def)
  next
    case (refused err)
    have "begun (ww_runtime w) k \<longrightarrow> begun (ww_runtime w1) k"
      using refused(4) by (auto simp: begun_def ONE_SHOT_UNEXECUTED_def)
    with IH refused(1,3-6) show ?thesis by auto
  qed
qed auto

lemma dispatch_wf:
  assumes "fold (dispatch_one e) works (d, w) = (d', w')" "wf_grant (ww_runtime w)"
    and "\<forall>work\<in>set works. bt_get (gs_one_shot_execution (ww_runtime w)) (sh_work_id work) \<noteq> None"
  shows "wf_grant (ww_runtime w')"
  using assms
proof (induction works arbitrary: d w)
  case (Cons work works)
  obtain d1 w1 where one: "dispatch_one e work (d, w) = (d1, w1)" by fastforce
  with Cons.prems have rest: "fold (dispatch_one e) works (d1, w1) = (d', w')" by simp
  have "wf_grant (ww_runtime w1) \<and> (\<forall>work\<in>set works. bt_get (gs_one_shot_execution (ww_runtime w1)) (sh_work_id work) \<noteq> None)"
    using one
  proof (cases rule: dispatch_one_cases)
    case (started handle launch)
    show ?thesis using wf_mark_execution[OF Cons.prems(2)] Cons.prems(3) by (simp add: started(4))
  next
    case (refused err)
    show ?thesis using wf_mark_execution[OF Cons.prems(2)] Cons.prems(3) by (simp add: refused(4))
  qed (use Cons.prems in simp)
  then show ?case using Cons.IH[OF rest] by blast
qed simp

lemma dispatch_known:
  "fold (dispatch_one e) works (d, w) = (d', w') \<Longrightarrow> bt_get (gs_one_shot_execution (ww_runtime w)) k \<noteq> None \<Longrightarrow>
   bt_get (gs_one_shot_execution (ww_runtime w')) k \<noteq> None"
proof (induction works arbitrary: d w)
  case (Cons work works)
  obtain d1 w1 where one: "dispatch_one e work (d, w) = (d1, w1)" by fastforce
  with Cons.prems have rest: "fold (dispatch_one e) works (d1, w1) = (d', w')" by simp
  from one have "bt_get (gs_one_shot_execution (ww_runtime w1)) k \<noteq> None"
    using Cons.prems(2) by (cases rule: dispatch_one_cases) simp_all
  from Cons.IH[OF rest this] show ?case .
qed simp

lemma ack_all:
  assumes "fold (ack_one e) acks (a, w) = (a', w')"
  shows "ww_view w' = ww_view w \<and> ww_launched w' = ww_launched w \<and> ww_reported w' = ww_reported w \<and>
    gs_sequence (ww_runtime w') = gs_sequence (ww_runtime w) \<and>
    gs_one_shot_works (ww_runtime w') = gs_one_shot_works (ww_runtime w) \<and>
    gs_one_shot_execution (ww_runtime w') = gs_one_shot_execution (ww_runtime w) \<and>
    (wf_grant (ww_runtime w) \<longrightarrow> wf_grant (ww_runtime w'))"
  using assms
proof (induction acks arbitrary: a w)
  case (Cons x acks)
  obtain k v where x: "x = (k, v)" by force
  from Cons.prems Cons.IH[of "fst (ack_one e x (a, w))" "snd (ack_one e x (a, w))"] show ?case
    by (auto simp: x ack_one_def wf_mark_acked split: if_splits)
qed simp

lemma reconcile_cases:
  assumes "reconcile_upgrade_record e w = (p, w')"
  obtains (nothing) "p = False" "w' = w"
  | (advanced) rec status detail where "p" "xe_upgrade_file e = Present rec" "xe_report e (ur_work_id rec) status"
      "bt_get (gs_one_shot_execution (ww_runtime w)) (ur_work_id rec) \<noteq> None"
      "(if upgrader_dead e rec then Some (''failed'', NoHeartbeat UPGRADER_DEAD_AFTER (ur_step rec))
        else work_result_of rec) = Some (status, detail)"
      "w' = w\<lparr>ww_runtime := mark_one_shot_execution (ur_work_id rec)
          (if upgrader_dead e rec then ''failed'' else ur_status rec) (ww_runtime w),
        ww_reported := ww_reported w @ [(ur_work_id rec, status, detail)]\<rparr>"
proof (cases "xe_upgrade_file e")
  case (Present rec)
  let ?mapped = "if upgrader_dead e rec then Some (''failed'', NoHeartbeat UPGRADER_DEAD_AFTER (ur_step rec)) else work_result_of rec"
  let ?status = "if upgrader_dead e rec then ''failed'' else ur_status rec"
  show thesis
  proof (cases "bt_get (gs_one_shot_execution (ww_runtime w)) (ur_work_id rec)")
    case None
    then have "reconcile_upgrade_record e w = (False, w)"
      using Present by (simp add: reconcile_upgrade_record_def one_shot_execution_def)
    with assms show thesis by (intro that(1)) simp_all
  next
    case (Some current)
    have step: "reconcile_upgrade_record e w = (if current = ?status then (False, w) else (case ?mapped of None \<Rightarrow> (False, w)
        | Some (status, detail) \<Rightarrow> if \<not> xe_report e (ur_work_id rec) status then (False, w)
            else (True, w\<lparr>ww_runtime := mark_one_shot_execution (ur_work_id rec) ?status (ww_runtime w),
              ww_reported := ww_reported w @ [(ur_work_id rec, status, detail)]\<rparr>)))"
      unfolding reconcile_upgrade_record_def one_shot_execution_def Present Let_def by (simp only: Some disk_file.case option.case)
    show thesis
    proof (cases ?mapped)
      case None then show thesis using assms unfolding step None by (intro that(1)) (simp_all split: if_splits)
    next
      case m: (Some x)
      obtain status detail where x: "x = (status, detail)" by force
      show thesis
        using assms that(1) that(2)[OF _ Present _ _ m[unfolded x]] Some unfolding step m x by (simp split: if_splits)
    qed
  qed
qed (use assms that(1) in \<open>simp_all add: reconcile_upgrade_record_def\<close>)

lemma result_begun: "work_result_of rec = Some (status, detail) \<Longrightarrow> ur_status rec \<noteq> ONE_SHOT_UNEXECUTED"
  by (auto simp: work_result_of_def ONE_SHOT_UNEXECUTED_def split: if_splits)

lemma reconcile_all:
  assumes "reconcile_upgrade_record e w = (p, w')"
  shows "ww_view w' = ww_view w \<and> ww_launched w' = ww_launched w \<and> gs_works (ww_runtime w') = gs_works (ww_runtime w) \<and>
    gs_sequence (ww_runtime w') = gs_sequence (ww_runtime w) \<and> (begun (ww_runtime w) k \<longrightarrow> begun (ww_runtime w') k) \<and>
    (wf_grant (ww_runtime w) \<longrightarrow> wf_grant (ww_runtime w'))"
  using assms
proof (cases rule: reconcile_cases)
  case (advanced rec status detail)
  have "(if upgrader_dead e rec then ''failed'' else ur_status rec) \<noteq> ONE_SHOT_UNEXECUTED"
    using advanced(5) result_begun by (auto simp: ONE_SHOT_UNEXECUTED_def split: if_splits)
  with advanced(6) wf_mark_execution[OF _ advanced(4)] show ?thesis by (auto simp: begun_def)
qed simp

lemma store_view_frame [simp]:
  "ww_runtime (store_view e due w) = ww_runtime w" "ww_launched (store_view e due w) = ww_launched w"
  "ww_reported (store_view e due w) = ww_reported w" "ww_acked (store_view e due w) = ww_acked w"
  by (cases "xe_store e"; simp add: store_view_def split: option.split)+

lemma store_view_cases:
  "ww_view (store_view e due w) = ww_view w \<or>
   (\<exists>r. device_view (xe_contract e) (xe_now e) (ww_runtime w) = Some r \<and> ww_view (store_view e due w) = Present r)"
  by (cases "xe_store e") (auto simp: store_view_def split: option.split)

text \<open>The phases of a refresh that has received a snapshot.\<close>

lemma apply_and_dispatch_phases:
  obtains d w1 p w2 a w3 where
    "fold (dispatch_one e) (ao_one_shot_to_dispatch (fst (grant_apply (xe_contract e) g (ww_runtime w))))
       (False, w\<lparr>ww_runtime := snd (grant_apply (xe_contract e) g (ww_runtime w))\<rparr>) = (d, w1)"
    "reconcile_upgrade_record e w1 = (p, w2)"
    "fold (ack_one e) (works_to_ack (next_works (xe_contract e) (ww_runtime w) g)) (False, w2) = (a, w3)"
    "apply_and_dispatch e g w = store_view e (wg_sequence g \<noteq> gs_sequence (ww_runtime w) \<or> a \<or> d \<or> p) w3"
proof -
  let ?s = "grant_apply (xe_contract e) g (ww_runtime w)"
  obtain d w1 where 1: "fold (dispatch_one e) (ao_one_shot_to_dispatch (fst ?s)) (False, w\<lparr>ww_runtime := snd ?s\<rparr>) = (d, w1)" by fastforce
  obtain p w2 where 2: "reconcile_upgrade_record e w1 = (p, w2)" by fastforce
  obtain a w3 where 3: "fold (ack_one e) (works_to_ack (next_works (xe_contract e) (ww_runtime w) g)) (False, w2) = (a, w3)" by fastforce
  have "apply_and_dispatch e g w = store_view e (wg_sequence g \<noteq> gs_sequence (ww_runtime w) \<or> a \<or> d \<or> p) w3"
    using 1 2 3 apply_fields(4,5)[of "xe_contract e" g "ww_runtime w"]
    unfolding apply_and_dispatch_def by (auto simp: split_beta)
  with 1 2 3 show thesis by (rule that)
qed

lemma refresh_cases:
  obtains (skipped) "refresh_work_grant e w = w \<or> refresh_work_grant e w = w\<lparr>ww_last_fetch := Some (xe_instant_ms e)\<rparr>"
  | (applied) g where "xe_grant e = Some g"
      "refresh_work_grant e w = apply_and_dispatch e g (w\<lparr>ww_last_fetch := Some (xe_instant_ms e)\<rparr>)"
proof -
  let ?w = "w\<lparr>ww_last_fetch := Some (xe_instant_ms e)\<rparr>"
  have "refresh_work_grant e w = w \<or> refresh_work_grant e w = (case xe_grant e of None \<Rightarrow> ?w | Some g \<Rightarrow> apply_and_dispatch e g ?w)"
    by (cases "ww_last_fetch w") (simp_all add: refresh_work_grant_def Let_def)
  then show thesis using that by (cases "xe_grant e") auto
qed

subsection \<open>Restarts\<close>

lemma restore_execution:
  "gs_one_shot_execution (restore c r) = bt_insert_all (map (\<lambda>e. (od_work_id e, od_execution e)) (wr_one_shot r)) []"
  "gs_one_shot_works (restore c r) = bt_insert_all (map (\<lambda>e. (od_work_id e, one_shot_from_record e)) (wr_one_shot r)) []"
  "bt_wf (gs_works (restore c r))"
proof -
  let ?g = "\<lparr>wg_standing = map (standing_from_record c) (wr_standing r), wg_one_shot = [], wg_sequence = wr_gateway_sequence r\<rparr>"
  let ?s0 = "grant_default\<lparr>gs_sequence := wr_gateway_sequence r\<rparr>"
  have "gs_one_shot_works (snd (grant_apply c ?g ?s0)) = []" "gs_one_shot_execution (snd (grant_apply c ?g ?s0)) = []"
    by (simp_all add: apply_one_shot_works_eq apply_execution_eq next_one_shot_works_def keep_in_flight_def grant_default_def bt_keys_def)
  then show "gs_one_shot_execution (restore c r) = bt_insert_all (map (\<lambda>e. (od_work_id e, od_execution e)) (wr_one_shot r)) []"
    "gs_one_shot_works (restore c r) = bt_insert_all (map (\<lambda>e. (od_work_id e, one_shot_from_record e)) (wr_one_shot r)) []"
    "bt_wf (gs_works (restore c r))"
    by (simp_all add: restore_def Let_def fold_restore_one_shot next_works_wf)
qed

lemma wf_restore: "wf_grant (restore c r)"
proof -
  have get: "bt_get (gs_one_shot_works (restore c r)) k = map_option one_shot_from_record (find (\<lambda>e. od_work_id e = k) (rev (wr_one_shot r)))"
    "bt_get (gs_one_shot_execution (restore c r)) k = map_option od_execution (find (\<lambda>e. od_work_id e = k) (rev (wr_one_shot r)))" for k
    using btree.get_fold_find[where key = od_work_id and val = one_shot_from_record and xs = "wr_one_shot r" and m = "[]" and j = k]
      btree.get_fold_find[where key = od_work_id and val = od_execution and xs = "wr_one_shot r" and m = "[]" and j = k]
    by (simp_all add: restore_execution bt_insert_all_def fold_map comp_def split: option.splits)
  have wf: "bt_wf (gs_one_shot_works (restore c r))" "bt_wf (gs_one_shot_execution (restore c r))"
    by (simp_all add: restore_execution bt_wf_insert_all)
  have "sh_work_id w = k" if "(k, w) \<in> set (gs_one_shot_works (restore c r))" for k w
    using that by (auto simp: bt_entry[OF wf(1)] get one_shot_from_record_def dest: find_SomeD)
  moreover have "bt_keys (gs_one_shot_execution (restore c r)) = bt_keys (gs_one_shot_works (restore c r))"
    by (rule bt_keys_eqI) (simp_all add: wf get)
  ultimately show ?thesis using wf restore_execution(3) by (auto simp: wf_grant_def list_all_iff)
qed

lemma restored_execution_of:
  assumes "wf_grant s" "device_view c now s = Some r"
  shows "execution_of (restore c' r) k = execution_of s k"
proof -
  have "wr_one_shot r = map (one_shot_view s) (map snd (gs_one_shot_works s))"
    using assms(2) by (auto simp: device_view_def split: if_splits)
  then have "gs_one_shot_execution (restore c' r) = gs_one_shot_execution s"
    using restored_one_shot(2)[OF assms(1)] by (simp add: restore_execution)
  then show ?thesis by (simp add: execution_of_def)
qed

text \<open>The state a restart would begin with.\<close>

definition view_state :: "work_record disk_file \<Rightarrow> work_contract \<Rightarrow> applied_work_grant" where
  "view_state view c = (case view of Present record \<Rightarrow> restore c record | _ \<Rightarrow> grant_default)"

lemma begun_view_contract: "begun (view_state v c) k \<longleftrightarrow> begun (view_state v c') k"
  by (cases v) (simp_all add: view_state_def begun_def execution_of_def restore_execution)

subsection \<open>Launches\<close>

lemma to_dispatch_known:
  assumes "wf_grant s" "work \<in> set (ao_one_shot_to_dispatch (fst (grant_apply c g s)))"
  shows "bt_get (gs_one_shot_execution (snd (grant_apply c g s))) (sh_work_id work) \<noteq> None"
    and "\<not> begun s (sh_work_id work)" and "is_executable_one_shot_action (sh_action work)"
    and "work \<in> set (wg_one_shot g)" "wc_is_outstanding c work"
proof -
  have w: "wf_grant s \<Longrightarrow> bt_wf (gs_one_shot_execution s)" by (simp add: wf_grant_def)
  show in_g: "work \<in> set (wg_one_shot g)" "wc_is_outstanding c work" using assms(2) by auto
  then have "outstanding c g (sh_work_id work) \<noteq> None" by (auto simp: outstanding_None)
  then show "bt_get (gs_one_shot_execution (snd (grant_apply c g s))) (sh_work_id work) \<noteq> None"
    by (simp add: apply_execution[OF w[OF assms(1)]])
  show "\<not> begun s (sh_work_id work)" "is_executable_one_shot_action (sh_action work)"
    using assms(2) by (auto simp: begun_def)
qed

lemma begun_apply:
  assumes "wf_grant s" "outstanding c g k \<noteq> None \<or> in_flight s k"
  shows "execution_of (snd (grant_apply c g s)) k = execution_of s k"
proof -
  have wf: "bt_wf (gs_one_shot_execution s)" using assms(1) by (simp add: wf_grant_def)
  show ?thesis using assms(2) by (auto simp: execution_of_def[of "snd _"] apply_execution[OF wf] execution_of_def)
qed

lemma busy_apply: "wf_grant s \<Longrightarrow> has_upgrade_in_flight (snd (grant_apply c g s)) \<longleftrightarrow> has_upgrade_in_flight s"
  using in_flight_again[of s c g]
  by (simp add: has_upgrade_in_flight_iff apply_execution_wf wf_grant_def)

text \<open>One refresh: what it launches, what stays begun, what the stored view says.\<close>

lemma applied_phases:
  assumes wf: "wf_grant (ww_runtime w)"
  obtains d w1 w3 due where
    "fold (dispatch_one e) (ao_one_shot_to_dispatch (fst (grant_apply (xe_contract e) g (ww_runtime w))))
       (False, w\<lparr>ww_runtime := snd (grant_apply (xe_contract e) g (ww_runtime w))\<rparr>) = (d, w1)"
    "wf_grant (ww_runtime w3)" "\<And>j. begun (ww_runtime w1) j \<Longrightarrow> begun (ww_runtime w3) j" "ww_launched w3 = ww_launched w1"
    "ww_view w3 = ww_view w" "gs_sequence (ww_runtime w3) = wg_sequence g" "d \<Longrightarrow> due" "apply_and_dispatch e g w = store_view e due w3"
proof -
  let ?s = "grant_apply (xe_contract e) g (ww_runtime w)"
  let ?w0 = "w\<lparr>ww_runtime := snd ?s\<rparr>"
  obtain d w1 p w2 a w3 where ph: "fold (dispatch_one e) (ao_one_shot_to_dispatch (fst ?s)) (False, ?w0) = (d, w1)"
      "reconcile_upgrade_record e w1 = (p, w2)"
      "fold (ack_one e) (works_to_ack (next_works (xe_contract e) (ww_runtime w) g)) (False, w2) = (a, w3)"
      "apply_and_dispatch e g w = store_view e (wg_sequence g \<noteq> gs_sequence (ww_runtime w) \<or> a \<or> d \<or> p) w3"
    using apply_and_dispatch_phases by blast
  have "wf_grant (ww_runtime ?w0)" using wf_apply[OF wf] by simp
  from dispatch_wf[OF ph(1) this] to_dispatch_known(1)[OF wf, of _ "xe_contract e" g] have "wf_grant (ww_runtime w1)" by simp
  then have "wf_grant (ww_runtime w3)" using reconcile_all[OF ph(2)] ack_all[OF ph(3)] by blast
  moreover have "begun (ww_runtime w1) j \<Longrightarrow> begun (ww_runtime w3) j" for j
    using reconcile_all[OF ph(2), of j] ack_all[OF ph(3)] by (simp add: begun_def execution_of_def)
  moreover have "ww_launched w3 = ww_launched w1" "ww_view w3 = ww_view w" "gs_sequence (ww_runtime w3) = wg_sequence g"
    using dispatch_all[OF ph(1)] reconcile_all[OF ph(2)] ack_all[OF ph(3)] by simp_all
  ultimately show thesis using that[OF ph(1) _ _ _ _ _ _ ph(4)] by blast
qed

lemma stored_begun:
  assumes "wf_grant s" "device_view c' now s = Some r"
  shows "begun (view_state (Present r) c) j \<longleftrightarrow> begun s j"
  using restored_execution_of[OF assms] by (simp add: view_state_def begun_def)

lemma applied_wf: "wf_grant (ww_runtime w) \<Longrightarrow> wf_grant (ww_runtime (apply_and_dispatch e g w))"
  by (erule applied_phases[of w e g]) simp

lemma applied_begun:
  assumes wf: "wf_grant (ww_runtime w)" and k: "outstanding (xe_contract e) g k \<noteq> None \<or> in_flight (ww_runtime w) k"
  shows "begun (ww_runtime w) k \<Longrightarrow> begun (ww_runtime (apply_and_dispatch e g w)) k"
  using wf
proof (rule applied_phases[of w e g])
  fix d w1 w3 due
  assume ph: "fold (dispatch_one e) (ao_one_shot_to_dispatch (fst (grant_apply (xe_contract e) g (ww_runtime w))))
       (False, w\<lparr>ww_runtime := snd (grant_apply (xe_contract e) g (ww_runtime w))\<rparr>) = (d, w1)"
    and keep: "\<And>j. begun (ww_runtime w1) j \<Longrightarrow> begun (ww_runtime w3) j"
    and out: "apply_and_dispatch e g w = store_view e due w3" and b: "begun (ww_runtime w) k"
  from b have "begun (snd (grant_apply (xe_contract e) g (ww_runtime w))) k"
    using begun_apply[OF wf k] by (simp add: begun_def)
  then show ?thesis using dispatch_all[OF ph, of k] keep[of k] by (simp add: out)
qed

lemma applied_view:
  assumes wf: "wf_grant (ww_runtime w)"
  shows "begun (ww_runtime (apply_and_dispatch e g w)) j \<Longrightarrow> begun (view_state (ww_view w) c) j \<Longrightarrow>
    begun (view_state (ww_view (apply_and_dispatch e g w)) c) j"
  using wf
proof (rule applied_phases[of w e g])
  fix w3 due
  assume "wf_grant (ww_runtime w3)" "ww_view w3 = ww_view w" "apply_and_dispatch e g w = store_view e due w3"
    and "begun (ww_runtime (apply_and_dispatch e g w)) j" "begun (view_state (ww_view w) c) j"
  then show ?thesis using store_view_cases[of e due w3] stored_begun[of "ww_runtime w3"] by auto
qed

lemma applied_launch:
  assumes wf: "wf_grant (ww_runtime w)" and w': "apply_and_dispatch e g w = w'"
  shows "ww_launched w' = ww_launched w \<or> (\<exists>work launch. work \<in> set (wg_one_shot g) \<and> wc_is_outstanding (xe_contract e) work \<and>
      is_executable_one_shot_action (sh_action work) \<and> \<not> begun (ww_runtime w) (sh_work_id work) \<and>
      \<not> has_upgrade_in_flight (ww_runtime w) \<and> ww_launched w' = ww_launched w @ [(sh_work_id work, launch)] \<and>
      begun (ww_runtime w') (sh_work_id work) \<and>
      (xe_ack e (sh_work_id work) 0 \<longrightarrow> wg_sequence g \<noteq> 0 \<longrightarrow> (\<forall>f. xe_store e \<noteq> FailedBefore f) \<longrightarrow>
        begun (view_state (ww_view w') c) (sh_work_id work)))"
  using wf
proof (rule applied_phases[of w e g])
  fix d w1 w3 due
  let ?s = "grant_apply (xe_contract e) g (ww_runtime w)"
  assume ph: "fold (dispatch_one e) (ao_one_shot_to_dispatch (fst ?s)) (False, w\<lparr>ww_runtime := snd ?s\<rparr>) = (d, w1)"
    and wf3: "wf_grant (ww_runtime w3)" and keep: "\<And>j. begun (ww_runtime w1) j \<Longrightarrow> begun (ww_runtime w3) j"
    and same: "ww_launched w3 = ww_launched w1" "gs_sequence (ww_runtime w3) = wg_sequence g"
    and due: "d \<Longrightarrow> due" and out: "apply_and_dispatch e g w = store_view e due w3"
  have now: "begun (view_state (ww_view w') c) j"
    if "d" "wg_sequence g \<noteq> 0" "\<forall>f. xe_store e \<noteq> FailedBefore f" "begun (ww_runtime w3) j" for j
    using that same(2) due stored_begun[OF wf3, of "xe_contract e" "xe_now e"]
    by (cases "xe_store e") (auto simp: w'[symmetric] out store_view_def device_view_def)
  show ?thesis
  proof (cases "ww_launched w1 = ww_launched w")
    case False
    then obtain work launch where l: "work \<in> set (ao_one_shot_to_dispatch (fst ?s))" "\<not> has_upgrade_in_flight (snd ?s)"
        "ww_launched w1 = ww_launched w @ [(sh_work_id work, launch)]"
        "execution_of (ww_runtime w1) (sh_work_id work) = ''dispatched''" "xe_ack e (sh_work_id work) 0 \<longrightarrow> d"
      using dispatch_all[OF ph, of "[]"] by (auto simp del: apply_fields)
    then have "begun (ww_runtime w3) (sh_work_id work)" by (intro keep) (simp add: begun_def ONE_SHOT_UNEXECUTED_def)
    then show ?thesis
      using l to_dispatch_known[OF wf l(1)] busy_apply[OF wf] now
      by (intro disjI2 exI[of _ work] exI[of _ launch]) (simp add: w'[symmetric] out same)
  qed (simp add: w'[symmetric] out same)
qed

text \<open>A work that every snapshot mentions is launched at most once, over any number of refreshes and restarts.\<close>

definition mentions :: "string \<Rightarrow> dispatch_env \<Rightarrow> bool" where
  "mentions k e \<longleftrightarrow> (case xe_grant e of None \<Rightarrow> True
     | Some g \<Rightarrow> wg_sequence g \<noteq> 0 \<and> outstanding (xe_contract e) g k \<noteq> None)"

fun event_ok :: "string \<Rightarrow> daemon_event \<Rightarrow> bool" where
  "event_ok k (Refreshed e) \<longleftrightarrow> mentions k e \<and> xe_ack e k 0 \<and> (case xe_store e of FailedBefore _ \<Rightarrow> False | _ \<Rightarrow> True)"
| "event_ok k (Restarted c) \<longleftrightarrow> True"

definition launched_once :: "string \<Rightarrow> work_contract \<Rightarrow> work_world \<Rightarrow> bool" where
  "launched_once k c w \<longleftrightarrow> wf_grant (ww_runtime w) \<and> length (filter (\<lambda>x. fst x = k) (ww_launched w)) \<le> 1 \<and>
     (k \<in> fst ` set (ww_launched w) \<longrightarrow> begun (ww_runtime w) k \<and> begun (view_state (ww_view w) c) k)"

lemma launched_once_apply:
  assumes inv: "launched_once k c w" and ok: "event_ok k (Refreshed e)" and g: "xe_grant e = Some g"
  shows "launched_once k c (apply_and_dispatch e g w)"
proof -
  let ?w = "apply_and_dispatch e g w"
  have wf: "wf_grant (ww_runtime w)" using inv by (simp add: launched_once_def)
  have ok': "outstanding (xe_contract e) g k \<noteq> None" "wg_sequence g \<noteq> 0" "xe_ack e k 0" "\<forall>f. xe_store e \<noteq> FailedBefore f"
    using ok g by (auto simp: mentions_def split: write_outcome.splits)
  note keep = applied_begun[OF wf disjI1[OF ok'(1)]]
  note view = applied_view[OF wf, of e g k c]
  consider (same) "ww_launched ?w = ww_launched w"
    | (more) j launch where "\<not> begun (ww_runtime w) j" "ww_launched ?w = ww_launched w @ [(j, launch)]" "begun (ww_runtime ?w) j"
        "xe_ack e j 0 \<longrightarrow> begun (view_state (ww_view ?w) c) j"
    using applied_launch[OF wf refl, of e g c] ok'(2,4) by blast
  then show ?thesis
  proof cases
    case same then show ?thesis using inv keep view applied_wf[OF wf] by (auto simp: launched_once_def)
  next
    case more
    have "length (filter (\<lambda>x. fst x = k) (ww_launched w)) = 0" if "j = k"
      using inv more(1) that by (auto simp: launched_once_def filter_empty_conv)
    then show ?thesis using more inv keep view applied_wf[OF wf] ok'(3) by (auto simp: launched_once_def)
  qed
qed

lemma launched_once_step:
  assumes inv: "launched_once k c w" and ok: "event_ok k ev"
  shows "launched_once k c (daemon_event_step ev w)"
proof (cases ev)
  case (Refreshed e)
  show ?thesis
  proof (cases rule: refresh_cases[of e w])
    case skipped then show ?thesis using inv Refreshed by (auto simp: launched_once_def)
  next
    case (applied g)
    have "launched_once k c (w\<lparr>ww_last_fetch := Some (xe_instant_ms e)\<rparr>)" using inv by (simp add: launched_once_def)
    from launched_once_apply[OF this ok[unfolded Refreshed] applied(1)] show ?thesis by (simp add: Refreshed applied(2))
  qed
next
  case (Restarted c')
  have "ww_runtime (restart_agent c' w) = view_state (ww_view w) c'" by (simp add: restart_agent_def view_state_def)
  moreover have "wf_grant (view_state (ww_view w) c')"
    by (cases "ww_view w") (simp_all add: view_state_def wf_default wf_restore)
  ultimately show ?thesis
    using inv begun_view_contract[of "ww_view w" c k c'] Restarted by (simp add: launched_once_def) (simp add: restart_agent_def)
qed

lemma launched_once_run:
  "launched_once k c w \<Longrightarrow> list_all (event_ok k) evs \<Longrightarrow> launched_once k c (fold daemon_event_step evs w)"
  by (induction evs arbitrary: w) (simp_all add: launched_once_step)

subsection \<open>Progress and results\<close>

text \<open>A refresh that has received a snapshot reports what the upgrader's record says of a work, and nothing else.\<close>

lemma dispatch_reported:
  "fold (dispatch_one e) works (d, w) = (d', w') \<Longrightarrow>
   \<exists>xs. ww_reported w' = ww_reported w @ xs \<and> list_all (\<lambda>(k, status, detail). status = ''failed'' \<and> (\<exists>err. detail = NotStarted err)) xs"
proof (induction works arbitrary: d w)
  case (Cons work works)
  obtain d1 w1 where one: "dispatch_one e work (d, w) = (d1, w1)" by fastforce
  with Cons.prems have rest: "fold (dispatch_one e) works (d1, w1) = (d', w')" by simp
  from one have "\<exists>ys. ww_reported w1 = ww_reported w @ ys \<and>
      list_all (\<lambda>(k, status, detail). status = ''failed'' \<and> (\<exists>err. detail = NotStarted err)) ys"
    by (cases rule: dispatch_one_cases) auto
  with Cons.IH[OF rest] show ?case by auto
qed simp

lemma applied_reports:
  assumes "x \<in> set (ww_reported (apply_and_dispatch e g w))" "x \<notin> set (ww_reported w)"
  obtains (not_started) k err where "x = (k, ''failed'', NotStarted err)"
  | (dead) rec where "xe_upgrade_file e = Present rec" "upgrader_dead e rec"
      "x = (ur_work_id rec, ''failed'', NoHeartbeat UPGRADER_DEAD_AFTER (ur_step rec))"
  | (recorded) rec status detail where "xe_upgrade_file e = Present rec" "work_result_of rec = Some (status, detail)"
      "x = (ur_work_id rec, status, detail)"
proof -
  obtain d w1 p w2 a w3 where ph:
      "fold (dispatch_one e) (ao_one_shot_to_dispatch (fst (grant_apply (xe_contract e) g (ww_runtime w))))
         (False, w\<lparr>ww_runtime := snd (grant_apply (xe_contract e) g (ww_runtime w))\<rparr>) = (d, w1)"
      "reconcile_upgrade_record e w1 = (p, w2)"
      "fold (ack_one e) (works_to_ack (next_works (xe_contract e) (ww_runtime w) g)) (False, w2) = (a, w3)"
      "apply_and_dispatch e g w = store_view e (wg_sequence g \<noteq> gs_sequence (ww_runtime w) \<or> a \<or> d \<or> p) w3"
    using apply_and_dispatch_phases by blast
  have x: "x \<in> set (ww_reported w2)" using assms(1) ack_all[OF ph(3)] by (simp add: ph(4))
  note cases = that
  obtain xs where xs: "ww_reported w1 = ww_reported w @ xs"
      "list_all (\<lambda>(k, status, detail). status = ''failed'' \<and> (\<exists>err. detail = NotStarted err)) xs"
    using dispatch_reported[OF ph(1)] by auto
  have first: thesis if "x \<in> set (ww_reported w1)"
  proof -
    have "x \<in> set xs" using that assms(2) xs(1) by simp
    with xs(2) obtain err where "x = (fst x, ''failed'', NotStarted err)" by (auto simp: list_all_iff)
    then show thesis by (rule cases(1))
  qed
  from ph(2) show thesis
  proof (cases rule: reconcile_cases)
    case nothing then show thesis using x first by simp
  next
    case (advanced rec status detail)
    from x have "x \<in> set (ww_reported w1) \<or> x = (ur_work_id rec, status, detail)" by (simp add: advanced(6)) blast
    then show thesis
    proof
      assume new: "x = (ur_work_id rec, status, detail)"
      show thesis
      proof (cases "upgrader_dead e rec")
        case True
        with advanced(5) have "x = (ur_work_id rec, ''failed'', NoHeartbeat UPGRADER_DEAD_AFTER (ur_step rec))" by (simp add: new)
        with cases(2)[OF advanced(2) True] show thesis .
      next
        case False
        with advanced(5) have "work_result_of rec = Some (status, detail)" by simp
        from cases(3)[OF advanced(2) this new] show thesis .
      qed
    qed (rule first)
  qed
qed

text \<open>The local view of a known work follows the record once the report is accepted.\<close>

lemma reconcile_follows:
  assumes "xe_upgrade_file e = Present rec" "bt_get (gs_one_shot_execution (ww_runtime w)) (ur_work_id rec) \<noteq> None"
    and "work_result_of rec \<noteq> None" "\<forall>status. xe_report e (ur_work_id rec) status"
  shows "execution_of (ww_runtime (snd (reconcile_upgrade_record e w))) (ur_work_id rec) =
    (if upgrader_dead e rec then ''failed'' else ur_status rec)"
proof -
  obtain current where "bt_get (gs_one_shot_execution (ww_runtime w)) (ur_work_id rec) = Some current" using assms(2) by blast
  moreover obtain status detail where "work_result_of rec = Some (status, detail)" using assms(3) by auto
  ultimately show ?thesis
    using assms(1,4) by (simp add: reconcile_upgrade_record_def one_shot_execution_def Let_def execution_of_def)
qed

lemma applied_follows:
  assumes wf: "wf_grant (ww_runtime w)" and rec: "xe_upgrade_file e = Present rec"
    and known: "outstanding (xe_contract e) g (ur_work_id rec) \<noteq> None \<or> in_flight (ww_runtime w) (ur_work_id rec)"
    and "work_result_of rec \<noteq> None" "\<forall>status. xe_report e (ur_work_id rec) status"
  shows "execution_of (ww_runtime (apply_and_dispatch e g w)) (ur_work_id rec) =
    (if upgrader_dead e rec then ''failed'' else ur_status rec)"
proof -
  let ?s = "grant_apply (xe_contract e) g (ww_runtime w)"
  obtain d w1 p w2 a w3 where ph:
      "fold (dispatch_one e) (ao_one_shot_to_dispatch (fst ?s)) (False, w\<lparr>ww_runtime := snd ?s\<rparr>) = (d, w1)"
      "reconcile_upgrade_record e w1 = (p, w2)"
      "fold (ack_one e) (works_to_ack (next_works (xe_contract e) (ww_runtime w) g)) (False, w2) = (a, w3)"
      "apply_and_dispatch e g w = store_view e (wg_sequence g \<noteq> gs_sequence (ww_runtime w) \<or> a \<or> d \<or> p) w3"
    using apply_and_dispatch_phases by blast
  have "bt_wf (gs_one_shot_execution (ww_runtime w))" using wf by (simp add: wf_grant_def)
  from apply_execution[OF this] known
  have "bt_get (gs_one_shot_execution (snd ?s)) (ur_work_id rec) \<noteq> None" by (auto simp: in_flight_def split: option.splits)
  then have "bt_get (gs_one_shot_execution (ww_runtime w1)) (ur_work_id rec) \<noteq> None"
    using dispatch_known[OF ph(1)] by simp
  from reconcile_follows[OF rec this assms(4,5)] ph(2)
  have "execution_of (ww_runtime w2) (ur_work_id rec) = (if upgrader_dead e rec then ''failed'' else ur_status rec)" by simp
  then show ?thesis using ack_all[OF ph(3)] by (simp add: ph(4) execution_of_def)
qed

text \<open>An upgrader that ends before its first record: the work stays in flight and no upgrade is started any more.\<close>

lemma applied_stuck:
  assumes wf: "wf_grant (ww_runtime w)" and k: "in_flight (ww_runtime w) k"
    and other: "\<forall>rec. xe_upgrade_file e = Present rec \<longrightarrow> ur_work_id rec \<noteq> k"
  shows "in_flight (ww_runtime (apply_and_dispatch e g w)) k \<and> ww_launched (apply_and_dispatch e g w) = ww_launched w"
proof -
  let ?s = "grant_apply (xe_contract e) g (ww_runtime w)"
  obtain d w1 p w2 a w3 where ph:
      "fold (dispatch_one e) (ao_one_shot_to_dispatch (fst ?s)) (False, w\<lparr>ww_runtime := snd ?s\<rparr>) = (d, w1)"
      "reconcile_upgrade_record e w1 = (p, w2)"
      "fold (ack_one e) (works_to_ack (next_works (xe_contract e) (ww_runtime w) g)) (False, w2) = (a, w3)"
      "apply_and_dispatch e g w = store_view e (wg_sequence g \<noteq> gs_sequence (ww_runtime w) \<or> a \<or> d \<or> p) w3"
    using apply_and_dispatch_phases by blast
  have e: "bt_wf (gs_one_shot_execution (ww_runtime w))" using wf by (simp add: wf_grant_def)
  have "in_flight (snd ?s) k" using in_flight_again[OF e] k by simp
  moreover from this have "has_upgrade_in_flight (ww_runtime (w\<lparr>ww_runtime := snd ?s\<rparr>))"
    using has_upgrade_in_flight_iff[OF apply_execution_wf] by auto
  ultimately have 1: "in_flight (ww_runtime w1) k" "ww_launched w1 = ww_launched w"
    using ph(1) by (simp_all add: dispatch_busy del: apply_fields) (auto simp: dispatch_busy)
  from ph(2) have "in_flight (ww_runtime w2) k"
    by (cases rule: reconcile_cases) (use 1 other in \<open>auto simp: in_flight_def\<close>)
  then show ?thesis
    using 1 ack_all[OF ph(3)] reconcile_all[OF ph(2)] by (simp add: ph(4) in_flight_def)
qed

end
