(* ===== verification/ControlClaims.thy ===== *)
theory ControlClaims
  imports WorkDispatch
begin

text \<open>
  The properties of the granted work and of the upgrade: what applying a snapshot does and keeps, what the agent stores and
  restores, which upgrades the daemon starts, what an upgrade leaves behind and what is reported of it.
\<close>

subsection \<open>Examples\<close>

definition sample_contract :: work_contract where
  "sample_contract = \<lparr>wc_parse = (\<lambda>t. if t = ''bad'' then Inl ''bad'' else Inr \<lparr>wp_units = []\<rparr>), wc_encode = (\<lambda>_. Some ''ok''),
     wc_file_sources = wu_sources, wc_unsupported_sources = (\<lambda>_. []), wc_is_executable_source = (\<lambda>_ _. True),
     wc_is_known_exporter = (\<lambda>_. False), wc_parse_exporter_target = (\<lambda>_. None), wc_metric_interval_seconds = (\<lambda>_. None),
     wc_is_outstanding = (\<lambda>_. True)\<rparr>"

definition sample_upgrade :: one_shot_work where
  "sample_upgrade = \<lparr>sh_work_id = ''u'', sh_action = ''upgrade'', sh_spec = ''p'', sh_scheduled_at = [], sh_deadline_at = [],
     sh_timeout_seconds = 60, sh_status = ''granted''\<rparr>"

definition sample_grant :: work_grant where
  "sample_grant = \<lparr>wg_standing = [\<lparr>sw_work_id = ''s'', sw_family = ''f'', sw_spec = ''ok'', sw_plan_version = 1,
     sw_effective_from = [], sw_status = ''active''\<rparr>], wg_one_shot = [sample_upgrade], wg_sequence = 7\<rparr>"

definition sample_upgrade_env :: upgrade_env where
  "sample_upgrade_env = \<lparr>ue_now = ''t'', ue_parse_json = (\<lambda>_. Some \<lparr>us_target_version = None, us_package_url = ''/p'',
       us_package_sha256 = ''d'', us_allow_downgrade = False\<rparr>),
     ue_parse_version = (\<lambda>_. Some [2, 0]), ue_version_is_newer = (\<lambda>_ _. Some True), ue_parse_digest = Some, ue_sha256 = (\<lambda>_. ''d''),
     ue_read_local = (\<lambda>_. Inr ''new''), ue_client_err = None, ue_read_remote = (\<lambda>_. Inl (OtherArtifact [])),
     ue_staging_exists = False, ue_stage_fault = (\<lambda>_. None), ue_untar = (\<lambda>_. None), ue_run_version = (\<lambda>_. Some ''2.0''),
     ue_copy = (\<lambda>_. CmdOk), ue_install = (\<lambda>_. CmdOk), ue_mv = (\<lambda>_. True), ue_remove = (\<lambda>_. True), ue_restart = (\<lambda>_. True),
     ue_running_version = (\<lambda>_. Some ''2.0''), ue_oversleep = (\<lambda>_. 0), ue_store = (\<lambda>_. Done)\<rparr>"

definition sample_request :: upgrade_request where
  "sample_request = \<lparr>uq_work_id = ''u'', uq_target_version = None, uq_current_version = ''1.0'', uq_agentd_bin = ''/b/a'',
     uq_package_url = ''/p'', uq_package_sha256 = ''d'', uq_allow_downgrade = False\<rparr>"

definition sample_options :: upgrade_options where
  "sample_options = \<lparr>uo_dry_run = False, uo_ready_wait = 2, uo_restart = NoRestart\<rparr>"

definition dispatched_options :: upgrade_options where
  "dispatched_options = \<lparr>uo_dry_run = False, uo_ready_wait = DEFAULT_READY_WAIT, uo_restart = default_restart_plan\<rparr>"

definition sample_bins :: bin_dir where
  "sample_bins = (\<lambda>n. if n = AGENTD_BIN_NAME then Some ''old'' else None)"

definition sample_run :: upgrade_run where
  "sample_run = \<lparr>un_record = record_new sample_upgrade_env sample_request, un_file = Missing, un_stores = 0, un_restarts = 0,
     un_bins = sample_bins\<rparr>"

definition sample_env :: dispatch_env where
  "sample_env = \<lparr>xe_contract = sample_contract, xe_upgrade = sample_upgrade_env, xe_instant_ms = 0, xe_now = ''t'',
     xe_grant = Some sample_grant, xe_current_exe = Inr ''/b/a'', xe_pkg_version = ''1.0'', xe_upgrader_bin = ''/b/u'', xe_config_dir = ''/c'',
     xe_log_path = ''/l'', xe_env_file = ''/e'', xe_spawn = \<lparr>sp_log_dir = None, sp_systemd = (\<lambda>_. SystemdStarted), sp_detached = (\<lambda>_. Inr 1)\<rparr>,
     xe_ack = (\<lambda>_ _. True), xe_report = (\<lambda>_ _. True), xe_upgrade_file = Missing, xe_heartbeat = None, xe_clock = 0, xe_store = Done\<rparr>"

definition fresh_world :: work_world where
  "fresh_world = \<lparr>ww_runtime = grant_default, ww_last_fetch = None, ww_view = Missing, ww_launched = [], ww_acked = [], ww_reported = []\<rparr>"

lemma fresh_wf [simp]: "wf_grant (ww_runtime fresh_world)"
  by (simp add: fresh_world_def wf_default)

lemma sample_done: "ur_status (fst (upgrade_apply sample_upgrade_env sample_request sample_options sample_run)) = ''succeeded''"
  by code_simp

subsection \<open>Upgrades\<close>

text \<open>C3. An upgrade that is not a dry run is all or nothing.  If its record says \<open>succeeded\<close>, the package passed every
  check, the restarted agent was seen running the package's version, every binary of the package is installed and no other
  known binary is left; if it says \<open>rolled_back\<close>, every binary is the one there was before; and whatever goes wrong, the old
  binaries are back as long as the commands of the way back work.  Hypothesis: a backup left by an earlier upgrade from the
  same version is a copy of the binary in place.\<close>

theorem upgrade_all_or_nothing:
  assumes "backups_sound (uq_current_version rq) (un_bins r)" "\<not> uo_dry_run opt" "upgrade_apply e rq opt r = (rec, r')"
  shows "(ur_status rec = ''succeeded'' \<longrightarrow> (\<exists>staged target t. package_checked e rq (un_bins r) staged target \<and>
      ue_running_version e t = Some target \<and> (\<forall>i\<in>set staged. un_bins r' (sb_name i) = Some (sb_content i)) \<and>
      (\<forall>m. is_known_binary m \<longrightarrow> m \<notin> sb_name ` set staged \<longrightarrow> un_bins r' m = None))) \<and>
    (ur_status rec = ''rolled_back'' \<longrightarrow> all_original (un_bins r) (un_bins r')) \<and>
    (ur_status rec \<noteq> ''succeeded'' \<longrightarrow> rollback_works e \<longrightarrow> all_original (un_bins r) (un_bins r'))"
  using upgrade_outcome(1)[OF assms(1,3) _ assms(2)] upgrade_outcome(2,3)[OF assms(1,3)] by blast

theorem upgrade_all_or_nothing_witness:
  "\<exists>staged target t. package_checked sample_upgrade_env sample_request sample_bins staged target \<and>
     ue_running_version sample_upgrade_env t = Some target \<and>
     list_all (\<lambda>i. un_bins (snd (upgrade_apply sample_upgrade_env sample_request sample_options sample_run)) (sb_name i) = Some (sb_content i)) staged"
proof -
  have "backups_sound (uq_current_version sample_request) (un_bins sample_run)" by code_simp
  moreover have "\<not> uo_dry_run sample_options" by (simp add: sample_options_def)
  ultimately show ?thesis
    using upgrade_all_or_nothing[OF _ _ surjective_pairing, of sample_request sample_run sample_options sample_upgrade_env] sample_done
    by (auto simp: sample_run_def list_all_iff)
qed

text \<open>What the daemon starts is the upgrade it was granted: if a work is dispatched, its specification was read, and the
  upgrader reads back from its command line exactly the request made of it, to be carried out and not as a dry run.\<close>

theorem upgrader_receives_request:
  assumes "dispatch_upgrade e entry = Inr (handle, launch)"
  shows "\<exists>agentd_bin rq spec. xe_current_exe e = Inr agentd_bin \<and> parse_spec (xe_upgrade e) (sh_spec entry) = Inr spec \<and>
    rq = \<lparr>uq_work_id = sh_work_id entry, uq_target_version = us_target_version spec,
      uq_current_version = xe_pkg_version e, uq_agentd_bin = agentd_bin, uq_package_url = us_package_url spec,
      uq_package_sha256 = us_package_sha256 spec, uq_allow_downgrade = us_allow_downgrade spec\<rparr> \<and>
    upgrader_main default_bin (ul_args launch) = Inr (xe_config_dir e, rq\<lparr>uq_target_version := provided_target rq\<rparr>,
      \<lparr>uo_dry_run = False, uo_ready_wait = DEFAULT_READY_WAIT, uo_restart = default_restart_plan\<rparr>)"
proof -
  obtain agentd_bin where bin: "xe_current_exe e = Inr agentd_bin" using assms by (auto simp: dispatch_upgrade_def split: sum.splits)
  obtain rq where rq: "upgrade_request_for e agentd_bin entry = Inr rq"
    using assms bin by (auto simp: dispatch_upgrade_def split: sum.splits)
  have "launch = build_launch (xe_upgrader_bin e) (xe_config_dir e) rq"
    using assms bin rq by (auto simp: dispatch_upgrade_def Let_def map_sum_def split: sum.splits)
  with bin rq launch_parsed[of default_bin "xe_upgrader_bin e" "xe_config_dir e" rq] show ?thesis
    by (auto simp: upgrade_request_for_def split: sum.splits)
qed

theorem upgrader_receives_request_witness:
  "\<exists>handle launch rq. dispatch_upgrade sample_env sample_upgrade = Inr (handle, launch) \<and> uq_work_id rq = ''u'' \<and>
     upgrader_main [] (ul_args launch) = Inr (''/c'', rq, \<lparr>uo_dry_run = False, uo_ready_wait = DEFAULT_READY_WAIT,
       uo_restart = default_restart_plan\<rparr>)"
proof -
  have "(case dispatch_upgrade sample_env sample_upgrade of Inl _ \<Rightarrow> False | Inr _ \<Rightarrow> True)" by code_simp
  then obtain handle launch where d: "dispatch_upgrade sample_env sample_upgrade = Inr (handle, launch)" by (auto split: sum.splits)
  have "sh_work_id sample_upgrade = ''u''" by (simp add: sample_upgrade_def)
  with upgrader_receives_request[OF d, of "[]"] obtain rq where "uq_work_id rq = ''u''"
      "upgrader_main [] (ul_args launch) = Inr (xe_config_dir sample_env, rq\<lparr>uq_target_version := provided_target rq\<rparr>,
        \<lparr>uo_dry_run = False, uo_ready_wait = DEFAULT_READY_WAIT, uo_restart = default_restart_plan\<rparr>)"
    by (metis upgrade_request.select_convs(1))
  with d show ?thesis
    by (intro exI[of _ handle] exI[of _ launch] exI[of _ "rq\<lparr>uq_target_version := provided_target rq\<rparr>"]) (simp add: sample_env_def)
qed

text \<open>C13. The gateway is told \<open>succeeded\<close> only of an upgrade that took place.  Take the command line with which the daemon starts
  the upgrader for a work, and the run of the upgrader on what it reads from it: if the upgrade file holds what that run left
  there, and there was no record of a success before, then a refresh that reports success of a work names that work, and
  the run's package is checked and installed and was seen running.  The command line never asks for a dry run; a dry run
  started by hand records \<open>succeeded\<close> too, and is reported as such (\<open>dry_run_reported_as_success\<close> below).  Hypothesis on the
  disk, as for the upgrade itself: a backup left by an earlier upgrade from the same version is a copy of the binary in place.\<close>

theorem reported_success_is_real:
  assumes "dispatch_upgrade d entry = Inr (handle, launch)"
    and "upgrader_main default_bin (ul_args launch) = Inr (config_dir, rq, opt)"
    and "backups_sound (uq_current_version rq) (un_bins r)" "upgrade_apply ue rq opt r = (rec, r')"
    and "\<And>old. un_file r = Present old \<Longrightarrow> ur_status old \<noteq> ''succeeded''"
    and "xe_upgrade_file e = un_file r'"
    and "(k, ''succeeded'', detail) \<in> set (ww_reported (refresh_work_grant e w))" "(k, ''succeeded'', detail) \<notin> set (ww_reported w)"
  shows "k = sh_work_id entry \<and> (\<exists>staged target t. package_checked ue rq (un_bins r) staged target \<and>
      ue_running_version ue t = Some target \<and> (\<forall>i\<in>set staged. un_bins r' (sb_name i) = Some (sb_content i)))"
proof -
  have rq: "uq_work_id rq = sh_work_id entry" "\<not> uo_dry_run opt"
    using upgrader_receives_request[OF assms(1), of default_bin] assms(2) by auto
  have "\<exists>x. un_file r' = Present x \<and> ur_status x = ''succeeded'' \<and> ur_work_id x = k"
  proof (cases rule: refresh_cases[of e w])
    case skipped then show ?thesis using assms(7,8) by auto
  next
    case (applied g)
    let ?w = "w\<lparr>ww_last_fetch := Some (xe_instant_ms e)\<rparr>"
    have "(k, ''succeeded'', detail) \<in> set (ww_reported (apply_and_dispatch e g ?w))" "(k, ''succeeded'', detail) \<notin> set (ww_reported ?w)"
      using assms(7,8) applied(2) by simp_all
    then show ?thesis
      by (cases rule: applied_reports) (auto simp: assms(6)[symmetric] work_result_of_def split: if_splits)
  qed
  then obtain x where x: "un_file r' = Present x" "ur_status x = ''succeeded''" "ur_work_id x = k" by blast
  with upgrade_file[OF assms(4) x(1)] assms(5) have "k = uq_work_id rq" "ur_status rec = ''succeeded''" by auto
  with upgrade_outcome(1)[OF assms(3,4) _ rq(2)] rq(1) show ?thesis by metis
qed

lemma sample_launch:
  "\<exists>handle launch. dispatch_upgrade sample_env sample_upgrade = Inr (handle, launch) \<and>
     upgrader_main [] (ul_args launch) = Inr (''/c'', sample_request, dispatched_options)"
proof -
  have "(case dispatch_upgrade sample_env sample_upgrade of Inl _ \<Rightarrow> False | Inr (handle, launch) \<Rightarrow>
      upgrader_main [] (ul_args launch) = Inr (''/c'', sample_request, dispatched_options))" by code_simp
  then show ?thesis by (auto split: sum.splits prod.splits)
qed

theorem reported_success_is_real_witness:
  "\<exists>staged target t. package_checked sample_upgrade_env sample_request sample_bins staged target \<and>
     ue_running_version sample_upgrade_env t = Some target"
proof -
  let ?run = "upgrade_apply sample_upgrade_env sample_request dispatched_options sample_run"
  let ?e = "sample_env\<lparr>xe_upgrade_file := un_file (snd ?run)\<rparr>"
  obtain handle launch where launch: "dispatch_upgrade sample_env sample_upgrade = Inr (handle, launch)"
      "upgrader_main [] (ul_args launch) = Inr (''/c'', sample_request, dispatched_options)"
    using sample_launch by blast
  have "backups_sound (uq_current_version sample_request) (un_bins sample_run)" by code_simp
  moreover have "un_file sample_run = Missing" by (simp add: sample_run_def)
  moreover have "(''u'', ''succeeded'', FromTo ''1.0'' ''2.0'') \<in> set (ww_reported (refresh_work_grant ?e fresh_world))" by code_simp
  moreover have "ww_reported fresh_world = []" by (simp add: fresh_world_def)
  ultimately show ?thesis
    using reported_success_is_real[OF launch, of sample_run sample_upgrade_env "fst ?run" "snd ?run" ?e
        "''u''" "FromTo ''1.0'' ''2.0''" fresh_world]
    by (auto simp: sample_run_def)
qed

text \<open>A dry run that carries the identifier of a work (one started by hand: the daemon never starts one) changes no binary, and the daemon reports
  the work as succeeded.\<close>

lemma dry_run_reported_as_success:
  "(''u'', ''succeeded'', FromTo ''1.0'' ''2.0'') \<in> set (ww_reported (refresh_work_grant
     (sample_env\<lparr>xe_upgrade_file := un_file (snd (upgrade_apply sample_upgrade_env sample_request
        (sample_options\<lparr>uo_dry_run := True\<rparr>) sample_run))\<rparr>) fresh_world)) \<and>
   un_bins (snd (upgrade_apply sample_upgrade_env sample_request (sample_options\<lparr>uo_dry_run := True\<rparr>) sample_run)) = sample_bins"
proof
  have "un_bins (snd (upgrade_apply sample_upgrade_env sample_request (sample_options\<lparr>uo_dry_run := True\<rparr>) sample_run)) = un_bins sample_run"
  proof -
    obtain rec r' where r: "upgrade_apply sample_upgrade_env sample_request (sample_options\<lparr>uo_dry_run := True\<rparr>) sample_run = (rec, r')"
      by fastforce
    have "backups_sound (uq_current_version sample_request) (un_bins sample_run)" by code_simp
    from upgrade_outcome(4)[OF this r] r show ?thesis by simp
  qed
  then show "un_bins (snd (upgrade_apply sample_upgrade_env sample_request (sample_options\<lparr>uo_dry_run := True\<rparr>) sample_run)) = sample_bins"
    by (simp add: sample_run_def)
qed code_simp

text \<open>C9. A work that is in every snapshot is started at most once, over any sequence of refreshes and restarts of the
  agent, whatever the upgrader does in between.  Hypotheses: the snapshots have a sequence number other than 0, the gateway accepts
  the acknowledgement of the dispatch and the stored view is replaced.\<close>

theorem upgrade_launched_at_most_once:
  assumes "wf_grant (ww_runtime w)" "k \<notin> fst ` set (ww_launched w)" "list_all (event_ok k) events"
  shows "length (filter (\<lambda>x. fst x = k) (ww_launched (fold daemon_event_step events w))) \<le> 1"
proof -
  have "filter (\<lambda>x. fst x = k) (ww_launched w) = []" using assms(2) by (auto simp: filter_empty_conv)
  then have "launched_once k c w" for c using assms(1,2) by (simp add: launched_once_def)
  from launched_once_run[OF this assms(3)] show ?thesis by (simp add: launched_once_def)
qed

theorem upgrade_launched_at_most_once_witness:
  "length (filter (\<lambda>x. fst x = ''u'') (ww_launched (fold daemon_event_step
     [Refreshed sample_env, Restarted sample_contract, Refreshed sample_env] fresh_world))) \<le> 1 \<and>
   ww_launched (daemon_event_step (Refreshed sample_env) fresh_world) \<noteq> []"
proof -
  have "list_all (event_ok ''u'') [Refreshed sample_env, Restarted sample_contract, Refreshed sample_env]" by code_simp
  moreover have "''u'' \<notin> fst ` set (ww_launched fresh_world)" by (simp add: fresh_world_def)
  moreover have "ww_launched (daemon_event_step (Refreshed sample_env) fresh_world) \<noteq> []" by code_simp
  ultimately show ?thesis using upgrade_launched_at_most_once[OF fresh_wf] by blast
qed

text \<open>C22. One upgrade at a time: a refresh starts at most one upgrader, only while no work is in flight, and only for an
  outstanding upgrade of the snapshot whose execution has not begun; from then on it has.\<close>

theorem one_upgrade_at_a_time:
  assumes "wf_grant (ww_runtime w)"
  shows "ww_launched (refresh_work_grant e w) = ww_launched w \<or>
    (\<exists>g work launch. xe_grant e = Some g \<and> work \<in> set (wg_one_shot g) \<and> wc_is_outstanding (xe_contract e) work \<and>
      trim (sh_action work) = ''upgrade'' \<and> execution_of (ww_runtime w) (sh_work_id work) = ''unexecuted'' \<and>
      (\<nexists>k. in_flight (ww_runtime w) k) \<and> ww_launched (refresh_work_grant e w) = ww_launched w @ [(sh_work_id work, launch)] \<and>
      execution_of (ww_runtime (refresh_work_grant e w)) (sh_work_id work) \<noteq> ''unexecuted'')"
proof (cases rule: refresh_cases[of e w])
  case skipped then show ?thesis by auto
next
  case (applied g)
  let ?w = "w\<lparr>ww_last_fetch := Some (xe_instant_ms e)\<rparr>"
  have "wf_grant (ww_runtime ?w)" using assms by simp
  moreover have "has_upgrade_in_flight (ww_runtime w) \<longleftrightarrow> (\<exists>k. in_flight (ww_runtime w) k)"
    using assms by (simp add: has_upgrade_in_flight_iff wf_grant_def)
  ultimately show ?thesis
    using applied_launch[of ?w, OF _ refl, of e g] unfolding applied(2)
    by (auto simp: applied(1) begun_def ONE_SHOT_UNEXECUTED_def is_executable_one_shot_action_def EXECUTABLE_ONE_SHOT_ACTIONS_def)
qed

theorem one_upgrade_at_a_time_witness:
  "execution_of (ww_runtime fresh_world) ''u'' = ''unexecuted'' \<and> length (ww_launched (refresh_work_grant sample_env fresh_world)) = 1"
proof -
  have "ww_launched (refresh_work_grant sample_env fresh_world) \<noteq> []" by code_simp
  moreover have "ww_launched fresh_world = []" "execution_of (ww_runtime fresh_world) ''u'' = ''unexecuted''" by code_simp+
  ultimately show ?thesis using one_upgrade_at_a_time[OF fresh_wf, of sample_env] by auto
qed

text \<open>C38. The agent's view of an upgrade follows the upgrader: after a refresh with a snapshot whose reports are accepted,
  the execution state of the work the record names is the state of the record, or \<open>failed\<close> when the record says
  \<open>running\<close> and the heartbeat has stopped; a dead upgrader does not keep the work in flight.\<close>

theorem upgrade_progress_followed:
  assumes "wf_grant (ww_runtime w)" "xe_grant e = Some g" "\<And>at. ww_last_fetch w = Some at \<Longrightarrow> 30000 \<le> xe_instant_ms e - at"
    and "xe_upgrade_file e = Present rec"
    and "outstanding (xe_contract e) g (ur_work_id rec) \<noteq> None \<or> in_flight (ww_runtime w) (ur_work_id rec)"
    and "work_result_of rec \<noteq> None" "\<And>status. xe_report e (ur_work_id rec) status"
  shows "execution_of (ww_runtime (refresh_work_grant e w)) (ur_work_id rec) =
      (if ur_status rec = ''running'' \<and> \<not> heartbeat_is_fresh (xe_heartbeat e) (xe_clock e) then ''failed'' else ur_status rec) \<and>
    (ur_status rec = ''running'' \<and> \<not> heartbeat_is_fresh (xe_heartbeat e) (xe_clock e) \<longrightarrow>
      \<not> in_flight (ww_runtime (refresh_work_grant e w)) (ur_work_id rec))"
proof -
  let ?w = "w\<lparr>ww_last_fetch := Some (xe_instant_ms e)\<rparr>"
  have "refresh_work_grant e w = apply_and_dispatch e g ?w" 
    using assms(2,3) by (cases "ww_last_fetch w") (simp_all add: refresh_work_grant_def Let_def WORK_FETCH_MIN_INTERVAL_MS_def)
  moreover have "execution_of (ww_runtime (apply_and_dispatch e g ?w)) (ur_work_id rec) =
      (if upgrader_dead e rec then ''failed'' else ur_status rec)"
    by (rule applied_follows) (use assms in simp_all)
  ultimately show ?thesis
    by (auto simp: upgrader_dead_def execution_of_def in_flight_def is_one_shot_execution_in_flight_def unwrap_or_def
        split: option.splits if_splits)
qed

theorem upgrade_progress_followed_witness:
  "execution_of (ww_runtime (refresh_work_grant (sample_env\<lparr>xe_upgrade_file := Present (record_new sample_upgrade_env sample_request)\<rparr>)
     fresh_world)) ''u'' = ''failed''"
proof -
  let ?rec = "record_new sample_upgrade_env sample_request"
  let ?e = "sample_env\<lparr>xe_upgrade_file := Present ?rec\<rparr>"
  have "outstanding (xe_contract ?e) sample_grant (ur_work_id ?rec) \<noteq> None" "work_result_of ?rec \<noteq> None"
    "ur_work_id ?rec = ''u''" "ur_status ?rec = ''running''" "\<not> heartbeat_is_fresh (xe_heartbeat ?e) (xe_clock ?e)" by code_simp+
  moreover have "xe_grant ?e = Some sample_grant" "xe_upgrade_file ?e = Present ?rec" "xe_report ?e = (\<lambda>_ _. True)" "ww_last_fetch fresh_world = None"
    by (simp_all add: sample_env_def fresh_world_def)
  ultimately show ?thesis using upgrade_progress_followed[OF fresh_wf, of ?e sample_grant ?rec] by simp
qed

subsection \<open>Granted work\<close>

lemma digit_safe: "n < 10 \<Longrightarrow> is_token_char (digit n)"
  by (simp add: is_token_char_def digit_def Let_def)

lemma show_nat_safe: "list_all is_token_char (show_nat n)"
  by (induction n rule: show_nat.induct) (subst show_nat.simps, simp add: digit_safe)

lemma index_suffix_safe: "list_all is_token_char (index_suffix n i)"
  by (simp add: index_suffix_def show_nat_safe) (simp add: is_token_char_def)

lemma standing_detail: "wa_spec_detail (apply_standing c s w) = wa_spec_detail (apply_standing c t w)"
  by (simp add: apply_standing_def split: sum.split)

lemma to_dispatch_again:
  assumes "wf_grant s"
  shows "ao_one_shot_to_dispatch (fst (grant_apply c g (snd (grant_apply c g s)))) = ao_one_shot_to_dispatch (fst (grant_apply c g s))"
proof -
  have e: "bt_wf (gs_one_shot_execution s)" using assms by (simp add: wf_grant_def)
  have "execution_of (snd (grant_apply c g s)) (sh_work_id w) = execution_of s (sh_work_id w)"
    if "w \<in> set (filter (wc_is_outstanding c) (wg_one_shot g))" for w
    using execution_again[OF e] that by (auto simp: outstanding_None)
  then show ?thesis unfolding apply_fields by (intro filter_cong[OF refl]) simp
qed

text \<open>Applying a snapshot is idempotent: when the same snapshot comes again, the state does not change, nothing starts or
  stops, no work is newly declared unexecutable, the sequence counts as unchanged, and the same works wait for dispatch and
  acknowledgement as before.\<close>

theorem snapshot_applied_twice:
  assumes "wf_grant s" "grant_apply c g s = (o1, s1)" "grant_apply c g s1 = (o2, s2)"
  shows "s2 = s1 \<and> \<not> ao_changed o2 \<and> ao_started o2 = [] \<and> ao_stopped o2 = [] \<and> ao_unexecutable_one_shot o2 = [] \<and>
    ao_broken o2 = ao_broken o1 \<and> ao_to_ack o2 = ao_to_ack o1 \<and> ao_one_shot_to_dispatch o2 = ao_one_shot_to_dispatch o1"
proof -
  have e: "bt_wf (gs_one_shot_execution s)" using assms(1) by (simp add: wf_grant_def)
  have s: "s1 = snd (grant_apply c g s)" "s2 = snd (grant_apply c g s1)" "o1 = fst (grant_apply c g s)" "o2 = fst (grant_apply c g s1)"
    using assms by simp_all
  have same: "s2 = s1" using apply_twice[OF e, of c g] by (simp add: s)
  have works: "next_works c s1 g = gs_works s1" by (simp add: s next_works_again)
  have "broken_works c s1 g = broken_works c s g"
    unfolding broken_works_def by (simp only: standing_detail[of c s1 _ s])
  moreover note to_dispatch_again[OF assms(1), of c g]
  ultimately show ?thesis
    using same works newly_working_self[OF next_works_wf, of c s g] by (simp add: s next_works_again)
qed

theorem snapshot_applied_twice_witness:
  "ao_started (fst (grant_apply sample_contract sample_grant (snd (grant_apply sample_contract sample_grant grant_default)))) = [] \<and>
   ao_started (fst (grant_apply sample_contract sample_grant grant_default)) = [''s'']"
proof -
  have "ao_started (fst (grant_apply sample_contract sample_grant grant_default)) = [''s'']" by code_simp
  then show ?thesis
    using snapshot_applied_twice[OF wf_default surjective_pairing surjective_pairing, of sample_contract sample_grant] by simp
qed

text \<open>C20. Work in flight is never lost: whatever the next snapshot says, a one-shot work that is dispatched or running keeps its execution
  state, is not offered for dispatch again, and keeps its content if the snapshot no longer mentions it.\<close>

theorem in_flight_work_survives:
  assumes "wf_grant s" "in_flight s k"
  shows "wf_grant (snd (grant_apply c g s)) \<and> in_flight (snd (grant_apply c g s)) k \<and>
    one_shot_execution (snd (grant_apply c g s)) k = one_shot_execution s k \<and>
    k \<notin> sh_work_id ` set (ao_one_shot_to_dispatch (fst (grant_apply c g s))) \<and>
    (outstanding c g k = None \<longrightarrow> bt_get (gs_one_shot_works (snd (grant_apply c g s))) k = bt_get (gs_one_shot_works s) k \<and>
       bt_get (gs_one_shot_works s) k \<noteq> None)"
proof -
  have e: "bt_wf (gs_one_shot_execution s)" using assms(1) by (simp add: wf_grant_def)
  obtain x where x: "bt_get (gs_one_shot_execution s) k = Some x" "is_one_shot_execution_in_flight x"
    using assms(2) by (auto simp: in_flight_def split: option.splits)
  then have ex: "execution_of s k = x" "x \<noteq> ONE_SHOT_UNEXECUTED"
    by (auto simp: execution_of_def is_one_shot_execution_in_flight_def ONE_SHOT_UNEXECUTED_def)
  have "one_shot_execution (snd (grant_apply c g s)) k = one_shot_execution s k"
    using x ex assms(2) by (simp add: one_shot_execution_def apply_execution[OF e])
  moreover have "k \<notin> sh_work_id ` set (ao_one_shot_to_dispatch (fst (grant_apply c g s)))" using ex by auto
  moreover have "bt_get (gs_one_shot_works s) k \<noteq> None" using wf_grant_keys[OF assms(1), of k] x by simp
  ultimately show ?thesis
    using wf_apply[OF assms(1)] in_flight_again[OF e] assms(2) apply_one_shot_works[OF e, of c g k] by simp
qed

theorem in_flight_work_survives_witness:
  "in_flight (snd (grant_apply sample_contract (sample_grant\<lparr>wg_one_shot := []\<rparr>)
     (ww_runtime (refresh_work_grant sample_env fresh_world)))) ''u''"
proof -
  have "in_flight (ww_runtime (refresh_work_grant sample_env fresh_world)) ''u''" by code_simp
  moreover have "wf_grant (ww_runtime (refresh_work_grant sample_env fresh_world))"
    by (cases rule: refresh_cases[of sample_env fresh_world]) (auto intro!: applied_wf simp: fresh_world_def wf_default)
  ultimately show ?thesis using in_flight_work_survives by blast
qed

text \<open>What is collected depends on the last snapshot only: after applying it, the log inputs, the exporter runs, the metrics interval and
  the unsupported units are the same from whatever state the agent started.\<close>

theorem tasks_follow_snapshot:
  "log_inputs c (snd (grant_apply c g s)) = log_inputs c (snd (grant_apply c g t)) \<and>
   exporter_runs c (snd (grant_apply c g s)) = exporter_runs c (snd (grant_apply c g t)) \<and>
   metrics_interval c (snd (grant_apply c g s)) = metrics_interval c (snd (grant_apply c g t)) \<and>
   unsupported_units c (snd (grant_apply c g s)) = unsupported_units c (snd (grant_apply c g t))"
  using working_specs_of_grant[of c g s t]
  by (simp add: log_inputs_def exporter_runs_def metrics_interval_def unsupported_units_def)

text \<open>Acknowledgements are exact: after a snapshot a version is to be acknowledged if and only if the snapshot grants the
  work in that version with a readable specification and the agent has not acknowledged that version of it already.\<close>

theorem acknowledgements_exact:
  "(k, v) \<in> set (ao_to_ack (fst (grant_apply c g s))) \<longleftrightarrow>
    (\<exists>w. granted g k = Some w \<and> sw_plan_version w = v \<and> (\<exists>spec. wc_parse c (sw_spec w) = Inr spec) \<and>
      \<not> (\<exists>old. bt_get (gs_works s) k = Some old \<and> wa_plan_version old = v \<and> wa_acked_plan_version old = Some v))"
proof -
  define acked where
    "acked \<longleftrightarrow> (\<exists>old. bt_get (gs_works s) k = Some old \<and> wa_plan_version old = v \<and> wa_acked_plan_version old = Some v)"
  have ack: "previous_ack s w = Some v \<longleftrightarrow> acked" if "granted g k = Some w" "sw_plan_version w = v" for w
    using that granted_id[OF that(1)] by (auto simp: acked_def previous_ack_def split: option.splits if_splits)
  have readable: "wa_spec (apply_standing c s w) \<noteq> None \<longleftrightarrow> (\<exists>spec. wc_parse c (sw_spec w) = Inr spec)" for w
    by (cases "wc_parse c (sw_spec w)") simp_all
  have "(k, v) \<in> set (ao_to_ack (fst (grant_apply c g s))) \<longleftrightarrow>
      (\<exists>w. granted g k = Some w \<and> wa_spec (apply_standing c s w) \<noteq> None \<and> sw_plan_version w = v \<and> previous_ack s w \<noteq> Some v)"
    by (auto simp: to_ack_iff next_works_wf next_works_get simp del: standing_fields(6))
  then show ?thesis unfolding readable acked_def[symmetric] using ack by blast
qed



text \<open>C39. Every input identifier derived from granted work, of log inputs and of exporter runs, consists of ASCII letters,
  digits, \<open>-\<close> and \<open>_\<close>, whatever names the gateway sends: it is safe as a file name.\<close>

theorem input_ids_are_safe:
  "list_all (\<lambda>x. list_all is_token_char (li_input_id (wl_input x))) (log_inputs c s) \<and>
   list_all (\<lambda>x. list_all is_token_char (wx_input_id x)) (exporter_runs c s)"
proof -
  have safe: "list_all is_token_char (safe_token raw)" for raw
    by (induction raw) (auto simp: safe_token_def is_token_char_def)
  have fixed: "list_all is_token_char ''work-''" "list_all is_token_char ''-''" "list_all is_token_char ''-exporter''"
    by (simp_all add: is_token_char_def Let_def)
  have "list_all is_token_char (li_input_id (wl_input x))" if "x \<in> set (unit_log_inputs c k f u)" for x k f u
    using that safe index_suffix_safe fixed by (auto simp: unit_log_inputs_def Let_def split: if_splits)
  moreover have "list_all is_token_char (wx_input_id x)" if "x \<in> set (unit_exporter_runs c k f u)" for x k f u
    using that safe index_suffix_safe fixed
    by (auto simp: unit_exporter_runs_def Let_def map_filter_def split: if_splits option.splits)
  ultimately show ?thesis by (auto simp: log_inputs_def exporter_runs_def list_all_iff)
qed

subsection \<open>Where the code departs from its intention\<close>

text \<open>The copy kept for the way back is only made if there is none yet.  A different file of that name, such as the rest of
  an interrupted copy, is what comes back, and the return counts as successful.\<close>

lemma stale_backup_comes_back:
  assumes n: "is_known_binary n" and old: "bins n = Some old" and stale: "bins (bak n v) = Some stale"
    and "ue_install e (new_file n) = CmdOk" "ue_mv e (new_file n)" "ue_install e (rollback_file n) = CmdOk" "ue_mv e (rollback_file n)"
  shows "\<exists>bins1 bins2. install_binaries e v False [\<lparr>sb_name = n, sb_content = x\<rparr>] [] bins =
      (Inr [\<lparr>bk_installed = n, bk_backup = bak n v, bk_existed = True\<rparr>], bins1) \<and>
    restore_backups e [\<lparr>bk_installed = n, bk_backup = bak n v, bk_existed = True\<rparr>] bins1 = (Inr (), bins2) \<and> bins2 n = Some stale"
  using assms
  by (simp add: install_attempt_def move_file_def restore_one_def Let_def)

text \<open>An upgrader that ends before it has written its first record leaves its work in flight, and the daemon starts no upgrade
  any more: not in this run of refreshes, however long.\<close>

lemma upgrade_stuck_without_record:
  assumes "wf_grant (ww_runtime w)" "in_flight (ww_runtime w) k"
    and "\<forall>e\<in>set es. \<forall>rec. xe_upgrade_file e = Present rec \<longrightarrow> ur_work_id rec \<noteq> k"
  shows "in_flight (ww_runtime (fold refresh_work_grant es w)) k \<and> ww_launched (fold refresh_work_grant es w) = ww_launched w"
  using assms
proof (induction es arbitrary: w)
  case (Cons e es)
  have "wf_grant (ww_runtime (refresh_work_grant e w)) \<and> in_flight (ww_runtime (refresh_work_grant e w)) k \<and>
      ww_launched (refresh_work_grant e w) = ww_launched w"
  proof (cases rule: refresh_cases[of e w])
    case skipped then show ?thesis using Cons.prems by auto
  next
    case (applied g)
    let ?w = "w\<lparr>ww_last_fetch := Some (xe_instant_ms e)\<rparr>"
    have "wf_grant (ww_runtime ?w)" "in_flight (ww_runtime ?w) k" using Cons.prems by simp_all
    from applied_stuck[OF this, of e g] applied_wf[OF this(1), of e g] show ?thesis
      using Cons.prems(3) by (simp add: applied(2))
  qed
  with Cons.IH[of "refresh_work_grant e w"] Cons.prems(3) show ?case by simp
qed simp

text \<open>Two inputs of one work can have the same identifier.\<close>

lemma input_ids_collide:
  "\<exists>u1 u2 x. wu_unit_id u1 \<noteq> wu_unit_id u2 \<and>
     x \<in> li_input_id ` wl_input ` set (unit_log_inputs sample_contract ''w'' ''f'' u1) \<and>
     x \<in> li_input_id ` wl_input ` set (unit_log_inputs sample_contract ''w'' ''f'' u2)"
proof -
  let ?s = "\<lambda>p. \<lparr>ws_kind = ''FileGlob'', ws_target = p, ws_multiline = [], ws_exclude_globs = [], ws_filters = \<lparr>cf_namespace_in = [], cf_pod_not_in = [], cf_name_in = [], cf_name_not_in = []\<rparr>, ws_drop_if_contains = []\<rparr>"
  let ?u1 = "\<lparr>wu_unit_id = ''b-1'', wu_capability = ''collect_logs'', wu_sources = [?s ''/x'']\<rparr>"
  let ?u2 = "\<lparr>wu_unit_id = ''b'', wu_capability = ''collect_logs'', wu_sources = [?s ''/y'', ?s ''/z'']\<rparr>"
  have "wu_unit_id ?u1 \<noteq> wu_unit_id ?u2" "''work-f-b-1'' \<in> set (map (\<lambda>i. li_input_id (wl_input i)) (unit_log_inputs sample_contract ''w'' ''f'' ?u1))"
    "''work-f-b-1'' \<in> set (map (\<lambda>i. li_input_id (wl_input i)) (unit_log_inputs sample_contract ''w'' ''f'' ?u2))"
    by code_simp+
  then show ?thesis by (intro exI[of _ ?u1] exI[of _ ?u2] exI[of _ "''work-f-b-1''"]) (simp add: image_image)
qed

text \<open>The list of unsupported units in the outcome of a snapshot is always empty.\<close>

lemma unsupported_never_reported: "ao_unsupported (fst (grant_apply c g s)) = []"
  by (simp add: grant_apply_def Let_def one_shot_fold)

end
