(* ===== verification/Investigate.thy ===== *)
theory Investigate
  imports Json
begin

text \<open>
  Investigation reports: the request of \<open>src/investigate.rs\<close>, its reports with their verdict, summary and JSON form, the body
  that goes over the data plane, and the redaction of \<open>src/investigate_safety.rs\<close> that every report passes on the way out.

  A policy holds its compiled rules; what a compiled pattern matches is decided by the regex library and is part of the
  policy.  Texts that go into a report are written as their UTF-8 bytes; texts of errors and of violations are shortened.
\<close>

subsection \<open>Requests\<close>

definition TOPIC_DISK :: string where "TOPIC_DISK = ''disk''"

definition TOPICS :: "string list" where
  "TOPICS = [TOPIC_DISK, ''load'', ''accounts'', ''persistence'', ''exposure'', ''telemetry-health'']"

definition DEFAULT_TOP :: nat where "DEFAULT_TOP = 10"
definition MAX_TOP :: nat where "MAX_TOP = 50"
definition DEFAULT_DEPTH :: nat where "DEFAULT_DEPTH = 16"
definition MAX_DEPTH :: nat where "MAX_DEPTH = 64"
definition DEFAULT_MAX_SCAN_SECONDS :: nat where "DEFAULT_MAX_SCAN_SECONDS = 120"
definition MAX_SCAN_SECONDS :: nat where "MAX_SCAN_SECONDS = 300"

record investigate_request =
  iq_topic :: string
  iq_path :: "string option"
  iq_top :: nat
  iq_min_size :: nat
  iq_depth :: nat
  iq_max_seconds :: nat

definition investigate_default :: investigate_request where
  "investigate_default = \<lparr>iq_topic = TOPIC_DISK, iq_path = None, iq_top = DEFAULT_TOP, iq_min_size = 0,
     iq_depth = DEFAULT_DEPTH, iq_max_seconds = DEFAULT_MAX_SCAN_SECONDS\<rparr>"

definition for_topic :: "string \<Rightarrow> string + investigate_request" where
  "for_topic topic = (let topic = trim topic in
     if topic = [] then Inr investigate_default
     else if topic \<notin> set TOPICS then Inl (''unknown investigation topic '' @ topic)
     else Inr (investigate_default\<lparr>iq_topic := topic\<rparr>))"

definition clamp :: "nat \<Rightarrow> nat \<Rightarrow> nat \<Rightarrow> nat" where
  "clamp lo hi x = (if x < lo then lo else if hi < x then hi else x)"

definition normalize :: "investigate_request \<Rightarrow> investigate_request" where
  "normalize r = r\<lparr>iq_top := clamp 1 MAX_TOP (iq_top r), iq_depth := clamp 1 MAX_DEPTH (iq_depth r),
     iq_max_seconds := clamp 1 MAX_SCAN_SECONDS (iq_max_seconds r)\<rparr>"

definition from_params :: "(string \<Rightarrow> string + json) \<Rightarrow> string \<Rightarrow> string + investigate_request" where
  "from_params parse params = (let params = trim params in
     if params = [] then Inr investigate_default
     else (case parse params of
         Inl err \<Rightarrow> Inl (''investigate params: '' @ err)
       | Inr value \<Rightarrow> (case as_object value of
           None \<Rightarrow> Inl ''investigate params must be an object''
         | Some obj \<Rightarrow> (case for_topic (unwrap_or TOPIC_DISK (and_then (bt_get obj ''topic'') as_str)) of
             Inl err \<Rightarrow> Inl err
           | Inr request \<Rightarrow>
               (let r1 = (case and_then (bt_get obj ''path'') as_str of
                      Some path \<Rightarrow> if starts_with ''/'' (trim path) then request\<lparr>iq_path := Some (trim path)\<rparr> else request
                    | None \<Rightarrow> request);
                    r2 = (case and_then (bt_get obj ''top'') as_u64 of Some n \<Rightarrow> r1\<lparr>iq_top := n\<rparr> | None \<Rightarrow> r1);
                    r3 = (case and_then (bt_get obj ''min_size'') as_u64 of Some n \<Rightarrow> r2\<lparr>iq_min_size := n\<rparr> | None \<Rightarrow> r2);
                    r4 = (case and_then (bt_get obj ''depth'') as_u64 of Some n \<Rightarrow> r3\<lparr>iq_depth := n\<rparr> | None \<Rightarrow> r3);
                    r5 = (case and_then (bt_get obj ''max_seconds'') as_u64 of Some n \<Rightarrow> r4\<lparr>iq_max_seconds := n\<rparr> | None \<Rightarrow> r4)
                in Inr (normalize r5))))))"

subsection \<open>Policy\<close>

record redaction_rule =
  rr_id :: string
  rr_reason :: string
  rr_regex :: "string \<Rightarrow> bool"

record envelope =
  ev_top_keys :: "string list"
  ev_finding_keys :: "string list"
  ev_row_keys :: "string list"
  ev_summary_keys :: "string list"
  ev_report_schema :: "string \<Rightarrow> bool"

record redaction_policy =
  po_version :: nat
  po_schema_prefix :: string
  po_envelope :: envelope
  po_topics :: "string list btree"
  po_value_rules :: "redaction_rule list"
  po_key_rules :: "redaction_rule list"

record rule_file =
  rf_id :: string
  rf_pattern :: string
  rf_reason :: string

record envelope_file =
  ef_top_keys :: "string list"
  ef_finding_keys :: "string list"
  ef_row_keys :: "string list"
  ef_summary_keys :: "string list"
  ef_report_schema_pattern :: string

record policy_file =
  pf_version :: nat
  pf_schema_prefix :: string
  pf_envelope :: envelope_file
  pf_topics :: "string list btree"
  pf_forbidden_key_names :: "rule_file list"
  pf_value_rules :: "rule_file list"

text \<open>The rules of one list, with the identifiers seen so far.\<close>

fun compile_rules :: "(string \<Rightarrow> string + (string \<Rightarrow> bool)) \<Rightarrow> string \<Rightarrow> rule_file list \<Rightarrow> unit btree \<Rightarrow>
    string + (redaction_rule list \<times> unit btree)" where
  "compile_rules regex kind [] seen = Inr ([], seen)"
| "compile_rules regex kind (rule # rules) seen =
    (if bt_contains seen (rf_id rule) then Inl (''duplicate rule id: '' @ rf_id rule)
     else (case regex (rf_pattern rule) of
         Inl err \<Rightarrow> Inl (kind @ '' '' @ rf_id rule @ '': '' @ err)
       | Inr re \<Rightarrow> (case compile_rules regex kind rules (bt_insert (rf_id rule) () seen) of
           Inl err \<Rightarrow> Inl err
         | Inr (rs, seen') \<Rightarrow> Inr (\<lparr>rr_id = rf_id rule, rr_reason = rf_reason rule, rr_regex = re\<rparr> # rs, seen'))))"

definition from_toml :: "(string \<Rightarrow> string + policy_file) \<Rightarrow> (string \<Rightarrow> string + (string \<Rightarrow> bool)) \<Rightarrow> string \<Rightarrow> string + redaction_policy" where
  "from_toml parse regex text = (case parse text of
      Inl err \<Rightarrow> Inl (''parse: '' @ err)
    | Inr f \<Rightarrow>
        if pf_version f \<noteq> 1 then Inl ''unsupported version''
        else if pf_topics f = [] then Inl ''no topics''
        else (case compile_rules regex ''value_rules'' (pf_value_rules f) [] of
            Inl err \<Rightarrow> Inl err
          | Inr (value_rules, seen) \<Rightarrow> (case compile_rules regex ''forbidden_key_names'' (pf_forbidden_key_names f) seen of
              Inl err \<Rightarrow> Inl err
            | Inr (key_rules, _) \<Rightarrow>
                if list_ex (\<lambda>(topic, id_prefixes). id_prefixes = []) (pf_topics f) then Inl ''topic without id_prefixes''
                else (case regex (ef_report_schema_pattern (pf_envelope f)) of
                    Inl err \<Rightarrow> Inl (''report_schema_pattern: '' @ err)
                  | Inr re \<Rightarrow> Inr \<lparr>po_version = pf_version f, po_schema_prefix = pf_schema_prefix f,
                      po_envelope = \<lparr>ev_top_keys = ef_top_keys (pf_envelope f), ev_finding_keys = ef_finding_keys (pf_envelope f),
                        ev_row_keys = ef_row_keys (pf_envelope f), ev_summary_keys = ef_summary_keys (pf_envelope f),
                        ev_report_schema = re\<rparr>,
                      po_topics = bt_insert_all (pf_topics f) [], po_value_rules = value_rules, po_key_rules = key_rules\<rparr>))))"

definition value_rule :: "redaction_policy \<Rightarrow> string \<Rightarrow> redaction_rule option" where
  "value_rule p text = find (\<lambda>rule. rr_regex rule text) (po_value_rules p)"

definition key_rule :: "redaction_policy \<Rightarrow> string \<Rightarrow> redaction_rule option" where
  "key_rule p key = find (\<lambda>rule. rr_regex rule key) (po_key_rules p)"

subsection \<open>Redaction\<close>

definition redacted :: "redaction_rule \<Rightarrow> string" where
  "redacted rule = ''[redacted:'' @ rr_id rule @ '']''"

definition sanitize_text :: "redaction_policy \<Rightarrow> string \<Rightarrow> string" where
  "sanitize_text p text = (case value_rule p text of Some rule \<Rightarrow> redacted rule | None \<Rightarrow> text)"

text \<open>The value after the walk and the number of fields replaced.\<close>

fun walk_sanitize :: "redaction_policy \<Rightarrow> json \<Rightarrow> json \<times> nat" where
  "walk_sanitize p (JStr text) = (case value_rule p text of
      Some rule \<Rightarrow> (JStr (redacted rule), 1)
    | None \<Rightarrow> (JStr text, 0))"
| "walk_sanitize p (JArr items) =
    (let rs = map (walk_sanitize p) items in (JArr (map fst rs), sum_list (map snd rs)))"
| "walk_sanitize p (JObj m) =
    (let rs = map (\<lambda>(key, child). case key_rule p key of
           Some rule \<Rightarrow> ((key, JStr (redacted rule)), 1)
         | None \<Rightarrow> ((key, fst (walk_sanitize p child)), snd (walk_sanitize p child))) m
     in (JObj (map fst rs), sum_list (map snd rs)))"
| "walk_sanitize p JNull = (JNull, 0)"
| "walk_sanitize p (JBool b) = (JBool b, 0)"
| "walk_sanitize p (JInt n) = (JInt n, 0)"
| "walk_sanitize p (JFloat f) = (JFloat f, 0)"

definition sanitize_value :: "redaction_policy \<Rightarrow> json \<Rightarrow> json \<times> nat" where
  "sanitize_value p value = walk_sanitize p value"

subsection \<open>Checking a report\<close>

record violation =
  vi_path :: string
  vi_rule :: string
  vi_reason :: string

definition violation_new :: "string \<Rightarrow> string \<Rightarrow> string \<Rightarrow> violation" where
  "violation_new path rule reason = \<lparr>vi_path = path, vi_rule = rule, vi_reason = reason\<rparr>"

definition check_keys :: "json btree \<Rightarrow> string list \<Rightarrow> string \<Rightarrow> violation list" where
  "check_keys m allowed path = map (\<lambda>key. violation_new (path @ ''.'' @ key) ''schema.unknown_key'' key)
     (filter (\<lambda>key. key \<notin> set allowed) (bt_keys m))"

definition index_path :: "string \<Rightarrow> nat \<Rightarrow> string" where
  "index_path path i = path @ ''['' @ show_nat i @ '']''"

function (sequential) scan_values :: "redaction_policy \<Rightarrow> string \<Rightarrow> json \<Rightarrow> violation list" where
  "scan_values p path (JStr text) = (case value_rule p text of
      Some rule \<Rightarrow> [violation_new path (rr_id rule) (rr_reason rule)]
    | None \<Rightarrow> [])"
| "scan_values p path (JArr items) =
    concat (map (\<lambda>(i, item). scan_values p (index_path path i) item) (zip [0..<length items] items))"
| "scan_values p path (JObj m) = concat (map (\<lambda>(key, child).
      (case key_rule p key of
         Some rule \<Rightarrow> [violation_new (path @ ''.'' @ key) (rr_id rule) (rr_reason rule)]
       | None \<Rightarrow> []) @ scan_values p (path @ ''.'' @ key) child) m)"
| "scan_values p path _ = []"
  by pat_completeness auto
termination
proof (relation "measure (\<lambda>(p, path, v). size v)")
  fix p path items x i and item :: json
  assume "x \<in> set (zip [0..<length items] items)" "(i, item) = x"
  then have "item \<in> set items" by (metis set_zip_rightD)
  then show "((p, index_path path i, item), (p, path, JArr items)) \<in> measure (\<lambda>(p, path, v). size v)"
    by (simp add: less_Suc_eq_le size_list_estimation')
next
  fix p path x key and m :: "(string \<times> json) list" and child :: json
  assume "x \<in> set m" "(key, child) = x"
  then have "size child < size (JObj m)" by (auto simp: less_Suc_eq_le intro!: size_list_estimation')
  then show "((p, path @ ''.'' @ key, child), (p, path, JObj m)) \<in> measure (\<lambda>(p, path, v). size v)" by simp
qed simp

definition scan_rows :: "redaction_policy \<Rightarrow> string \<Rightarrow> json btree \<Rightarrow> violation list" where
  "scan_rows p path finding = (case and_then (bt_get finding ''rows'') as_array of
      None \<Rightarrow> []
    | Some rows \<Rightarrow> concat (map (\<lambda>(i, row). case as_object row of
        Some m \<Rightarrow> check_keys m (ev_row_keys (po_envelope p)) (index_path (path @ ''.rows'') i)
      | None \<Rightarrow> [violation_new (index_path (path @ ''.rows'') i) ''shape.row_not_object'' []]) (zip [0..<length rows] rows)))"

definition scan_finding :: "redaction_policy \<Rightarrow> string list option \<Rightarrow> string \<Rightarrow> json \<Rightarrow> violation list" where
  "scan_finding p id_prefixes path value = (case as_object value of
      None \<Rightarrow> [violation_new path ''shape.finding_not_object'' []]
    | Some finding \<Rightarrow>
        check_keys finding (ev_finding_keys (po_envelope p)) path @
        (case (and_then (bt_get finding ''id'') as_str, id_prefixes) of
           (Some fid, Some id_prefixes) \<Rightarrow>
             (if list_ex (\<lambda>prefix. starts_with prefix fid) id_prefixes then [] else [violation_new (path @ ''.id'') ''schema.id_prefix'' fid])
         | _ \<Rightarrow> []) @
        scan_rows p path finding)"

definition scan :: "redaction_policy \<Rightarrow> json \<Rightarrow> violation list" where
  "scan p value = (case as_object value of
      None \<Rightarrow> [violation_new ''$'' ''shape.not_object'' []]
    | Some report \<Rightarrow>
        check_keys report (ev_top_keys (po_envelope p)) ''$'' @
        map (\<lambda>key. violation_new (''$.'' @ key) ''shape.missing_key'' key)
          (filter (\<lambda>key. \<not> bt_contains report key) [''topic'', ''report_schema'', ''findings'']) @
        (case and_then (bt_get report ''report_schema'') as_str of
           None \<Rightarrow> []
         | Some schema \<Rightarrow>
             if \<not> ev_report_schema (po_envelope p) schema then [violation_new ''$.report_schema'' ''schema.report_schema'' schema]
             else if \<not> starts_with (po_schema_prefix p @ ''.'') schema then [violation_new ''$.report_schema'' ''schema.prefix'' schema]
             else []) @
        (let topic = unwrap_or [] (and_then (bt_get report ''topic'') as_str); id_prefixes = bt_get (po_topics p) topic in
         (if id_prefixes = None then [violation_new ''$.topic'' ''schema.unknown_topic'' topic] else []) @
         (case bt_get report ''findings'' of
            Some (JArr findings) \<Rightarrow>
              concat (map (\<lambda>(i, finding). scan_finding p id_prefixes (index_path ''$.findings'' i) finding) (zip [0..<length findings] findings))
          | Some _ \<Rightarrow> [violation_new ''$.findings'' ''shape.findings_not_array'' []]
          | None \<Rightarrow> [])) @
        (case and_then (bt_get report ''summary'') as_object of
           Some summary \<Rightarrow> check_keys summary (ev_summary_keys (po_envelope p)) ''$.summary''
         | None \<Rightarrow> []) @
        scan_values p ''$'' value)"

subsection \<open>Texts\<close>

definition utf8 :: "nat list \<Rightarrow> string" where
  "utf8 = map char_of"

definition txt_investigation :: string where "txt_investigation = utf8 [32, 232, 176, 131, 230, 159, 165, 239, 188, 154]"
definition txt_all_normal :: string where
  "txt_all_normal = utf8 [229, 133, 168, 233, 131, 168, 230, 173, 163, 229, 184, 184, 239, 188, 136]"
definition txt_items_end :: string where "txt_items_end = utf8 [32, 233, 161, 185, 239, 188, 137]"
definition txt_evidence :: string where "txt_evidence = utf8 [32, 233, 161, 185, 232, 175, 129, 230, 141, 174]"
definition txt_among :: string where "txt_among = utf8 [239, 188, 140, 229, 133, 182, 228, 184, 173, 32]"
definition txt_no_judgement :: string where
  "txt_no_judgement = utf8 [239, 188, 136, 230, 156, 172, 232, 176, 131, 230, 159, 165, 228, 184, 141, 229, 129, 154, 229, 174, 137, 229, 133, 168, 229, 136, 164, 229, 174, 154, 239, 188, 137]"
definition txt_ok :: string where "txt_ok = utf8 [32, 233, 161, 185, 230, 173, 163, 229, 184, 184]"
definition txt_warn :: string where "txt_warn = utf8 [32, 233, 161, 185, 232, 173, 166, 229, 145, 138]"
definition txt_fail :: string where "txt_fail = utf8 [32, 233, 161, 185, 229, 164, 177, 232, 180, 165]"
definition txt_unknown :: string where
  "txt_unknown = utf8 [32, 233, 161, 185, 230, 151, 160, 230, 179, 149, 229, 136, 164, 229, 174, 154]"
definition txt_first :: string where
  "txt_first = utf8 [239, 188, 155, 233, 166, 150, 232, 166, 129, 233, 151, 174, 233, 162, 152, 239, 188, 154]"
definition txt_semi :: string where "txt_semi = utf8 [239, 188, 155]"
definition txt_open :: string where "txt_open = utf8 [239, 188, 136]"
definition txt_close :: string where "txt_close = utf8 [239, 188, 137]"
definition txt_colon :: string where "txt_colon = utf8 [239, 188, 154]"
definition txt_comma :: string where "txt_comma = utf8 [239, 188, 140]"
definition txt_ellipsis :: string where "txt_ellipsis = utf8 [226, 128, 166]"

text \<open>Characters of a UTF-8 text: all bytes but the continuation bytes begin one.\<close>

definition is_continuation :: "char \<Rightarrow> bool" where
  "is_continuation c \<longleftrightarrow> 128 \<le> (of_char c :: nat) \<and> (of_char c :: nat) < 192"

definition char_count :: "string \<Rightarrow> nat" where
  "char_count s = length (filter (\<lambda>c. \<not> is_continuation c) s)"

fun take_chars :: "nat \<Rightarrow> string \<Rightarrow> string" where
  "take_chars n [] = []"
| "take_chars n (c # s) = (if is_continuation c then c # take_chars n s
     else if n = 0 then [] else c # take_chars (n - 1) s)"

definition truncate_chars :: "string \<Rightarrow> nat \<Rightarrow> string" where
  "truncate_chars text limit = (if char_count text \<le> limit then text else take_chars (limit - 1) text @ txt_ellipsis)"

fun join :: "string \<Rightarrow> string list \<Rightarrow> string" where
  "join sep [] = []"
| "join sep [x] = x"
| "join sep (x # xs) = x @ sep @ join sep xs"

subsection \<open>Reports\<close>

datatype check_status = StatusOk | StatusWarn | StatusFail | StatusUnknown

fun status_str :: "check_status \<Rightarrow> string" where
  "status_str StatusOk = ''ok''"
| "status_str StatusWarn = ''warn''"
| "status_str StatusFail = ''fail''"
| "status_str StatusUnknown = ''unknown''"

record row =
  ro_label :: string
  ro_value :: string
  ro_note :: string

record coverage =
  cv_checked :: nat
  cv_denied :: nat
  cv_skipped :: nat

record finding =
  fi_id :: string
  fi_status :: check_status
  fi_title :: string
  fi_detail :: string
  fi_hint :: "string option"
  fi_rows :: "row list"
  fi_coverage :: coverage
  fi_limits :: "string list"

record report =
  rp_topic :: string
  rp_observed_at :: string
  rp_findings :: "finding list"

definition row_new :: "redaction_policy \<Rightarrow> string \<Rightarrow> string \<Rightarrow> string \<Rightarrow> row" where
  "row_new p label val note = \<lparr>ro_label = sanitize_text p label, ro_value = sanitize_text p val, ro_note = sanitize_text p note\<rparr>"

definition finding_new :: "redaction_policy \<Rightarrow> string \<Rightarrow> check_status \<Rightarrow> string \<Rightarrow> string \<Rightarrow> finding" where
  "finding_new p fid status title detail = \<lparr>fi_id = fid, fi_status = status, fi_title = sanitize_text p title,
     fi_detail = sanitize_text p detail, fi_hint = None, fi_rows = [],
     fi_coverage = \<lparr>cv_checked = 0, cv_denied = 0, cv_skipped = 0\<rparr>, fi_limits = []\<rparr>"

definition finding_hint :: "redaction_policy \<Rightarrow> string \<Rightarrow> finding \<Rightarrow> finding" where
  "finding_hint p hint f = f\<lparr>fi_hint := Some (sanitize_text p hint)\<rparr>"

definition coverage_is_empty :: "coverage \<Rightarrow> bool" where
  "coverage_is_empty c \<longleftrightarrow> cv_checked c = 0 \<and> cv_denied c = 0 \<and> cv_skipped c = 0"

definition EVIDENCE_ONLY_TOPICS :: "string list" where "EVIDENCE_ONLY_TOPICS = [''exposure'']"

definition status_count :: "report \<Rightarrow> check_status \<Rightarrow> nat" where
  "status_count r status = length (filter (\<lambda>f. fi_status f = status) (rp_findings r))"

definition judged :: "report \<Rightarrow> bool" where
  "judged r \<longleftrightarrow> rp_topic r \<notin> set EVIDENCE_ONLY_TOPICS"

definition report_limits :: "report \<Rightarrow> string list" where
  "report_limits r = fold (\<lambda>limit out. if limit \<in> set out then out else out @ [limit]) (concat (map fi_limits (rp_findings r))) []"

definition overall :: "report \<Rightarrow> check_status" where
  "overall r = (if 0 < status_count r StatusFail then StatusFail
     else if 0 < status_count r StatusWarn then StatusWarn
     else if 0 < status_count r StatusUnknown then StatusUnknown else StatusOk)"

definition exit_code :: "report \<Rightarrow> int" where
  "exit_code r = (if 0 < status_count r StatusFail then 1 else 0)"

definition verdict :: "report \<Rightarrow> string" where
  "verdict r = (let ok = status_count r StatusOk; warn = status_count r StatusWarn;
       failed = status_count r StatusFail; unknown = status_count r StatusUnknown in
     if \<not> judged r
     then (let extra = (if 0 < warn then [show_nat warn @ txt_warn] else []) @ (if 0 < failed then [show_nat failed @ txt_fail] else []) @
                (if 0 < unknown then [show_nat unknown @ txt_unknown] else [])
           in show_nat (length (rp_findings r)) @ txt_evidence @ (if extra = [] then [] else txt_among @ join '' / '' extra) @ txt_no_judgement)
     else if failed = 0 \<and> warn = 0 \<and> unknown = 0 then txt_all_normal @ show_nat ok @ txt_items_end
     else show_nat ok @ txt_ok @ '' / '' @ show_nat warn @ txt_warn @ '' / '' @ show_nat failed @ txt_fail @
       (if 0 < unknown then '' / '' @ show_nat unknown @ txt_unknown else []) @
       (case find (\<lambda>f. fi_status f = StatusFail) (rp_findings r) of Some first \<Rightarrow> txt_first @ fi_title first | None \<Rightarrow> []))"

fun first_some :: "('a \<Rightarrow> 'b option) \<Rightarrow> 'a list \<Rightarrow> 'b option" where
  "first_some f [] = None"
| "first_some f (x # xs) = (case f x of Some y \<Rightarrow> Some y | None \<Rightarrow> first_some f xs)"

definition evidence :: "report \<Rightarrow> finding option" where
  "evidence r = (case first_some (\<lambda>sfx. find (\<lambda>f. ends_with sfx (fi_id f) \<and> fi_rows f \<noteq> []) (rp_findings r))
       [''.largest_dirs'', ''.top_files'', ''.top_dirs''] of
      Some f \<Rightarrow> Some f
    | None \<Rightarrow> find (\<lambda>f. fi_rows f \<noteq> []) (rp_findings r))"

definition report_summary :: "report \<Rightarrow> string" where
  "report_summary r = truncate_chars (rp_topic r @ txt_investigation @ verdict r @
     concat (map (\<lambda>f. if fi_status f \<noteq> StatusOk then txt_semi @ fi_title f @ txt_open @ fi_detail f @ txt_close else []) (rp_findings r)) @
     (case evidence r of
        None \<Rightarrow> []
      | Some f \<Rightarrow>
          (let rows = map (\<lambda>row. ro_label row @ '' '' @ ro_value row) (take 3 (fi_rows f))
           in if rows = [] then [] else txt_semi @ fi_title f @ txt_colon @ join txt_comma rows))) 600"

definition report_schema :: "report \<Rightarrow> string" where
  "report_schema r = ''wist.investigation.'' @ rp_topic r @ ''/v1''"

definition json_obj :: "(string \<times> json) list \<Rightarrow> json" where
  "json_obj kvs = JObj (bt_insert_all kvs [])"

definition json_opt :: "string option \<Rightarrow> json" where
  "json_opt x = (case x of Some s \<Rightarrow> JStr s | None \<Rightarrow> JNull)"

definition row_json :: "row \<Rightarrow> json" where
  "row_json row = json_obj [(''label'', JStr (ro_label row)), (''value'', JStr (ro_value row)), (''note'', JStr (ro_note row))]"

definition finding_json :: "finding \<Rightarrow> json" where
  "finding_json f = json_obj ([(''id'', JStr (fi_id f)), (''status'', JStr (status_str (fi_status f))), (''title'', JStr (fi_title f)),
     (''detail'', JStr (fi_detail f)), (''hint'', json_opt (fi_hint f)), (''rows'', JArr (map row_json (fi_rows f)))] @
     (if coverage_is_empty (fi_coverage f) then []
      else [(''coverage'', json_obj [(''checked'', JInt (int (cv_checked (fi_coverage f)))), (''denied'', JInt (int (cv_denied (fi_coverage f)))),
             (''skipped'', JInt (int (cv_skipped (fi_coverage f))))])]))"

record host_facts =
  hf_version :: string
  hf_boot_id :: "string option"
  hf_boot_time :: "string option"

definition report_json :: "host_facts \<Rightarrow> report \<Rightarrow> json" where
  "report_json h r = json_obj ([(''command'', JStr ''investigate''), (''topic'', JStr (rp_topic r)), (''report_schema'', JStr (report_schema r)),
     (''version'', JStr (hf_version h)), (''observed_at'', JStr (rp_observed_at r)), (''boot_id'', json_opt (hf_boot_id h)),
     (''boot_time'', json_opt (hf_boot_time h)), (''judged'', JBool (judged r)), (''findings'', JArr (map finding_json (rp_findings r))),
     (''summary'', json_obj [(''ok'', JInt (int (status_count r StatusOk))), (''warn'', JInt (int (status_count r StatusWarn))),
        (''fail'', JInt (int (status_count r StatusFail))), (''unknown'', JInt (int (status_count r StatusUnknown))),
        (''overall'', JStr (status_str (overall r)))]),
     (''verdict'', JStr (verdict r))] @
     (if report_limits r = [] then [] else [(''limits'', JArr (map JStr (report_limits r)))]))"

definition to_json :: "redaction_policy \<Rightarrow> host_facts \<Rightarrow> report \<Rightarrow> json" where
  "to_json p h r = fst (sanitize_value p (report_json h r))"

definition MAX_UPLINK_BODY_BYTES :: nat where "MAX_UPLINK_BODY_BYTES = 65536"

fun json_insert :: "string \<Rightarrow> json \<Rightarrow> json \<Rightarrow> json" where
  "json_insert k v (JObj m) = JObj (bt_insert k v m)"
| "json_insert k v other = other"

fun json_remove :: "string \<Rightarrow> json \<Rightarrow> json" where
  "json_remove k (JObj m) = JObj (filter (\<lambda>(j, _). j \<noteq> k) m)"
| "json_remove k other = other"

definition map_findings :: "(json \<Rightarrow> json) \<Rightarrow> json \<Rightarrow> json" where
  "map_findings f value = (case json_get value ''findings'' of
      Some (JArr vs) \<Rightarrow> json_insert ''findings'' (JArr (map f vs)) value
    | _ \<Rightarrow> value)"

definition shorten_finding :: "json \<Rightarrow> json" where
  "shorten_finding value = (let v = json_remove ''hint'' value in
     case and_then (json_get v ''detail'') as_str of
       Some detail \<Rightarrow> json_insert ''detail'' (JStr (truncate_chars detail 240)) v
     | None \<Rightarrow> v)"

definition to_uplink_body :: "(json \<Rightarrow> string option) \<Rightarrow> redaction_policy \<Rightarrow> host_facts \<Rightarrow> string \<Rightarrow> report \<Rightarrow> string" where
  "to_uplink_body to_vec p h command_id r =
    (let v0 = json_insert ''command_id'' (JStr command_id) (to_json p h r); body0 = unwrap_or [] (to_vec v0) in
     if length body0 \<le> MAX_UPLINK_BODY_BYTES then body0
     else (let v1 = json_insert ''rows_omitted'' (JBool True) (map_findings (json_remove ''rows'') v0); body1 = unwrap_or [] (to_vec v1) in
       if length body1 \<le> MAX_UPLINK_BODY_BYTES then body1
       else unwrap_or [] (to_vec (map_findings shorten_finding v1))))"

subsection \<open>Sizes\<close>

definition lower :: "char \<Rightarrow> char" where
  "lower c = (let n = of_char c :: nat in if 65 \<le> n \<and> n \<le> 90 then char_of (n + 32) else c)"

definition is_digit_char :: "char \<Rightarrow> bool" where
  "is_digit_char c \<longleftrightarrow> 48 \<le> (of_char c :: nat) \<and> (of_char c :: nat) \<le> 57"

definition digits_value :: "string \<Rightarrow> nat" where
  "digits_value s = fold (\<lambda>c n. n * 10 + (of_char c - 48)) s 0"

definition unit_multiplier :: "string \<Rightarrow> nat option" where
  "unit_multiplier u =
    (if u \<in> {[], ''b''} then Some 1
     else if u \<in> {''k'', ''kb'', ''kib''} then Some 1024
     else if u \<in> {''m'', ''mb'', ''mib''} then Some (1024 * 1024)
     else if u \<in> {''g'', ''gb'', ''gib''} then Some (1024 * 1024 * 1024)
     else if u \<in> {''t'', ''tb'', ''tib''} then Some (1024 ^ 4)
     else None)"

definition parse_size :: "string \<Rightarrow> string + nat" where
  "parse_size text = (let text = trim text in
     if text = [] then Inl ''missing size value''
     else (let number = takeWhile is_digit_char text; u = dropWhile is_digit_char text in
       if number = [] then Inl ''invalid size''
       else if 2 ^ 64 \<le> digits_value number then Inl ''invalid size''
       else (case unit_multiplier (map lower (trim u)) of
           None \<Rightarrow> Inl ''unknown size unit''
         | Some m \<Rightarrow> if digits_value number * m < 2 ^ 64 then Inr (digits_value number * m) else Inl ''too large'')))"

subsection \<open>What redaction leaves\<close>

definition placeholders_clean :: "redaction_policy \<Rightarrow> bool" where
  "placeholders_clean p \<longleftrightarrow> list_all (\<lambda>rule. value_rule p (redacted rule) = None) (po_value_rules p @ po_key_rules p)"

text \<open>All text values of a JSON value, and all its keys.\<close>

fun json_strings :: "json \<Rightarrow> string list" where
  "json_strings (JStr s) = [s]"
| "json_strings (JArr vs) = concat (map json_strings vs)"
| "json_strings (JObj m) = concat (map (\<lambda>(k, v). json_strings v) m)"
| "json_strings _ = []"

fun json_keys :: "json \<Rightarrow> string list" where
  "json_keys (JArr vs) = concat (map json_keys vs)"
| "json_keys (JObj m) = concat (map (\<lambda>(k, v). k # json_keys v) m)"
| "json_keys _ = []"

lemma value_rule_mem: "value_rule p s = Some rule \<Longrightarrow> rule \<in> set (po_value_rules p)"
  unfolding value_rule_def by (drule find_SomeD) simp

lemma key_rule_mem: "key_rule p s = Some rule \<Longrightarrow> rule \<in> set (po_key_rules p)"
  unfolding key_rule_def by (drule find_SomeD) simp

lemma redacted_clean:
  "placeholders_clean p \<Longrightarrow> value_rule p s = Some rule \<or> key_rule p s = Some rule \<Longrightarrow> value_rule p (redacted rule) = None"
  using value_rule_mem[of p s rule] key_rule_mem[of p s rule] by (auto simp: placeholders_clean_def list_all_iff)

lemma sanitize_text_clean: "placeholders_clean p \<Longrightarrow> value_rule p (sanitize_text p s) = None"
  using redacted_clean[of p s] by (auto simp: sanitize_text_def split: option.split)

text \<open>The walk without its count.\<close>

definition san :: "redaction_policy \<Rightarrow> json \<Rightarrow> json" where
  "san p v = fst (walk_sanitize p v)"

definition san_child :: "redaction_policy \<Rightarrow> string \<Rightarrow> json \<Rightarrow> json" where
  "san_child p key child = (case key_rule p key of Some rule \<Rightarrow> JStr (redacted rule) | None \<Rightarrow> san p child)"

lemma san_simps [simp]:
  "san p (JStr s) = JStr (sanitize_text p s)" "san p (JArr vs) = JArr (map (san p) vs)"
  "san p (JObj m) = JObj (map (\<lambda>(k, v). (k, san_child p k v)) m)"
  "san p JNull = JNull" "san p (JBool b) = JBool b" "san p (JInt n) = JInt n" "san p (JFloat f) = JFloat f"
  by (auto simp: san_def san_child_def sanitize_text_def Let_def split: option.split)

lemma san_strings:
  "placeholders_clean p \<Longrightarrow> s \<in> set (json_strings (san p v)) \<Longrightarrow> value_rule p s = None"
proof (induction v rule: json_strings.induct)
  case (1 t) then show ?case by (simp add: sanitize_text_clean)
next
  case (2 vs) then show ?case by auto
next
  case (3 m)
  then obtain k v where kv: "(k, v) \<in> set m" "s \<in> set (json_strings (san_child p k v))" by auto
  show ?case
  proof (cases "key_rule p k")
    case None then show ?thesis using 3 kv by (auto simp: san_child_def)
  next
    case (Some rule) then show ?thesis using 3(2) kv redacted_clean[of p k rule] by (auto simp: san_child_def)
  qed
qed simp_all

text \<open>Everything stored under a forbidden key is a placeholder.\<close>

fun keys_masked :: "redaction_policy \<Rightarrow> json \<Rightarrow> bool" where
  "keys_masked p (JArr vs) = list_all (keys_masked p) vs"
| "keys_masked p (JObj m) = list_all (\<lambda>(k, v). case key_rule p k of Some rule \<Rightarrow> v = JStr (redacted rule) | None \<Rightarrow> keys_masked p v) m"
| "keys_masked p _ = True"

lemma san_masked: "keys_masked p (san p v)"
proof (induction p v rule: keys_masked.induct)
  case (2 p m)
  have "case key_rule p k of Some rule \<Rightarrow> san_child p k v = JStr (redacted rule) | None \<Rightarrow> keys_masked p (san_child p k v)"
    if "(k, v) \<in> set m" for k v
    using 2[OF that refl] by (auto simp: san_child_def split: option.split)
  then show ?case by (auto simp: list_all_iff)
qed (auto simp: list_all_iff)

lemma walk_keeps_keys: "\<exists>f. san p (JObj m) = JObj (map (\<lambda>(k, v). (k, f k v)) m)"
  by auto

lemma san_again: "placeholders_clean p \<Longrightarrow> san p (san p v) = san p v"
proof (induction v rule: json_strings.induct)
  case (1 t) then show ?case using sanitize_text_clean[of p t] by (simp add: sanitize_text_def[of p "sanitize_text p t"])
next
  case (3 m)
  have "san_child p k (san_child p k v) = san_child p k v" if "(k, v) \<in> set m" for k v
    using 3 that by (auto simp: san_child_def split: option.split)
  then show ?case by auto
qed simp_all

lemma unmasked_unchanged: "snd (walk_sanitize p v) = 0 \<Longrightarrow> san p v = v"
proof (induction v rule: json_strings.induct)
  case (1 t) then show ?case by (auto simp: sanitize_text_def split: option.splits)
next
  case (2 vs) then show ?case by (auto simp: Let_def intro!: map_idI)
next
  case (3 m)
  have "san_child p k v = v" if "(k, v) \<in> set m" for k v
    using 3 that by (fastforce simp: san_child_def Let_def split: option.splits)
  then show ?case by (auto intro!: map_idI)
qed simp_all

text \<open>What the scan still reports of a value is what its keys are called.\<close>

lemma scan_values_clean:
  "list_all (\<lambda>s. value_rule p s = None) (json_strings v) \<Longrightarrow> list_all (\<lambda>k. key_rule p k = None) (json_keys v) \<Longrightarrow>
   scan_values p path v = []"
proof (induction p path v rule: scan_values.induct)
  case (2 p path items)
  have "scan_values p (index_path path i) item = []" if "(i, item) \<in> set (zip [0..<length items] items)" for i item
    using 2 that set_zip_rightD[OF that] by (auto simp: list_all_iff)
  then show ?case by auto
next
  case (3 p path m)
  have "(case key_rule p key of Some rule \<Rightarrow> [violation_new (path @ ''.'' @ key) (rr_id rule) (rr_reason rule)] | None \<Rightarrow> []) @
      scan_values p (path @ ''.'' @ key) child = []" if "(key, child) \<in> set m" for key child
    using 3 that by (auto simp: list_all_iff)
  then show ?case by auto
qed (simp_all add: list_all_iff)

lemma san_keys: "list_all (\<lambda>k. key_rule p k = None) (json_keys v) \<Longrightarrow> json_keys (san p v) = json_keys v"
proof (induction v rule: json_keys.induct)
  case (1 vs)
  then have "map json_keys (map (san p) vs) = map json_keys vs" by (auto simp: list_all_iff)
  then show ?case by (simp only: san_simps json_keys.simps)
next
  case (2 m)
  have "k # json_keys (san_child p k v) = k # json_keys v" if "(k, v) \<in> set m" for k v
    using 2 that by (auto simp: list_all_iff san_child_def)
  then have "map (\<lambda>(k, v). k # json_keys v) (map (\<lambda>(k, v). (k, san_child p k v)) m) = map (\<lambda>(k, v). k # json_keys v) m" by auto
  then show ?case by (simp only: san_simps json_keys.simps)
qed (simp_all add: list_all_iff)

subsection \<open>Requests and texts\<close>

lemma clamp_bounds: "lo \<le> hi \<Longrightarrow> lo \<le> clamp lo hi x \<and> clamp lo hi x \<le> hi"
  by (simp add: clamp_def)

definition request_in_bounds :: "investigate_request \<Rightarrow> bool" where
  "request_in_bounds r \<longleftrightarrow> iq_topic r \<in> set TOPICS \<and> 1 \<le> iq_top r \<and> iq_top r \<le> 50 \<and> 1 \<le> iq_depth r \<and> iq_depth r \<le> 64 \<and>
     1 \<le> iq_max_seconds r \<and> iq_max_seconds r \<le> 300 \<and> (case iq_path r of Some path \<Rightarrow> starts_with ''/'' path | None \<Rightarrow> True)"

lemma for_topic_ok: "for_topic t = Inr r \<Longrightarrow> iq_topic r \<in> set TOPICS \<and> iq_path r = None"
  by (auto simp: for_topic_def Let_def investigate_default_def TOPICS_def split: if_splits)

lemma normalize_bounds:
  "iq_topic r \<in> set TOPICS \<Longrightarrow> (case iq_path r of Some path \<Rightarrow> starts_with ''/'' path | None \<Rightarrow> True) \<Longrightarrow> request_in_bounds (normalize r)"
  by (simp add: request_in_bounds_def normalize_def clamp_def MAX_TOP_def MAX_DEPTH_def MAX_SCAN_SECONDS_def)

lemma from_params_bounds: "from_params parse params = Inr r \<Longrightarrow> request_in_bounds r"
proof -
  assume *: "from_params parse params = Inr r"
  consider "r = investigate_default" | obj r0 where "for_topic (unwrap_or TOPIC_DISK (and_then (bt_get obj ''topic'') as_str)) = Inr r0"
      "\<exists>path. (case path of Some q \<Rightarrow> starts_with ''/'' q | None \<Rightarrow> True) \<and>
        (\<exists>a b c d. r = normalize (r0\<lparr>iq_path := path, iq_top := a, iq_min_size := b, iq_depth := c, iq_max_seconds := d\<rparr>))"
  proof (cases "trim params = []")
    case True then show thesis using * that(1) by (simp add: from_params_def)
  next
    case False
    with * obtain v obj r0 where v: "parse (trim params) = Inr v" "as_object v = Some obj"
        "for_topic (unwrap_or TOPIC_DISK (and_then (bt_get obj ''topic'') as_str)) = Inr r0"
      by (auto simp: from_params_def Let_def split: sum.splits option.splits)
    let ?path = "case and_then (bt_get obj ''path'') as_str of
        Some q \<Rightarrow> if starts_with ''/'' (trim q) then Some (trim q) else iq_path r0 | None \<Rightarrow> iq_path r0"
    have "r = normalize (r0\<lparr>iq_path := ?path, iq_top := unwrap_or (iq_top r0) (and_then (bt_get obj ''top'') as_u64),
        iq_min_size := unwrap_or (iq_min_size r0) (and_then (bt_get obj ''min_size'') as_u64),
        iq_depth := unwrap_or (iq_depth r0) (and_then (bt_get obj ''depth'') as_u64),
        iq_max_seconds := unwrap_or (iq_max_seconds r0) (and_then (bt_get obj ''max_seconds'') as_u64)\<rparr>)"
      using * False v by (auto simp: from_params_def Let_def unwrap_or_def split: option.splits)
    moreover have "case ?path of Some q \<Rightarrow> starts_with ''/'' q | None \<Rightarrow> True"
      using for_topic_ok[OF v(3)] by (auto split: option.split)
    ultimately show thesis using that(2)[OF v(3)] by blast
  qed
  then show ?thesis
  proof cases
    case 1 then show ?thesis
      by (simp add: request_in_bounds_def investigate_default_def TOPICS_def DEFAULT_TOP_def DEFAULT_DEPTH_def DEFAULT_MAX_SCAN_SECONDS_def)
  next
    case 2 then show ?thesis using for_topic_ok[OF 2(1)] by (auto intro!: normalize_bounds)
  qed
qed

lemma char_count_take: "char_count (take_chars n s) \<le> n"
  by (induction n s rule: take_chars.induct) (auto simp: char_count_def)

lemma truncate_count: "1 \<le> n \<Longrightarrow> char_count (truncate_chars s n) \<le> n"
proof -
  assume "1 \<le> n"
  moreover have "char_count txt_ellipsis = 1" by code_simp
  ultimately show ?thesis using char_count_take[of "n - 1" s] by (auto simp: truncate_chars_def char_count_def)
qed

text \<open>The text of a verdict says that all is normal only if the topic is judged and every finding is.\<close>

lemma show_nat_digit: "\<exists>c s. show_nat n = c # s \<and> is_digit_char c"
proof (induction n rule: show_nat.induct)
  case (1 n)
  have "is_digit_char (digit n)" if "n < 10" using that by (simp add: is_digit_char_def digit_def)
  with 1 show ?case by (subst show_nat.simps) auto
qed

lemma status_ok_iff: "x = StatusOk \<longleftrightarrow> x \<noteq> StatusFail \<and> x \<noteq> StatusWarn \<and> x \<noteq> StatusUnknown"
  by (cases x) auto

lemma counts_zero_iff:
  "status_count r StatusFail = 0 \<and> status_count r StatusWarn = 0 \<and> status_count r StatusUnknown = 0 \<longleftrightarrow>
   list_all (\<lambda>f. fi_status f = StatusOk) (rp_findings r)"
  by (simp add: status_count_def filter_empty_conv list_all_iff status_ok_iff) blast

lemma verdict_normal: "starts_with txt_all_normal (verdict r) \<longleftrightarrow> judged r \<and> list_all (\<lambda>f. fi_status f = StatusOk) (rp_findings r)"
proof -
  have hd: "hd txt_all_normal = CHR 0xE5" "txt_all_normal \<noteq> []" "\<not> is_digit_char (CHR 0xE5)" by code_simp+
  have other: "\<not> starts_with txt_all_normal (show_nat n @ x)" for n x
  proof
    assume "starts_with txt_all_normal (show_nat n @ x)"
    then obtain y where "show_nat n @ x = txt_all_normal @ y" by (auto simp: starts_with_def prefix_def)
    then have "hd (show_nat n @ x) = CHR 0xE5" using hd by simp
    with show_nat_digit[of n] hd(3) show False by auto
  qed
  show ?thesis
  proof (cases "judged r \<and> list_all (\<lambda>f. fi_status f = StatusOk) (rp_findings r)")
    case True then show ?thesis using counts_zero_iff[of r] by (simp add: verdict_def Let_def starts_with_def)
  next
    case False
    then have "\<exists>n x. verdict r = show_nat n @ x" using counts_zero_iff[of r] by (auto simp: verdict_def Let_def)
    then show ?thesis using False other by metis
  qed
qed

lemma overall_ok: "overall r = StatusOk \<longleftrightarrow> list_all (\<lambda>f. fi_status f = StatusOk) (rp_findings r)"
  using counts_zero_iff[of r] by (auto simp: overall_def)

subsection \<open>A redacted report passes its own check\<close>

lemma json_obj_keys:
  "k \<in> set (json_keys (json_obj kvs)) \<Longrightarrow> k \<in> fst ` set kvs \<or> (\<exists>v \<in> snd ` set kvs. k \<in> set (json_keys v))"
proof -
  assume "k \<in> set (json_keys (json_obj kvs))"
  then obtain j v where "(j, v) \<in> set (bt_insert_all kvs [])" "k = j \<or> k \<in> set (json_keys v)" by (auto simp: json_obj_def)
  with bt_insert_all_entries[of kvs "[]"] show ?thesis by force
qed

lemma bt_get_json_obj: "bt_get (bt_insert_all kvs []) k = map_of (rev kvs) k"
  by (simp add: bt_get_insert_all split: option.split)

lemma json_obj_bt_keys: "set (bt_keys (bt_insert_all kvs [])) \<subseteq> fst ` set kvs"
  using bt_insert_all_entries[of kvs "[]"] by (auto simp: bt_keys_def)

definition top_keys_used :: "string list" where
  "top_keys_used = [''command'', ''topic'', ''report_schema'', ''version'', ''observed_at'', ''boot_id'', ''boot_time'', ''judged'', ''findings'',
     ''summary'', ''verdict'', ''limits'']"
definition finding_keys_used :: "string list" where
  "finding_keys_used = [''id'', ''status'', ''title'', ''detail'', ''hint'', ''rows'', ''coverage'']"
definition row_keys_used :: "string list" where "row_keys_used = [''label'', ''value'', ''note'']"
definition summary_keys_used :: "string list" where "summary_keys_used = [''ok'', ''warn'', ''fail'', ''unknown'', ''overall'']"
definition coverage_keys_used :: "string list" where "coverage_keys_used = [''checked'', ''denied'', ''skipped'']"

text \<open>The policy allows the fields a report has, and its rules do not touch the names the report is known by.\<close>

definition policy_allows :: "redaction_policy \<Rightarrow> report \<Rightarrow> bool" where
  "policy_allows p r \<longleftrightarrow> placeholders_clean p \<and>
     list_all (\<lambda>k. key_rule p k = None) (top_keys_used @ finding_keys_used @ row_keys_used @ summary_keys_used @ coverage_keys_used) \<and>
     set top_keys_used \<subseteq> set (ev_top_keys (po_envelope p)) \<and> set finding_keys_used \<subseteq> set (ev_finding_keys (po_envelope p)) \<and>
     set row_keys_used \<subseteq> set (ev_row_keys (po_envelope p)) \<and> set summary_keys_used \<subseteq> set (ev_summary_keys (po_envelope p)) \<and>
     po_schema_prefix p = ''wist.investigation'' \<and> ev_report_schema (po_envelope p) (report_schema r) \<and>
     value_rule p (rp_topic r) = None \<and> value_rule p (report_schema r) = None \<and>
     (case bt_get (po_topics p) (rp_topic r) of None \<Rightarrow> False | Some id_prefixes \<Rightarrow>
       list_all (\<lambda>f. value_rule p (fi_id f) = None \<and> list_ex (\<lambda>prefix. starts_with prefix (fi_id f)) id_prefixes) (rp_findings r))"

lemma row_json_keys: "k \<in> set (json_keys (row_json row)) \<Longrightarrow> k \<in> set row_keys_used"
  unfolding row_json_def by (drule json_obj_keys) (auto simp: row_keys_used_def)

lemma finding_json_keys: "k \<in> set (json_keys (finding_json f)) \<Longrightarrow> k \<in> set (finding_keys_used @ row_keys_used @ coverage_keys_used)"
  unfolding finding_json_def
  by (drule json_obj_keys)
    (auto simp: finding_keys_used_def coverage_keys_used_def json_opt_def dest!: row_json_keys json_obj_keys split: if_splits option.splits)

lemma report_json_keys:
  "k \<in> set (json_keys (report_json h r)) \<Longrightarrow>
   k \<in> set (top_keys_used @ finding_keys_used @ row_keys_used @ summary_keys_used @ coverage_keys_used)"
  unfolding report_json_def
  by (drule json_obj_keys)
    (auto simp: top_keys_used_def summary_keys_used_def json_opt_def dest!: finding_json_keys json_obj_keys split: if_splits option.splits)

lemma check_keys_ok: "set (bt_keys m) \<subseteq> set allowed \<Longrightarrow> check_keys m allowed path = []"
  by (auto simp: check_keys_def filter_empty_conv)

lemma san_child_plain: "key_rule p k = None \<Longrightarrow> san_child p k v = san p v"
  by (simp add: san_child_def)

lemma san_obj: "san p (json_obj kvs) = JObj (map (\<lambda>(k, v). (k, san_child p k v)) (bt_insert_all kvs []))"
  by (simp add: json_obj_def)

lemma san_obj_get: "key_rule p k = None \<Longrightarrow> map_of (rev kvs) k = Some v \<Longrightarrow>
   bt_get (map (\<lambda>(k, v). (k, san_child p k v)) (bt_insert_all kvs [])) k = Some (san p v)"
  by (simp add: bt_get_map bt_get_json_obj san_child_plain)

lemma san_obj_check:
  "fst ` set kvs \<subseteq> set allowed \<Longrightarrow> check_keys (map (\<lambda>(k, v). (k, san_child p k v)) (bt_insert_all kvs [])) allowed path = []"
  using json_obj_bt_keys[of kvs] by (intro check_keys_ok) auto

lemma sanitize_text_id: "value_rule p s = None \<Longrightarrow> sanitize_text p s = s"
  by (simp add: sanitize_text_def)

lemma row_passes:
  "policy_allows p r \<Longrightarrow> \<exists>m. as_object (san p (row_json row)) = Some m \<and> check_keys m (ev_row_keys (po_envelope p)) path = []"
  unfolding row_json_def san_obj
  by (auto simp: policy_allows_def row_keys_used_def intro!: san_obj_check)

lemma finding_passes:
  assumes "policy_allows p r" "f \<in> set (rp_findings r)"
  shows "scan_finding p (bt_get (po_topics p) (rp_topic r)) path (san p (finding_json f)) = []"
proof -
  obtain ids where ids: "bt_get (po_topics p) (rp_topic r) = Some ids"
      "value_rule p (fi_id f) = None" "list_ex (\<lambda>prefix. starts_with prefix (fi_id f)) ids"
    using assms by (auto simp: policy_allows_def list_all_iff split: option.splits)
  have keys: "key_rule p ''id'' = None" "key_rule p ''rows'' = None"
    using assms(1) by (auto simp: policy_allows_def finding_keys_used_def)
  obtain kvs where f: "finding_json f = json_obj kvs" and get: "map_of (rev kvs) ''id'' = Some (JStr (fi_id f))"
      "map_of (rev kvs) ''rows'' = Some (JArr (map row_json (fi_rows f)))" and sub: "fst ` set kvs \<subseteq> set finding_keys_used"
    by (auto simp: finding_json_def finding_keys_used_def intro: that)
  have allowed: "fst ` set kvs \<subseteq> set (ev_finding_keys (po_envelope p))" using sub assms(1) by (auto simp: policy_allows_def)
  let ?m = "map (\<lambda>(k, v). (k, san_child p k v)) (bt_insert_all kvs [])"
  have g: "bt_get ?m ''id'' = Some (JStr (fi_id f))" "bt_get ?m ''rows'' = Some (JArr (map (\<lambda>x. san p (row_json x)) (fi_rows f)))"
    using san_obj_get[OF keys(1) get(1)] san_obj_get[OF keys(2) get(2)] ids(2) by (simp_all add: sanitize_text_id comp_def)
  have "scan_rows p path ?m = []"
    unfolding scan_rows_def g(2) and_then_def using row_passes[OF assms(1)]
    by (auto dest!: set_zip_rightD split: option.split)
      (metis option.distinct(1) option.inject)+
  then show ?thesis
    unfolding f san_obj scan_finding_def using g(1) ids san_obj_check[OF allowed] by (simp add: and_then_def)
qed

lemma report_json_entries:
  obtains kvs where "report_json h r = json_obj kvs" "map_of (rev kvs) ''topic'' = Some (JStr (rp_topic r))"
    "map_of (rev kvs) ''report_schema'' = Some (JStr (report_schema r))"
    "map_of (rev kvs) ''findings'' = Some (JArr (map finding_json (rp_findings r)))"
    "\<exists>skvs. map_of (rev kvs) ''summary'' = Some (json_obj skvs) \<and> fst ` set skvs \<subseteq> set summary_keys_used"
    "map_of (rev kvs) ''verdict'' = Some (JStr (verdict r))"
    "fst ` set kvs \<subseteq> set top_keys_used"
  by (rule that, rule report_json_def) (auto simp: top_keys_used_def summary_keys_used_def intro!: exI)

lemma report_passes_values: "policy_allows p r \<Longrightarrow> scan_values p path (to_json p h r) = []"
proof -
  assume p: "policy_allows p r"
  have keys: "list_all (\<lambda>k. key_rule p k = None) (json_keys (report_json h r))"
    using p report_json_keys[of _ h r] by (fastforce simp: policy_allows_def list_all_iff)
  have "to_json p h r = san p (report_json h r)" by (simp add: to_json_def sanitize_value_def san_def)
  then show ?thesis using p keys san_keys[OF keys] san_strings[of p _ "report_json h r"]
    by (auto intro!: scan_values_clean simp: list_all_iff policy_allows_def)
qed

lemma report_passes_scan: "policy_allows p r \<Longrightarrow> scan p (to_json p h r) = []"
proof -
  assume p: "policy_allows p r"
  obtain kvs where j: "report_json h r = json_obj kvs" and get: "map_of (rev kvs) ''topic'' = Some (JStr (rp_topic r))"
    "map_of (rev kvs) ''report_schema'' = Some (JStr (report_schema r))"
    "map_of (rev kvs) ''findings'' = Some (JArr (map finding_json (rp_findings r)))"
    "\<exists>skvs. map_of (rev kvs) ''summary'' = Some (json_obj skvs) \<and> fst ` set skvs \<subseteq> set summary_keys_used"
    and sub: "fst ` set kvs \<subseteq> set top_keys_used" by (rule report_json_entries)
  obtain skvs where s: "map_of (rev kvs) ''summary'' = Some (json_obj skvs)" "fst ` set skvs \<subseteq> set summary_keys_used" using get(4) by blast
  let ?m = "map (\<lambda>(k, v). (k, san_child p k v)) (bt_insert_all kvs [])"
  have keys: "key_rule p ''topic'' = None" "key_rule p ''report_schema'' = None" "key_rule p ''findings'' = None" "key_rule p ''summary'' = None"
    using p by (auto simp: policy_allows_def top_keys_used_def)
  have vals: "value_rule p (rp_topic r) = None" "value_rule p (report_schema r) = None" using p by (auto simp: policy_allows_def)
  have g: "bt_get ?m ''topic'' = Some (JStr (rp_topic r))" "bt_get ?m ''report_schema'' = Some (JStr (report_schema r))"
    "bt_get ?m ''findings'' = Some (JArr (map (\<lambda>x. san p (finding_json x)) (rp_findings r)))"
    "bt_get ?m ''summary'' = Some (JObj (map (\<lambda>(k, v). (k, san_child p k v)) (bt_insert_all skvs [])))"
    using san_obj_get[OF keys(1) get(1)] san_obj_get[OF keys(2) get(2)] san_obj_get[OF keys(3) get(3)] san_obj_get[OF keys(4) s(1)] vals
    by (simp_all add: sanitize_text_id comp_def san_obj)
  have top: "check_keys ?m (ev_top_keys (po_envelope p)) path = []" for path
    using sub p by (intro san_obj_check) (auto simp: policy_allows_def)
  have summary: "check_keys (map (\<lambda>(k, v). (k, san_child p k v)) (bt_insert_all skvs [])) (ev_summary_keys (po_envelope p)) path = []" for path
    using s(2) p by (intro san_obj_check) (auto simp: policy_allows_def)
  have schema: "ev_report_schema (po_envelope p) (report_schema r)" "starts_with (po_schema_prefix p @ ''.'') (report_schema r)"
    "bt_get (po_topics p) (rp_topic r) \<noteq> None"
    using p by (auto simp: policy_allows_def report_schema_def starts_with_def split: option.splits)
  have fs: "concat (map (\<lambda>(i, x). scan_finding p (bt_get (po_topics p) (rp_topic r)) (index_path ''$.findings'' i) x)
      (zip [0..<length (rp_findings r)] (map (\<lambda>x. san p (finding_json x)) (rp_findings r)))) = []"
    using finding_passes[OF p] by (auto dest!: set_zip_rightD)
  have body: "to_json p h r = JObj ?m" by (simp add: to_json_def sanitize_value_def flip: san_def) (simp add: j san_obj)
  show ?thesis
    using report_passes_values[OF p, of "''$''" h] g top summary schema fs
    unfolding body scan_def by (simp add: and_then_def bt_contains_def Let_def)
qed

subsection \<open>What the data-plane body keeps\<close>

definition findings_of :: "json \<Rightarrow> json list" where
  "findings_of v = (case json_get v ''findings'' of Some (JArr vs) \<Rightarrow> vs | _ \<Rightarrow> [])"

definition finding_kept :: "json \<Rightarrow> json \<Rightarrow> bool" where
  "finding_kept a b \<longleftrightarrow> list_all (\<lambda>k. json_get b k = json_get a k) [''id'', ''status'', ''title'', ''coverage'']"

definition report_kept :: "json \<Rightarrow> json \<Rightarrow> bool" where
  "report_kept a b \<longleftrightarrow> list_all (\<lambda>k. json_get b k = json_get a k) [''topic'', ''report_schema'', ''observed_at'', ''summary'', ''verdict''] \<and>
     list_all2 finding_kept (findings_of a) (findings_of b)"

definition is_object :: "json \<Rightarrow> bool" where
  "is_object v \<longleftrightarrow> as_object v \<noteq> None"

lemma json_get_insert: "is_object v \<Longrightarrow> json_get (json_insert k x v) j = (if j = k then Some x else json_get v j)"
  by (cases v) (auto simp: is_object_def bt_get_insert)

lemma json_get_remove: "json_get (json_remove k v) j = (if j = k then None else json_get v j)"
proof (cases v)
  case (JObj m)
  have "map_of (filter (\<lambda>(j, _). j \<noteq> k) m) j = (if j = k then None else map_of m j)" by (induction m) auto
  with JObj show ?thesis by (simp add: bt_get_def)
qed simp_all

lemma is_object_step [simp]: "is_object (json_insert k x v) \<longleftrightarrow> is_object v" "is_object (json_remove k v) \<longleftrightarrow> is_object v"
  "is_object (map_findings f v) \<longleftrightarrow> is_object v"
proof -
  show ins: "is_object (json_insert k x v) \<longleftrightarrow> is_object v" for k x v by (cases v) (auto simp: is_object_def)
  show "is_object (json_remove k v) \<longleftrightarrow> is_object v" by (cases v) (auto simp: is_object_def)
  show "is_object (map_findings f v) \<longleftrightarrow> is_object v" by (auto simp: map_findings_def ins split: option.split json.split)
qed

lemma map_findings_get: "is_object v \<Longrightarrow> k \<noteq> ''findings'' \<Longrightarrow> json_get (map_findings f v) k = json_get v k"
  by (auto simp: map_findings_def json_get_insert split: option.split json.split)

lemma map_findings_findings: "is_object v \<Longrightarrow> findings_of (map_findings f v) = map f (findings_of v)"
  by (auto simp: map_findings_def findings_of_def json_get_insert split: option.split json.split)

lemma list_all_get_trans:
  "list_all (\<lambda>k. f b k = f a k) ks \<Longrightarrow> list_all (\<lambda>k. f c k = f b k) ks \<Longrightarrow> list_all (\<lambda>k. f c k = f a k) ks"
  unfolding list_all_iff by metis

lemma finding_kept_refl: "finding_kept x x"
  unfolding finding_kept_def by simp

lemma finding_kept_trans: "finding_kept a b \<Longrightarrow> finding_kept b c \<Longrightarrow> finding_kept a c"
  unfolding finding_kept_def by (rule list_all_get_trans)

lemma report_kept_trans: "report_kept a b \<Longrightarrow> report_kept b c \<Longrightarrow> report_kept a c"
proof -
  assume ab: "report_kept a b" and bc: "report_kept b c"
  have "list_all2 finding_kept (findings_of a) (findings_of c)"
    by (rule list_all2_trans[OF finding_kept_trans conjunct2[OF ab[unfolded report_kept_def]] conjunct2[OF bc[unfolded report_kept_def]]])
  moreover note list_all_get_trans[OF conjunct1[OF ab[unfolded report_kept_def]] conjunct1[OF bc[unfolded report_kept_def]]]
  ultimately show ?thesis unfolding report_kept_def by (rule conjI[rotated])
qed

lemma report_kept_insert: "is_object v \<Longrightarrow> k \<in> {''command_id'', ''rows_omitted''} \<Longrightarrow> report_kept v (json_insert k x v)"
proof -
  assume v: "is_object v" and k: "k \<in> {''command_id'', ''rows_omitted''}"
  then have "findings_of (json_insert k x v) = findings_of v" by (auto simp: findings_of_def json_get_insert)
  moreover have "list_all (\<lambda>j. json_get (json_insert k x v) j = json_get v j) [''topic'', ''report_schema'', ''observed_at'', ''summary'', ''verdict'']"
    using v k by (auto simp: json_get_insert)
  ultimately show ?thesis by (simp add: report_kept_def list_all2_refl finding_kept_refl)
qed

lemma report_kept_map: "is_object v \<Longrightarrow> (\<And>x. finding_kept x (f x)) \<Longrightarrow> report_kept v (map_findings f v)"
  by (simp add: report_kept_def map_findings_get map_findings_findings list_all2_conv_all_nth)

lemma shorten_finding_kept: "finding_kept x (shorten_finding x)"
proof (cases "is_object x")
  case True
  then show ?thesis by (simp add: shorten_finding_def finding_kept_def Let_def json_get_insert json_get_remove split: option.split)
next
  case False
  then show ?thesis by (cases x) (auto simp: shorten_finding_def finding_kept_def is_object_def and_then_def)
qed

definition finding_shortened :: "json \<Rightarrow> bool" where
  "finding_shortened v \<longleftrightarrow> json_get v ''rows'' = None \<and> json_get v ''hint'' = None \<and>
     (case and_then (json_get v ''detail'') as_str of Some d \<Rightarrow> char_count d \<le> 240 | None \<Rightarrow> True)"

lemma shortened: "finding_shortened (shorten_finding (json_remove ''rows'' x))"
proof (cases "is_object x")
  case True
  then show ?thesis
    by (auto simp: shorten_finding_def finding_shortened_def Let_def json_get_insert json_get_remove and_then_def truncate_count
        split: option.split)
next
  case False
  then show ?thesis by (cases x) (auto simp: shorten_finding_def finding_shortened_def is_object_def and_then_def)
qed

lemma to_json_object [simp]: "is_object (to_json p h r)"
  by (simp add: to_json_def sanitize_value_def is_object_def report_json_def json_obj_def flip: san_def)

lemma uplink_body_keeps:
  "\<exists>v. to_uplink_body to_vec p h command_id r = unwrap_or [] (to_vec v) \<and> json_get v ''command_id'' = Some (JStr command_id) \<and>
    report_kept (to_json p h r) v \<and>
    (length (to_uplink_body to_vec p h command_id r) \<le> 65536 \<or> list_all finding_shortened (findings_of v))"
proof -
  let ?v0 = "json_insert ''command_id'' (JStr command_id) (to_json p h r)"
  let ?v1 = "json_insert ''rows_omitted'' (JBool True) (map_findings (json_remove ''rows'') ?v0)"
  let ?v2 = "map_findings shorten_finding ?v1"
  have rows: "finding_kept x (json_remove ''rows'' x)" for x by (simp add: finding_kept_def json_get_remove)
  have k0: "report_kept (to_json p h r) ?v0" by (simp add: report_kept_insert)
  have k1: "report_kept (to_json p h r) ?v1"
    by (rule report_kept_trans[OF k0 report_kept_trans[OF report_kept_map report_kept_insert]]) (simp_all add: rows)
  have k2: "report_kept (to_json p h r) ?v2"
    by (rule report_kept_trans[OF k1 report_kept_map]) (simp_all add: shorten_finding_kept)
  have ids: "json_get ?v0 ''command_id'' = Some (JStr command_id)" "json_get ?v1 ''command_id'' = Some (JStr command_id)"
    "json_get ?v2 ''command_id'' = Some (JStr command_id)"
    by (simp_all add: json_get_insert map_findings_get)
  have "findings_of ?v1 = findings_of (map_findings (json_remove ''rows'') ?v0)" by (simp add: findings_of_def json_get_insert)
  then have short: "list_all finding_shortened (findings_of ?v2)"
    by (simp add: map_findings_findings list_all_iff shortened)
  let ?b = "\<lambda>v. unwrap_or [] (to_vec v)"
  have body: "to_uplink_body to_vec p h command_id r =
      (if length (?b ?v0) \<le> 65536 then ?b ?v0 else if length (?b ?v1) \<le> 65536 then ?b ?v1 else ?b ?v2)"
    by (simp only: to_uplink_body_def Let_def MAX_UPLINK_BODY_BYTES_def)
  consider "length (?b ?v0) \<le> 65536" | "\<not> length (?b ?v0) \<le> 65536" "length (?b ?v1) \<le> 65536"
    | "\<not> length (?b ?v0) \<le> 65536" "\<not> length (?b ?v1) \<le> 65536" by blast
  then show ?thesis
  proof cases
    case 1 then show ?thesis unfolding body if_P[OF 1] using k0 ids(1) by blast
  next
    case 2 then show ?thesis unfolding body if_not_P[OF 2(1)] if_P[OF 2(2)] using k1 ids(2) by blast
  next
    case 3 then show ?thesis unfolding body if_not_P[OF 3(1)] if_not_P[OF 3(2)] using k2 ids(3) short by blast
  qed
qed

end
