(* ===== verification/Commands.thy ===== *)
theory Commands
  imports Investigate AtomicFile
begin

text \<open>
  One-shot commands: the ledger and the local request file of \<open>src/state_store/commands.rs\<close>, the requests of
  \<open>src/investigate.rs\<close> and \<open>src/control/preflight.rs\<close>, and the part of the loop in \<open>src/runtime/daemon.rs\<close> that takes, judges,
  carries out, records and answers commands.

  Outcomes and kinds are constants of the API crate.  The JSON codec, what the probed paths and the finished scans give, the sink,
  the refresh of the facts and the exchange with the gateway are the environment of one tick.  The state logs what was carried
  out.  Texts are written as their UTF-8 bytes.
\<close>

subsection \<open>Ledger and request file\<close>

datatype command_outcome = OSucceeded | OFailed | OUnsupported | OStale | OThrottled | ONoUplink | OAccepted

record agent_command =
  cm_command_id :: string
  cm_kind :: string
  cm_params :: string
  cm_requested_at_ms :: int

record command_record =
  cr_command_id :: string
  cr_kind :: string
  cr_outcome :: command_outcome
  cr_detail :: string
  cr_completed_at_ms :: int

record command_ack =
  ak_command_id :: string
  ak_outcome :: command_outcome
  ak_detail :: string

type_synonym command_history = "command_record list"

definition HISTORY_LIMIT :: nat where "HISTORY_LIMIT = 64"

definition history_find :: "command_history \<Rightarrow> string \<Rightarrow> command_record option" where
  "history_find entries command_id = find (\<lambda>entry. cr_command_id entry = command_id) (rev entries)"

definition command_history_record :: "command_record \<Rightarrow> command_history \<Rightarrow> command_history" where
  "command_history_record record entries =
    (let entries' = filter (\<lambda>entry. cr_command_id entry \<noteq> cr_command_id record) entries @ [record]
     in if HISTORY_LIMIT < length entries' then drop (length entries' - HISTORY_LIMIT) entries' else entries')"

datatype submit_outcome = Queued | AlreadyPending agent_command

definition read_request_async :: "agent_command disk_file \<Rightarrow> agent_command option res" where
  "read_request_async f = (case read_json_async f of
      Inr command \<Rightarrow> Inr (Some command)
    | Inl err \<Rightarrow> if error_kind err = NotFound then Inr None else Inl err)"

definition submit_request_async ::
    "write_outcome \<Rightarrow> agent_command \<Rightarrow> agent_command disk_file \<Rightarrow> submit_outcome res \<times> agent_command disk_file" where
  "submit_request_async w command f = (case read_request_async f of
      Inr (Some pending) \<Rightarrow> (Inr (AlreadyPending pending), f)
    | _ \<Rightarrow> (case write_op w (\<lambda>_. Present command) f of
        (Inr _, f') \<Rightarrow> (Inr Queued, f')
      | (Inl err, f') \<Rightarrow> (Inl err, f')))"

definition remove_request_async :: "write_outcome \<Rightarrow> agent_command disk_file \<Rightarrow> unit res \<times> agent_command disk_file" where
  "remove_request_async w f = (if f = Missing then (Inr (), f) else write_op w (\<lambda>_. Missing) f)"

definition load_history_async :: "command_history disk_file \<Rightarrow> command_history res" where
  "load_history_async f = (case read_json_async f of
      Inr history \<Rightarrow> Inr history
    | Inl err \<Rightarrow> if error_kind err = NotFound then Inr [] else Inl err)"

subsection \<open>Texts\<close>

definition txt_more_report :: string where
  "txt_more_report = utf8 [239, 188, 155, 229, 174, 140, 230, 149, 180, 230, 138, 165, 229, 145, 138, 239, 188, 154]"
definition txt_sent :: string where
  "txt_sent = utf8 [239, 188, 155, 230, 138, 165, 229, 145, 138, 229, 183, 178, 229, 155, 158, 228, 188, 160, 239, 188, 136, 73, 86, 83, 82, 69, 80, 239, 188, 140, 115, 101, 113, 61]"
definition txt_not_sent :: string where
  "txt_not_sent = utf8 [239, 188, 155, 230, 138, 165, 229, 145, 138, 229, 155, 158, 228, 188, 160, 229, 164, 177, 232, 180, 165, 239, 188, 154]"
definition txt_no_plane :: string where
  "txt_no_plane = utf8 [239, 188, 155, 230, 151, 160, 230, 149, 176, 230, 141, 174, 233, 157, 162, 228, 184, 138, 233, 128, 129, 233, 128, 154, 233, 129, 147, 239, 188, 136, 111, 117, 116, 112, 117, 116, 32, 107, 105, 110, 100, 32, 226, 137, 160, 32, 116, 99, 112, 239, 188, 137, 239, 188, 140, 230, 138, 165, 229, 145, 138, 229, 143, 170, 229, 156, 168, 230, 156, 172, 230, 156, 186]"
definition txt_bad_output :: string where
  "txt_bad_output = utf8 [239, 188, 155, 229, 135, 186, 229, 143, 163, 233, 133, 141, 231, 189, 174, 228, 184, 141, 229, 143, 175, 231, 148, 168, 239, 188, 136]"
definition txt_bad_output_end :: string where
  "txt_bad_output_end = utf8 [239, 188, 137, 239, 188, 140, 230, 138, 165, 229, 145, 138, 229, 143, 170, 229, 156, 168, 230, 156, 172, 230, 156, 186]"
definition txt_post_failed :: string where
  "txt_post_failed = utf8 [239, 188, 155, 229, 155, 158, 228, 188, 160, 229, 164, 177, 232, 180, 165, 239, 188, 154]"
definition txt_scanning :: string where
  "txt_scanning = utf8 [229, 183, 178, 229, 143, 150, 232, 181, 176, 239, 188, 140, 230, 137, 171, 230, 143, 143, 228, 184, 173, 239, 188, 136, 230, 156, 128, 233, 149, 191, 32]"
definition txt_scanning_end :: string where "txt_scanning_end = utf8 [115, 239, 188, 137]"
definition txt_task_aborted :: string where
  "txt_task_aborted = utf8 [232, 176, 131, 230, 159, 165, 228, 187, 187, 229, 138, 161, 228, 184, 173, 230, 150, 173, 239, 188, 154]"
definition txt_unsupported_a :: string where
  "txt_unsupported_a = utf8 [97, 103, 101, 110, 116, 100, 32, 229, 176, 154, 230, 156, 170, 229, 174, 158, 231, 142, 176, 229, 145, 189, 228, 187, 164, 32, 107, 105, 110, 100, 61]"
definition txt_stale_a :: string where "txt_stale_a = utf8 [229, 145, 189, 228, 187, 164, 232, 182, 133, 232, 191, 135, 32]"
definition txt_stale_b :: string where
  "txt_stale_b = utf8 [32, 229, 136, 134, 233, 146, 159, 230, 156, 170, 232, 162, 171, 229, 164, 132, 231, 144, 134, 239, 188, 136, 229, 174, 136, 230, 138, 164, 232, 191, 155, 231, 168, 139, 229, 189, 147, 230, 151, 182, 230, 178, 161, 229, 156, 168, 232, 183, 145, 32, 47, 32, 232, 162, 171, 233, 152, 187, 229, 161, 158, 239, 188, 137]"
definition txt_throttled_a :: string where
  "txt_throttled_a = utf8 [232, 183, 157, 228, 184, 138, 228, 184, 128, 230, 172, 161, 233, 135, 141, 233, 135, 135, 228, 184, 141, 232, 182, 179, 230, 156, 128, 229, 176, 143, 233, 151, 180, 233, 154, 148, 239, 188, 136]"
definition txt_throttled_b :: string where
  "txt_throttled_b = utf8 [115, 239, 188, 137, 230, 136, 150, 230, 156, 172, 32, 116, 105, 99, 107, 32, 229, 183, 178, 230, 142, 165, 229, 143, 151, 228, 184, 128, 230, 157, 161]"
definition txt_loop_failed :: string where
  "txt_loop_failed = utf8 [229, 174, 136, 230, 138, 164, 229, 190, 170, 231, 142, 175, 229, 164, 177, 232, 180, 165, 239, 188, 154]"
definition txt_probes_failed :: string where
  "txt_probes_failed = utf8 [32, 228, 184, 170, 230, 142, 162, 233, 146, 136, 229, 164, 177, 232, 180, 165, 239, 188, 136, 230, 178, 191, 231, 148, 168, 228, 184, 138, 230, 172, 161, 230, 136, 144, 229, 138, 159, 232, 190, 147, 229, 135, 186, 239, 188, 137, 239, 188, 154]"

subsection \<open>Path probes\<close>

definition MAX_PROBE_PATHS :: nat where "MAX_PROBE_PATHS = 512"

definition parse_probe_request :: "(string \<Rightarrow> string + json) \<Rightarrow> string \<Rightarrow> string list option" where
  "parse_probe_request parse params = (let params = trim params in
     if params = [] then None
     else (case parse params of
         Inl _ \<Rightarrow> None
       | Inr value \<Rightarrow>
           if and_then (json_get value ''scope'') as_str \<noteq> Some ''paths'' then None
           else (case and_then (json_get value ''paths'') as_array of
               None \<Rightarrow> None
             | Some items \<Rightarrow>
                 (let paths = take MAX_PROBE_PATHS (filter (starts_with ''/'') (map trim (List.map_filter as_str items)))
                  in if paths = [] then None else Some paths))))"

datatype path_state = PathPresent | PathAbsent | PathUnreadable string

record path_probe_report =
  pp_probed :: "string list"
  pp_present :: "string list"
  pp_unreadable :: "(string \<times> string) list"

text \<open>The sets of probed and present paths are ordered maps without values.\<close>

definition probe_step :: "(string \<Rightarrow> path_state) \<Rightarrow> string \<Rightarrow>
    unit btree \<times> unit btree \<times> (string \<times> string) list \<Rightarrow> unit btree \<times> unit btree \<times> (string \<times> string) list" where
  "probe_step fs path acc = (case acc of (probed, present, unreadable) \<Rightarrow>
     let path = trim path in
     if path = [] \<or> \<not> starts_with ''/'' path then acc
     else (case fs path of
         PathPresent \<Rightarrow> (bt_insert path () probed, bt_insert path () present, unreadable)
       | PathAbsent \<Rightarrow> (bt_insert path () probed, present, unreadable)
       | PathUnreadable err \<Rightarrow> (probed, present, unreadable @ [(path, err)])))"

definition probe_paths :: "(string \<Rightarrow> path_state) \<Rightarrow> string list \<Rightarrow> path_probe_report" where
  "probe_paths fs paths = (case fold (probe_step fs) paths ([], [], []) of (probed, present, unreadable) \<Rightarrow>
     \<lparr>pp_probed = bt_keys probed, pp_present = bt_keys present, pp_unreadable = unreadable\<rparr>)"

text \<open>An answer has a status, the text of the status and a body.\<close>

datatype http_answer = HttpFailed string | HttpResponse nat string string

definition is_success :: "nat \<Rightarrow> bool" where
  "is_success status \<longleftrightarrow> 200 \<le> status \<and> status < 300"

record control_config =
  cc_endpoint :: "string option"
  cc_agent_id :: "string option"
  cc_instance_name :: "string option"
  cc_client_err :: "string option"

record preflight_report =
  pr_kind :: string
  pr_agent_id :: string
  pr_instance_id :: string
  pr_probed_paths :: "string list"
  pr_present_paths :: "string list"
  pr_unreadable_paths :: "(string \<times> string) list"

definition PREFLIGHT_KIND :: string where "PREFLIGHT_KIND = ''collection_preflight''"

definition trim_end_slashes :: "string \<Rightarrow> string" where
  "trim_end_slashes s = rev (dropWhile (\<lambda>c. c = CHR ''/'') (rev s))"

definition post_report ::
    "control_config \<Rightarrow> (string \<Rightarrow> preflight_report \<Rightarrow> http_answer) \<Rightarrow> path_probe_report \<Rightarrow> string + unit" where
  "post_report cfg http probe = (case cc_endpoint cfg of
      None \<Rightarrow> Inl ''no control_plane.endpoint configured''
    | Some endpoint \<Rightarrow> (case cc_agent_id cfg of
        None \<Rightarrow> Inl ''not enrolled (agent.agent_id is empty)''
      | Some agent_id \<Rightarrow> (case cc_client_err cfg of
          Some err \<Rightarrow> Inl err
        | None \<Rightarrow>
            (let report = \<lparr>pr_kind = PREFLIGHT_KIND, pr_agent_id = agent_id, pr_instance_id = unwrap_or [] (cc_instance_name cfg),
                   pr_probed_paths = pp_probed probe, pr_present_paths = pp_present probe, pr_unreadable_paths = pp_unreadable probe\<rparr>;
                 url = trim_end_slashes endpoint @ ''/api/v1/agent/collection-preflight''
             in case http url report of
                  HttpFailed err \<Rightarrow> Inl err
                | HttpResponse status status_text body \<Rightarrow>
                    if is_success status then Inr () else Inl (''HTTP '' @ status_text @ '' from '' @ url @ '': '' @ body)))))"

definition summarize :: "path_probe_report \<Rightarrow> string" where
  "summarize probe = ''probed='' @ show_nat (length (pp_probed probe)) @ '' present='' @ show_nat (length (pp_present probe)) @
     (if pp_unreadable probe \<noteq> [] then '' unreadable='' @ show_nat (length (pp_unreadable probe)) else [])"

definition report_path_probe ::
    "control_config \<Rightarrow> (string \<Rightarrow> path_state) \<Rightarrow> (string \<Rightarrow> preflight_report \<Rightarrow> http_answer) \<Rightarrow> string list \<Rightarrow>
     command_outcome \<times> string" where
  "report_path_probe cfg fs http paths = (let probe = probe_paths fs paths in case post_report cfg http probe of
      Inr _ \<Rightarrow> (OSucceeded, summarize probe)
    | Inl detail \<Rightarrow> (OFailed, summarize probe @ txt_post_failed @ detail))"

subsection \<open>Judging a command\<close>

datatype command_source = LocalSource | RemoteSource

datatype command_verdict = Unsupported | Stale | Throttled | AcceptRefresh | AcceptProbe "string list"
  | AcceptInvestigate investigate_request | BadInvestigateParams string

record command_env =
  ce_parse :: "string \<Rightarrow> string + json"
  ce_kind_refresh :: string
  ce_kind_investigate :: string
  ce_instant_ms :: int
  ce_now_ms :: int
  ce_done_ms :: "string \<Rightarrow> int"
  ce_min_interval_ms :: int
  ce_config :: control_config
  ce_paths :: "string \<Rightarrow> path_state"
  ce_post :: "string \<Rightarrow> preflight_report \<Rightarrow> http_answer"

definition COMMAND_STALE_MS :: int where "COMMAND_STALE_MS = 600000"

definition is_stale :: "command_env \<Rightarrow> agent_command \<Rightarrow> bool" where
  "is_stale e command \<longleftrightarrow> COMMAND_STALE_MS < saturating_sub_i64 (ce_now_ms e) (cm_requested_at_ms command)"

definition evaluate_command :: "command_env \<Rightarrow> agent_command \<Rightarrow> bool \<Rightarrow> int option \<Rightarrow> command_verdict" where
  "evaluate_command e command refresh_accepted_this_tick last_refresh =
    (if cm_kind command = ce_kind_investigate e
     then (if is_stale e command then Stale
           else (case from_params (ce_parse e) (cm_params command) of
               Inr request \<Rightarrow> AcceptInvestigate request
             | Inl detail \<Rightarrow> BadInvestigateParams detail))
     else if cm_kind command \<noteq> ce_kind_refresh e then Unsupported
     else if is_stale e command then Stale
     else (case parse_probe_request (ce_parse e) (cm_params command) of
         Some paths \<Rightarrow> AcceptProbe paths
       | None \<Rightarrow>
           if refresh_accepted_this_tick \<or>
              (case last_refresh of Some at \<Rightarrow> ce_instant_ms e - at < ce_min_interval_ms e | None \<Rightarrow> False)
           then Throttled else AcceptRefresh))"

definition ack_from_record :: "command_record \<Rightarrow> command_ack" where
  "ack_from_record r = \<lparr>ak_command_id = cr_command_id r, ak_outcome = cr_outcome r, ak_detail = cr_detail r\<rparr>"

definition record_command ::
    "agent_command \<Rightarrow> command_outcome \<Rightarrow> string \<Rightarrow> int \<Rightarrow> command_history \<Rightarrow> command_ack \<times> command_history" where
  "record_command command outcome detail now_ms history =
    (let r = \<lparr>cr_command_id = cm_command_id command, cr_kind = cm_kind command, cr_outcome = outcome, cr_detail = detail,
           cr_completed_at_ms = now_ms\<rparr>
     in (ack_from_record r, command_history_record r history))"

subsection \<open>The queue of a tick\<close>

record inflight_investigation =
  iv_command :: agent_command
  iv_source :: command_source
  iv_request :: investigate_request

datatype effect = RanRefresh string | RanProbe string "string list" | StartedScan string | FinishedScan string

record command_turn =
  ct_accepted_refresh :: "(agent_command \<times> command_source) option"
  ct_acks :: "command_ack list"
  ct_history_dirty :: bool

record command_state =
  cs_history :: command_history
  cs_inflight :: "inflight_investigation list"
  cs_last_refresh :: "int option"
  cs_effects :: "effect list"

definition investigation_already_running :: "inflight_investigation list \<Rightarrow> string \<Rightarrow> bool" where
  "investigation_already_running inflight command_id = list_ex (\<lambda>entry. cm_command_id (iv_command entry) = command_id) inflight"

definition push_ack :: "command_source \<Rightarrow> command_ack \<Rightarrow> command_turn \<Rightarrow> command_turn" where
  "push_ack source ack t = (if source = RemoteSource then t\<lparr>ct_acks := ct_acks t @ [ack]\<rparr> else t)"

definition settle_command :: "agent_command \<Rightarrow> command_source \<Rightarrow> command_outcome \<Rightarrow> string \<Rightarrow> int \<Rightarrow>
    command_turn \<times> command_state \<Rightarrow> command_turn \<times> command_state" where
  "settle_command command source outcome detail now_ms ts = (case ts of (t, s) \<Rightarrow>
     case record_command command outcome detail now_ms (cs_history s) of (ack, history) \<Rightarrow>
     (push_ack source ack (t\<lparr>ct_history_dirty := True\<rparr>), s\<lparr>cs_history := history\<rparr>))"

definition scanning_ack :: "agent_command \<Rightarrow> investigate_request \<Rightarrow> command_ack" where
  "scanning_ack command request = \<lparr>ak_command_id = cm_command_id command, ak_outcome = OAccepted,
     ak_detail = txt_scanning @ show_nat (iq_max_seconds request) @ txt_scanning_end\<rparr>"

definition handle_command ::
    "command_env \<Rightarrow> agent_command \<times> command_source \<Rightarrow> command_turn \<times> command_state \<Rightarrow> command_turn \<times> command_state" where
  "handle_command e cs ts = (case cs of (command, source) \<Rightarrow> case ts of (t, s) \<Rightarrow>
     let command_id = cm_command_id command in
     case history_find (cs_history s) command_id of
       Some r \<Rightarrow> (push_ack source (ack_from_record r) t, s)
     | None \<Rightarrow>
        (case evaluate_command e command (ct_accepted_refresh t \<noteq> None) (cs_last_refresh s) of
          AcceptRefresh \<Rightarrow> (t\<lparr>ct_accepted_refresh := Some (command, source)\<rparr>,
            s\<lparr>cs_last_refresh := Some (ce_instant_ms e), cs_effects := cs_effects s @ [RanRefresh command_id]\<rparr>)
        | AcceptProbe paths \<Rightarrow>
            (case report_path_probe (ce_config e) (ce_paths e) (ce_post e) paths of (outcome, detail) \<Rightarrow>
             settle_command command source outcome detail (ce_done_ms e command_id)
               (t, s\<lparr>cs_effects := cs_effects s @ [RanProbe command_id paths]\<rparr>))
        | AcceptInvestigate request \<Rightarrow>
            (let t' = push_ack source (scanning_ack command request) t in
             if investigation_already_running (cs_inflight s) command_id then (t', s)
             else (t', s\<lparr>cs_inflight := cs_inflight s @ [\<lparr>iv_command = command, iv_source = source, iv_request = request\<rparr>],
                 cs_effects := cs_effects s @ [StartedScan command_id]\<rparr>))
        | BadInvestigateParams detail \<Rightarrow> settle_command command source OFailed detail (ce_now_ms e) (t, s)
        | Unsupported \<Rightarrow> settle_command command source OUnsupported (txt_unsupported_a @ cm_kind command) (ce_now_ms e) (t, s)
        | Stale \<Rightarrow> settle_command command source OStale (txt_stale_a @ show_nat (nat (COMMAND_STALE_MS div 60000)) @ txt_stale_b) (ce_now_ms e) (t, s)
        | Throttled \<Rightarrow> settle_command command source OThrottled (txt_throttled_a @ show_nat (nat (ce_min_interval_ms e div 1000)) @ txt_throttled_b) (ce_now_ms e) (t, s)))"

definition turn_new :: command_turn where
  "turn_new = \<lparr>ct_accepted_refresh = None, ct_acks = [], ct_history_dirty = False\<rparr>"

definition handle_command_queue ::
    "command_env \<Rightarrow> (agent_command \<times> command_source) list \<Rightarrow> command_state \<Rightarrow> command_turn \<times> command_state" where
  "handle_command_queue e queue s = fold (handle_command e) queue (turn_new, s)"

subsection \<open>Finished scans\<close>

text \<open>A finished scan gave a report, failed, or was aborted.  Its report is delivered through a sink made for it, under the next
  number of the counter shared with all other frames.\<close>

datatype task_result = TaskReport report string | TaskFailed string | TaskAborted string

datatype frame_sink = SinkBroken string | SinkWithoutFrames | SinkWithFrames

record scan_delivery =
  dv_agent_id :: "string option"
  dv_sink :: frame_sink
  dv_policy :: redaction_policy
  dv_host :: host_facts
  dv_to_vec :: "json \<Rightarrow> string option"
  dv_seq_store :: write_outcome
  dv_send :: "nat \<Rightarrow> string \<Rightarrow> string option"

record data_plane =
  dp_seq :: "nat disk_file"
  dp_frames :: "(nat \<times> string) list"

text \<open>The counter file.  A read error of any kind has the effect of a file that holds no number (\<open>Corrupt\<close>): the caller takes 0.\<close>

definition seq_load_or_default :: "nat disk_file \<Rightarrow> nat res" where
  "seq_load_or_default f = (if f = Missing then Inr 0 else read_json_async f)"

definition send_investigation_frame ::
    "scan_delivery \<Rightarrow> string \<Rightarrow> report \<Rightarrow> nat \<Rightarrow> data_plane \<Rightarrow> (string + unit) \<times> nat \<times> data_plane" where
  "send_investigation_frame v command_id report next_seq p = (case dv_agent_id v of
      None \<Rightarrow> (Inl ''not enrolled (agent.agent_id is empty)'', next_seq, p)
    | Some agent_id \<Rightarrow>
        (let body = to_uplink_body (dv_to_vec v) (dv_policy v) (dv_host v) command_id report in
         case write_op (dv_seq_store v) (\<lambda>p. p\<lparr>dp_seq := Present (next_seq + 1)\<rparr>) p of
           (Inl (IoError _ err), p1) \<Rightarrow> (Inl err, next_seq + 1, p1)
         | (Inr _, p1) \<Rightarrow> (case dv_send v next_seq body of
             Some err \<Rightarrow> (Inl err, next_seq + 1, p1)
           | None \<Rightarrow> (Inr (), next_seq + 1, p1\<lparr>dp_frames := dp_frames p1 @ [(next_seq, body)]\<rparr>))))"

definition deliver_investigation ::
    "scan_delivery \<Rightarrow> agent_command \<Rightarrow> report \<Rightarrow> string \<Rightarrow> data_plane \<Rightarrow> (command_outcome \<times> string) \<times> data_plane" where
  "deliver_investigation v command report path p =
    (case (case dv_sink v of
        SinkWithFrames \<Rightarrow>
          (let next_seq = (case seq_load_or_default (dp_seq p) of Inr n \<Rightarrow> n | Inl _ \<Rightarrow> 0) in
           case send_investigation_frame v (cm_command_id command) report next_seq p of
             (Inr _, next_seq, p1) \<Rightarrow> (txt_sent @ show_nat (next_seq - 1) @ txt_close, p1)
           | (Inl err, _, p1) \<Rightarrow> (txt_not_sent @ err, p1))
      | SinkWithoutFrames \<Rightarrow> (txt_no_plane, p)
      | SinkBroken err \<Rightarrow> (txt_bad_output @ err @ txt_bad_output_end, p)) of
      (delivery, p1) \<Rightarrow> ((OSucceeded, truncate_chars (report_summary report @ delivery @ txt_more_report @ path) 900), p1))"

text \<open>The loop over the scans in flight; those that are not finished stay, in order.\<close>

fun drain_finished_investigations ::
    "scan_delivery \<Rightarrow> (string \<Rightarrow> task_result option) \<Rightarrow> (string \<Rightarrow> int) \<Rightarrow> inflight_investigation list \<Rightarrow>
     (command_ack list \<times> bool) \<times> command_state \<times> data_plane \<Rightarrow> (command_ack list \<times> bool) \<times> command_state \<times> data_plane" where
  "drain_finished_investigations v finished done_ms [] acc = acc"
| "drain_finished_investigations v finished done_ms (i # rest) acc = (case acc of ((acks, recorded), s, p) \<Rightarrow>
     (case finished (cm_command_id (iv_command i)) of
        None \<Rightarrow> drain_finished_investigations v finished done_ms rest ((acks, recorded), s\<lparr>cs_inflight := cs_inflight s @ [i]\<rparr>, p)
      | Some result \<Rightarrow>
          (case (case result of
              TaskReport report path \<Rightarrow> deliver_investigation v (iv_command i) report path p
            | TaskFailed detail \<Rightarrow> ((OFailed, detail), p)
            | TaskAborted err \<Rightarrow> ((OFailed, txt_task_aborted @ err), p)) of
            ((outcome, detail), p1) \<Rightarrow>
              (case record_command (iv_command i) outcome detail (done_ms (cm_command_id (iv_command i))) (cs_history s) of (ack, history) \<Rightarrow>
               drain_finished_investigations v finished done_ms rest
                 ((if iv_source i = RemoteSource then acks @ [ack] else acks, True),
                  s\<lparr>cs_history := history, cs_effects := cs_effects s @ [FinishedScan (cm_command_id (iv_command i))]\<rparr>, p1)))))"

definition drain_investigations ::
    "scan_delivery \<Rightarrow> (string \<Rightarrow> task_result option) \<Rightarrow> (string \<Rightarrow> int) \<Rightarrow> command_state \<Rightarrow> data_plane \<Rightarrow>
     (command_ack list \<times> bool) \<times> command_state \<times> data_plane" where
  "drain_investigations v finished done_ms s p =
    drain_finished_investigations v finished done_ms (cs_inflight s) (([], False), s\<lparr>cs_inflight := []\<rparr>, p)"

subsection \<open>One tick\<close>

definition take_local_command :: "write_outcome \<Rightarrow> agent_command disk_file \<Rightarrow> agent_command option \<times> agent_command disk_file" where
  "take_local_command w f = (case read_request_async f of
      Inr (Some command) \<Rightarrow> (Some command, snd (remove_request_async w f))
    | Inr None \<Rightarrow> (None, f)
    | Inl _ \<Rightarrow> (None, snd (remove_request_async w f)))"

record fact_report_attempt =
  fa_attempted :: bool
  fa_reported :: bool
  fa_error :: "string option"

record probe_health =
  ph_probe :: string
  ph_status :: string
  ph_error :: "string option"

definition refresh_facts_outcome :: "probe_health list \<Rightarrow> nat \<Rightarrow> fact_report_attempt \<Rightarrow> command_outcome \<times> string" where
  "refresh_facts_outcome probes failure_count attempt =
    (let probe_failures = map (\<lambda>p. case ph_error p of
             Some detail \<Rightarrow> if detail \<noteq> [] then ph_probe p @ '': '' @ detail else ph_probe p
           | None \<Rightarrow> ph_probe p) (filter (\<lambda>p. ph_status p = ''failed'') probes)
     in (if fa_reported attempt then OSucceeded
         else if fa_attempted attempt \<or> fa_error attempt \<noteq> None then OFailed else ONoUplink,
         case fa_error attempt of
           Some err \<Rightarrow> err
         | None \<Rightarrow>
             if probe_failures = [] then ''probes='' @ show_nat (length probes) @ '' failed='' @ show_nat failure_count
             else show_nat (length probe_failures) @ txt_probes_failed @ join ''; '' probe_failures))"

datatype tick_result = TickDone "probe_health list" nat fact_report_attempt | TickFailed string

record tick_env =
  te_command :: command_env
  te_delivery :: "scan_delivery"
  te_finished :: "string \<Rightarrow> task_result option"
  te_remove_request :: write_outcome
  te_tick :: tick_result
  te_store_history :: write_outcome
  te_report :: "agent_command list option option"

record command_world =
  cw_state :: command_state
  cw_plane :: "data_plane"
  cw_request :: "agent_command disk_file"
  cw_history_file :: "command_history disk_file"
  cw_pending :: "agent_command list"
  cw_acks :: "command_ack list"
  cw_answered :: "command_ack list"
  cw_running :: bool

text \<open>What the tick records of an accepted refresh: the acknowledgement and the ledger.\<close>

definition finish_refresh :: "tick_env \<Rightarrow> command_turn \<Rightarrow> command_history \<Rightarrow> command_ack list \<times> bool \<times> command_history" where
  "finish_refresh e t history = (case ct_accepted_refresh t of
      None \<Rightarrow> ([], False, history)
    | Some (command, source) \<Rightarrow>
        (case (case te_tick e of
             TickDone probes failures attempt \<Rightarrow> refresh_facts_outcome probes failures attempt
           | TickFailed err \<Rightarrow> (OFailed, txt_loop_failed @ err)) of
          (outcome, detail) \<Rightarrow>
            (case record_command command outcome detail (ce_done_ms (te_command e) (cm_command_id command)) history of (ack, history') \<Rightarrow>
             (if source = RemoteSource then [ack] else [], True, history'))))"

definition store_command_history :: "tick_env \<Rightarrow> bool \<Rightarrow> command_world \<Rightarrow> command_world" where
  "store_command_history e dirty w =
    (if dirty then snd (write_op (te_store_history e) (\<lambda>w. w\<lparr>cw_history_file := Present (cs_history (cw_state w))\<rparr>) w) else w)"

text \<open>The status report, when it is due: a successful one delivers the acknowledgements and may bring commands.\<close>

definition exchange :: "tick_env \<Rightarrow> command_world \<Rightarrow> command_world" where
  "exchange e w = (case te_report e of
      Some (Some commands) \<Rightarrow> w\<lparr>cw_answered := cw_answered w @ cw_acks w, cw_acks := [], cw_pending := commands\<rparr>
    | _ \<Rightarrow> w)"

text \<open>One iteration, as far as commands are concerned.  The other writers of the counter (logs, metrics and facts have their frames too) and the
  gate of the terminal state are not part of it.\<close>

definition command_tick :: "tick_env \<Rightarrow> command_world \<Rightarrow> command_world" where
  "command_tick e w = (if \<not> cw_running w then w else
     case take_local_command (te_remove_request e) (cw_request w) of (local, request) \<Rightarrow>
     let queue = map (\<lambda>c. (c, RemoteSource)) (cw_pending w) @ (case local of Some c \<Rightarrow> [(c, LocalSource)] | None \<Rightarrow> []) in
     case drain_investigations (te_delivery e) (te_finished e) (ce_done_ms (te_command e)) (cw_state w) (cw_plane w) of
       ((acks1, recorded), s1, p1) \<Rightarrow>
     case handle_command_queue (te_command e) queue s1 of (t, s2) \<Rightarrow>
     case finish_refresh e t (cs_history s2) of (acks3, refreshed, history) \<Rightarrow>
     let w1 = w\<lparr>cw_state := s2\<lparr>cs_history := history\<rparr>, cw_plane := p1, cw_request := request, cw_pending := [],
                cw_acks := cw_acks w @ acks1 @ ct_acks t @ acks3\<rparr>;
         w2 = store_command_history e (recorded \<or> ct_history_dirty t \<or> refreshed) w1
     in case te_tick e of
          TickFailed _ \<Rightarrow> w2\<lparr>cw_running := False\<rparr>
        | TickDone _ _ _ \<Rightarrow> exchange e w2)"

text \<open>A restart keeps the files: the ledger is read back, an unreadable one counts as empty.\<close>

definition command_restart :: "command_world \<Rightarrow> command_world" where
  "command_restart w = w\<lparr>cw_state := (cw_state w)\<lparr>cs_history := (case load_history_async (cw_history_file w) of Inr h \<Rightarrow> h | Inl _ \<Rightarrow> []),
      cs_inflight := [], cs_last_refresh := None\<rparr>, cw_pending := [], cw_acks := [], cw_running := True\<rparr>"

subsection \<open>Runs\<close>

datatype command_event = LoopTick tick_env | SubmitLocal write_outcome agent_command | RestartAgent

fun command_event_step :: "command_event \<Rightarrow> command_world \<Rightarrow> command_world" where
  "command_event_step (LoopTick e) w = command_tick e w"
| "command_event_step (SubmitLocal outcome c) w = w\<lparr>cw_request := snd (submit_request_async outcome c (cw_request w))\<rparr>"
| "command_event_step RestartAgent w = command_restart w"

definition command_run :: "command_event list \<Rightarrow> command_world \<Rightarrow> command_world" where
  "command_run = fold command_event_step"

text \<open>The identifiers of the commands whose work was done, in order.\<close>

fun executed_id :: "effect \<Rightarrow> string option" where
  "executed_id (RanRefresh i) = Some i"
| "executed_id (RanProbe i _) = Some i"
| "executed_id (FinishedScan i) = Some i"
| "executed_id (StartedScan _) = None"

definition executed :: "effect list \<Rightarrow> string list" where
  "executed es = List.map_filter executed_id es"

subsection \<open>The ledger as a store of results\<close>

locale result_ledger =
  fixes lookup :: "'h \<Rightarrow> string \<Rightarrow> 'r option" and enter :: "'r \<Rightarrow> 'h \<Rightarrow> 'h" and key :: "'r \<Rightarrow> string"
    and within :: "string set \<Rightarrow> 'h \<Rightarrow> bool"
  assumes within_enter: "within B h \<Longrightarrow> key r \<in> B \<Longrightarrow> within B (enter r h)"
    and lookup_enter: "within B h \<Longrightarrow> key r \<in> B \<Longrightarrow> lookup (enter r h) k = (if k = key r then Some r else lookup h k)"
    and lookup_key: "lookup h k = Some r \<Longrightarrow> key r = k"
begin

lemma known_stays: "within B h \<Longrightarrow> key r \<in> B \<Longrightarrow> lookup h k \<noteq> None \<Longrightarrow> lookup (enter r h) k \<noteq> None"
  by (simp add: lookup_enter)

lemma known_stays_all:
  "within B h \<Longrightarrow> key ` set rs \<subseteq> B \<Longrightarrow> lookup h k \<noteq> None \<or> k \<in> key ` set rs \<Longrightarrow>
   within B (fold enter rs h) \<and> lookup (fold enter rs h) k \<noteq> None"
  by (induction rs arbitrary: h) (auto simp: within_enter lookup_enter)

lemma last_result_wins:
  "within B h \<Longrightarrow> key ` set rs \<subseteq> B \<Longrightarrow>
   lookup (fold enter rs h) k = (case find (\<lambda>r. key r = k) (rev rs) of Some r \<Rightarrow> Some r | None \<Rightarrow> lookup h k)"
  by (induction rs arbitrary: h) (auto simp: within_enter lookup_enter find_snoc split: option.split)

end

definition ledger_ids :: "command_history \<Rightarrow> string set" where
  "ledger_ids h = cr_command_id ` set h"

definition ledger_within :: "string set \<Rightarrow> command_history \<Rightarrow> bool" where
  "ledger_within B h \<longleftrightarrow> distinct (map cr_command_id h) \<and> ledger_ids h \<subseteq> B \<and> finite B \<and> card B \<le> HISTORY_LIMIT"

definition ledger_ok :: "command_history \<Rightarrow> bool" where
  "ledger_ok h \<longleftrightarrow> distinct (map cr_command_id h) \<and> length h \<le> HISTORY_LIMIT"

lemma history_find_None: "history_find h k = None \<longleftrightarrow> k \<notin> ledger_ids h"
  by (auto simp: history_find_def ledger_ids_def find_None_iff)

lemma history_find_key: "history_find h k = Some r \<Longrightarrow> cr_command_id r = k \<and> r \<in> set h"
  unfolding history_find_def by (drule find_SomeD) simp

lemma distinct_retain: "distinct (map cr_command_id h) \<Longrightarrow> distinct (map cr_command_id (filter P h))"
  by (simp add: distinct_map_filter)

lemma ledger_ok_record: "ledger_ok h \<Longrightarrow> ledger_ok (command_history_record r h)"
proof -
  assume h: "ledger_ok h"
  let ?e = "filter (\<lambda>x. cr_command_id x \<noteq> cr_command_id r) h @ [r]"
  have "distinct (map cr_command_id ?e)" using h distinct_retain by (auto simp: ledger_ok_def)
  then have "distinct (map cr_command_id (drop n ?e))" for n by (metis drop_map distinct_drop)
  with \<open>distinct (map cr_command_id ?e)\<close> show ?thesis by (auto simp: command_history_record_def ledger_ok_def Let_def simp del: drop_append map_append)
qed

lemma history_find_record: "history_find (command_history_record r h) (cr_command_id r) = Some r"
  by (simp add: command_history_record_def history_find_def Let_def HISTORY_LIMIT_def)

lemma command_history_record_within: "ledger_within B h \<Longrightarrow> cr_command_id r \<in> B \<Longrightarrow>
   command_history_record r h = filter (\<lambda>x. cr_command_id x \<noteq> cr_command_id r) h @ [r] \<and> ledger_within B (command_history_record r h)"
proof -
  assume h: "ledger_within B h" and r: "cr_command_id r \<in> B"
  let ?e = "filter (\<lambda>x. cr_command_id x \<noteq> cr_command_id r) h @ [r]"
  have d: "distinct (map cr_command_id ?e)" using h distinct_retain by (auto simp: ledger_within_def)
  have sub: "set (map cr_command_id ?e) \<subseteq> B" using h r by (auto simp: ledger_within_def ledger_ids_def)
  have "length ?e = card (set (map cr_command_id ?e))" using distinct_card[OF d] by simp
  also have "\<dots> \<le> card B" using sub h by (intro card_mono) (auto simp: ledger_within_def)
  finally have "length ?e \<le> HISTORY_LIMIT" using h by (simp add: ledger_within_def)
  then have eq: "command_history_record r h = ?e" by (simp add: command_history_record_def Let_def)
  show ?thesis using h d sub unfolding eq ledger_within_def ledger_ids_def by auto
qed

interpretation ledger: result_ledger history_find command_history_record cr_command_id ledger_within
proof
  fix B h k and r :: command_record
  assume h: "ledger_within B h" and r: "cr_command_id r \<in> B"
  show "ledger_within B (command_history_record r h)" by (rule conjunct2[OF command_history_record_within[OF h r]])
  show "history_find (command_history_record r h) k = (if k = cr_command_id r then Some r else history_find h k)"
    using command_history_record_within[OF h r] by (auto simp: history_find_def rev_filter find_filter_other)
next
  fix h k r assume "history_find h k = Some r" then show "cr_command_id r = k" by (simp add: history_find_key)
qed

lemma ledger_ids_record: "ledger_within B h \<Longrightarrow> cr_command_id r \<in> B \<Longrightarrow> ledger_ids (command_history_record r h) = insert (cr_command_id r) (ledger_ids h)"
  using command_history_record_within[of B h r] by (auto simp: ledger_ids_def)

subsection \<open>Work is done once\<close>

lemma executed_snoc [simp]: "executed (es @ [x]) = executed es @ (case executed_id x of Some i \<Rightarrow> [i] | None \<Rightarrow> [])"
  by (simp add: executed_def map_filter_def split: option.split)

definition inflight_ids :: "inflight_investigation list \<Rightarrow> string list" where
  "inflight_ids is = map (\<lambda>i. cm_command_id (iv_command i)) is"

lemma running_iff: "investigation_already_running is k \<longleftrightarrow> k \<in> set (inflight_ids is)"
  by (auto simp: investigation_already_running_def inflight_ids_def list_ex_iff)

text \<open>The book: the commands there are, at most as many as the ledger holds, with distinct identifiers.\<close>

definition book_ok :: "agent_command list \<Rightarrow> bool" where
  "book_ok book \<longleftrightarrow> distinct (map cm_command_id book) \<and> length book \<le> HISTORY_LIMIT"

definition book_ids :: "agent_command list \<Rightarrow> string set" where
  "book_ids book = cm_command_id ` set book"

lemma book_same: "book_ok book \<Longrightarrow> c \<in> set book \<Longrightarrow> d \<in> set book \<Longrightarrow> cm_command_id c = cm_command_id d \<Longrightarrow> c = d"
  by (auto simp: book_ok_def distinct_map inj_on_def)

lemma within_book: "book_ok book \<Longrightarrow> distinct (map cr_command_id h) \<Longrightarrow> ledger_ids h \<subseteq> book_ids book \<Longrightarrow> ledger_within (book_ids book) h"
  using card_image_le[of "set book" cm_command_id] card_length[of book]
  by (auto simp: ledger_within_def book_ok_def book_ids_def)

text \<open>What holds of the state between two commands of a turn: \<open>extra\<close> are the identifiers of scans still to be looked at, \<open>taken\<close>
  the command whose refresh was accepted.\<close>

definition state_ok :: "agent_command list \<Rightarrow> string \<Rightarrow> inflight_investigation list \<Rightarrow> agent_command option \<Rightarrow> command_state \<Rightarrow> bool" where
  "state_ok book kind extra taken s \<longleftrightarrow>
     ledger_within (book_ids book) (cs_history s) \<and>
     distinct (executed (cs_effects s)) \<and>
     set (executed (cs_effects s)) \<subseteq> ledger_ids (cs_history s) \<union> (case taken of Some c \<Rightarrow> {cm_command_id c} | None \<Rightarrow> {}) \<and>
     distinct (inflight_ids (cs_inflight s @ extra)) \<and>
     set (inflight_ids (cs_inflight s @ extra)) \<inter> set (executed (cs_effects s)) = {} \<and>
     list_all (\<lambda>i. iv_command i \<in> set book \<and> cm_kind (iv_command i) = kind) (cs_inflight s @ extra) \<and>
     (case taken of Some c \<Rightarrow> c \<in> set book \<and> cm_kind c \<noteq> kind | None \<Rightarrow> True)"

lemma record_command_simps: "record_command c o' d n h =
   (\<lparr>ak_command_id = cm_command_id c, ak_outcome = o', ak_detail = d\<rparr>,
    command_history_record \<lparr>cr_command_id = cm_command_id c, cr_kind = cm_kind c, cr_outcome = o', cr_detail = d, cr_completed_at_ms = n\<rparr> h)"
  by (simp add: record_command_def Let_def ack_from_record_def)

lemma state_ok_within: "state_ok book kind extra taken s \<Longrightarrow> ledger_within (book_ids book) (cs_history s)"
  by (simp add: state_ok_def)

lemma state_ok_record:
  assumes s: "state_ok book kind extra taken s" and c: "c \<in> set book"
  shows "state_ok book kind extra taken (s\<lparr>cs_history := snd (record_command c o' d n (cs_history s))\<rparr>)"
    and "ledger_ids (snd (record_command c o' d n (cs_history s))) = insert (cm_command_id c) (ledger_ids (cs_history s))"
proof -
  have B: "cm_command_id c \<in> book_ids book" using c by (simp add: book_ids_def)
  note l = state_ok_within[OF s]
  show ids: "ledger_ids (snd (record_command c o' d n (cs_history s))) = insert (cm_command_id c) (ledger_ids (cs_history s))"
    using ledger_ids_record[OF l] B by (simp add: record_command_simps)
  show "state_ok book kind extra taken (s\<lparr>cs_history := snd (record_command c o' d n (cs_history s))\<rparr>)"
    using s ids ledger.within_enter[OF l] B by (auto simp: state_ok_def record_command_simps split: option.splits)
qed

lemma settle_simps: "settle_command c src o' d n (t, s) =
   (push_ack src (fst (record_command c o' d n (cs_history s))) (t\<lparr>ct_history_dirty := True\<rparr>),
    s\<lparr>cs_history := snd (record_command c o' d n (cs_history s))\<rparr>)"
  by (simp add: settle_command_def split: prod.split)

lemma push_ack_accepted [simp]: "ct_accepted_refresh (push_ack src a t) = ct_accepted_refresh t"
  "ct_history_dirty (push_ack src a t) = ct_history_dirty t"
  by (simp_all add: push_ack_def)

definition turn_ok :: "command_env \<Rightarrow> agent_command list \<Rightarrow> command_turn \<times> command_state \<Rightarrow> bool" where
  "turn_ok e book ts \<longleftrightarrow> (case ts of (t, s) \<Rightarrow>
     state_ok book (ce_kind_investigate e) [] (map_option fst (ct_accepted_refresh t)) s \<and>
     (case ct_accepted_refresh t of Some (c, _) \<Rightarrow> parse_probe_request (ce_parse e) (cm_params c) = None | None \<Rightarrow> True))"

lemma turn_ok_settle: "turn_ok e book (t, s) \<Longrightarrow> c \<in> set book \<Longrightarrow> turn_ok e book (settle_command c src o' d n (t, s))"
  using state_ok_record(1)[of book "ce_kind_investigate e" "[]" _ s c] by (simp add: turn_ok_def settle_simps)

lemma evaluate_cases:
  "evaluate_command e c taken before = AcceptRefresh \<Longrightarrow>
     \<not> taken \<and> cm_kind c \<noteq> ce_kind_investigate e \<and> parse_probe_request (ce_parse e) (cm_params c) = None"
  "evaluate_command e c taken before = AcceptProbe paths \<Longrightarrow>
     cm_kind c \<noteq> ce_kind_investigate e \<and> parse_probe_request (ce_parse e) (cm_params c) = Some paths"
  "evaluate_command e c taken before = AcceptInvestigate q \<Longrightarrow> cm_kind c = ce_kind_investigate e"
  by (auto simp: evaluate_command_def split: if_splits option.splits sum.splits)

lemma not_recorded: "turn_ok e book (t, s) \<Longrightarrow> history_find (cs_history s) k = None \<Longrightarrow> k \<in> set (executed (cs_effects s)) \<Longrightarrow>
   \<exists>c src. ct_accepted_refresh t = Some (c, src) \<and> cm_command_id c = k"
  by (auto simp: turn_ok_def state_ok_def history_find_None split: option.splits)

lemma not_inflight:
  "turn_ok e book (t, s) \<Longrightarrow> book_ok book \<Longrightarrow> c \<in> set book \<Longrightarrow> cm_kind c \<noteq> ce_kind_investigate e \<Longrightarrow>
   cm_command_id c \<notin> set (inflight_ids (cs_inflight s))"
proof
  assume t: "turn_ok e book (t, s)" and b: "book_ok book" "c \<in> set book" and k: "cm_kind c \<noteq> ce_kind_investigate e"
    and "cm_command_id c \<in> set (inflight_ids (cs_inflight s))"
  then obtain i where i: "i \<in> set (cs_inflight s)" "cm_command_id c = cm_command_id (iv_command i)" by (auto simp: inflight_ids_def)
  then have "iv_command i \<in> set book" "cm_kind (iv_command i) = ce_kind_investigate e"
    using t by (auto simp: turn_ok_def state_ok_def list_all_iff)
  then show False using book_same[OF b(1) b(2) _ i(2)] k by simp
qed

lemma turn_ok_refresh:
  assumes t: "turn_ok e book (t, s)" and b: "book_ok book" "c \<in> set book" and n: "history_find (cs_history s) (cm_command_id c) = None"
    and v: "evaluate_command e c (ct_accepted_refresh t \<noteq> None) (cs_last_refresh s) = AcceptRefresh"
  shows "turn_ok e book (t\<lparr>ct_accepted_refresh := Some (c, src)\<rparr>,
    s\<lparr>cs_last_refresh := Some m, cs_effects := cs_effects s @ [RanRefresh (cm_command_id c)]\<rparr>)"
proof -
  note ev = evaluate_cases(1)[OF v]
  have "cm_command_id c \<notin> set (executed (cs_effects s))" using not_recorded[OF t n] ev by auto
  moreover have "cm_command_id c \<notin> set (inflight_ids (cs_inflight s))" using not_inflight[OF t b] ev by simp
  moreover have "ct_accepted_refresh t = None" using ev by (cases "ct_accepted_refresh t") auto
  ultimately show ?thesis using t b ev by (auto simp: turn_ok_def state_ok_def)
qed

lemma turn_ok_probe:
  assumes t: "turn_ok e book (t, s)" and b: "book_ok book" "c \<in> set book" and n: "history_find (cs_history s) (cm_command_id c) = None"
    and v: "evaluate_command e c (ct_accepted_refresh t \<noteq> None) (cs_last_refresh s) = AcceptProbe paths"
  shows "turn_ok e book (settle_command c src o' d m (t, s\<lparr>cs_effects := cs_effects s @ [RanProbe (cm_command_id c) paths]\<rparr>))"
proof -
  note ev = evaluate_cases(2)[OF v]
  have new: "cm_command_id c \<notin> set (executed (cs_effects s))"
  proof
    assume "cm_command_id c \<in> set (executed (cs_effects s))"
    then obtain c' src' where c': "ct_accepted_refresh t = Some (c', src')" "cm_command_id c' = cm_command_id c" using not_recorded[OF t n] by blast
    moreover have "c' \<in> set book" using t c' by (simp add: turn_ok_def state_ok_def)
    ultimately have "c' = c" using book_same[OF b(1)] b(2) by simp
    then show False using t c' ev by (simp add: turn_ok_def)
  qed
  have nofl: "cm_command_id c \<notin> set (inflight_ids (cs_inflight s))" using not_inflight[OF t b] ev by simp
  let ?h = "snd (record_command c o' d m (cs_history s))"
  have st: "state_ok book (ce_kind_investigate e) [] (map_option fst (ct_accepted_refresh t)) s" using t by (simp add: turn_ok_def)
  note r = state_ok_record[OF st b(2), of o' d m]
  show ?thesis using t new nofl r by (auto simp: turn_ok_def state_ok_def settle_simps)
qed

lemma turn_ok_scan:
  assumes t: "turn_ok e book (t, s)" and b: "book_ok book" "c \<in> set book" and n: "history_find (cs_history s) (cm_command_id c) = None"
    and v: "evaluate_command e c (ct_accepted_refresh t \<noteq> None) (cs_last_refresh s) = AcceptInvestigate q"
    and new: "\<not> investigation_already_running (cs_inflight s) (cm_command_id c)"
  shows "turn_ok e book (push_ack src a t, s\<lparr>cs_inflight := cs_inflight s @ [\<lparr>iv_command = c, iv_source = src', iv_request = q\<rparr>],
    cs_effects := cs_effects s @ [StartedScan (cm_command_id c)]\<rparr>)"
proof -
  note ev = evaluate_cases(3)[OF v]
  have ex: "cm_command_id c \<notin> set (executed (cs_effects s))"
  proof
    assume "cm_command_id c \<in> set (executed (cs_effects s))"
    then obtain c' src' where c': "ct_accepted_refresh t = Some (c', src')" "cm_command_id c' = cm_command_id c" using not_recorded[OF t n] by blast
    then have "c' \<in> set book" "cm_kind c' \<noteq> ce_kind_investigate e" using t by (simp_all add: turn_ok_def state_ok_def)
    then show False using book_same[OF b(1) _ b(2) c'(2)] ev by auto
  qed
  then show ?thesis using t b ev new by (auto simp: turn_ok_def state_ok_def running_iff inflight_ids_def)
qed

lemma turn_ok_handle:
  assumes t: "turn_ok e book ts" and b: "book_ok book" "c \<in> set book"
  shows "turn_ok e book (handle_command e (c, src) ts)"
proof -
  obtain t0 s where ts: "ts = (t0, s)" by (cases ts)
  note t = t[unfolded ts]
  show ?thesis
  proof (cases "history_find (cs_history s) (cm_command_id c)")
    case (Some r) then show ?thesis using t by (simp add: ts handle_command_def turn_ok_def Let_def)
  next
    case None
    note settle = turn_ok_settle[OF t b(2)]
    show ?thesis
    proof (cases "evaluate_command e c (ct_accepted_refresh t0 \<noteq> None) (cs_last_refresh s)")
      case AcceptRefresh then show ?thesis using turn_ok_refresh[OF t b None AcceptRefresh] None by (simp add: ts handle_command_def Let_def)
    next
      case (AcceptProbe paths) then show ?thesis
        using turn_ok_probe[OF t b None AcceptProbe] None by (simp add: ts handle_command_def Let_def split: prod.split)
    next
      case (AcceptInvestigate q)
      have "turn_ok e book (push_ack src a t0, s)" for a using t by (simp add: turn_ok_def)
      then show ?thesis using turn_ok_scan[OF t b None AcceptInvestigate] None AcceptInvestigate by (simp add: ts handle_command_def Let_def)
    qed (use settle None in \<open>simp_all add: ts handle_command_def Let_def\<close>)
  qed
qed

lemma turn_ok_queue: "book_ok book \<Longrightarrow> fst ` set queue \<subseteq> set book \<Longrightarrow> turn_ok e book ts \<Longrightarrow> turn_ok e book (fold (handle_command e) queue ts)"
proof (induction queue arbitrary: ts)
  case (Cons x queue)
  then show ?case using turn_ok_handle[of e book ts "fst x" "snd x"] by simp
qed simp

text \<open>Collecting the finished scans.\<close>

definition scan_result :: "scan_delivery \<Rightarrow> inflight_investigation \<Rightarrow> task_result \<Rightarrow> data_plane \<Rightarrow> (command_outcome \<times> string) \<times> data_plane" where
  "scan_result v i result p = (case result of
      TaskReport report path \<Rightarrow> deliver_investigation v (iv_command i) report path p
    | TaskFailed detail \<Rightarrow> ((OFailed, detail), p)
    | TaskAborted err \<Rightarrow> ((OFailed, txt_task_aborted @ err), p))"

lemma drain_step:
  "drain_finished_investigations v fin dm (i # rest) ((acks, rec), s, p) = (case fin (cm_command_id (iv_command i)) of
      None \<Rightarrow> drain_finished_investigations v fin dm rest ((acks, rec), s\<lparr>cs_inflight := cs_inflight s @ [i]\<rparr>, p)
    | Some result \<Rightarrow>
        (let r = scan_result v i result p;
             k = record_command (iv_command i) (fst (fst r)) (snd (fst r)) (dm (cm_command_id (iv_command i))) (cs_history s)
         in drain_finished_investigations v fin dm rest
              ((if iv_source i = RemoteSource then acks @ [fst k] else acks, True),
               s\<lparr>cs_history := snd k, cs_effects := cs_effects s @ [FinishedScan (cm_command_id (iv_command i))]\<rparr>, snd r)))"
  by (auto simp: scan_result_def Let_def split: option.split task_result.split prod.split)

lemma state_ok_finished:
  assumes s: "state_ok book kind (i # rest) None s"
  shows "state_ok book kind rest None (s\<lparr>cs_history := snd (record_command (iv_command i) o' d n (cs_history s)),
    cs_effects := cs_effects s @ [FinishedScan (cm_command_id (iv_command i))]\<rparr>)"
proof -
  have c: "iv_command i \<in> set book" using s by (simp add: state_ok_def)
  note r = state_ok_record[OF s c, of o' d n]
  have l: "ledger_within (book_ids book) (snd (record_command (iv_command i) o' d n (cs_history s)))" using r(1) by (simp add: state_ok_def)
  have d: "distinct (inflight_ids (cs_inflight s @ i # rest))" "set (inflight_ids (cs_inflight s @ i # rest)) \<inter> set (executed (cs_effects s)) = {}"
    using s by (simp_all add: state_ok_def)
  show ?thesis using s l r(2) d by (auto simp: state_ok_def inflight_ids_def)
qed

lemma drain_ok:
  "state_ok book kind is None s \<Longrightarrow> drain_finished_investigations v fin dm is ((acks, rec), s, p) = ((acks', rec'), s', p') \<Longrightarrow>
   state_ok book kind [] None s' \<and> (\<not> rec' \<longrightarrow> \<not> rec \<and> cs_history s' = cs_history s) \<and> cs_last_refresh s' = cs_last_refresh s"
proof (induction "is" arbitrary: s acks rec p)
  case Nil then show ?case by auto
next
  case (Cons i rest)
  show ?case
  proof (cases "fin (cm_command_id (iv_command i))")
    case None
    have "state_ok book kind rest None (s\<lparr>cs_inflight := cs_inflight s @ [i]\<rparr>)" using Cons.prems(1) by (simp add: state_ok_def)
    moreover have "drain_finished_investigations v fin dm rest ((acks, rec), s\<lparr>cs_inflight := cs_inflight s @ [i]\<rparr>, p) = ((acks', rec'), s', p')"
      using Cons.prems(2) None by (simp add: drain_step del: drain_finished_investigations.simps)
    ultimately show ?thesis using Cons.IH by fastforce
  next
    case (Some result)
    from Cons.prems(2) Some obtain acks1 o' d n p1 where
      "drain_finished_investigations v fin dm rest ((acks1, True),
        s\<lparr>cs_history := snd (record_command (iv_command i) o' d n (cs_history s)),
          cs_effects := cs_effects s @ [FinishedScan (cm_command_id (iv_command i))]\<rparr>, p1) = ((acks', rec'), s', p')"
      by (simp add: drain_step Let_def del: drain_finished_investigations.simps)
    from Cons.IH[OF state_ok_finished[OF Cons.prems(1)] this] show ?thesis by simp
  qed
qed

text \<open>A ledger that is not marked changed is the ledger there was.\<close>

lemma handle_clean: "handle_command e (c, src) (t, s) = (t', s') \<Longrightarrow> \<not> ct_history_dirty t' \<Longrightarrow> \<not> ct_history_dirty t \<and> cs_history s' = cs_history s"
  by (auto simp: handle_command_def settle_simps Let_def split: option.splits command_verdict.splits if_splits prod.splits)

lemma queue_clean: "fold (handle_command e) queue (t, s) = (t', s') \<Longrightarrow> \<not> ct_history_dirty t' \<Longrightarrow> \<not> ct_history_dirty t \<and> cs_history s' = cs_history s"
proof (induction queue arbitrary: t s)
  case (Cons x queue)
  obtain t1 s1 where h: "handle_command e x (t, s) = (t1, s1)" by fastforce
  with Cons show ?case using handle_clean[of e "fst x" "snd x" t s t1 s1] by simp
qed simp

lemma finish_ok:
  assumes t: "turn_ok (te_command e) book (t, s)" and f: "finish_refresh e t (cs_history s) = (acks, refreshed, history)"
  shows "state_ok book (ce_kind_investigate (te_command e)) [] None (s\<lparr>cs_history := history\<rparr>) \<and> (\<not> refreshed \<longrightarrow> history = cs_history s)"
proof (cases "ct_accepted_refresh t")
  case None then show ?thesis using t f by (auto simp: finish_refresh_def turn_ok_def state_ok_def)
next
  case (Some cs)
  obtain c src where cs: "cs = (c, src)" by (cases cs)
  have st: "state_ok book (ce_kind_investigate (te_command e)) [] (Some c) s" and c: "c \<in> set book"
    using t Some cs by (simp_all add: turn_ok_def state_ok_def)
  obtain o' d n where h: "history = snd (record_command c o' d n (cs_history s))" "refreshed"
    using f Some cs by (auto simp: finish_refresh_def record_command_simps split: prod.splits)
  show ?thesis using state_ok_record[OF st c, of o' d n] h by (auto simp: state_ok_def)
qed

definition world_ok :: "agent_command list \<Rightarrow> string \<Rightarrow> command_world \<Rightarrow> bool" where
  "world_ok book kind w \<longleftrightarrow> state_ok book kind [] None (cw_state w) \<and>
     load_history_async (cw_history_file w) = Inr (cs_history (cw_state w)) \<and>
     set (cw_pending w) \<subseteq> set book \<and> (case cw_request w of Present c \<Rightarrow> c \<in> set book | _ \<Rightarrow> True)"

text \<open>An event whose commands are in the book, and which stores the ledger where it has to.\<close>

fun command_event_ok :: "agent_command list \<Rightarrow> string \<Rightarrow> command_event \<Rightarrow> bool" where
  "command_event_ok book kind (LoopTick e) \<longleftrightarrow> te_store_history e = Done \<and> ce_kind_investigate (te_command e) = kind \<and>
     (case te_report e of Some (Some cs) \<Rightarrow> set cs \<subseteq> set book | _ \<Rightarrow> True)"
| "command_event_ok book kind (SubmitLocal _ c) \<longleftrightarrow> c \<in> set book"
| "command_event_ok book kind RestartAgent \<longleftrightarrow> True"

lemma write_file_cases: "snd (write_op outcome (\<lambda>_. x) f) \<in> {x, f}"
  by (cases outcome) simp_all

lemma take_local_ok:
  assumes "case f of Present c \<Rightarrow> c \<in> B | _ \<Rightarrow> True" and t: "take_local_command outcome f = (taken, f')"
  shows "(case taken of Some c \<Rightarrow> c \<in> B | None \<Rightarrow> True) \<and> (case f' of Present c \<Rightarrow> c \<in> B | _ \<Rightarrow> True)"
proof -
  have "snd (remove_request_async outcome f) \<in> {Missing, f}"
    using write_file_cases[of outcome Missing f] by (auto simp: remove_request_async_def)
  with assms show ?thesis
    by (auto simp: take_local_command_def read_request_async_def read_json_async_def split: disk_file.splits if_splits)
qed

lemma submit_ok: "case f of Present c \<Rightarrow> c \<in> B | _ \<Rightarrow> True \<Longrightarrow> c \<in> B \<Longrightarrow>
   case snd (submit_request_async outcome c f) of Present c \<Rightarrow> c \<in> B | _ \<Rightarrow> True"
  using write_file_cases[of outcome "Present c" f]
  by (cases outcome) (auto simp: submit_request_async_def split: sum.splits option.splits prod.splits disk_file.splits)

text \<open>One tick in its parts.\<close>

lemma tick_parts:
  assumes run: "cw_running w"
  obtains taken request acks1 recorded s1 p1 t s2 acks3 refreshed history where
    "take_local_command (te_remove_request e) (cw_request w) = (taken, request)"
    "drain_investigations (te_delivery e) (te_finished e) (ce_done_ms (te_command e)) (cw_state w) (cw_plane w) = ((acks1, recorded), s1, p1)"
    "handle_command_queue (te_command e) (map (\<lambda>c. (c, RemoteSource)) (cw_pending w) @
       (case taken of Some c \<Rightarrow> [(c, LocalSource)] | None \<Rightarrow> [])) s1 = (t, s2)"
    "finish_refresh e t (cs_history s2) = (acks3, refreshed, history)"
    "command_tick e w =
       (let w2 = store_command_history e (recorded \<or> ct_history_dirty t \<or> refreshed)
          (w\<lparr>cw_state := s2\<lparr>cs_history := history\<rparr>, cw_plane := p1, cw_request := request, cw_pending := [],
             cw_acks := cw_acks w @ acks1 @ ct_acks t @ acks3\<rparr>)
        in case te_tick e of TickFailed _ \<Rightarrow> w2\<lparr>cw_running := False\<rparr> | TickDone _ _ _ \<Rightarrow> exchange e w2)"
proof -
  obtain taken request where 1: "take_local_command (te_remove_request e) (cw_request w) = (taken, request)" by fastforce
  obtain acks1 recorded s1 p1 where 2: "drain_investigations (te_delivery e) (te_finished e) (ce_done_ms (te_command e)) (cw_state w) (cw_plane w) =
      ((acks1, recorded), s1, p1)" by (metis prod.exhaust)
  obtain t s2 where 3: "handle_command_queue (te_command e) (map (\<lambda>c. (c, RemoteSource)) (cw_pending w) @
       (case taken of Some c \<Rightarrow> [(c, LocalSource)] | None \<Rightarrow> [])) s1 = (t, s2)" by fastforce
  obtain acks3 refreshed history where 4: "finish_refresh e t (cs_history s2) = (acks3, refreshed, history)" by (metis prod.exhaust)
  show thesis by (rule that[OF 1 2 3 4]) (simp add: command_tick_def run 1 2 3 4 Let_def)
qed

lemma store_done: "te_store_history e = Done \<Longrightarrow>
   store_command_history e dirty w = (if dirty then w\<lparr>cw_history_file := Present (cs_history (cw_state w))\<rparr> else w)"
  by (simp add: store_command_history_def)

lemma world_ok_tick:
  assumes b: "book_ok book" and w: "world_ok book kind w" and e: "command_event_ok book kind (LoopTick e)"
  shows "world_ok book kind (command_tick e w)"
proof (cases "cw_running w")
  case False then show ?thesis using w by (simp add: command_tick_def)
next
  case True
  from True obtain taken request acks1 recorded s1 p1 t s2 acks3 refreshed history where
    1: "take_local_command (te_remove_request e) (cw_request w) = (taken, request)" and
    2: "drain_investigations (te_delivery e) (te_finished e) (ce_done_ms (te_command e)) (cw_state w) (cw_plane w) = ((acks1, recorded), s1, p1)" and
    3: "handle_command_queue (te_command e) (map (\<lambda>c. (c, RemoteSource)) (cw_pending w) @
       (case taken of Some c \<Rightarrow> [(c, LocalSource)] | None \<Rightarrow> [])) s1 = (t, s2)" and
    4: "finish_refresh e t (cs_history s2) = (acks3, refreshed, history)" and
    eq: "command_tick e w =
       (let w2 = store_command_history e (recorded \<or> ct_history_dirty t \<or> refreshed)
          (w\<lparr>cw_state := s2\<lparr>cs_history := history\<rparr>, cw_plane := p1, cw_request := request, cw_pending := [],
             cw_acks := cw_acks w @ acks1 @ ct_acks t @ acks3\<rparr>)
        in case te_tick e of TickFailed _ \<Rightarrow> w2\<lparr>cw_running := False\<rparr> | TickDone _ _ _ \<Rightarrow> exchange e w2)" by (rule tick_parts)
  have k: "ce_kind_investigate (te_command e) = kind" using e by simp
  have req: "(case taken of Some c \<Rightarrow> c \<in> set book | None \<Rightarrow> True) \<and> (case request of Present c \<Rightarrow> c \<in> set book | _ \<Rightarrow> True)"
    using w by (intro take_local_ok[OF _ 1]) (simp add: world_ok_def)
  have "state_ok book kind (cs_inflight (cw_state w)) None ((cw_state w)\<lparr>cs_inflight := []\<rparr>)"
    using w by (simp add: world_ok_def state_ok_def)
  note d = drain_ok[OF this 2[unfolded drain_investigations_def]]
  have "turn_ok (te_command e) book (turn_new, s1)" using d k by (simp add: turn_ok_def turn_new_def)
  moreover have "fst ` set (map (\<lambda>c. (c, RemoteSource)) (cw_pending w) @ (case taken of Some c \<Rightarrow> [(c, LocalSource)] | None \<Rightarrow> [])) \<subseteq> set book"
    using w req by (auto simp: world_ok_def split: option.splits)
  ultimately have t: "turn_ok (te_command e) book (t, s2)"
    using turn_ok_queue[OF b] 3 unfolding handle_command_queue_def by metis
  have q: "\<not> ct_history_dirty t \<longrightarrow> cs_history s2 = cs_history s1"
    using queue_clean[OF 3[unfolded handle_command_queue_def]] by simp
  note f = finish_ok[OF t 4]
  have same: "\<not> (recorded \<or> ct_history_dirty t \<or> refreshed) \<Longrightarrow> history = cs_history (cw_state w)" using d q f by simp
  define w2 where "w2 = store_command_history e (recorded \<or> ct_history_dirty t \<or> refreshed)
          (w\<lparr>cw_state := s2\<lparr>cs_history := history\<rparr>, cw_plane := p1, cw_request := request, cw_pending := [],
             cw_acks := cw_acks w @ acks1 @ ct_acks t @ acks3\<rparr>)"
  have "world_ok book kind w2"
    using w f k req same e by (auto simp: w2_def world_ok_def store_done load_history_async_def read_json_async_def)
  moreover have "world_ok book kind (exchange e w2)"
    using \<open>world_ok book kind w2\<close> e by (auto simp: exchange_def world_ok_def split: option.splits)
  ultimately show ?thesis unfolding eq Let_def w2_def[symmetric] by (auto simp: world_ok_def split: tick_result.split)
qed

lemma world_ok_step: "book_ok book \<Longrightarrow> world_ok book kind w \<Longrightarrow> command_event_ok book kind ev \<Longrightarrow> world_ok book kind (command_event_step ev w)"
proof (cases ev)
  case (LoopTick e) then show "book_ok book \<Longrightarrow> world_ok book kind w \<Longrightarrow> command_event_ok book kind ev \<Longrightarrow> ?thesis"
    by (simp add: world_ok_tick del: command_event_ok.simps)
next
  case (SubmitLocal outcome c)
  then show "world_ok book kind w \<Longrightarrow> command_event_ok book kind ev \<Longrightarrow> ?thesis"
    using submit_ok[where f = "cw_request w" and B = "set book" and c = c and outcome = outcome] by (simp add: world_ok_def)
next
  case RestartAgent
  then show "world_ok book kind w \<Longrightarrow> ?thesis"
    by (auto simp: world_ok_def command_restart_def state_ok_def inflight_ids_def)
qed

lemma world_ok_run: "book_ok book \<Longrightarrow> world_ok book kind w \<Longrightarrow> list_all (command_event_ok book kind) evs \<Longrightarrow> world_ok book kind (command_run evs w)"
  by (induction evs arbitrary: w) (auto simp: command_run_def world_ok_step)

subsection \<open>Every command is answered\<close>

definition ack_ids :: "command_ack list \<Rightarrow> string set" where
  "ack_ids as = ak_command_id ` set as"

lemma push_ack_ids: "ack_ids (ct_acks (push_ack src a t)) = (if src = RemoteSource then insert (ak_command_id a) (ack_ids (ct_acks t)) else ack_ids (ct_acks t))"
  by (auto simp: push_ack_def ack_ids_def)

lemma record_ack_id [simp]: "ak_command_id (fst (record_command c o' d n h)) = cm_command_id c"
  by (simp add: record_command_simps)

lemma handle_answers:
  assumes "handle_command e (c, src) (t, s) = (t', s')"
  shows "ack_ids (ct_acks t) \<subseteq> ack_ids (ct_acks t')" "ct_accepted_refresh t = Some x \<Longrightarrow> ct_accepted_refresh t' = Some x"
    "src = RemoteSource \<Longrightarrow> cm_command_id c \<in> ack_ids (ct_acks t') \<or> ct_accepted_refresh t' = Some (c, RemoteSource)"
proof -
  have settle: "ack_ids (ct_acks t) \<subseteq> ack_ids (ct_acks t')" "ct_accepted_refresh t' = ct_accepted_refresh t"
    "src = RemoteSource \<Longrightarrow> cm_command_id c \<in> ack_ids (ct_acks t')" if "settle_command c src o' d n (t, s0) = (t', s')" for o' d n s0
    using that by (auto simp: settle_simps push_ack_ids)
  have "ack_ids (ct_acks t) \<subseteq> ack_ids (ct_acks t') \<and> (ct_accepted_refresh t = Some x \<longrightarrow> ct_accepted_refresh t' = Some x) \<and>
    (src = RemoteSource \<longrightarrow> cm_command_id c \<in> ack_ids (ct_acks t') \<or> ct_accepted_refresh t' = Some (c, RemoteSource))"
  proof (cases "history_find (cs_history s) (cm_command_id c)")
    case (Some r)
    then have "t' = push_ack src (ack_from_record r) t" "ak_command_id (ack_from_record r) = cm_command_id c"
      using assms history_find_key[OF Some] by (auto simp: handle_command_def Let_def ack_from_record_def)
    then show ?thesis by (auto simp: push_ack_ids)
  next
    case None
    show ?thesis
    proof (cases "evaluate_command e c (ct_accepted_refresh t \<noteq> None) (cs_last_refresh s)")
      case AcceptRefresh
      then have "ct_accepted_refresh t = None" using evaluate_cases(1)[OF AcceptRefresh] by (cases "ct_accepted_refresh t") auto
      then show ?thesis using assms None AcceptRefresh by (auto simp: handle_command_def Let_def ack_ids_def)
    next
      case (AcceptProbe paths)
      then obtain o' d n s0 where "settle_command c src o' d n (t, s0) = (t', s')"
        using assms None by (auto simp: handle_command_def Let_def split: prod.splits)
      from settle[OF this] show ?thesis by auto
    next
      case (AcceptInvestigate q)
      then have "t' = push_ack src (scanning_ack c q) t" using assms None by (auto simp: handle_command_def Let_def split: if_splits)
      then show ?thesis by (auto simp: push_ack_ids scanning_ack_def)
    qed (use assms None settle in \<open>auto simp: handle_command_def Let_def\<close>)
  qed
  then show "ack_ids (ct_acks t) \<subseteq> ack_ids (ct_acks t')" "ct_accepted_refresh t = Some x \<Longrightarrow> ct_accepted_refresh t' = Some x"
    "src = RemoteSource \<Longrightarrow> cm_command_id c \<in> ack_ids (ct_acks t') \<or> ct_accepted_refresh t' = Some (c, RemoteSource)" by auto
qed

lemma queue_keeps: "fold (handle_command e) queue (t, s) = (t', s') \<Longrightarrow>
   ack_ids (ct_acks t) \<subseteq> ack_ids (ct_acks t') \<and> (\<forall>x. ct_accepted_refresh t = Some x \<longrightarrow> ct_accepted_refresh t' = Some x)"
proof (induction queue arbitrary: t s)
  case (Cons x queue)
  obtain t1 s1 where h: "handle_command e (fst x, snd x) (t, s) = (t1, s1)" by fastforce
  have "fold (handle_command e) queue (t1, s1) = (t', s')" using Cons.prems h by simp
  from Cons.IH[OF this] handle_answers(1,2)[OF h] show ?case by blast
qed simp

lemma queue_answers: "fold (handle_command e) queue (t, s) = (t', s') \<Longrightarrow> (c, RemoteSource) \<in> set queue \<Longrightarrow>
   cm_command_id c \<in> ack_ids (ct_acks t') \<or> ct_accepted_refresh t' = Some (c, RemoteSource)"
proof (induction queue arbitrary: t s)
  case (Cons x queue)
  obtain t1 s1 where h: "handle_command e (fst x, snd x) (t, s) = (t1, s1)" by fastforce
  have rest: "fold (handle_command e) queue (t1, s1) = (t', s')" using Cons.prems h by simp
  show ?case
  proof (cases "(c, RemoteSource) = x")
    case True
    then have "cm_command_id c \<in> ack_ids (ct_acks t1) \<or> ct_accepted_refresh t1 = Some (c, RemoteSource)" using handle_answers(3)[OF h] by auto
    then show ?thesis using queue_keeps[OF rest] by blast
  next
    case False then show ?thesis using Cons.IH[OF rest] Cons.prems by simp
  qed
qed simp

lemma finish_answers: "finish_refresh e t h = (acks, refreshed, h') \<Longrightarrow> ct_accepted_refresh t = Some (c, RemoteSource) \<Longrightarrow> cm_command_id c \<in> ack_ids acks"
  by (auto simp: finish_refresh_def record_command_simps ack_ids_def split: prod.splits)

lemma tick_answers: "cw_running w \<Longrightarrow> c \<in> set (cw_pending w) \<Longrightarrow>
   cm_command_id c \<in> ack_ids (cw_answered (command_tick e w) @ cw_acks (command_tick e w))"
proof -
  assume run: "cw_running w" and c: "c \<in> set (cw_pending w)"
  from run obtain taken request acks1 recorded s1 p1 t s2 acks3 refreshed history where
    3: "handle_command_queue (te_command e) (map (\<lambda>c. (c, RemoteSource)) (cw_pending w) @
       (case taken of Some c \<Rightarrow> [(c, LocalSource)] | None \<Rightarrow> [])) s1 = (t, s2)" and
    4: "finish_refresh e t (cs_history s2) = (acks3, refreshed, history)" and
    eq: "command_tick e w =
       (let w2 = store_command_history e (recorded \<or> ct_history_dirty t \<or> refreshed)
          (w\<lparr>cw_state := s2\<lparr>cs_history := history\<rparr>, cw_plane := p1, cw_request := request, cw_pending := [],
             cw_acks := cw_acks w @ acks1 @ ct_acks t @ acks3\<rparr>)
        in case te_tick e of TickFailed _ \<Rightarrow> w2\<lparr>cw_running := False\<rparr> | TickDone _ _ _ \<Rightarrow> exchange e w2)" by (rule tick_parts)
  have "cm_command_id c \<in> ack_ids (ct_acks t) \<or> ct_accepted_refresh t = Some (c, RemoteSource)"
    using queue_answers[OF 3[unfolded handle_command_queue_def]] c by simp
  then have in_new: "cm_command_id c \<in> ack_ids (ct_acks t @ acks3)" using finish_answers[OF 4] by (auto simp: ack_ids_def)
  have st: "cw_acks (store_command_history e d w') = cw_acks w'" "cw_answered (store_command_history e d w') = cw_answered w'" for d w'
    by (cases "te_store_history e", auto simp: store_command_history_def)+
  show ?thesis unfolding eq using in_new
    by (auto simp: Let_def st exchange_def ack_ids_def split: tick_result.split option.split)
qed

subsection \<open>The ledger stays small\<close>

definition ledgers_ok :: "command_world \<Rightarrow> bool" where
  "ledgers_ok w \<longleftrightarrow> ledger_ok (cs_history (cw_state w)) \<and> (case cw_history_file w of Present h \<Rightarrow> ledger_ok h | _ \<Rightarrow> True)"

lemma record_command_ok: "ledger_ok h \<Longrightarrow> ledger_ok (snd (record_command c o' d n h))"
  by (simp add: record_command_simps ledger_ok_record)

lemma handle_ledger_ok: "ledger_ok (cs_history (snd ts)) \<Longrightarrow> ledger_ok (cs_history (snd (handle_command e x ts)))"
  by (cases x; cases ts)
    (auto simp: handle_command_def settle_simps Let_def record_command_ok split: option.splits command_verdict.splits if_splits prod.splits)

lemma queue_ledger_ok: "ledger_ok (cs_history (snd ts)) \<Longrightarrow> ledger_ok (cs_history (snd (fold (handle_command e) queue ts)))"
  by (induction queue arbitrary: ts) (simp_all add: handle_ledger_ok)

lemma drain_ledger_ok: "ledger_ok (cs_history s) \<Longrightarrow> drain_finished_investigations v fin dm is ((acks, rec), s, p) = ((acks', rec'), s', p') \<Longrightarrow>
   ledger_ok (cs_history s')"
proof (induction "is" arbitrary: s acks rec p)
  case (Cons i rest)
  show ?case
  proof (cases "fin (cm_command_id (iv_command i))")
    case None
    then show ?thesis using Cons.prems(2) Cons.IH[of "s\<lparr>cs_inflight := cs_inflight s @ [i]\<rparr>"] Cons.prems(1)
      by (simp add: drain_step del: drain_finished_investigations.simps)
  next
    case (Some result)
    from Cons.prems(2) Some obtain acks1 o' d n p1 where
      "drain_finished_investigations v fin dm rest ((acks1, True),
        s\<lparr>cs_history := snd (record_command (iv_command i) o' d n (cs_history s)),
          cs_effects := cs_effects s @ [FinishedScan (cm_command_id (iv_command i))]\<rparr>, p1) = ((acks', rec'), s', p')"
      by (simp add: drain_step Let_def del: drain_finished_investigations.simps)
    from Cons.IH[OF _ this] show ?thesis using Cons.prems(1) by (simp add: record_command_ok)
  qed
qed simp

lemma ledgers_ok_tick: "ledgers_ok w \<Longrightarrow> ledgers_ok (command_tick e w)"
proof (cases "cw_running w")
  case True
  assume w: "ledgers_ok w"
  from True obtain taken request acks1 recorded s1 p1 t s2 acks3 refreshed history where
    2: "drain_investigations (te_delivery e) (te_finished e) (ce_done_ms (te_command e)) (cw_state w) (cw_plane w) = ((acks1, recorded), s1, p1)" and
    3: "handle_command_queue (te_command e) (map (\<lambda>c. (c, RemoteSource)) (cw_pending w) @
       (case taken of Some c \<Rightarrow> [(c, LocalSource)] | None \<Rightarrow> [])) s1 = (t, s2)" and
    4: "finish_refresh e t (cs_history s2) = (acks3, refreshed, history)" and
    eq: "command_tick e w =
       (let w2 = store_command_history e (recorded \<or> ct_history_dirty t \<or> refreshed)
          (w\<lparr>cw_state := s2\<lparr>cs_history := history\<rparr>, cw_plane := p1, cw_request := request, cw_pending := [],
             cw_acks := cw_acks w @ acks1 @ ct_acks t @ acks3\<rparr>)
        in case te_tick e of TickFailed _ \<Rightarrow> w2\<lparr>cw_running := False\<rparr> | TickDone _ _ _ \<Rightarrow> exchange e w2)" by (rule tick_parts)
  have "ledger_ok (cs_history s1)" using drain_ledger_ok[OF _ 2[unfolded drain_investigations_def]] w by (simp add: ledgers_ok_def)
  then have "ledger_ok (cs_history s2)" using queue_ledger_ok[of "(turn_new, s1)"] 3 by (metis handle_command_queue_def snd_conv)
  then have "ledger_ok history" using 4 record_command_ok
    by (auto simp: finish_refresh_def record_command_simps ledger_ok_record split: option.splits prod.splits)
  then show ?thesis using w unfolding eq
    by (cases "te_store_history e") (auto simp: Let_def ledgers_ok_def store_command_history_def exchange_def split: tick_result.split option.split)
qed (simp add: command_tick_def)

lemma ledgers_ok_run: "ledgers_ok w \<Longrightarrow> ledgers_ok (command_run evs w)"
proof (induction evs arbitrary: w)
  case (Cons ev evs)
  have "ledgers_ok (command_event_step ev w)"
    using Cons.prems ledgers_ok_tick
    by (cases ev) (auto simp: ledgers_ok_def command_restart_def load_history_async_def read_json_async_def ledger_ok_def split: disk_file.splits)
  from Cons.IH[OF this] show ?case by (simp add: command_run_def)
qed (simp add: command_run_def)

subsection \<open>Frame numbers\<close>

definition plane_ok :: "data_plane \<Rightarrow> bool" where
  "plane_ok p \<longleftrightarrow> (case seq_load_or_default (dp_seq p) of
      Inr n \<Rightarrow> sorted_wrt (<) (map fst (dp_frames p)) \<and> list_all (\<lambda>(seq, _). seq < n) (dp_frames p)
    | Inl _ \<Rightarrow> False)"

lemma seq_present [simp]: "seq_load_or_default (Present n) = Inr n"
  by (simp add: seq_load_or_default_def read_json_async_def)

lemma plane_ok_send:
  assumes p: "plane_ok p" "seq_load_or_default (dp_seq p) = Inr n" and s: "send_investigation_frame v k r n p = (res, m, p')"
  shows "plane_ok p'"
proof -
  have later: "list_all (\<lambda>(seq, _). seq < n) (dp_frames p)" "sorted_wrt (<) (map fst (dp_frames p))" using p by (simp_all add: plane_ok_def)
  then have "list_all (\<lambda>(seq, _). seq < Suc n) (dp_frames p)" by (auto simp: list_all_iff)
  with later p s show ?thesis
    by (cases "dv_seq_store v")
      (auto simp: send_investigation_frame_def plane_ok_def Let_def sorted_wrt_append list_all_iff split_beta split: option.splits)
qed

lemma plane_ok_deliver: "plane_ok p \<Longrightarrow> deliver_investigation v c r path p = (x, p') \<Longrightarrow> plane_ok p'"
proof -
  assume p: "plane_ok p" and d: "deliver_investigation v c r path p = (x, p')"
  obtain n where n: "seq_load_or_default (dp_seq p) = Inr n" using p by (auto simp: plane_ok_def split: sum.splits)
  obtain res m p1 where s: "send_investigation_frame v (cm_command_id c) r n p = (res, m, p1)" by (metis prod.exhaust)
  have "p' = p \<or> p' = p1" using d n s by (cases res) (auto simp: deliver_investigation_def split: frame_sink.splits)
  then show ?thesis using p plane_ok_send[OF p n s] by auto
qed

lemma plane_ok_drain: "plane_ok p \<Longrightarrow> drain_finished_investigations v fin dm is ((acks, rec), s, p) = ((acks', rec'), s', p') \<Longrightarrow> plane_ok p'"
proof (induction "is" arbitrary: s acks rec p)
  case (Cons i rest)
  show ?case
  proof (cases "fin (cm_command_id (iv_command i))")
    case None then show ?thesis using Cons by (simp add: drain_step del: drain_finished_investigations.simps)
  next
    case (Some result)
    have "plane_ok (snd (scan_result v i result p))"
      using plane_ok_deliver[OF Cons.prems(1)] Cons.prems(1) unfolding scan_result_def by (cases result) (simp_all, metis prod.collapse)
    with Some Cons show ?thesis by (simp add: drain_step Let_def del: drain_finished_investigations.simps)
  qed
qed simp

lemma plane_ok_tick: "plane_ok (cw_plane w) \<Longrightarrow> plane_ok (cw_plane (command_tick e w))"
proof (cases "cw_running w")
  case True
  assume w: "plane_ok (cw_plane w)"
  from True obtain taken request acks1 recorded s1 p1 t s2 acks3 refreshed history where
    2: "drain_investigations (te_delivery e) (te_finished e) (ce_done_ms (te_command e)) (cw_state w) (cw_plane w) = ((acks1, recorded), s1, p1)" and
    "handle_command_queue (te_command e) (map (\<lambda>c. (c, RemoteSource)) (cw_pending w) @
       (case taken of Some c \<Rightarrow> [(c, LocalSource)] | None \<Rightarrow> [])) s1 = (t, s2)" and
    eq: "command_tick e w =
       (let w2 = store_command_history e (recorded \<or> ct_history_dirty t \<or> refreshed)
          (w\<lparr>cw_state := s2\<lparr>cs_history := history\<rparr>, cw_plane := p1, cw_request := request, cw_pending := [],
             cw_acks := cw_acks w @ acks1 @ ct_acks t @ acks3\<rparr>)
        in case te_tick e of TickFailed _ \<Rightarrow> w2\<lparr>cw_running := False\<rparr> | TickDone _ _ _ \<Rightarrow> exchange e w2)" by (rule tick_parts)
  have "plane_ok p1" using plane_ok_drain[OF w 2[unfolded drain_investigations_def]] .
  then show ?thesis unfolding eq
    by (cases "te_store_history e") (auto simp: Let_def store_command_history_def exchange_def split: tick_result.split option.split)
qed (simp add: command_tick_def)

lemma plane_ok_run: "plane_ok (cw_plane w) \<Longrightarrow> plane_ok (cw_plane (command_run evs w))"
proof (induction evs arbitrary: w)
  case (Cons ev evs)
  have "plane_ok (cw_plane (command_event_step ev w))"
    using Cons.prems plane_ok_tick by (cases ev) (simp_all add: command_restart_def)
  from Cons.IH[OF this] show ?case by (simp add: command_run_def)
qed (simp add: command_run_def)

subsection \<open>Probed paths\<close>

lemma parse_probe_bounds: "parse_probe_request parse params = Some paths \<Longrightarrow>
   paths \<noteq> [] \<and> length paths \<le> 512 \<and> list_all (starts_with ''/'') paths"
  by (auto simp: parse_probe_request_def MAX_PROBE_PATHS_def Let_def list_all_iff dest!: in_set_takeD split: if_splits sum.splits option.splits)

text \<open>The absolute paths among the given ones, blanks around them removed.\<close>

definition absolute_paths :: "string list \<Rightarrow> string list" where
  "absolute_paths paths = filter (starts_with ''/'') (map trim paths)"

lemma keys_insert [simp]: "set (bt_keys (bt_insert k v t)) = insert k (set (bt_keys t))"
  using bt_insert_fst[of k v t] by (simp add: bt_keys_def)

lemma probe_fold:
  "fold (probe_step fs) paths (probed, present, unreadable) = (probed', present', unreadable') \<Longrightarrow>
   set (bt_keys probed') = set (bt_keys probed) \<union> {x \<in> set (absolute_paths paths). fs x \<in> {PathPresent, PathAbsent}} \<and>
   set (bt_keys present') = set (bt_keys present) \<union> {x \<in> set (absolute_paths paths). fs x = PathPresent} \<and>
   unreadable' = unreadable @ List.map_filter (\<lambda>x. case fs x of PathUnreadable err \<Rightarrow> Some (x, err) | _ \<Rightarrow> None) (absolute_paths paths) \<and>
   (bt_wf probed \<longrightarrow> bt_wf probed') \<and> (bt_wf present \<longrightarrow> bt_wf present')"
proof (induction paths arbitrary: probed present unreadable)
  case Nil then show ?case by (simp add: absolute_paths_def map_filter_def)
next
  case (Cons x paths)
  have nonempty: "starts_with ''/'' (trim x) \<Longrightarrow> trim x \<noteq> []" by (auto simp: starts_with_def)
  show ?case
  proof (cases "starts_with ''/'' (trim x)")
    case False
    then have "probe_step fs x (probed, present, unreadable) = (probed, present, unreadable)" by (simp add: probe_step_def Let_def)
    with Cons False show ?thesis by (simp add: absolute_paths_def)
  next
    case True
    show ?thesis
    proof (cases "fs (trim x)")
      case PathPresent
      then have "fold (probe_step fs) paths (bt_insert (trim x) () probed, bt_insert (trim x) () present, unreadable) = (probed', present', unreadable')"
        using Cons.prems True nonempty by (simp add: probe_step_def[of fs x] Let_def)
      from Cons.IH[OF this] show ?thesis using True PathPresent by (auto simp: absolute_paths_def map_filter_def bt_wf_insert)
    next
      case PathAbsent
      then have "fold (probe_step fs) paths (bt_insert (trim x) () probed, present, unreadable) = (probed', present', unreadable')"
        using Cons.prems True nonempty by (simp add: probe_step_def[of fs x] Let_def)
      from Cons.IH[OF this] show ?thesis using True PathAbsent by (auto simp: absolute_paths_def map_filter_def bt_wf_insert)
    next
      case (PathUnreadable err)
      then have "fold (probe_step fs) paths (probed, present, unreadable @ [(trim x, err)]) = (probed', present', unreadable')"
        using Cons.prems True nonempty by (simp add: probe_step_def[of fs x] Let_def)
      from Cons.IH[OF this] show ?thesis using True PathUnreadable by (auto simp: absolute_paths_def map_filter_def)
    qed
  qed
qed

lemma probe_paths_sets:
  "set (pp_probed (probe_paths fs paths)) = {x \<in> set (absolute_paths paths). fs x \<in> {PathPresent, PathAbsent}}"
  "set (pp_present (probe_paths fs paths)) = {x \<in> set (absolute_paths paths). fs x = PathPresent}"
  "pp_unreadable (probe_paths fs paths) = List.map_filter (\<lambda>x. case fs x of PathUnreadable err \<Rightarrow> Some (x, err) | _ \<Rightarrow> None) (absolute_paths paths)"
  "sorted_wrt (<) (pp_probed (probe_paths fs paths))" "sorted_wrt (<) (pp_present (probe_paths fs paths))"
proof -
  obtain probed present unreadable where f: "fold (probe_step fs) paths ([], [], []) = (probed, present, unreadable)" by (metis prod.exhaust)
  from probe_fold[OF f]
  show "set (pp_probed (probe_paths fs paths)) = {x \<in> set (absolute_paths paths). fs x \<in> {PathPresent, PathAbsent}}"
    "set (pp_present (probe_paths fs paths)) = {x \<in> set (absolute_paths paths). fs x = PathPresent}"
    "pp_unreadable (probe_paths fs paths) = List.map_filter (\<lambda>x. case fs x of PathUnreadable err \<Rightarrow> Some (x, err) | _ \<Rightarrow> None) (absolute_paths paths)"
    "sorted_wrt (<) (pp_probed (probe_paths fs paths))" "sorted_wrt (<) (pp_present (probe_paths fs paths))"
    by (simp_all add: probe_paths_def f bt_keys_def bt_wf_def)
qed

end
