(* ===== verification/Uplink.thy ===== *)
theory Uplink
  imports Commands
begin

text \<open>
  What the gateway lets this agent send: the uplink grant of \<open>src/control/uplink.rs\<close>, the snapshot setting of
  \<open>src/control/discovery_snapshot.rs\<close>, the output that results (\<open>src/runtime/daemon_telemetry_support.rs\<close>) and how the loop of
  \<open>src/runtime/daemon.rs\<close> refreshes them.

  The type of a grant belongs to the API crate: its standby value, its target and the decoding of a response are parameters.
\<close>

subsection \<open>Rejections\<close>

definition TERMINAL_AUTH_CODES :: "string list" where
  "TERMINAL_AUTH_CODES = [''certificate_revoked'', ''certificate_mismatch'']"

definition auth_rejection_code :: "string \<Rightarrow> string option" where
  "auth_rejection_code body = find (\<lambda>code. contains_str code body) TERMINAL_AUTH_CODES"

datatype auth_rejection = TerminalRejection string | NotRevoked

definition classify_auth_rejection :: "nat \<Rightarrow> string \<Rightarrow> auth_rejection" where
  "classify_auth_rejection status body =
    (if status \<noteq> 401 \<and> status \<noteq> 403 then NotRevoked
     else (case auth_rejection_code body of Some code \<Rightarrow> TerminalRejection code | None \<Rightarrow> NotRevoked))"

subsection \<open>The uplink grant\<close>

record agent_uplink_grant =
  ug_enabled :: bool
  ug_host :: "string option"
  ug_port :: "nat option"
  ug_granted_at :: string

record uplink_api =
  ua_standby :: "string \<Rightarrow> agent_uplink_grant"
  ua_target :: "agent_uplink_grant \<Rightarrow> (string \<times> nat) option"

datatype uplink_fetch = UplinkGranted agent_uplink_grant | UplinkNotDispatched | UplinkFailed string | UplinkCredentialRejected string

record poll_request =
  pq_agent_id :: string
  pq_instance_id :: string

definition fetch_uplink_grant ::
    "control_config \<Rightarrow> (string \<Rightarrow> poll_request \<Rightarrow> http_answer) \<Rightarrow> (string \<Rightarrow> string + agent_uplink_grant) \<Rightarrow> uplink_fetch" where
  "fetch_uplink_grant cfg http parse = (case cc_endpoint cfg of
      None \<Rightarrow> UplinkNotDispatched
    | Some endpoint \<Rightarrow> (case cc_agent_id cfg of
        None \<Rightarrow> UplinkNotDispatched
      | Some agent_id \<Rightarrow> (case cc_client_err cfg of
          Some err \<Rightarrow> UplinkFailed (''client: '' @ err)
        | None \<Rightarrow>
            (case http (trim_end_slashes endpoint @ ''/api/v1/agent/uplink:poll'')
                \<lparr>pq_agent_id = agent_id, pq_instance_id = unwrap_or [] (cc_instance_name cfg)\<rparr> of
               HttpFailed err \<Rightarrow> UplinkFailed (''transport: '' @ err)
             | HttpResponse status status_text body \<Rightarrow>
                 if is_success status
                 then (case parse body of
                     Inr grant \<Rightarrow> UplinkGranted grant
                   | Inl err \<Rightarrow> UplinkFailed (''invalid response from '' @ endpoint @ '': '' @ err))
                 else if status = 404 then UplinkNotDispatched
                 else if status = 401 \<or> status = 403
                 then UplinkCredentialRejected (case auth_rejection_code body of
                     Some code \<Rightarrow> ''http '' @ status_text @ '' from '' @ endpoint @ '' ('' @ code @ '')''
                   | None \<Rightarrow> ''http '' @ status_text @ '' from '' @ endpoint)
                 else UplinkFailed (''http '' @ status_text @ '' from '' @ endpoint)))))"

record applied_uplink =
  au_grant :: "agent_uplink_grant option"
  au_last_failure :: "string option"

definition uplink_default :: applied_uplink where
  "uplink_default = \<lparr>au_grant = None, au_last_failure = None\<rparr>"

definition effective_state :: "agent_uplink_grant \<Rightarrow> bool \<times> string option \<times> nat option" where
  "effective_state g = (ug_enabled g, map_option trim (ug_host g), ug_port g)"

definition STANDBY_STATE :: "bool \<times> string option \<times> nat option" where
  "STANDBY_STATE = (False, None, None)"

definition txt_rejected_action :: string where
  "txt_rejected_action = utf8 [32, 97, 99, 116, 105, 111, 110, 61, 34, 229, 188, 186, 229, 136, 182, 229, 155, 158, 232, 144, 189, 229, 190, 133, 229, 145, 189, 34]"
definition txt_local_target :: string where
  "txt_local_target = utf8 [101, 110, 97, 98, 108, 101, 100, 61, 116, 114, 117, 101, 32, 116, 97, 114, 103, 101, 116, 61, 34, 230, 156, 172, 230, 156, 186, 233, 133, 141, 231, 189, 174, 34]"

definition describe :: "uplink_api \<Rightarrow> agent_uplink_grant \<Rightarrow> string" where
  "describe api g = (if \<not> ug_enabled g then ''enabled=false''
     else (case ua_target api g of
         Some (host, port) \<Rightarrow> ''enabled=true target='' @ host @ '':'' @ show_nat port
       | None \<Rightarrow> txt_local_target))"

text \<open>The line to be logged, if any, and the state after one poll.\<close>

fun observe :: "uplink_api \<Rightarrow> string \<Rightarrow> uplink_fetch \<Rightarrow> applied_uplink \<Rightarrow> string option \<times> applied_uplink" where
  "observe api now UplinkNotDispatched u = (None, u\<lparr>au_last_failure := None\<rparr>)"
| "observe api now (UplinkFailed signature) u =
    (if au_last_failure u = Some signature then (None, u)
     else (Some (''wist-agentd uplink grant fetch failed: '' @ signature), u\<lparr>au_last_failure := Some signature\<rparr>))"
| "observe api now (UplinkCredentialRejected signature) u =
    (let was_sending = map_option effective_state (au_grant u) \<noteq> Some STANDBY_STATE;
         first_time = au_last_failure u \<noteq> Some signature
     in (if \<not> was_sending \<and> \<not> first_time then None else Some (''event=UplinkGrantRejected '' @ signature @ txt_rejected_action),
         \<lparr>au_grant = Some (ua_standby api now), au_last_failure = Some signature\<rparr>))"
| "observe api now (UplinkGranted grant) u =
    (if map_option effective_state (au_grant u) \<noteq> Some (effective_state grant)
     then Some (''event=UplinkGrantApplied '' @ describe api grant) else None,
     \<lparr>au_grant = Some grant, au_last_failure = None\<rparr>)"

text \<open>The state and the time of the last poll; \<open>fetch\<close> is only asked when a poll is due.\<close>

definition refresh_uplink_grant ::
    "uplink_api \<Rightarrow> string \<Rightarrow> int \<Rightarrow> uplink_fetch \<Rightarrow> applied_uplink \<times> int option \<Rightarrow> applied_uplink \<times> int option" where
  "refresh_uplink_grant api now_text now fetch ul = (case ul of (u, last_fetch) \<Rightarrow>
     if (case last_fetch of Some at \<Rightarrow> now - at < WORK_FETCH_MIN_INTERVAL_MS | None \<Rightarrow> False) then (u, last_fetch)
     else (snd (observe api now_text fetch u), Some now))"

subsection \<open>The output in effect\<close>

record logs_output =
  lo_enabled :: bool
  lo_kind :: string
  lo_addr :: string
  lo_port :: nat
  lo_framing :: string

definition effective_output :: "uplink_api \<Rightarrow> logs_output \<Rightarrow> agent_uplink_grant option \<Rightarrow> logs_output" where
  "effective_output api output grant = (case grant of
      None \<Rightarrow> output
    | Some g \<Rightarrow>
        if \<not> ug_enabled g then output\<lparr>lo_enabled := False\<rparr>
        else (case ua_target api g of
            Some (host, port) \<Rightarrow> output\<lparr>lo_enabled := True, lo_kind := ''tcp'', lo_addr := host, lo_port := port\<rparr>
          | None \<Rightarrow> output))"

record uplink_state =
  us_enabled :: bool
  us_kind :: string
  us_target :: "string option"
  us_source :: string
  us_output_write_failing :: bool

definition build_uplink_state :: "uplink_api \<Rightarrow> logs_output \<Rightarrow> applied_uplink \<Rightarrow> bool \<Rightarrow> uplink_state" where
  "build_uplink_state api output u failing = (let effective = effective_output api output (au_grant u) in
     \<lparr>us_enabled = lo_enabled effective, us_kind = lo_kind effective,
      us_target = (if lo_kind effective = ''tcp'' then Some (lo_addr effective @ '':'' @ show_nat (lo_port effective)) else None),
      us_source = (if au_grant u \<noteq> None then ''grant'' else ''local''), us_output_write_failing = failing\<rparr>)"

subsection \<open>The snapshot setting\<close>

record snapshot_grant =
  sg_enabled :: bool
  sg_interval_seconds :: nat
  sg_source :: string

datatype snapshot_fetch = SnapshotGranted snapshot_grant | SnapshotNotDispatched | SnapshotFailed string

definition MIN_INTERVAL_SECONDS :: nat where "MIN_INTERVAL_SECONDS = 60"

record effective_snapshot_policy =
  ep_enabled :: bool
  ep_interval_seconds :: nat
  ep_control_plane :: bool

definition fetch_discovery_snapshot ::
    "control_config \<Rightarrow> (string \<Rightarrow> poll_request \<Rightarrow> effective_snapshot_policy option \<Rightarrow> http_answer) \<Rightarrow>
     (string \<Rightarrow> string + snapshot_grant) \<Rightarrow> effective_snapshot_policy option \<Rightarrow> snapshot_fetch" where
  "fetch_discovery_snapshot cfg http parse applied = (case cc_endpoint cfg of
      None \<Rightarrow> SnapshotNotDispatched
    | Some endpoint \<Rightarrow> (case cc_agent_id cfg of
        None \<Rightarrow> SnapshotNotDispatched
      | Some agent_id \<Rightarrow> (case cc_client_err cfg of
          Some err \<Rightarrow> SnapshotFailed (''client: '' @ err)
        | None \<Rightarrow>
            (case http (trim_end_slashes endpoint @ ''/api/v1/agent/discovery-snapshot:poll'')
                \<lparr>pq_agent_id = agent_id, pq_instance_id = unwrap_or [] (cc_instance_name cfg)\<rparr> applied of
               HttpFailed err \<Rightarrow> SnapshotFailed (''transport: '' @ err)
             | HttpResponse status status_text body \<Rightarrow>
                 if is_success status
                 then (case parse body of
                     Inr grant \<Rightarrow> SnapshotGranted grant
                   | Inl err \<Rightarrow> SnapshotFailed (''invalid response from '' @ endpoint @ '': '' @ err))
                 else if status = 204 then SnapshotNotDispatched
                 else if status = 404 then SnapshotNotDispatched
                 else SnapshotFailed (''http '' @ status_text @ '' from '' @ endpoint)))))"

datatype snapshot_event = SnapshotApplied string | SnapshotFailedLine string

record applied_snapshot_policy =
  sp_grant :: "snapshot_grant option"
  sp_last_failure :: "string option"

definition policy_key :: "snapshot_grant \<Rightarrow> bool \<times> nat" where
  "policy_key g = (sg_enabled g, max (sg_interval_seconds g) MIN_INTERVAL_SECONDS)"

definition txt_snapshot_cleared :: string where
  "txt_snapshot_cleared = utf8 [101, 118, 101, 110, 116, 61, 68, 105, 115, 99, 111, 118, 101, 114, 121, 83, 110, 97, 112, 115, 104, 111, 116, 80, 111, 108, 105, 99, 121, 67, 108, 101, 97, 114, 101, 100, 32, 115, 111, 117, 114, 99, 101, 61, 108, 111, 99, 97, 108, 95, 99, 111, 110, 102, 105, 103, 32, 100, 101, 116, 97, 105, 108, 61, 34, 231, 189, 145, 229, 133, 179, 229, 183, 178, 230, 146, 164, 233, 148, 128, 232, 174, 190, 231, 189, 174, 239, 188, 140, 229, 155, 158, 232, 144, 189, 230, 156, 172, 230, 156, 186, 32, 91, 100, 105, 115, 99, 111, 118, 101, 114, 121, 93, 34]"

definition show_bool :: "bool \<Rightarrow> string" where
  "show_bool b = (if b then ''true'' else ''false'')"

fun observe_snapshot :: "snapshot_fetch \<Rightarrow> applied_snapshot_policy \<Rightarrow> snapshot_event option \<times> applied_snapshot_policy" where
  "observe_snapshot SnapshotNotDispatched p =
    (if sp_grant p \<noteq> None then Some (SnapshotApplied txt_snapshot_cleared) else None, \<lparr>sp_grant = None, sp_last_failure = None\<rparr>)"
| "observe_snapshot (SnapshotFailed signature) p =
    (if sp_last_failure p = Some signature then (None, p)
     else (Some (SnapshotFailedLine (''wist-agentd discovery snapshot policy fetch failed: '' @ signature)), p\<lparr>sp_last_failure := Some signature\<rparr>))"
| "observe_snapshot (SnapshotGranted grant) p =
    (if map_option policy_key (sp_grant p) \<noteq> Some (policy_key grant)
     then Some (SnapshotApplied (''event=DiscoverySnapshotPolicyApplied enabled='' @ show_bool (sg_enabled grant) @ '' interval_seconds='' @
            show_nat (max (sg_interval_seconds grant) MIN_INTERVAL_SECONDS) @ '' source=grant:'' @ sg_source grant))
     else None,
     \<lparr>sp_grant = Some grant, sp_last_failure = None\<rparr>)"

text \<open>The local setting is the switch and the period of the configuration.\<close>

definition effective_policy :: "bool \<times> nat \<Rightarrow> snapshot_grant option \<Rightarrow> effective_snapshot_policy" where
  "effective_policy here grant = (case grant of
      Some g \<Rightarrow> \<lparr>ep_enabled = sg_enabled g, ep_interval_seconds = max (sg_interval_seconds g) MIN_INTERVAL_SECONDS, ep_control_plane = True\<rparr>
    | None \<Rightarrow> \<lparr>ep_enabled = fst here, ep_interval_seconds = max (snd here) MIN_INTERVAL_SECONDS, ep_control_plane = False\<rparr>)"

definition refresh_discovery_snapshot_policy ::
    "bool \<times> nat \<Rightarrow> int \<Rightarrow> (effective_snapshot_policy option \<Rightarrow> snapshot_fetch) \<Rightarrow>
     applied_snapshot_policy \<times> int option \<Rightarrow> applied_snapshot_policy \<times> int option" where
  "refresh_discovery_snapshot_policy here now fetch pl = (case pl of (p, last_fetch) \<Rightarrow>
     if (case last_fetch of Some at \<Rightarrow> now - at < WORK_FETCH_MIN_INTERVAL_MS | None \<Rightarrow> False) then (p, last_fetch)
     else (snd (observe_snapshot (fetch (Some (effective_policy here (sp_grant p)))) p), Some now))"

definition DISCOVERY_SNAPSHOT_MIN_INTERVAL_SECS :: nat where "DISCOVERY_SNAPSHOT_MIN_INTERVAL_SECS = 60"

definition discovery_snapshot_interval :: "nat \<Rightarrow> int" where
  "discovery_snapshot_interval configured_secs = int (max configured_secs DISCOVERY_SNAPSHOT_MIN_INTERVAL_SECS) * 1000"

definition discovery_snapshot_due :: "int \<Rightarrow> int option \<Rightarrow> int \<Rightarrow> bool" where
  "discovery_snapshot_due now last_sent interval = (case last_sent of None \<Rightarrow> True | Some at \<Rightarrow> interval \<le> now - at)"

text \<open>The decision of one tick and the time of the last attempt after it.\<close>

definition send_discovery_snapshot ::
    "uplink_api \<Rightarrow> logs_output \<Rightarrow> bool \<times> nat \<Rightarrow> applied_uplink \<Rightarrow> applied_snapshot_policy \<Rightarrow> int \<Rightarrow> int option \<Rightarrow> bool \<times> int option" where
  "send_discovery_snapshot api output here u p now last_sent =
    (let policy = effective_policy here (sp_grant p); out = effective_output api output (au_grant u);
         active = ep_enabled policy \<and> lo_enabled out \<and> lo_kind out = ''tcp'';
         send = active \<and> discovery_snapshot_due now last_sent (discovery_snapshot_interval (ep_interval_seconds policy))
     in (send, if send then Some now else last_sent))"

subsection \<open>The contract of a polled setting\<close>

locale polled_grant =
  fixes observe_outcome :: "'o \<Rightarrow> 's \<Rightarrow> 'l option \<times> 's" and granted :: "'g \<Rightarrow> 'o" and failed :: "string \<Rightarrow> 'o"
    and grant_of :: "'s \<Rightarrow> 'g option" and failure_of :: "'s \<Rightarrow> string option"
  assumes grant_granted: "grant_of (snd (observe_outcome (granted g) s)) = Some g"
    and grant_failed: "grant_of (snd (observe_outcome (failed sig) s)) = grant_of s"
    and failure_failed: "failure_of (snd (observe_outcome (failed sig) s)) = Some sig"
    and line_failed: "fst (observe_outcome (failed sig) s) = None \<longleftrightarrow> failure_of s = Some sig"
begin

lemma failures_keep_grant: "grant_of (fold (\<lambda>sig s. snd (observe_outcome (failed sig) s)) sigs s) = grant_of s"
  by (induction sigs arbitrary: s) (simp_all add: grant_failed)

lemma last_grant_counts: "grant_of (fold (\<lambda>sig s. snd (observe_outcome (failed sig) s)) sigs (snd (observe_outcome (granted g) s))) = Some g"
  by (simp add: failures_keep_grant grant_granted)

text \<open>A failure that repeats itself is logged once.\<close>

lemma repeated_failure_silent:
  "failure_of s = Some sig \<Longrightarrow>
   failure_of (((\<lambda>s. snd (observe_outcome (failed sig) s)) ^^ n) s) = Some sig \<and> fst (observe_outcome (failed sig) (((\<lambda>s. snd (observe_outcome (failed sig) s)) ^^ n) s)) = None"
  by (induction n) (simp_all add: failure_failed line_failed)

end

interpretation uplink: polled_grant "observe api now" UplinkGranted UplinkFailed au_grant au_last_failure
  by unfold_locales simp_all

interpretation snapshot: polled_grant observe_snapshot SnapshotGranted SnapshotFailed sp_grant sp_last_failure
  by unfold_locales simp_all

subsection \<open>What follows\<close>

lemma rejected_stops: "\<not> ug_enabled (ua_standby api now) \<Longrightarrow>
   \<not> lo_enabled (effective_output api output (au_grant (snd (observe api now (UplinkCredentialRejected sig) u))))"
  by (simp add: effective_output_def Let_def)

lemma classify_iff: "(\<exists>code. classify_auth_rejection status body = TerminalRejection code) \<longleftrightarrow>
   (status = 401 \<or> status = 403) \<and> (contains_str ''certificate_revoked'' body \<or> contains_str ''certificate_mismatch'' body)"
  by (simp add: classify_auth_rejection_def auth_rejection_code_def TERMINAL_AUTH_CODES_def)

lemma classify_code: "classify_auth_rejection status body = TerminalRejection code \<Longrightarrow> code \<in> set TERMINAL_AUTH_CODES \<and> contains_str code body"
  by (auto simp: classify_auth_rejection_def auth_rejection_code_def TERMINAL_AUTH_CODES_def split: if_splits)

text \<open>What the agent says it sends is what it sends.\<close>

lemma uplink_state_truthful:
  "us_enabled (build_uplink_state api output u failing) = lo_enabled (effective_output api output (au_grant u))"
  "us_kind (build_uplink_state api output u failing) = lo_kind (effective_output api output (au_grant u))"
  by (simp_all add: build_uplink_state_def Let_def)

end
