(* ===== verification/AuthTerminal.thy ===== *)
theory AuthTerminal
  imports Uplink
begin

text \<open>
  The terminal state of a credential: the ledger of \<open>src/state_store/auth_terminal.rs\<close>, the status report, the entry into the state
  and the way out of it in \<open>src/runtime/daemon.rs\<close>, and the part of the loop they decide.

  Of a status report only the identity, the uplink state and the acknowledgements are fields of the model; what else it carries is
  measured on the host.  A tick logs what it does towards the gateway.
\<close>

subsection \<open>The ledger\<close>

record auth_terminal =
  at_code :: string
  at_source :: string
  at_detected_at :: string
  at_attempts :: int

definition SOURCE_STATUS_REPORT :: string where "SOURCE_STATUS_REPORT = ''status_report''"
definition SOURCE_RENEWAL :: string where "SOURCE_RENEWAL = ''renewal''"

text \<open>\<open>read_fails\<close>: the read of the file, if there is one, fails at this moment.\<close>

definition terminal_load_async :: "bool \<Rightarrow> auth_terminal disk_file \<Rightarrow> auth_terminal option res" where
  "terminal_load_async read_fails f = (case (if read_fails \<and> file_exists f then Inl (IoError OtherKind ''read'') else read_json_async f) of
      Inr state \<Rightarrow> Inr (Some state)
    | Inl err \<Rightarrow> if error_kind err = NotFound then Inr None else Inl err)"

definition terminal_store_async :: "write_outcome \<Rightarrow> auth_terminal \<Rightarrow> auth_terminal disk_file \<Rightarrow> unit res \<times> auth_terminal disk_file" where
  "terminal_store_async outcome state f = write_op outcome (\<lambda>_. Present state) f"

definition terminal_clear_async :: "write_outcome \<Rightarrow> auth_terminal disk_file \<Rightarrow> unit res \<times> auth_terminal disk_file" where
  "terminal_clear_async outcome f = (if f = Missing then (Inr (), f) else write_op outcome (\<lambda>_. Missing) f)"

subsection \<open>The status report\<close>

record status_report =
  sr_agent_id :: string
  sr_instance_id :: string
  sr_uplink_state :: uplink_state
  sr_command_acks :: "command_ack list"

record status_report_outcome =
  so_latency_ms :: "nat option"
  so_terminal :: "string option"
  so_commands :: "agent_command list"

definition outcome_failed :: status_report_outcome where
  "outcome_failed = \<lparr>so_latency_ms = None, so_terminal = None, so_commands = []\<rparr>"

definition outcome_terminal :: "string \<Rightarrow> status_report_outcome" where
  "outcome_terminal code = \<lparr>so_latency_ms = None, so_terminal = Some code, so_commands = []\<rparr>"

definition report_status_to_control_plane ::
    "control_config \<Rightarrow> uplink_state \<Rightarrow> command_ack list \<Rightarrow> (string \<Rightarrow> status_report \<Rightarrow> http_answer) \<Rightarrow> nat \<Rightarrow>
     (string \<Rightarrow> agent_command list option) \<Rightarrow> status_report_outcome" where
  "report_status_to_control_plane cfg uplink_state command_acks http elapsed parse_ack = (case cc_endpoint cfg of
      None \<Rightarrow> outcome_failed
    | Some endpoint \<Rightarrow> (case cc_agent_id cfg of
        None \<Rightarrow> outcome_failed
      | Some agent_id \<Rightarrow>
          (let report = \<lparr>sr_agent_id = agent_id, sr_instance_id = unwrap_or [] (cc_instance_name cfg),
                 sr_uplink_state = uplink_state, sr_command_acks = command_acks\<rparr>
           in case cc_client_err cfg of
                Some err \<Rightarrow> outcome_failed
              | None \<Rightarrow> (case http (trim_end_slashes endpoint @ ''/api/v1/agent/status'') report of
                  HttpFailed err \<Rightarrow> outcome_failed
                | HttpResponse status status_text body \<Rightarrow>
                    if is_success status
                    then \<lparr>so_latency_ms = Some elapsed, so_terminal = None, so_commands = unwrap_or [] (parse_ack body)\<rparr>
                    else (case classify_auth_rejection status body of
                        TerminalRejection code \<Rightarrow> outcome_terminal code
                      | NotRevoked \<Rightarrow> outcome_failed)))))"

subsection \<open>The loop\<close>

datatype renewal_decision = RenewalNotDue | Renewed | RenewalFailed string | NeedsReinstall | Revoked

datatype auth_act = Probe int | RenewalCheck int | UplinkPoll int | Collect int bool | StatusReport int | Restarted

record auth_env =
  ae_config :: control_config
  ae_output :: logs_output
  ae_api :: uplink_api
  ae_now :: int
  ae_now_text :: string
  ae_retry_ms :: int
  ae_pending_clear_io :: write_outcome
  ae_update_io :: write_outcome
  ae_clear_io :: write_outcome
  ae_enter_io :: write_outcome
  ae_probe_http :: "string \<Rightarrow> status_report \<Rightarrow> http_answer"
  ae_report_http :: "string \<Rightarrow> status_report \<Rightarrow> http_answer"
  ae_elapsed_ms :: nat
  ae_parse_ack :: "string \<Rightarrow> agent_command list option"
  ae_output_failing :: bool
  ae_acks :: "command_ack list"
  ae_renewal :: renewal_decision
  ae_poll_http :: "string \<Rightarrow> poll_request \<Rightarrow> http_answer"
  ae_parse_grant :: "string \<Rightarrow> string + agent_uplink_grant"
  ae_tick_err :: bool

record auth_world =
  aw_terminal :: "auth_terminal option"
  aw_file :: "auth_terminal disk_file"
  aw_clear_pending :: bool
  aw_last_retry :: "int option"
  aw_uplink :: applied_uplink
  aw_last_uplink_fetch :: "int option"
  aw_last_renewal_check :: "int option"
  aw_last_report_at :: int
  aw_running :: bool
  aw_acts :: "auth_act list"

definition RENEWAL_CHECK_INTERVAL :: int where "RENEWAL_CHECK_INTERVAL = 3600000"
definition STATUS_REPORT_INTERVAL :: int where "STATUS_REPORT_INTERVAL = 3000"

definition act :: "auth_act \<Rightarrow> auth_world \<Rightarrow> auth_world" where
  "act a w = w\<lparr>aw_acts := aw_acts w @ [a]\<rparr>"

definition force_standby :: "auth_env \<Rightarrow> string \<Rightarrow> auth_world \<Rightarrow> auth_world" where
  "force_standby e code w = w\<lparr>aw_uplink := snd (observe (ae_api e) (ae_now_text e) (UplinkCredentialRejected code) (aw_uplink w))\<rparr>"

definition enter_terminal ::
    "write_outcome \<Rightarrow> string \<Rightarrow> string \<Rightarrow> string \<Rightarrow> auth_terminal disk_file \<Rightarrow> auth_terminal \<times> auth_terminal disk_file" where
  "enter_terminal outcome now_text code source f =
    (let state = \<lparr>at_code = code, at_source = source, at_detected_at = now_text, at_attempts = 0\<rparr>
     in (state, snd (terminal_store_async outcome state f)))"

definition enter_terminal_if_absent :: "auth_env \<Rightarrow> string \<Rightarrow> string \<Rightarrow> auth_world \<Rightarrow> auth_world" where
  "enter_terminal_if_absent e code source w = (if aw_terminal w \<noteq> None then w
     else (case enter_terminal (ae_enter_io e) (ae_now_text e) code source (aw_file w) of
         (state, f) \<Rightarrow> w\<lparr>aw_terminal := Some state, aw_file := f\<rparr>))"

definition saturating_add_i64 :: "int \<Rightarrow> int \<Rightarrow> int" where
  "saturating_add_i64 a b = max (- (2 ^ 63)) (min (2 ^ 63 - 1) (a + b))"

text \<open>Whether the gateway accepts the agent again, and the ledger entry after the attempt.\<close>

definition retry_terminal_probe :: "auth_env \<Rightarrow> applied_uplink \<Rightarrow> auth_terminal \<Rightarrow> bool \<times> auth_terminal" where
  "retry_terminal_probe e u state =
    (let state1 = state\<lparr>at_attempts := saturating_add_i64 (at_attempts state) 1\<rparr>;
         report = report_status_to_control_plane (ae_config e) (build_uplink_state (ae_api e) (ae_output e) u (ae_output_failing e)) []
           (ae_probe_http e) (ae_elapsed_ms e) (ae_parse_ack e);
         state2 = (case so_terminal report of
             Some code \<Rightarrow>
               if code \<noteq> at_code state1
               then state1\<lparr>at_code := code, at_detected_at := ae_now_text e, at_source := SOURCE_STATUS_REPORT\<rparr> else state1
           | None \<Rightarrow> state1)
     in (so_latency_ms report \<noteq> None, state2))"

definition load_terminal_ledger :: "bool \<Rightarrow> write_outcome \<Rightarrow> auth_terminal disk_file \<Rightarrow> auth_terminal option \<times> auth_terminal disk_file" where
  "load_terminal_ledger read_fails outcome f = (case terminal_load_async read_fails f of
      Inr (Some state) \<Rightarrow> (Some state, f)
    | Inr None \<Rightarrow> (None, f)
    | Inl _ \<Rightarrow> (None, snd (terminal_clear_async outcome f)))"

definition clear_terminal_ledger_if_pending :: "auth_env \<Rightarrow> auth_world \<Rightarrow> auth_world" where
  "clear_terminal_ledger_if_pending e w = (if \<not> aw_clear_pending w then w
     else (case terminal_clear_async (ae_pending_clear_io e) (aw_file w) of
         (Inr _, f) \<Rightarrow> w\<lparr>aw_file := f, aw_clear_pending := False\<rparr>
       | (Inl _, f) \<Rightarrow> w\<lparr>aw_file := f\<rparr>))"

text \<open>The way through the terminal state: whether the tick goes on.\<close>

definition terminal_gate :: "auth_env \<Rightarrow> auth_world \<Rightarrow> bool \<times> auth_world" where
  "terminal_gate e w = (case aw_terminal w of
      None \<Rightarrow> (True, w)
    | Some state \<Rightarrow>
        if (case aw_last_retry w of None \<Rightarrow> True | Some at \<Rightarrow> ae_retry_ms e \<le> ae_now e - at)
        then (case retry_terminal_probe e (aw_uplink w) state of (recovered, state') \<Rightarrow>
          let w1 = act (Probe (ae_now e)) (w\<lparr>aw_last_retry := Some (ae_now e), aw_terminal := Some state',
                aw_file := snd (terminal_store_async (ae_update_io e) state' (aw_file w))\<rparr>)
          in if recovered
             then (case terminal_clear_async (ae_clear_io e) (aw_file w1) of
                 (r, f) \<Rightarrow> (True, w1\<lparr>aw_terminal := None, aw_file := f, aw_clear_pending := \<not> is_ok r, aw_last_retry := None\<rparr>))
             else (False, w1))
        else (False, w))"

definition renewal_check :: "auth_env \<Rightarrow> auth_world \<Rightarrow> auth_world" where
  "renewal_check e w =
    (if (case aw_last_renewal_check w of None \<Rightarrow> True | Some at \<Rightarrow> RENEWAL_CHECK_INTERVAL \<le> ae_now e - at)
     then (let w1 = act (RenewalCheck (ae_now e)) (w\<lparr>aw_last_renewal_check := Some (ae_now e)\<rparr>)
           in if ae_renewal e = Revoked
              then force_standby e ''certificate_revoked'' (enter_terminal_if_absent e ''certificate_revoked'' SOURCE_RENEWAL w1)
              else w1)
     else w)"

definition uplink_refresh :: "auth_env \<Rightarrow> auth_world \<Rightarrow> auth_world" where
  "uplink_refresh e w =
    (case refresh_uplink_grant (ae_api e) (ae_now_text e) (ae_now e) (fetch_uplink_grant (ae_config e) (ae_poll_http e) (ae_parse_grant e))
        (aw_uplink w, aw_last_uplink_fetch w) of
      (u, at) \<Rightarrow> (if at = aw_last_uplink_fetch w then w else act (UplinkPoll (ae_now e)) w)\<lparr>aw_uplink := u, aw_last_uplink_fetch := at\<rparr>)"

definition status_step :: "auth_env \<Rightarrow> auth_world \<Rightarrow> auth_world" where
  "status_step e w = (if ae_now e - aw_last_report_at w < STATUS_REPORT_INTERVAL then w
     else (let w1 = act (StatusReport (ae_now e)) (w\<lparr>aw_last_report_at := ae_now e\<rparr>);
               report = report_status_to_control_plane (ae_config e)
                 (build_uplink_state (ae_api e) (ae_output e) (aw_uplink w1) (ae_output_failing e)) (ae_acks e)
                 (ae_report_http e) (ae_elapsed_ms e) (ae_parse_ack e)
           in case so_terminal report of
                Some code \<Rightarrow> force_standby e code (enter_terminal_if_absent e code SOURCE_STATUS_REPORT w1)
              | None \<Rightarrow> w1))"

definition auth_tick :: "auth_env \<Rightarrow> auth_world \<Rightarrow> auth_world" where
  "auth_tick e w = (if \<not> aw_running w then w else
     case terminal_gate e (clear_terminal_ledger_if_pending e w) of
       (False, w1) \<Rightarrow> w1
     | (True, w1) \<Rightarrow>
         (let w2 = uplink_refresh e (renewal_check e w1);
              w3 = act (Collect (ae_now e) (lo_enabled (effective_output (ae_api e) (ae_output e) (au_grant (aw_uplink w2))))) w2
          in if ae_tick_err e then w3\<lparr>aw_running := False\<rparr> else status_step e w3))"

definition auth_restart :: "bool \<Rightarrow> write_outcome \<Rightarrow> int \<Rightarrow> auth_world \<Rightarrow> auth_world" where
  "auth_restart read_fails outcome now w = (case load_terminal_ledger read_fails outcome (aw_file w) of (terminal, f) \<Rightarrow>
     act Restarted (w\<lparr>aw_terminal := terminal, aw_file := f, aw_clear_pending := False, aw_last_retry := None, aw_uplink := uplink_default,
       aw_last_uplink_fetch := None, aw_last_renewal_check := None, aw_last_report_at := now, aw_running := True\<rparr>))"

datatype auth_event = AuthTick auth_env | AuthRestart bool write_outcome int

fun auth_event_step :: "auth_event \<Rightarrow> auth_world \<Rightarrow> auth_world" where
  "auth_event_step (AuthTick e) w = auth_tick e w"
| "auth_event_step (AuthRestart read_fails outcome now) w = auth_restart read_fails outcome now w"

definition auth_run :: "auth_event list \<Rightarrow> auth_world \<Rightarrow> auth_world" where
  "auth_run = fold auth_event_step"

subsection \<open>Accepted and rejected reports\<close>

definition accepted_answer :: "http_answer \<Rightarrow> bool" where
  "accepted_answer a \<longleftrightarrow> (case a of HttpResponse status _ _ \<Rightarrow> is_success status | HttpFailed _ \<Rightarrow> False)"

definition probe_accepted :: "auth_env \<Rightarrow> applied_uplink \<Rightarrow> bool" where
  "probe_accepted e u \<longleftrightarrow> fst (retry_terminal_probe e u \<lparr>at_code = [], at_source = [], at_detected_at = [], at_attempts = 0\<rparr>)"

lemma probe_accepted_iff: "fst (retry_terminal_probe e u state) \<longleftrightarrow> probe_accepted e u"
  by (simp add: probe_accepted_def retry_terminal_probe_def Let_def)

lemma report_latency:
  "so_latency_ms (report_status_to_control_plane cfg us acks http ms parse) \<noteq> None \<Longrightarrow>
   \<exists>url report. accepted_answer (http url report) \<and> sr_command_acks report = acks \<and> cc_agent_id cfg = Some (sr_agent_id report)"
proof -
  assume l: "so_latency_ms (report_status_to_control_plane cfg us acks http ms parse) \<noteq> None"
  then obtain endpoint agent_id where c: "cc_endpoint cfg = Some endpoint" "cc_agent_id cfg = Some agent_id" "cc_client_err cfg = None"
    by (auto simp: report_status_to_control_plane_def outcome_failed_def split: option.splits)
  let ?r = "\<lparr>sr_agent_id = agent_id, sr_instance_id = unwrap_or [] (cc_instance_name cfg), sr_uplink_state = us, sr_command_acks = acks\<rparr>"
  have "accepted_answer (http (trim_end_slashes endpoint @ ''/api/v1/agent/status'') ?r)"
    using l c by (auto simp: report_status_to_control_plane_def outcome_failed_def outcome_terminal_def accepted_answer_def
        split: http_answer.splits if_splits auth_rejection.splits)
  moreover have "sr_command_acks ?r = acks" "cc_agent_id cfg = Some (sr_agent_id ?r)" using c by simp_all
  ultimately show ?thesis by blast
qed

lemma report_terminal:
  "so_terminal (report_status_to_control_plane cfg us acks http ms parse) = Some code \<Longrightarrow>
   so_latency_ms (report_status_to_control_plane cfg us acks http ms parse) = None \<and> code \<in> set TERMINAL_AUTH_CODES"
  by (auto simp: report_status_to_control_plane_def outcome_failed_def outcome_terminal_def Let_def dest: classify_code
      split: option.splits http_answer.splits if_splits auth_rejection.splits)

lemma no_success_not_accepted: "(\<And>url report. \<not> accepted_answer (ae_probe_http e url report)) \<Longrightarrow> \<not> probe_accepted e u"
  using report_latency by (fastforce simp: probe_accepted_def retry_terminal_probe_def Let_def)

subsection \<open>Silence\<close>

definition retry_due :: "auth_env \<Rightarrow> auth_world \<Rightarrow> bool" where
  "retry_due e w \<longleftrightarrow> (case aw_last_retry w of None \<Rightarrow> True | Some at \<Rightarrow> ae_retry_ms e \<le> ae_now e - at)"

lemma pending_keeps [simp]:
  "aw_terminal (clear_terminal_ledger_if_pending e w) = aw_terminal w" "aw_acts (clear_terminal_ledger_if_pending e w) = aw_acts w"
  "aw_last_retry (clear_terminal_ledger_if_pending e w) = aw_last_retry w" "aw_uplink (clear_terminal_ledger_if_pending e w) = aw_uplink w"
  "aw_running (clear_terminal_ledger_if_pending e w) = aw_running w"
  by (auto simp: clear_terminal_ledger_if_pending_def split: prod.split sum.split)

lemma gate_refused:
  assumes "aw_terminal w = Some state" "\<not> probe_accepted e (aw_uplink w)"
  shows "terminal_gate e w = (False, if retry_due e w
    then (let state' = snd (retry_terminal_probe e (aw_uplink w) state) in
      act (Probe (ae_now e)) (w\<lparr>aw_last_retry := Some (ae_now e), aw_terminal := Some state',
        aw_file := snd (terminal_store_async (ae_update_io e) state' (aw_file w))\<rparr>)) else w)"
  using assms probe_accepted_iff[of e "aw_uplink w" state]
  by (auto simp: terminal_gate_def retry_due_def Let_def act_def split: prod.split)

lemma tick_refused:
  assumes "aw_running w" "aw_terminal w \<noteq> None" "\<not> probe_accepted e (aw_uplink w)"
  shows "aw_acts (auth_tick e w) = aw_acts w @ (if retry_due e w then [Probe (ae_now e)] else []) \<and>
    aw_terminal (auth_tick e w) \<noteq> None \<and> aw_uplink (auth_tick e w) = aw_uplink w \<and> aw_running (auth_tick e w)"
proof -
  let ?v = "clear_terminal_ledger_if_pending e w"
  obtain state where s: "aw_terminal ?v = Some state" using assms by auto
  have n: "\<not> probe_accepted e (aw_uplink ?v)" using assms by simp
  have due: "retry_due e ?v = retry_due e w" by (simp add: retry_due_def)
  show ?thesis using assms gate_refused[OF s n] s by (simp add: auth_tick_def due act_def Let_def)
qed

definition ledger_matches :: "auth_world \<Rightarrow> bool" where
  "ledger_matches w \<longleftrightarrow> terminal_load_async False (aw_file w) = Inr (aw_terminal w) \<and> \<not> aw_clear_pending w"

lemma load_simps [simp]: "terminal_load_async False (Present s) = Inr (Some s)" "terminal_load_async b Missing = Inr None"
  by (simp_all add: terminal_load_async_def read_json_async_def)

lemma matches_refused:
  assumes "aw_running w" "aw_terminal w \<noteq> None" "\<not> probe_accepted e (aw_uplink w)" "ledger_matches w" "ae_update_io e = Done"
  shows "ledger_matches (auth_tick e w)"
proof -
  have "clear_terminal_ledger_if_pending e w = w" using assms(4) by (simp add: clear_terminal_ledger_if_pending_def ledger_matches_def)
  moreover obtain state where s: "aw_terminal w = Some state" using assms by auto
  ultimately show ?thesis using assms gate_refused[OF s assms(3)]
    by (auto simp: auth_tick_def ledger_matches_def terminal_store_async_def act_def Let_def)
qed

lemma restart_matches: "ledger_matches w \<Longrightarrow>
   aw_terminal (auth_restart False outcome now w) = aw_terminal w \<and> ledger_matches (auth_restart False outcome now w) \<and>
   aw_running (auth_restart False outcome now w) \<and> aw_acts (auth_restart False outcome now w) = aw_acts w @ [Restarted]"
  by (cases "aw_terminal w") (auto simp: ledger_matches_def auth_restart_def load_terminal_ledger_def act_def)

text \<open>An event at which the gateway does not accept the agent, and the ledger is written and can be read.\<close>

fun refusing :: "auth_event \<Rightarrow> bool" where
  "refusing (AuthTick e) \<longleftrightarrow> (\<forall>url report. \<not> accepted_answer (ae_probe_http e url report)) \<and> ae_update_io e = Done"
| "refusing (AuthRestart read_fails _ _) \<longleftrightarrow> \<not> read_fails"

definition silent_act :: "auth_act \<Rightarrow> bool" where
  "silent_act a \<longleftrightarrow> (case a of Probe _ \<Rightarrow> True | Restarted \<Rightarrow> True | _ \<Rightarrow> False)"

lemma silent_run:
  "aw_running w \<Longrightarrow> aw_terminal w \<noteq> None \<Longrightarrow> ledger_matches w \<Longrightarrow> list_all refusing evs \<Longrightarrow>
   \<exists>acts. aw_acts (auth_run evs w) = aw_acts w @ acts \<and> list_all silent_act acts \<and>
     aw_terminal (auth_run evs w) \<noteq> None \<and> ledger_matches (auth_run evs w)"
proof (induction evs arbitrary: w)
  case Nil then show ?case by (simp add: auth_run_def)
next
  case (Cons ev evs)
  let ?v = "auth_event_step ev w"
  have step: "aw_running ?v \<and> aw_terminal ?v \<noteq> None \<and> ledger_matches ?v \<and> (\<exists>acts. aw_acts ?v = aw_acts w @ acts \<and> list_all silent_act acts)"
  proof (cases ev)
    case (AuthTick e)
    then have "\<not> probe_accepted e (aw_uplink w)" "ae_update_io e = Done" using Cons.prems(4) no_success_not_accepted[of e] by auto
    then show ?thesis using tick_refused[of w e] matches_refused[of w e] Cons.prems AuthTick by (simp add: silent_act_def)
  next
    case (AuthRestart read_fails outcome now)
    then show ?thesis using restart_matches[OF Cons.prems(3), of outcome now] Cons.prems(2,4) by (auto simp: silent_act_def)
  qed
  then obtain acts where "aw_acts ?v = aw_acts w @ acts" "list_all silent_act acts" by blast
  moreover obtain acts' where "aw_acts (auth_run evs ?v) = aw_acts ?v @ acts'" "list_all silent_act acts'"
      "aw_terminal (auth_run evs ?v) \<noteq> None" "ledger_matches (auth_run evs ?v)"
    using Cons.IH[of ?v] step Cons.prems(4) by auto
  ultimately show ?case by (auto simp: auth_run_def)
qed

subsection \<open>Entering and leaving\<close>

text \<open>A report the gateway rejects for good.\<close>

lemma status_rejected:
  assumes "aw_running w" "aw_terminal w = None" "\<not> aw_clear_pending w" "\<not> ae_tick_err e" "STATUS_REPORT_INTERVAL \<le> ae_now e - aw_last_report_at w"
    "ae_renewal e \<noteq> Revoked"
    "\<And>us. so_terminal (report_status_to_control_plane (ae_config e) us (ae_acks e) (ae_report_http e) (ae_elapsed_ms e) (ae_parse_ack e)) = Some code"
  shows "aw_terminal (auth_tick e w) = Some \<lparr>at_code = code, at_source = SOURCE_STATUS_REPORT, at_detected_at = ae_now_text e, at_attempts = 0\<rparr> \<and>
    au_grant (aw_uplink (auth_tick e w)) = Some (ua_standby (ae_api e) (ae_now_text e)) \<and>
    aw_running (auth_tick e w) \<and> \<not> aw_clear_pending (auth_tick e w) \<and>
    (ae_enter_io e = Done \<longrightarrow> aw_file (auth_tick e w) = Present \<lparr>at_code = code, at_source = SOURCE_STATUS_REPORT, at_detected_at = ae_now_text e, at_attempts = 0\<rparr>)"
proof -
  have "terminal_gate e (clear_terminal_ledger_if_pending e w) = (True, w)" using assms(2,3)
    by (simp add: clear_terminal_ledger_if_pending_def terminal_gate_def)
  moreover define v where "v = act (Collect (ae_now e) (lo_enabled (effective_output (ae_api e) (ae_output e)
      (au_grant (aw_uplink (uplink_refresh e (renewal_check e w))))))) (uplink_refresh e (renewal_check e w))"
  ultimately have t: "auth_tick e w = status_step e v" using assms(1,4) by (simp add: auth_tick_def Let_def)
  have v: "aw_terminal v = None" "aw_last_report_at v = aw_last_report_at w" "aw_running v" "\<not> aw_clear_pending v" using assms(1,2,3,6)
    by (auto simp: v_def act_def uplink_refresh_def renewal_check_def Let_def split: prod.split)
  have "\<not> ae_now e - aw_last_report_at v < STATUS_REPORT_INTERVAL" using assms(5) v by simp
  then show ?thesis unfolding t using v assms(7)
    by (simp add: status_step_def Let_def force_standby_def enter_terminal_if_absent_def enter_terminal_def act_def terminal_store_async_def)
qed

text \<open>Only an accepted report ends the state.\<close>

lemma leaving_needs_acceptance:
  "aw_running w \<Longrightarrow> aw_terminal w \<noteq> None \<Longrightarrow> aw_terminal (auth_tick e w) = None \<Longrightarrow> probe_accepted e (aw_uplink w) \<and> retry_due e w"
proof -
  assume a: "aw_running w" "aw_terminal w \<noteq> None" "aw_terminal (auth_tick e w) = None"
  then have p: "probe_accepted e (aw_uplink w)" using tick_refused[of w e] by blast
  have "retry_due e w"
  proof (rule ccontr)
    assume "\<not> retry_due e w"
    then have "terminal_gate e (clear_terminal_ledger_if_pending e w) = (False, clear_terminal_ledger_if_pending e w)"
      using a(2) by (auto simp: terminal_gate_def retry_due_def)
    then show False using a by (simp add: auth_tick_def)
  qed
  with p show ?thesis by simp
qed

subsection \<open>The spacing of the probes\<close>

fun spaced :: "int \<Rightarrow> auth_act \<Rightarrow> auth_act \<Rightarrow> bool" where
  "spaced gap (Probe s) (Probe t) \<longleftrightarrow> gap \<le> t - s"
| "spaced gap a b \<longleftrightarrow> True"

definition last_act :: "auth_act list \<Rightarrow> auth_act option" where
  "last_act acts = (if acts = [] then None else Some (last acts))"

definition probes_ok :: "int \<Rightarrow> auth_world \<Rightarrow> bool" where
  "probes_ok gap w \<longleftrightarrow> successively (spaced gap) (aw_acts w) \<and>
     (case last_act (aw_acts w) of Some (Probe s) \<Rightarrow> aw_last_retry w = Some s | _ \<Rightarrow> True)"

definition not_probe :: "auth_act \<Rightarrow> bool" where
  "not_probe a \<longleftrightarrow> (case a of Probe _ \<Rightarrow> False | _ \<Rightarrow> True)"

lemma spaced_not_probe: "not_probe a \<Longrightarrow> spaced gap b a"
  by (cases a; cases b) (simp_all add: not_probe_def)

lemma successively_snoc: "successively P (xs @ [x]) \<longleftrightarrow> successively P xs \<and> (xs = [] \<or> P (last xs) x)"
  by (auto simp: successively_append_iff)

lemma acts_spaced: "successively (spaced gap) acts \<Longrightarrow> list_all not_probe extra \<Longrightarrow> successively (spaced gap) (acts @ extra)"
  by (induction extra rule: rev_induct) (auto simp: successively_snoc spaced_not_probe simp flip: append_assoc)

lemma last_not_probe: "list_all not_probe extra \<Longrightarrow> extra \<noteq> [] \<Longrightarrow> last_act (acts @ extra) = Some a \<Longrightarrow> not_probe a"
  by (auto simp: last_act_def list_all_iff split: if_splits)

lemma probes_ok_more:
  "successively (spaced gap) (aw_acts w) \<Longrightarrow> list_all not_probe extra \<Longrightarrow> extra \<noteq> [] \<Longrightarrow> aw_acts v = aw_acts w @ extra \<Longrightarrow> probes_ok gap v"
  using acts_spaced[of gap "aw_acts w" extra] last_not_probe[of extra "aw_acts w"]
  by (auto simp: probes_ok_def not_probe_def split: option.splits auth_act.splits)

lemma rest_acts:
  "\<exists>extra. aw_acts (renewal_check e w) = aw_acts w @ extra \<and> list_all not_probe extra"
  "\<exists>extra. aw_acts (uplink_refresh e w) = aw_acts w @ extra \<and> list_all not_probe extra"
  "\<exists>extra. aw_acts (status_step e w) = aw_acts w @ extra \<and> list_all not_probe extra"
proof -
  have enter: "aw_acts (force_standby e c v) = aw_acts v" "aw_acts (enter_terminal_if_absent e c s v) = aw_acts v" for c s v
    by (auto simp: force_standby_def enter_terminal_if_absent_def split: prod.split)
  show "\<exists>extra. aw_acts (renewal_check e w) = aw_acts w @ extra \<and> list_all not_probe extra"
    by (auto simp: renewal_check_def act_def enter Let_def not_probe_def)
  show "\<exists>extra. aw_acts (uplink_refresh e w) = aw_acts w @ extra \<and> list_all not_probe extra"
    by (auto simp: uplink_refresh_def act_def not_probe_def split: prod.split)
  show "\<exists>extra. aw_acts (status_step e w) = aw_acts w @ extra \<and> list_all not_probe extra"
    by (auto simp: status_step_def act_def enter Let_def not_probe_def split: option.split)
qed

lemma regular_acts:
  assumes g: "terminal_gate e (clear_terminal_ledger_if_pending e w) = (True, w1)" and r: "aw_running w"
  shows "\<exists>extra. aw_acts (auth_tick e w) = aw_acts w1 @ extra \<and> extra \<noteq> [] \<and> list_all not_probe extra"
proof -
  obtain m1 where m1: "aw_acts (renewal_check e w1) = aw_acts w1 @ m1" "list_all not_probe m1" using rest_acts(1) by blast
  obtain m2 where m2: "aw_acts (uplink_refresh e (renewal_check e w1)) = aw_acts w1 @ m1 @ m2" "list_all not_probe m2"
    using rest_acts(2)[of e "renewal_check e w1"] m1 by auto
  define c where "c = Collect (ae_now e) (lo_enabled (effective_output (ae_api e) (ae_output e) (au_grant (aw_uplink (uplink_refresh e (renewal_check e w1))))))"
  have c: "not_probe c" by (simp add: c_def not_probe_def)
  obtain m3 where m3: "aw_acts (status_step e (act c (uplink_refresh e (renewal_check e w1)))) = aw_acts w1 @ m1 @ m2 @ [c] @ m3" "list_all not_probe m3"
    using rest_acts(3)[of e "act c (uplink_refresh e (renewal_check e w1))"] m2 by (auto simp: act_def)
  have "aw_acts (auth_tick e w) = aw_acts w1 @ (m1 @ m2 @ [c] @ (if ae_tick_err e then [] else m3))"
    using g r m2 m3 by (simp add: auth_tick_def Let_def c_def[symmetric]) (simp add: act_def)
  moreover have "list_all not_probe (m1 @ m2 @ [c] @ (if ae_tick_err e then [] else m3))" using m1 m2 m3 c by simp
  ultimately show ?thesis by blast
qed

lemma gate_probes:
  assumes p: "probes_ok (ae_retry_ms e) w" and g: "terminal_gate e w = (go, w1)"
  shows "successively (spaced (ae_retry_ms e)) (aw_acts w1) \<and> (\<not> go \<longrightarrow> probes_ok (ae_retry_ms e) w1)"
proof (cases "aw_terminal w \<noteq> None \<and> retry_due e w")
  case False
  then have "w1 = w" using g by (auto simp: terminal_gate_def retry_due_def split: option.splits)
  then show ?thesis using p by (simp add: probes_ok_def)
next
  case True
  then obtain state where s: "aw_terminal w = Some state" by blast
  have acts: "aw_acts w1 = aw_acts w @ [Probe (ae_now e)]" "\<not> go \<longrightarrow> aw_last_retry w1 = Some (ae_now e)"
    using g s True by (auto simp: terminal_gate_def retry_due_def Let_def act_def split: prod.splits if_splits option.splits)
  have "aw_acts w = [] \<or> spaced (ae_retry_ms e) (last (aw_acts w)) (Probe (ae_now e))"
  proof (cases "aw_acts w = []")
    case False
    then show ?thesis using p True
      by (cases "last (aw_acts w)") (auto simp: probes_ok_def last_act_def retry_due_def)
  qed simp
  then show ?thesis using p acts by (auto simp: probes_ok_def successively_snoc last_act_def)
qed

lemma probes_ok_tick: "probes_ok (ae_retry_ms e) w \<Longrightarrow> probes_ok (ae_retry_ms e) (auth_tick e w)"
proof (cases "aw_running w")
  case True
  assume p: "probes_ok (ae_retry_ms e) w"
  obtain go w1 where g: "terminal_gate e (clear_terminal_ledger_if_pending e w) = (go, w1)" by fastforce
  have "probes_ok (ae_retry_ms e) (clear_terminal_ledger_if_pending e w)" using p by (simp add: probes_ok_def cong: option.case_cong auth_act.case_cong)
  note gp = gate_probes[OF this g]
  show ?thesis
  proof (cases go)
    case False then show ?thesis using gp g True by (simp add: auth_tick_def)
  next
    case go: True
    then obtain extra where "aw_acts (auth_tick e w) = aw_acts w1 @ extra" "extra \<noteq> []" "list_all not_probe extra"
      using regular_acts[of e w w1] g True by auto
    then show ?thesis using gp probes_ok_more[of "ae_retry_ms e" w1 extra] by simp
  qed
qed (simp add: auth_tick_def)

fun event_gap :: "int \<Rightarrow> auth_event \<Rightarrow> bool" where
  "event_gap gap (AuthTick e) \<longleftrightarrow> ae_retry_ms e = gap"
| "event_gap gap (AuthRestart _ _ _) \<longleftrightarrow> True"

lemma probes_ok_run: "probes_ok gap w \<Longrightarrow> list_all (event_gap gap) evs \<Longrightarrow> probes_ok gap (auth_run evs w)"
proof (induction evs arbitrary: w)
  case (Cons ev evs)
  have "probes_ok gap (auth_event_step ev w)"
  proof (cases ev)
    case (AuthTick e) then show ?thesis using Cons.prems probes_ok_tick[of e w] by auto
  next
    case (AuthRestart read_fails outcome now)
    have "aw_acts (auth_restart read_fails outcome now w) = aw_acts w @ [Restarted]" by (simp add: auth_restart_def act_def split: prod.split)
    then show ?thesis using Cons.prems AuthRestart probes_ok_more[of gap w "[Restarted]"] by (simp add: probes_ok_def not_probe_def)
  qed
  from Cons.IH[OF this] show ?case using Cons.prems(2) by (simp add: auth_run_def)
qed (simp add: auth_run_def)

subsection \<open>No entry is left behind\<close>

definition no_ghost :: "auth_world \<Rightarrow> bool" where
  "no_ghost w \<longleftrightarrow> (case aw_file w of Present _ \<Rightarrow> aw_terminal w \<noteq> None \<or> aw_clear_pending w | _ \<Rightarrow> True)"

lemma terminal_clear_cases: "terminal_clear_async outcome f = (r, f') \<Longrightarrow> f' = Missing \<or> f' = f \<and> \<not> is_ok r"
  by (cases outcome) (auto simp: terminal_clear_async_def split: if_splits)

lemma clear_ok: "terminal_clear_async outcome f = (r, f') \<Longrightarrow> is_ok r \<Longrightarrow> f' = Missing"
  using terminal_clear_cases by blast

lemma no_ghost_pending: "no_ghost w \<Longrightarrow> no_ghost (clear_terminal_ledger_if_pending e w)"
proof (cases "aw_clear_pending w")
  case True
  obtain r f where c: "terminal_clear_async (ae_pending_clear_io e) (aw_file w) = (r, f)" by fastforce
  then show ?thesis using True clear_ok[OF c]
    by (cases r) (auto simp: clear_terminal_ledger_if_pending_def no_ghost_def split: disk_file.splits)
qed (simp add: clear_terminal_ledger_if_pending_def)

lemma no_ghost_gate: "no_ghost w \<Longrightarrow> terminal_gate e w = (go, v) \<Longrightarrow> no_ghost v"
proof -
  assume n: "no_ghost w" and g: "terminal_gate e w = (go, v)"
  show ?thesis
  proof (cases "aw_terminal w")
    case None then show ?thesis using n g by (simp add: terminal_gate_def)
  next
    case (Some state)
    obtain rec state' where p: "retry_terminal_probe e (aw_uplink w) state = (rec, state')" by fastforce
    obtain r f where c: "terminal_clear_async (ae_clear_io e) (snd (terminal_store_async (ae_update_io e) state' (aw_file w))) = (r, f)" by fastforce
    show ?thesis using n g Some p c clear_ok[OF c]
      by (auto simp: terminal_gate_def Let_def act_def no_ghost_def split: if_splits option.splits disk_file.splits)
  qed
qed

lemma no_ghost_enter: "no_ghost w \<Longrightarrow> no_ghost (enter_terminal_if_absent e code source w)"
  by (auto simp: enter_terminal_if_absent_def no_ghost_def split: prod.split disk_file.splits)

lemma no_ghost_frame [simp]: "no_ghost (act a w) = no_ghost w" "no_ghost (force_standby e c w) = no_ghost w" "no_ghost (uplink_refresh e w) = no_ghost w"
  "no_ghost (w\<lparr>aw_last_renewal_check := x\<rparr>) = no_ghost w" "no_ghost (w\<lparr>aw_last_report_at := y\<rparr>) = no_ghost w" "no_ghost (w\<lparr>aw_running := b\<rparr>) = no_ghost w"
  by (auto simp: no_ghost_def act_def force_standby_def uplink_refresh_def split: prod.split disk_file.splits)

lemma no_ghost_tick: "no_ghost w \<Longrightarrow> no_ghost (auth_tick e w)"
proof -
  assume n: "no_ghost w"
  obtain go v where g: "terminal_gate e (clear_terminal_ledger_if_pending e w) = (go, v)" by fastforce
  have v: "no_ghost v" by (rule no_ghost_gate[OF no_ghost_pending[OF n] g])
  have r: "no_ghost (renewal_check e v)" using v by (simp add: renewal_check_def Let_def no_ghost_enter)
  have s: "no_ghost u \<Longrightarrow> no_ghost (status_step e u)" for u by (auto simp: status_step_def Let_def no_ghost_enter split: option.split)
  show ?thesis using n v r s g by (cases go) (simp_all add: auth_tick_def Let_def)
qed

text \<open>A restart that cannot read the ledger removes it.\<close>

fun clears_unreadable :: "auth_event \<Rightarrow> bool" where
  "clears_unreadable (AuthRestart read_fails outcome _) = (\<not> read_fails \<or> (case outcome of FailedBefore _ \<Rightarrow> False | _ \<Rightarrow> True))"
| "clears_unreadable (AuthTick _) = True"

lemma no_ghost_restart:
  assumes "clears_unreadable (AuthRestart read_fails outcome now)"
  shows "no_ghost (auth_restart read_fails outcome now w)"
proof (cases "aw_file w")
  case Corrupt
  have "snd (terminal_clear_async outcome Corrupt) \<in> {Missing, Corrupt}" by (cases outcome) (auto simp: terminal_clear_async_def)
  then show ?thesis using Corrupt
    by (auto simp: auth_restart_def load_terminal_ledger_def terminal_load_async_def read_json_async_def no_ghost_def act_def)
next
  case (Present st)
  then show ?thesis using assms
    by (cases read_fails; cases outcome)
      (auto simp: auth_restart_def load_terminal_ledger_def terminal_load_async_def terminal_clear_async_def no_ghost_def act_def)
qed (auto simp: auth_restart_def load_terminal_ledger_def no_ghost_def act_def)

lemma no_ghost_run: "no_ghost w \<Longrightarrow> list_all clears_unreadable evs \<Longrightarrow> no_ghost (auth_run evs w)"
proof (induction evs arbitrary: w)
  case (Cons ev evs)
  have "no_ghost (auth_event_step ev w)" using Cons.prems no_ghost_tick no_ghost_restart by (cases ev) auto
  from Cons.IH[OF this] Cons.prems(2) show ?case by (simp add: auth_run_def)
qed (simp add: auth_run_def)

end
