(* ===== verification/AgentClaims.thy ===== *)
theory AgentClaims
  imports AuthTerminal
begin

text \<open>
  The properties of what the agent tells and takes from the gateway besides work: one-shot commands, investigation reports and
  their redaction, path probes, and the terminal state of a rejected credential.
\<close>

subsection \<open>Examples\<close>

definition demo_rule :: redaction_rule where
  "demo_rule = \<lparr>rr_id = ''cloud.key'', rr_reason = ''key'', rr_regex = contains_str ''AKIA''\<rparr>"

definition demo_key_rule :: redaction_rule where
  "demo_key_rule = \<lparr>rr_id = ''key.content'', rr_reason = ''content'', rr_regex = (\<lambda>k. k \<in> {''content'', ''body''})\<rparr>"

definition demo_policy :: redaction_policy where
  "demo_policy = \<lparr>po_version = 1, po_schema_prefix = ''wist.investigation'',
     po_envelope = \<lparr>ev_top_keys = top_keys_used @ [''command_id'', ''rows_omitted''], ev_finding_keys = finding_keys_used,
       ev_row_keys = row_keys_used, ev_summary_keys = summary_keys_used, ev_report_schema = starts_with ''wist.investigation.''\<rparr>,
     po_topics = [(''disk'', [''disk.'']), (''exposure'', [''exposure.''])],
     po_value_rules = [demo_rule], po_key_rules = [demo_key_rule]\<rparr>"

definition demo_host :: host_facts where
  "demo_host = \<lparr>hf_version = ''1'', hf_boot_id = None, hf_boot_time = Some ''t''\<rparr>"

definition demo_report :: report where
  "demo_report = \<lparr>rp_topic = ''disk'', rp_observed_at = ''t'',
     rp_findings = [(finding_new demo_policy ''disk.top'' StatusWarn ''AKIA1'' ''d'')\<lparr>fi_rows := [\<lparr>ro_label = ''AKIA2'', ro_value = ''v'', ro_note = []\<rparr>]\<rparr>]\<rparr>"

definition demo_control :: control_config where
  "demo_control = \<lparr>cc_endpoint = Some ''h/'', cc_agent_id = Some ''a'', cc_instance_name = None, cc_client_err = None\<rparr>"

definition demo_command :: agent_command where
  "demo_command = \<lparr>cm_command_id = ''c1'', cm_kind = ''refresh_facts'', cm_params = [], cm_requested_at_ms = 0\<rparr>"

definition demo_scan :: agent_command where
  "demo_scan = \<lparr>cm_command_id = ''c2'', cm_kind = ''investigate'', cm_params = [], cm_requested_at_ms = 0\<rparr>"

definition demo_command_env :: command_env where
  "demo_command_env = \<lparr>ce_parse = (\<lambda>_. Inl ''bad''), ce_kind_refresh = ''refresh_facts'', ce_kind_investigate = ''investigate'',
     ce_instant_ms = 5, ce_now_ms = 5, ce_done_ms = (\<lambda>_. 5), ce_min_interval_ms = 60000, ce_config = demo_control,
     ce_paths = (\<lambda>_. PathAbsent), ce_post = (\<lambda>_ _. HttpResponse 200 ''200 OK'' [])\<rparr>"

definition demo_delivery :: scan_delivery where
  "demo_delivery = \<lparr>dv_agent_id = Some ''a'', dv_sink = SinkWithFrames, dv_policy = demo_policy, dv_host = demo_host,
     dv_to_vec = (\<lambda>_. Some ''body''), dv_seq_store = Done, dv_send = (\<lambda>_ _. None)\<rparr>"

definition demo_tick :: "agent_command list \<Rightarrow> tick_env" where
  "demo_tick commands = \<lparr>te_command = demo_command_env, te_delivery = demo_delivery,
     te_finished = (\<lambda>i. if i = ''c2'' then Some (TaskFailed ''x'') else None), te_remove_request = Done,
     te_tick = TickDone [] 0 \<lparr>fa_attempted = True, fa_reported = True, fa_error = None\<rparr>, te_store_history = Done,
     te_report = Some (Some commands)\<rparr>"

definition fresh_command_world :: command_world where
  "fresh_command_world = \<lparr>cw_state = \<lparr>cs_history = [], cs_inflight = [], cs_last_refresh = None, cs_effects = []\<rparr>,
     cw_plane = \<lparr>dp_seq = Missing, dp_frames = []\<rparr>, cw_request = Missing, cw_history_file = Missing, cw_pending = [],
     cw_acks = [], cw_answered = [], cw_running = True\<rparr>"

definition demo_run :: "command_event list" where
  "demo_run = [LoopTick (demo_tick [demo_command, demo_scan]), LoopTick (demo_tick [demo_command, demo_scan]), RestartAgent,
     LoopTick (demo_tick [demo_scan, demo_command]), LoopTick (demo_tick []), LoopTick (demo_tick [demo_scan]), LoopTick (demo_tick [])]"

definition demo_api :: uplink_api where
  "demo_api = \<lparr>ua_standby = (\<lambda>t. \<lparr>ug_enabled = False, ug_host = None, ug_port = None, ug_granted_at = t\<rparr>),
     ua_target = (\<lambda>g. case (ug_host g, ug_port g) of (Some h, Some p) \<Rightarrow> Some (h, p) | _ \<Rightarrow> None)\<rparr>"

definition demo_auth :: "int \<Rightarrow> auth_env" where
  "demo_auth now = \<lparr>ae_config = demo_control, ae_output = \<lparr>lo_enabled = True, lo_kind = ''tcp'', lo_addr = ''d'', lo_port = 1, lo_framing = ''len''\<rparr>,
     ae_api = demo_api, ae_now = now, ae_now_text = ''t'', ae_retry_ms = 300000, ae_pending_clear_io = Done, ae_update_io = Done,
     ae_clear_io = Done, ae_enter_io = Done,
     ae_probe_http = (\<lambda>_ _. HttpResponse 401 ''401'' ''certificate_revoked''),
     ae_report_http = (\<lambda>_ _. HttpResponse 401 ''401'' ''certificate_revoked''), ae_elapsed_ms = 1, ae_parse_ack = (\<lambda>_. None),
     ae_output_failing = False, ae_acks = [], ae_renewal = RenewalNotDue, ae_poll_http = (\<lambda>_ _. HttpFailed ''down''),
     ae_parse_grant = (\<lambda>_. Inl ''bad''), ae_tick_err = False\<rparr>"

definition fresh_auth_world :: auth_world where
  "fresh_auth_world = \<lparr>aw_terminal = None, aw_file = Missing, aw_clear_pending = False, aw_last_retry = None, aw_uplink = uplink_default,
     aw_last_uplink_fetch = None, aw_last_renewal_check = None, aw_last_report_at = 0, aw_running = True, aw_acts = []\<rparr>"

definition demo_refusals :: "auth_event list" where
  "demo_refusals = [AuthTick (demo_auth 6000), AuthTick (demo_auth 9000), AuthRestart False Done 10000, AuthTick (demo_auth 12000), AuthTick (demo_auth 312000)]"

subsection \<open>Commands\<close>

lemma fresh_world_ok: "world_ok book kind fresh_command_world" if "book_ok book"
  using that card_image_le[of "set book" cm_command_id] card_length[of book]
  by (auto simp: world_ok_def state_ok_def fresh_command_world_def executed_def map_filter_def inflight_ids_def ledger_within_def ledger_ids_def
      load_history_async_def read_json_async_def book_ok_def book_ids_def)

text \<open>C4.  No command is carried out twice: over any sequence of loop iterations, local submissions and restarts, whatever the gateway
  delivers again and however the ticks end, the work of each command (a refresh, a path probe, a finished scan) is done at most once,
  as long as the ledger is written and no more commands are about than it holds.\<close>
theorem command_executed_at_most_once:
  assumes "book_ok book" and "list_all (command_event_ok book kind) evs"
  shows "distinct (executed (cs_effects (cw_state (command_run evs fresh_command_world))))"
  using world_ok_run[OF assms(1) fresh_world_ok[OF assms(1)] assms(2)] by (simp add: world_ok_def state_ok_def)

theorem command_executed_at_most_once_witness:
  "book_ok [demo_command, demo_scan] \<and> list_all (command_event_ok [demo_command, demo_scan] ''investigate'') demo_run \<and>
   executed (cs_effects (cw_state (command_run demo_run fresh_command_world))) = [''c1'', ''c2''] \<and>
   distinct (executed (cs_effects (cw_state (command_run demo_run fresh_command_world))))"
proof -
  have "book_ok [demo_command, demo_scan]" by code_simp
  moreover have "list_all (command_event_ok [demo_command, demo_scan] ''investigate'') demo_run" by code_simp
  moreover have "executed (cs_effects (cw_state (command_run demo_run fresh_command_world))) = [''c1'', ''c2'']" by code_simp
  ultimately show ?thesis using command_executed_at_most_once[of "[demo_command, demo_scan]" "''investigate''" demo_run] by blast
qed

text \<open>C17.  No command of the gateway is left without an answer: whatever a running loop iteration was handed is acknowledged by its
  end, in the acknowledgements already delivered or in those of the next report, also when the iteration fails.\<close>
theorem every_command_answered:
  assumes "cw_running w" and "c \<in> set (cw_pending w)"
  shows "cm_command_id c \<in> ack_ids (cw_answered (command_tick e w) @ cw_acks (command_tick e w))"
  using assms by (rule tick_answers)

theorem every_command_answered_witness:
  "cw_running (fresh_command_world\<lparr>cw_pending := [demo_scan]\<rparr>) \<and>
   cm_command_id demo_scan \<in> ack_ids (cw_answered (command_tick (demo_tick []) (fresh_command_world\<lparr>cw_pending := [demo_scan]\<rparr>)) @
     cw_acks (command_tick (demo_tick []) (fresh_command_world\<lparr>cw_pending := [demo_scan]\<rparr>)))"
  using every_command_answered[of "fresh_command_world\<lparr>cw_pending := [demo_scan]\<rparr>" demo_scan "demo_tick []"]
  by (simp add: fresh_command_world_def)


text \<open>C40.  A probe keeps absence and ignorance apart: of the absolute paths asked for, those reported as probed are exactly the ones that
  exist or are known not to, those reported as present the ones that exist, and every path that could not be looked at is listed with
  its error; both lists are sorted and free of repetitions.\<close>
theorem probe_keeps_three_states:
  "set (pp_probed (probe_paths fs paths)) = {x \<in> set (absolute_paths paths). fs x = PathPresent \<or> fs x = PathAbsent} \<and>
   set (pp_present (probe_paths fs paths)) = {x \<in> set (absolute_paths paths). fs x = PathPresent} \<and>
   set (pp_unreadable (probe_paths fs paths)) = {(x, err). x \<in> set (absolute_paths paths) \<and> fs x = PathUnreadable err} \<and>
   sorted_wrt (<) (pp_probed (probe_paths fs paths)) \<and> sorted_wrt (<) (pp_present (probe_paths fs paths))"
proof -
  have "set (pp_unreadable (probe_paths fs paths)) = {(x, err). x \<in> set (absolute_paths paths) \<and> fs x = PathUnreadable err}"
    unfolding probe_paths_sets(3) by (force simp: map_filter_def split: path_state.splits)
  then show ?thesis using probe_paths_sets[of fs paths] by auto
qed

subsection \<open>Investigation reports\<close>

text \<open>C5.  Nothing a rule of the policy forbids leaves the host in a report: no text in the JSON form of a report matches a value rule,
  whatever is stored under a forbidden key is a placeholder, and redacting once more changes nothing.  The policy's own placeholders
  must not match its rules.\<close>
theorem nothing_sensitive_leaves:
  assumes "placeholders_clean p"
  shows "list_all (\<lambda>s. value_rule p s = None) (json_strings (to_json p h r)) \<and> keys_masked p (to_json p h r) \<and>
    fst (sanitize_value p (to_json p h r)) = to_json p h r"
proof -
  have j: "to_json p h r = san p (report_json h r)" by (simp add: to_json_def sanitize_value_def san_def)
  show ?thesis using san_strings[OF assms] san_masked san_again[OF assms] unfolding j sanitize_value_def san_def[symmetric] by (auto simp: list_all_iff)
qed

theorem nothing_sensitive_leaves_witness:
  "placeholders_clean demo_policy \<and> list_ex (\<lambda>s. value_rule demo_policy s \<noteq> None) (json_strings (report_json demo_host demo_report)) \<and>
   list_all (\<lambda>s. value_rule demo_policy s = None) (json_strings (to_json demo_policy demo_host demo_report))"
proof -
  have p: "placeholders_clean demo_policy" by code_simp
  moreover have "list_ex (\<lambda>s. value_rule demo_policy s \<noteq> None) (json_strings (report_json demo_host demo_report))" by code_simp
  ultimately show ?thesis using nothing_sensitive_leaves[OF p, of demo_host demo_report] by blast
qed

text \<open>C24.  A report the agent makes passes the check it is measured by: with a policy that allows the fields of a report and knows its
  topic and the prefixes of its findings, the scan of its JSON form reports no violation.\<close>
theorem report_passes_its_check:
  assumes "policy_allows p r"
  shows "scan p (to_json p h r) = []"
  using assms by (rule report_passes_scan)

theorem report_passes_its_check_witness:
  "policy_allows demo_policy demo_report \<and> scan demo_policy (to_json demo_policy demo_host demo_report) = [] \<and>
   scan demo_policy (report_json demo_host demo_report) \<noteq> []"
proof -
  have p: "policy_allows demo_policy demo_report" by code_simp
  moreover have "scan demo_policy (report_json demo_host demo_report) \<noteq> []" by code_simp
  ultimately show ?thesis using report_passes_its_check[OF p, of demo_host] by blast
qed

text \<open>C25.  Shrinking a report for the data plane keeps the result: what is sent carries the command's identifier, the topic, the summary and
  the verdict, and every finding with its identifier, status and title.  It exceeds the limit only if all rows and hints are gone
  and all details are cut.\<close>
theorem shrunk_report_keeps_result:
  "\<exists>v. to_uplink_body to_vec p h command_id r = unwrap_or [] (to_vec v) \<and> json_get v ''command_id'' = Some (JStr command_id) \<and>
    report_kept (to_json p h r) v \<and>
    (length (to_uplink_body to_vec p h command_id r) \<le> 65536 \<or> list_all finding_shortened (findings_of v))"
  by (rule uplink_body_keeps)

subsection \<open>The terminal state\<close>

text \<open>C6.  An agent the gateway rejects for good goes silent and stays so: the iteration whose report is rejected records the reason and
  stops the data plane; after it, until the gateway accepts a report again, nothing but further probes goes out, and a restart does
  not forget the state.  The iteration is one in which the report is due and no earlier entry waits to be removed, the entry and its
  later updates are written, and no restart fails to read the entry.\<close>
theorem rejected_agent_goes_silent:
  assumes "aw_running w" "aw_terminal w = None" "\<not> aw_clear_pending w" "\<not> ae_tick_err e"
    and "STATUS_REPORT_INTERVAL \<le> ae_now e - aw_last_report_at w" "ae_renewal e \<noteq> Revoked"
    and "cc_endpoint (ae_config e) = Some endpoint" "cc_agent_id (ae_config e) = Some agent_id" "cc_client_err (ae_config e) = None"
    and "\<forall>url report. ae_report_http e url report = HttpResponse status status_text body"
    and "\<not> is_success status" "classify_auth_rejection status body = TerminalRejection code"
    and "ae_enter_io e = Done" "\<not> ug_enabled (ua_standby (ae_api e) (ae_now_text e))" "list_all refusing evs"
  shows "\<not> lo_enabled (effective_output (ae_api e) (ae_output e) (au_grant (aw_uplink (auth_tick e w)))) \<and>
    map_option at_code (aw_terminal (auth_tick e w)) = Some code \<and>
    (\<exists>acts. aw_acts (auth_run evs (auth_tick e w)) = aw_acts (auth_tick e w) @ acts \<and> list_all silent_act acts) \<and>
    aw_terminal (auth_run evs (auth_tick e w)) \<noteq> None"
proof -
  have "so_terminal (report_status_to_control_plane (ae_config e) us (ae_acks e) (ae_report_http e) (ae_elapsed_ms e) (ae_parse_ack e)) = Some code" for us
    using assms by (simp add: report_status_to_control_plane_def outcome_terminal_def)
  note r = status_rejected[OF assms(1-6) this]
  have m: "ledger_matches (auth_tick e w)" using r assms(13) by (simp add: ledger_matches_def)
  show ?thesis using r silent_run[OF _ _ m assms(15)] assms(14) by (auto simp: effective_output_def)
qed

lemma demo_refuses: "list_all refusing demo_refusals"
  by (simp add: demo_refusals_def demo_auth_def accepted_answer_def is_success_def)

theorem rejected_agent_goes_silent_witness:
  "\<not> lo_enabled (effective_output (ae_api (demo_auth 3000)) (ae_output (demo_auth 3000)) (au_grant (aw_uplink (auth_tick (demo_auth 3000) fresh_auth_world)))) \<and>
   (\<exists>acts. aw_acts (auth_run demo_refusals (auth_tick (demo_auth 3000) fresh_auth_world)) = aw_acts (auth_tick (demo_auth 3000) fresh_auth_world) @ acts \<and>
      list_all silent_act acts) \<and>
   aw_acts (auth_run demo_refusals (auth_tick (demo_auth 3000) fresh_auth_world)) =
     [RenewalCheck 3000, UplinkPoll 3000, Collect 3000 True, StatusReport 3000, Probe 6000, Restarted, Probe 12000, Probe 312000]"
proof -
  have c: "classify_auth_rejection 401 ''certificate_revoked'' = TerminalRejection ''certificate_revoked''" by code_simp
  have "aw_acts (auth_run demo_refusals (auth_tick (demo_auth 3000) fresh_auth_world)) =
     [RenewalCheck 3000, UplinkPoll 3000, Collect 3000 True, StatusReport 3000, Probe 6000, Restarted, Probe 12000, Probe 312000]" by code_simp
  moreover note rejected_agent_goes_silent[of fresh_auth_world "demo_auth 3000" "''h/''" "''a''" 401 "''401''" "''certificate_revoked''"
      "''certificate_revoked''" demo_refusals, OF _ _ _ _ _ _ _ _ _ _ _ c _ _ demo_refuses]
  ultimately show ?thesis
    by (simp add: fresh_auth_world_def demo_auth_def demo_control_def demo_api_def STATUS_REPORT_INTERVAL_def is_success_def)
qed

text \<open>C19.  The probes of the terminal state are spaced: in any run of iterations and restarts, two probes with nothing between them lie at
  least the retry interval apart.\<close>
theorem terminal_probes_spaced:
  assumes "list_all (event_gap gap) evs"
  shows "successively (spaced gap) (aw_acts (auth_run evs fresh_auth_world))"
proof -
  have "probes_ok gap fresh_auth_world" by (simp add: probes_ok_def fresh_auth_world_def last_act_def)
  then show ?thesis using probes_ok_run[OF _ assms] by (simp add: probes_ok_def)
qed

theorem terminal_probes_spaced_witness:
  "list_all (event_gap 300000) demo_refusals \<and> successively (spaced 300000) (aw_acts (auth_run demo_refusals fresh_auth_world))"
proof -
  have "list_all (event_gap 300000) demo_refusals" by code_simp
  then show ?thesis using terminal_probes_spaced by blast
qed

text \<open>C26.  The record of the terminal state does not outlive the state: in any run, whatever writes and removals of its file fail, a
  readable entry means that the agent is in the terminal state or is still trying to remove the entry.  One combination is excluded: a
  restart at which the read of the entry fails and its removal fails as well.  The code ignores that failure, and the entry stays
  (\<open>failed_read_and_clear_leave_entry\<close> below).\<close>
theorem terminal_entry_truthful:
  assumes "list_all clears_unreadable evs"
  shows "case aw_file (auth_run evs fresh_auth_world) of
     Present _ \<Rightarrow> aw_terminal (auth_run evs fresh_auth_world) \<noteq> None \<or> aw_clear_pending (auth_run evs fresh_auth_world)
   | _ \<Rightarrow> True"
proof -
  have "no_ghost fresh_auth_world" by (simp add: no_ghost_def fresh_auth_world_def)
  then show ?thesis using no_ghost_run[of fresh_auth_world evs] assms by (simp add: no_ghost_def)
qed

theorem terminal_entry_truthful_witness:
  "aw_file (auth_run [AuthTick (demo_auth 3000), AuthRestart False Done 4000] fresh_auth_world) =
     Present \<lparr>at_code = ''certificate_revoked'', at_source = ''status_report'', at_detected_at = ''t'', at_attempts = 0\<rparr> \<and>
   \<not> aw_clear_pending (auth_run [AuthTick (demo_auth 3000), AuthRestart False Done 4000] fresh_auth_world) \<and>
   aw_terminal (auth_run [AuthTick (demo_auth 3000), AuthRestart False Done 4000] fresh_auth_world) \<noteq> None"
proof -
  have f: "aw_file (auth_run [AuthTick (demo_auth 3000), AuthRestart False Done 4000] fresh_auth_world) =
     Present \<lparr>at_code = ''certificate_revoked'', at_source = ''status_report'', at_detected_at = ''t'', at_attempts = 0\<rparr>" by code_simp
  moreover have c: "\<not> aw_clear_pending (auth_run [AuthTick (demo_auth 3000), AuthRestart False Done 4000] fresh_auth_world)" by code_simp
  ultimately show ?thesis using terminal_entry_truthful[of "[AuthTick (demo_auth 3000), AuthRestart False Done 4000]"] unfolding f by simp
qed

subsection \<open>Deviations\<close>

text \<open>When a restart cannot read the entry and cannot remove it either, the entry stays, readable again later, while the agent is not in
  the terminal state and has no removal pending.\<close>

lemma failed_read_and_clear_leave_entry:
  "aw_file (auth_run [AuthTick (demo_auth 3000), AuthRestart True (FailedBefore OtherKind) 4000] fresh_auth_world) \<noteq> Missing \<and>
   aw_terminal (auth_run [AuthTick (demo_auth 3000), AuthRestart True (FailedBefore OtherKind) 4000] fresh_auth_world) = None \<and>
   \<not> aw_clear_pending (auth_run [AuthTick (demo_auth 3000), AuthRestart True (FailedBefore OtherKind) 4000] fresh_auth_world)"
  by code_simp

text \<open>An answer 204 counts as a success, so the branch for it is never taken: a setting the gateway withdrew stays applied.\<close>

lemma withdrawn_setting_stays:
  "parse [] = Inl err \<Longrightarrow> cc_client_err cfg = None \<Longrightarrow> cc_endpoint cfg = Some endpoint \<Longrightarrow> cc_agent_id cfg = Some agent_id \<Longrightarrow>
   sp_grant (snd (observe_snapshot (fetch_discovery_snapshot cfg (\<lambda>_ _ _. HttpResponse 204 ''204 No Content'' []) parse applied) p)) = sp_grant p"
  by (simp add: fetch_discovery_snapshot_def is_success_def)

text \<open>A gateway without the endpoint does not take the agent back to its own configuration once a grant was applied.\<close>

lemma grant_survives_missing_endpoint:
  "au_grant (snd (observe api now (fetch_uplink_grant cfg (\<lambda>_ _. HttpResponse 404 ''404 Not Found'' []) parse) u)) = au_grant u"
  by (auto simp: fetch_uplink_grant_def is_success_def split: option.splits)

text \<open>A command whose scan is running is judged by its age first: delivered again after ten minutes it is answered as stale.\<close>

lemma running_scan_answered_stale:
  "map ak_outcome (ct_acks (fst (handle_command_queue (demo_command_env\<lparr>ce_now_ms := 600001\<rparr>) [(demo_scan, RemoteSource)]
     ((cw_state fresh_command_world)\<lparr>cs_inflight := [\<lparr>iv_command = demo_scan, iv_source = RemoteSource, iv_request = investigate_default\<rparr>]\<rparr>)))) = [OStale]"
  by code_simp

text \<open>With an unreadable counter the numbers of the frames start over.\<close>

lemma unreadable_counter_starts_over:
  "dp_frames (snd (deliver_investigation demo_delivery demo_scan demo_report ''p'' \<lparr>dp_seq = Corrupt, dp_frames = [(0, ''x'')]\<rparr>)) =
     [(0, ''x''), (0, ''body'')]"
  by (simp add: deliver_investigation_def send_investigation_frame_def demo_delivery_def seq_load_or_default_def read_json_async_def
      to_uplink_body_def unwrap_or_def MAX_UPLINK_BODY_BYTES_def Let_def)

end
