(* ===== verification/Spec2Isabelle.thy ===== *)
theory Spec2Isabelle
  imports ExecClaims LogClaims TelemetryClaims ControlClaims AgentClaims
begin

text \<open>
  Verification of \<open>wist-agentd\<close>, a host agent that executes action plans for a control plane, collects the log files
  of the host, upgrades itself and answers for its state.  File names are relative to \<open>src/\<close> of the repository.

  \<^bold>\<open>Parts of the program and their theories.\<close>  Four services are modelled.

  The execution service takes an action plan, runs it in a child process and reports the result, over restarts of the
  agent.  Its state is a set of JSON files below the state directory, one record \<open>exec_store\<close> in the model.

  \<^item> \<open>AtomicFile\<close>: \<open>fs_async.rs\<close>, the write through a temporary file and a rename, stopped by a failure at any step.
  \<^item> \<open>ExecQueue\<close>: \<open>state_store/execution_queue.rs\<close>, the queue ordered by priority.
  \<^item> \<open>ExecStore\<close>: \<open>state_store/running.rs\<close>, \<open>history.rs\<close>, \<open>reporting.rs\<close>, with the duplicate search of
    \<open>exec/execution_support.rs\<close> and the quarantine of \<open>exec/quarantine.rs\<close>.
  \<^item> \<open>ProcessControl\<close>: \<open>exec/process_control.rs\<close> and its support file: process identity, deadlines, signals.
  \<^item> \<open>Reporting\<close>: \<open>reporting/reporting_pipeline.rs\<close> and its support file: the report of a finished execution.
  \<^item> \<open>LocalExec\<close>: \<open>exec/local_exec.rs\<close>, its support file and \<open>exec/recovery.rs\<close>: one child process and its result.
  \<^item> \<open>Scheduler\<close>: \<open>runtime/scheduler.rs\<close> and the two files of its queue head: submission and the drain loop.
  \<^item> \<open>Recovery\<close>: \<open>runtime/daemon_recovery.rs\<close>: what happens to interrupted executions at a restart.
  \<^item> \<open>Agent\<close>: the service as a step relation, in which submissions, drains and recoveries come in any order.

  The log service reads growing files, cuts them into records, numbers the records and delivers them, and remembers in
  a checkpoint how far it has come.

  \<^item> \<open>LogReader\<close>: \<open>telemetry/logs/files/file_reader.rs\<close>, bounded reads of complete lines.
  \<^item> \<open>LogCheckpoint\<close>: \<open>file_watcher.rs\<close>, \<open>checkpoint_support.rs\<close>, \<open>state_support.rs\<close> and the stores
    \<open>state_store/log_*.rs\<close>: the checkpoint table, where to resume, rotation and truncation.
  \<^item> \<open>LogFold\<close>: \<open>multiline_support.rs\<close>, \<open>telemetry/logs/multiline.rs\<close>, \<open>gate.rs\<close>, \<open>parser.rs\<close>: lines to records, and
    the gate that filters and numbers them.
  \<^item> \<open>LogDelivery\<close>: \<open>telemetry/buffer.rs\<close>, \<open>telemetry/spool.rs\<close>, \<open>delivery_support.rs\<close>: sink, memory budget and spool.
  \<^item> \<open>ContainerRef\<close>: \<open>telemetry/container_ref.rs\<close>; \<open>GlobMatch\<close>: \<open>telemetry/logs/files/glob_match.rs\<close>.
  \<^item> \<open>FileInput\<close> and \<open>FileFamily\<close>: the two processors of \<open>telemetry/logs/files/file.rs\<close>, for one file and for the files a
    pattern selects.

  The work service takes snapshots of granted work from the gateway, derives what to collect from them and starts upgrades.

  \<^item> \<open>BTree\<close>: the ordered maps of the standard library, as sorted lists of entries.
  \<^item> \<open>WorkGrant\<close>: \<open>control/work.rs\<close> and \<open>state_store/work.rs\<close>: what a snapshot changes, what is collected, acknowledged and stored.
  \<^item> \<open>Upgrade\<close>: \<open>upgrade.rs\<close> and \<open>bin/wist-upgrader.rs\<close>: the run of the upgrader with its record, backup and way back.
  \<^item> \<open>WorkDispatch\<close>: the refresh of the work in \<open>runtime/daemon.rs\<close>, over a sequence of refreshes and restarts.

  The agent talks to the gateway about itself: commands, reports about the host, what it may send, and whether it is still known.

  \<^item> \<open>Json\<close>: JSON values; \<open>Investigate\<close>: \<open>investigate.rs\<close> and \<open>investigate_safety.rs\<close>, reports and their redaction.
  \<^item> \<open>Commands\<close>: \<open>state_store/commands.rs\<close>, \<open>control/preflight.rs\<close>, the probes of \<open>reporting/fact_summary.rs\<close> and the part of
    the loop in \<open>runtime/daemon.rs\<close> that handles one-shot commands.
  \<^item> \<open>Uplink\<close>: \<open>control/uplink.rs\<close>, \<open>control/discovery_snapshot.rs\<close>, the rejections of \<open>control/enrollment.rs\<close> and the output in
    effect (\<open>runtime/daemon_telemetry_support.rs\<close>).
  \<^item> \<open>AuthTerminal\<close>: \<open>state_store/auth_terminal.rs\<close> and the part of the loop that enters and leaves the terminal state.

  \<open>Prelude\<close> has what they share: results, operations on a state that may fail, files and directories, lists.

  \<^bold>\<open>How the code is represented.\<close>  A Rust struct is a record and an enum a datatype with the same variants.  An \<open>async fn\<close>
  that returns \<open>io::Result\<close> is an operation from the state of the files to a result and a new state; the result carries
  the kind of the error.  A write is \<open>Done\<close>, fails before it takes effect, or fails after it; which of them
  happens is given by the environment of the operation, once for each file, so a property that holds for every environment holds
  whichever files of an operation cannot be written (a file that an operation writes twice meets the same outcome twice).  In the
  execution service the environment also says which stats, reads and directory listings fail.  In the other services a
  file that cannot be read is one that holds no record (\<open>Corrupt\<close>), and the restart of the agent in \<open>AuthTerminal\<close>
  may fail to read a good ledger.  The environment also answers for the clock, the process table, child processes and the
  crates outside the repository: plan digests, codecs, glob and regex matching, the sink, the answers of the gateway.  A hypothesis about them is
  written in the property that needs it.  The pid is a 32 bit word, because the system call reads it as a signed number;
  offsets and counts are natural numbers, far below the bounds of their types.

  \<^bold>\<open>Loops and fuel.\<close>  The drain loop may meet the same head again, so it has fuel, the length of the queue plus one; the
  property on it shows that this is always enough in a store the service can reach.  Every other loop is a total
  function: the wait for a process by the time that is left, the readers by the bytes that are left, the walk over
  directories by the components of the pattern.

  \<^bold>\<open>Interfaces.\<close>  \<open>keyed_store\<close> (in \<open>Prelude\<close>) is what the stores rely on in a directory of files, \<open>stable_priority_queue\<close> (in
  \<open>ExecQueue\<close>) the contract of the queue, \<open>committing_tick\<close> (in \<open>FileInput\<close>) the order of steps that both log processors
  follow, \<open>ordered_map\<close> (in \<open>BTree\<close>) the ordered map, \<open>result_ledger\<close> (in \<open>Commands\<close>) the ledger of results, \<open>polled_grant\<close> (in
  \<open>Uplink\<close>) a setting that is polled, which both settings follow.  Each is interpreted on the definitions of the model.

  \<^bold>\<open>What is shown.\<close>  \<open>ExecClaims\<close> has the properties of the execution service: no plan is accepted twice as long as the
  records can be looked at, the drain loop returns, recovery leaves an interrupted execution running only if its process
  may be alive, a local execution returns \<open>Succeeded\<close> only for a child that exited with 0 before it was told to stop, a
  signal goes only to the recorded pid of an expired execution, reports are consistent and stable, the queue
  is a stable sort, the blocking and the async variants agree.  \<open>LogClaims\<close> has the properties of the parts of the log
  service: reads partition the file, the checkpoint table is a map from paths, folding CSV rows loses nothing and does not depend
  on how the input is cut as long as no row is oversized, spool and delivery lose nothing, the selected files are the ones described.  \<open>TelemetryClaims\<close>
  composes them: a checkpoint moves only past lines that were sent or spooled, the next tick resumes where the last one
  stopped, records are numbered without gaps, a family of files keeps its budgets.
  \<open>ControlClaims\<close> is about the granted work: an upgrade is all or nothing, is started at most once and reported truthfully, and work
  in flight survives snapshots and restarts.  \<open>AgentClaims\<close> is about the rest: no command is carried out twice or left without
  an answer, nothing the policy forbids leaves in a report, frames never share a number, and an agent the gateway rejects goes
  silent, probes at intervals and leaves no stale record.  Lemmas without a number in the
  same theories show concrete runs in which the code differs from its comments or from its purpose.

  \<^bold>\<open>Not modelled.\<close>  Of the daemon loop (\<open>runtime/daemon.rs\<close>, \<open>daemon_metrics.rs\<close>, \<open>daemon_telemetry*.rs\<close>) the collection of one tick
  and the health output; the loop is endless, so runs are sequences of its iterations.  Enrolment and renewal of the
  certificate and the other exchanges with the gateway (\<open>control/\<close>) are HTTP requests and cryptography; of the upgrade the heartbeat
  thread.  The service integration (\<open>service/\<close>) runs external commands.  Discovery, metrics, \<open>doctor.rs\<close> and the topics
  \<open>investigate_*.rs\<close> read the operating system.  Configuration (\<open>config/\<close>) is mostly derived parsing.  The executor
  binary (\<open>bin/wist-exec\<close>) appears as the child process the environment answers for.  Texts that go into error messages are shortened.
\<close>

end
